(* ===== verification/Py_Prelude.thy ===== *)
theory Py_Prelude
  imports Main "HOL-Library.AList" "HOL-Library.Char_ord" "HOL-Library.List_Lexorder"
    "HOL-Library.Sublist"
begin

text \<open>
  The prelude: what the other theories share of Python.

  \<^item> a \<open>str\<close> is a \<^typ>\<open>string\<close>, one \<^typ>\<open>char\<close> per code point, so the model
    covers the code points below 256 (Latin-1); \<open>bytes\<close> are lists of naturals;
  \<^item> a \<open>dict\<close> is an association list without duplicate keys, in insertion order:
    \<open>d[k] = v\<close> is \<^const>\<open>AList.update\<close> (which keeps the place of a key that is already
    there and appends a new one), \<open>del d[k]\<close> is \<^const>\<open>AList.delete\<close>, \<open>d.get(k)\<close> is
    \<^const>\<open>map_of\<close>;
  \<^item> an exception is the left of a sum; a method that changes state is a function from
    the state to a sum and the state, which is returned with an exception as well,
    because Python does not undo assignments when a statement raises.
\<close>

named_theorems py_defs \<open>definitions that the component proofs unfold\<close>

section \<open>Exceptions and state\<close>

type_synonym ('e, 's, 'a) pym = "'s \<Rightarrow> ('e + 'a) \<times> 's"

definition ret :: "'a \<Rightarrow> ('e, 's, 'a) pym" where
  "ret x s = (Inr x, s)"

definition raise :: "'e \<Rightarrow> ('e, 's, 'a) pym" where
  "raise e s = (Inl e, s)"

definition bindM :: "('e, 's, 'a) pym \<Rightarrow> ('a \<Rightarrow> ('e, 's, 'b) pym) \<Rightarrow> ('e, 's, 'b) pym" where
  "bindM m f s = (case m s of (Inl e, s') \<Rightarrow> (Inl e, s') | (Inr x, s') \<Rightarrow> f x s')"

definition seqM :: "('e, 's, 'a) pym \<Rightarrow> ('e, 's, 'b) pym \<Rightarrow> ('e, 's, 'b) pym" where
  "seqM m n = bindM m (\<lambda>_. n)"

definition getS :: "('s \<Rightarrow> 'a) \<Rightarrow> ('e, 's, 'a) pym" where
  "getS f s = (Inr (f s), s)"

definition modS :: "('s \<Rightarrow> 's) \<Rightarrow> ('e, 's, unit) pym" where
  "modS f s = (Inr (), f s)"

definition liftE :: "'e + 'a \<Rightarrow> ('e, 's, 'a) pym" where
  "liftE r s = (r, s)"

definition bindE :: "'e + 'a \<Rightarrow> ('a \<Rightarrow> 'e + 'b) \<Rightarrow> 'e + 'b" where
  "bindE r f = (case r of Inl e \<Rightarrow> Inl e | Inr x \<Rightarrow> f x)"

lemmas pym_defs = ret_def raise_def bindM_def seqM_def getS_def modS_def liftE_def

lemma bindE_simps [simp]:
  "bindE (Inl e) f = Inl e"
  "bindE (Inr x) f = f x"
  by (simp_all add: bindE_def)

lemma bindE_eq_Inr: "bindE r f = Inr y \<longleftrightarrow> (\<exists>x. r = Inr x \<and> f x = Inr y)"
  by (cases r) simp_all

lemma bindE_eq_Inl:
  "bindE r f = Inl e \<longleftrightarrow> r = Inl e \<or> (\<exists>x. r = Inr x \<and> f x = Inl e)"
  by (cases r) simp_all

lemma ret_app [simp]: "ret x s = (Inr x, s)"
  by (simp add: ret_def)

lemma raise_app [simp]: "raise e s = (Inl e, s)"
  by (simp add: raise_def)

lemma getS_app [simp]: "getS g s = (Inr (g s), s)"
  by (simp add: getS_def)

lemma modS_app [simp]: "modS h s = (Inr (), h s)"
  by (simp add: modS_def)

lemma liftE_app [simp]: "liftE r s = (r, s)"
  by (simp add: liftE_def)

lemma bindM_ret [simp]: "bindM (ret x) f = f x"
  by (simp add: fun_eq_iff bindM_def)

lemma bindM_raise [simp]: "bindM (raise e) f = raise e"
  by (simp add: fun_eq_iff bindM_def)

lemma bindM_getS [simp]: "bindM (getS g) f s = f (g s) s"
  by (simp add: bindM_def)

lemma bindM_modS [simp]: "bindM (modS h) f s = f () (h s)"
  by (simp add: bindM_def)

lemma bindM_liftE [simp]:
  "bindM (liftE (Inl e)) f = raise e"
  "bindM (liftE (Inr x)) f = f x"
  by (simp_all add: fun_eq_iff bindM_def)

lemma seqM_modS [simp]: "seqM (modS h) n s = n (h s)"
  by (simp add: seqM_def)

lemma seqM_ret [simp]: "seqM (ret x) n = n"
  by (simp add: seqM_def)

lemma seqM_raise [simp]: "seqM (raise e) n = raise e"
  by (simp add: seqM_def)

lemma bindM_result:
  "m s = (Inr x, s') \<Longrightarrow> bindM m f s = f x s'"
  "m s = (Inl e, s') \<Longrightarrow> bindM m f s = (Inl e, s')"
  by (simp_all add: bindM_def)

lemma bindM_Inr_iff:
  "bindM m f s = (Inr y, t) \<longleftrightarrow> (\<exists>x s'. m s = (Inr x, s') \<and> f x s' = (Inr y, t))"
  by (cases "m s"; cases "fst (m s)") (auto simp: bindM_def)

lemma seqM_Inr_iff:
  "seqM m n s = (Inr y, t) \<longleftrightarrow> (\<exists>x s'. m s = (Inr x, s') \<and> n s' = (Inr y, t))"
  by (simp add: seqM_def bindM_Inr_iff)

text \<open>An invariant that every outcome of a step keeps, an exception included.\<close>

definition keeps :: "('s \<Rightarrow> bool) \<Rightarrow> ('e, 's, 'a) pym \<Rightarrow> bool" where
  "keeps P m \<longleftrightarrow> (\<forall>s. P s \<longrightarrow> P (snd (m s)))"

lemma keepsI: "(\<And>s. P s \<Longrightarrow> P (snd (m s))) \<Longrightarrow> keeps P m"
  by (simp add: keeps_def)

lemma keepsD: "keeps P m \<Longrightarrow> P s \<Longrightarrow> P (snd (m s))"
  by (simp add: keeps_def)

lemma keeps_bindM [intro]:
  assumes "keeps P m" and "\<And>x. keeps P (f x)"
  shows "keeps P (bindM m f)"
  using assms by (auto simp: keeps_def bindM_def split: prod.splits sum.splits)

lemma keeps_seqM [intro]: "keeps P m \<Longrightarrow> keeps P n \<Longrightarrow> keeps P (seqM m n)"
  by (auto simp: seqM_def)

lemma keeps_ret [simp]: "keeps P (ret x)"
  by (simp add: keeps_def)

lemma keeps_raise [simp]: "keeps P (raise e)"
  by (simp add: keeps_def)

lemma keeps_getS [simp]: "keeps P (getS g)"
  by (simp add: keeps_def)

lemma keeps_liftE [simp]: "keeps P (liftE r)"
  by (simp add: keeps_def)

lemma keeps_modS: "(\<And>s. P s \<Longrightarrow> P (h s)) \<Longrightarrow> keeps P (modS h)"
  by (simp add: keeps_def)

lemma keeps_if [intro]: "(b \<Longrightarrow> keeps P m) \<Longrightarrow> (\<not> b \<Longrightarrow> keeps P n) \<Longrightarrow> keeps P (if b then m else n)"
  by simp

text \<open>\<open>for x in xs: step(x)\<close>, stopping at the first exception.\<close>

fun each :: "('a \<Rightarrow> ('e, 's, 'b) pym) \<Rightarrow> 'a list \<Rightarrow> ('e, 's, unit) pym" where
  "each f [] = ret ()"
| "each f (x # xs) = seqM (f x) (each f xs)"

lemma keeps_each [intro]: "(\<And>x. x \<in> set xs \<Longrightarrow> keeps P (f x)) \<Longrightarrow> keeps P (each f xs)"
  by (induction xs) auto

lemma update_same: "map_of d k = Some v \<Longrightarrow> AList.update k v d = d"
  by (induction d) (auto split: if_splits)

end
