(* ===== verification/Py_String.thy ===== *)
theory Py_String
  imports Py_Prelude
begin

text \<open>
  The \<open>str\<close> and slicing operations that the program uses, on Latin-1 strings: searching,
  splitting, replacing, changing case, decimal rendering (\<open>"%d" % n\<close>) and parsing
  (\<open>int(s)\<close>), UTF-8 encoding, and slices with Python's treatment of negative bounds.
\<close>

section \<open>Characters\<close>

definition py_ord :: "char \<Rightarrow> nat" where
  "py_ord c = of_char c"

definition is_digit :: "char \<Rightarrow> bool" where
  "is_digit c \<longleftrightarrow> 48 \<le> py_ord c \<and> py_ord c \<le> 57"

definition is_lower_az :: "char \<Rightarrow> bool" where
  "is_lower_az c \<longleftrightarrow> 97 \<le> py_ord c \<and> py_ord c \<le> 122"

definition is_upper_az :: "char \<Rightarrow> bool" where
  "is_upper_az c \<longleftrightarrow> 65 \<le> py_ord c \<and> py_ord c \<le> 90"

definition is_space :: "char \<Rightarrow> bool" where
  "is_space c \<longleftrightarrow> (9 \<le> py_ord c \<and> py_ord c \<le> 13) \<or> (28 \<le> py_ord c \<and> py_ord c \<le> 32)
     \<or> py_ord c = 133 \<or> py_ord c = 160"

text \<open>\<open>str.isalnum\<close> on one character: letters, decimal digits and the other numeric
  characters of Latin-1 (superscripts and fractions).\<close>

definition is_alnum :: "char \<Rightarrow> bool" where
  "is_alnum c \<longleftrightarrow> is_digit c \<or> is_lower_az c \<or> is_upper_az c
     \<or> py_ord c \<in> {170, 178, 179, 181, 185, 186, 188, 189, 190}
     \<or> (192 \<le> py_ord c \<and> py_ord c \<noteq> 215 \<and> py_ord c \<noteq> 247)"

definition to_lower :: "char \<Rightarrow> char" where
  "to_lower c = (if is_upper_az c \<or> (192 \<le> py_ord c \<and> py_ord c \<le> 222 \<and> py_ord c \<noteq> 215)
     then char_of (py_ord c + 32) else c)"

text \<open>\<open>str.upper\<close> turns the sharp s into two letters; the micro sign and y with
  diaeresis would leave Latin-1 and stay as they are here.\<close>

definition to_upper :: "char \<Rightarrow> string" where
  "to_upper c = (if py_ord c = 223 then ''SS''
     else if is_lower_az c \<or> (224 \<le> py_ord c \<and> py_ord c \<le> 254 \<and> py_ord c \<noteq> 247)
     then [char_of (py_ord c - 32)] else [c])"

definition py_lower :: "string \<Rightarrow> string" where
  "py_lower s = map to_lower s"

definition py_upper :: "string \<Rightarrow> string" where
  "py_upper s = concat (map to_upper s)"

text \<open>\<open>s.encode("utf-8")\<close>, as the list of its bytes.\<close>

definition utf8 :: "string \<Rightarrow> nat list" where
  "utf8 s = concat (map (\<lambda>c. if py_ord c < 128 then [py_ord c]
     else [192 + py_ord c div 64, 128 + py_ord c mod 64]) s)"

lemma length_utf8_ge: "length s \<le> length (utf8 s)"
  by (induction s) (auto simp: utf8_def)

lemma length_utf8_le: "length (utf8 s) \<le> 2 * length s"
  by (induction s) (auto simp: utf8_def)

lemma utf8_append: "utf8 (s @ t) = utf8 s @ utf8 t"
  by (simp add: utf8_def)

lemma utf8_empty [simp]: "utf8 s = [] \<longleftrightarrow> s = []"
  by (cases s) (auto simp: utf8_def)

section \<open>Searching\<close>

abbreviation startswith :: "string \<Rightarrow> string \<Rightarrow> bool" where
  "startswith s p \<equiv> prefix p s"

abbreviation endswith :: "string \<Rightarrow> string \<Rightarrow> bool" where
  "endswith s p \<equiv> suffix p s"

text \<open>\<open>s.find(sub)\<close>: the least index at which \<open>sub\<close> occurs; \<open>None\<close> is Python's -1.\<close>

fun find_sub :: "string \<Rightarrow> string \<Rightarrow> nat option" where
  "find_sub sub [] = (if sub = [] then Some 0 else None)"
| "find_sub sub (c # cs) =
     (if prefix sub (c # cs) then Some 0 else map_option Suc (find_sub sub cs))"

text \<open>\<open>sub in s\<close>.\<close>

definition contains :: "string \<Rightarrow> string \<Rightarrow> bool" where
  "contains s sub \<longleftrightarrow> find_sub sub s \<noteq> None"

text \<open>\<open>s.find(sub, start)\<close> with \<open>start >= 0\<close>: -1 as well where \<open>start\<close> is past the end.\<close>

definition find_from :: "string \<Rightarrow> string \<Rightarrow> nat \<Rightarrow> int" where
  "find_from sub s start = (if length s < start then -1
     else (case find_sub sub (drop start s) of None \<Rightarrow> -1 | Some i \<Rightarrow> int (start + i)))"

lemma find_sub_SomeD: "find_sub sub s = Some i \<Longrightarrow> prefix sub (drop i s)"
  by (induction sub s arbitrary: i rule: find_sub.induct) (auto split: if_splits)

lemma find_sub_0: "find_sub sub s = Some 0 \<longleftrightarrow> prefix sub s"
  by (cases s) (auto simp: prefix_def)

lemma find_from_0_iff: "find_from sub s 0 = 0 \<longleftrightarrow> prefix sub s"
  by (auto simp: find_from_def find_sub_0 [symmetric] split: option.splits)

lemma find_sub_singleton_None: "find_sub [c] s = None \<longleftrightarrow> c \<notin> set s"
  by (induction s) auto

lemma contains_singleton: "contains s [c] \<longleftrightarrow> c \<in> set s"
  using find_sub_singleton_None [of c s] by (simp add: contains_def)

section \<open>Splitting, joining, replacing\<close>

text \<open>\<open>s.split(c)\<close> for a separator of one character.\<close>

fun split_on :: "char \<Rightarrow> string \<Rightarrow> string list" where
  "split_on c [] = [[]]"
| "split_on c (x # xs) = (if x = c then [] # split_on c xs
     else (case split_on c xs of [] \<Rightarrow> [[x]] | p # ps \<Rightarrow> (x # p) # ps))"

text \<open>\<open>sep.join(parts)\<close>.\<close>

fun join :: "string \<Rightarrow> string list \<Rightarrow> string" where
  "join sep [] = []"
| "join sep [p] = p"
| "join sep (p # q # ps) = p @ sep @ join sep (q # ps)"

lemma split_on_nonempty [simp]: "split_on c s \<noteq> []"
  by (induction s) (auto split: list.splits)

lemma join_Cons: "ps \<noteq> [] \<Longrightarrow> join sep (p # ps) = p @ sep @ join sep ps"
  by (cases ps) simp_all

lemma join_split_on: "join [c] (split_on c s) = s"
proof (induction s)
  case (Cons x xs)
  obtain p ps where sp: "split_on c xs = p # ps"
    by (cases "split_on c xs") auto
  show ?case
    using Cons sp by (cases ps) (auto simp: join_Cons)
qed simp

lemma split_on_no_sep: "p \<in> set (split_on c s) \<Longrightarrow> c \<notin> set p"
  by (induction s arbitrary: p) (auto split: list.splits if_splits)

lemma split_on_id: "c \<notin> set s \<Longrightarrow> split_on c s = [s]"
  by (induction s) auto

lemma split_on_append_sep: "split_on c (s @ c # t) = split_on c s @ split_on c t"
proof (induction s)
  case (Cons x xs)
  then show ?case
    by (cases "split_on c xs") auto
qed simp

lemma split_on_join:
  "ps \<noteq> [] \<Longrightarrow> \<forall>p \<in> set ps. c \<notin> set p \<Longrightarrow> split_on c (join [c] ps) = ps"
proof (induction ps)
  case (Cons p ps)
  then show ?case
    by (cases ps) (simp_all add: split_on_id split_on_append_sep)
qed simp

lemma join_append: "xs \<noteq> [] \<Longrightarrow> ys \<noteq> [] \<Longrightarrow> join sep (xs @ ys) = join sep xs @ sep @ join sep ys"
proof (induction xs)
  case (Cons x xs)
  then show ?case
    by (cases "xs = []") (simp_all add: join_Cons)
qed simp

lemma set_join: "c \<in> set (join sep ps) \<Longrightarrow> c \<in> set sep \<or> (\<exists>p \<in> set ps. c \<in> set p)"
  by (induction sep ps rule: join.induct) auto

lemma set_split_on: "p \<in> set (split_on c s) \<Longrightarrow> set p \<subseteq> set s"
  by (induction s arbitrary: p) (fastforce split: list.splits if_splits)+

text \<open>\<open>s.replace(old, new)\<close> for a non-empty \<open>old\<close>: left to right, without overlaps.\<close>

function py_replace :: "string \<Rightarrow> string \<Rightarrow> string \<Rightarrow> string" where
  "py_replace old new [] = []"
| "py_replace old new (c # cs) =
     (if old \<noteq> [] \<and> prefix old (c # cs)
      then new @ py_replace old new (drop (length old) (c # cs))
      else c # py_replace old new cs)"
  by pat_completeness auto
termination
proof (relation "measure (\<lambda>(old, new, s). length s)")
  fix old new :: string and c cs
  assume "old \<noteq> [] \<and> prefix old (c # cs)"
  then show "((old, new, drop (length old) (c # cs)), old, new, c # cs)
      \<in> measure (\<lambda>(old, new, s). length s)"
    by (cases old) auto
qed auto

declare py_replace.simps(2) [simp del]

lemma py_replace_match:
  "old \<noteq> [] \<Longrightarrow> py_replace old new (old @ s) = new @ py_replace old new s"
  by (cases old) (simp_all add: py_replace.simps(2))

lemma py_replace_skip:
  "\<not> prefix old (c # cs) \<Longrightarrow> py_replace old new (c # cs) = c # py_replace old new cs"
  by (simp add: py_replace.simps(2))

text \<open>Replacing a character by a string that begins with it maps each character.\<close>

lemma py_replace_char:
  "py_replace [a] new s = concat (map (\<lambda>c. if c = a then new else [c]) s)"
  by (induction s) (auto simp: py_replace.simps(2))

section \<open>Decimal numbers\<close>

definition digit :: "nat \<Rightarrow> char" where
  "digit n = char_of (48 + n)"

fun show_nat :: "nat \<Rightarrow> string" where
  "show_nat n = (if n < 10 then [digit n] else show_nat (n div 10) @ [digit (n mod 10)])"

declare show_nat.simps [simp del]

text \<open>\<open>"%d" % i\<close> and \<open>str(i)\<close>.\<close>

definition show_int :: "int \<Rightarrow> string" where
  "show_int i = (if i < 0 then ''-'' @ show_nat (nat (- i)) else show_nat (nat i))"

fun nat_of_digits :: "nat \<Rightarrow> string \<Rightarrow> nat" where
  "nat_of_digits acc [] = acc"
| "nat_of_digits acc (c # cs) = nat_of_digits (10 * acc + (py_ord c - 48)) cs"

lemma py_ord_digit: "n < 10 \<Longrightarrow> py_ord (digit n) = 48 + n"
  by (simp add: py_ord_def digit_def)

lemma is_digit_digit: "n < 10 \<Longrightarrow> is_digit (digit n)"
  by (simp add: is_digit_def py_ord_digit)

lemma nat_of_digits_append:
  "nat_of_digits acc (s @ t) = nat_of_digits (nat_of_digits acc s) t"
  by (induction acc s rule: nat_of_digits.induct) auto

lemma show_nat_digits: "c \<in> set (show_nat n) \<Longrightarrow> is_digit c"
proof (induction n rule: show_nat.induct)
  case (1 n)
  then show ?case
    by (cases "n < 10") (auto simp: show_nat.simps [of n] is_digit_digit)
qed

lemma show_nat_nonempty [simp]: "show_nat n \<noteq> []"
  by (subst show_nat.simps) simp

lemma nat_of_digits_show_nat: "nat_of_digits 0 (show_nat n) = n"
proof (induction n rule: show_nat.induct)
  case (1 n)
  then show ?case
    by (cases "n < 10")
      (simp_all add: show_nat.simps [of n] nat_of_digits_append py_ord_digit)
qed

lemma show_nat_inject: "show_nat m = show_nat n \<longleftrightarrow> m = n"
  by (metis nat_of_digits_show_nat)

lemma show_int_nonneg: "0 \<le> i \<Longrightarrow> show_int i = show_nat (nat i)"
  by (simp add: show_int_def)

lemma minus_not_digit [simp]: "\<not> is_digit (CHR ''-'')"
  by (simp add: is_digit_def py_ord_def)

lemma show_int_neg: "i < 0 \<Longrightarrow> show_int i = CHR ''-'' # show_nat (nat (- i))"
  by (simp add: show_int_def)

lemma show_int_not_neg_head: "0 \<le> j \<Longrightarrow> show_int j \<noteq> CHR ''-'' # t"
proof
  assume "0 \<le> j" and "show_int j = CHR ''-'' # t"
  then have "CHR ''-'' \<in> set (show_nat (nat j))" by (simp add: show_int_nonneg)
  then show False using show_nat_digits minus_not_digit by blast
qed

lemma show_int_inject: "show_int i = show_int j \<longleftrightarrow> i = j"
proof
  assume eq: "show_int i = show_int j"
  show "i = j"
  proof (cases "i < 0"; cases "j < 0")
    assume "i < 0" "\<not> j < 0"
    then show ?thesis using eq show_int_not_neg_head [of j] by (metis linorder_not_less show_int_neg)
  next
    assume "\<not> i < 0" "j < 0"
    then show ?thesis using eq [symmetric] show_int_not_neg_head [of i] by (metis linorder_not_less show_int_neg)
  next
    assume "i < 0" "j < 0"
    then show ?thesis using eq by (simp add: show_int_neg show_nat_inject)
  next
    assume "\<not> i < 0" "\<not> j < 0"
    then show ?thesis using eq by (simp add: show_int_nonneg show_nat_inject)
  qed
qed simp

lemma show_int_chars: "c \<in> set (show_int i) \<Longrightarrow> is_digit c \<or> c = CHR ''-''"
  by (auto simp: show_int_def dest: show_nat_digits split: if_splits)

text \<open>\<open>int(s)\<close> of a string: surrounding white space, a sign, digits with single
  underscores between them; \<open>None\<close> is the \<open>ValueError\<close>.\<close>

fun drop_underscores :: "string \<Rightarrow> string option" where
  "drop_underscores [] = None"
| "drop_underscores [c] = (if is_digit c then Some [c] else None)"
| "drop_underscores (c # d # cs) =
     (if \<not> is_digit c then None
      else if d = CHR ''_'' then map_option ((#) c) (drop_underscores cs)
      else map_option ((#) c) (drop_underscores (d # cs)))"

definition py_strip :: "string \<Rightarrow> string" where
  "py_strip s = rev (dropWhile is_space (rev (dropWhile is_space s)))"

definition py_nat :: "string \<Rightarrow> nat option" where
  "py_nat s = map_option (nat_of_digits 0) (drop_underscores s)"

definition py_int :: "string \<Rightarrow> int option" where
  "py_int s = (case py_strip s of
       [] \<Rightarrow> None
     | c # cs \<Rightarrow>
         if c = CHR ''-'' then map_option (\<lambda>n. - int n) (py_nat cs)
         else if c = CHR ''+'' then map_option int (py_nat cs)
         else map_option int (py_nat (c # cs)))"

lemma drop_underscores_digits:
  "s \<noteq> [] \<Longrightarrow> \<forall>c \<in> set s. is_digit c \<Longrightarrow> drop_underscores s = Some s"
proof (induction s rule: drop_underscores.induct)
  case (3 c d cs)
  have "\<not> is_digit (CHR ''_'')" by (simp add: is_digit_def py_ord_def)
  then have "d \<noteq> CHR ''_''" using 3 by auto
  then show ?case using 3 by simp
qed auto

lemma digit_not_space: "is_digit c \<Longrightarrow> \<not> is_space c"
  by (auto simp: is_digit_def is_space_def)

lemma dropWhile_id: "(\<And>c. c \<in> set s \<Longrightarrow> \<not> P c) \<Longrightarrow> dropWhile P s = s"
  by (cases s) auto

lemma py_strip_id: "(\<And>c. c \<in> set s \<Longrightarrow> \<not> is_space c) \<Longrightarrow> py_strip s = s"
proof -
  assume a: "\<And>c. c \<in> set s \<Longrightarrow> \<not> is_space c"
  have "dropWhile is_space s = s" using a by (rule dropWhile_id)
  moreover have "dropWhile is_space (rev s) = rev s" using a by (intro dropWhile_id) simp
  ultimately show ?thesis by (simp add: py_strip_def)
qed

lemma py_nat_show_nat: "py_nat (show_nat n) = Some n"
  by (simp add: py_nat_def drop_underscores_digits show_nat_digits nat_of_digits_show_nat)

lemma digit_not_sign: "is_digit c \<Longrightarrow> c \<noteq> CHR ''-'' \<and> c \<noteq> CHR ''+''"
  by (auto simp: is_digit_def py_ord_def)

lemma py_int_show_int: "py_int (show_int i) = Some i"
proof -
  have "\<not> is_space (CHR ''-'')" by (simp add: is_space_def py_ord_def)
  then have st: "py_strip (show_int i) = show_int i"
    using show_int_chars digit_not_space by (intro py_strip_id) blast
  show ?thesis
  proof (cases "i < 0")
    case True
    then show ?thesis using st by (simp add: py_int_def show_int_neg py_nat_show_nat)
  next
    case False
    obtain c cs where c: "show_nat (nat i) = c # cs"
      by (cases "show_nat (nat i)") auto
    then have "is_digit c" using show_nat_digits [of c "nat i"] by simp
    moreover have "py_strip (c # cs) = c # cs" using st False c by (simp add: show_int_nonneg)
    ultimately show ?thesis
      using False py_nat_show_nat [of "nat i"] digit_not_sign [of c]
      by (simp add: py_int_def show_int_nonneg c)
  qed
qed

section \<open>Slices\<close>

text \<open>\<open>xs[a:b]\<close>: a negative bound counts from the end, and both are clamped.\<close>

definition clamp_index :: "nat \<Rightarrow> int \<Rightarrow> nat" where
  "clamp_index n i = nat (if i < 0 then max 0 (int n + i) else min (int n) i)"

definition py_slice :: "'a list \<Rightarrow> int \<Rightarrow> int \<Rightarrow> 'a list" where
  "py_slice xs a b = (let lo = clamp_index (length xs) a; hi = clamp_index (length xs) b
     in take (hi - lo) (drop lo xs))"

lemma clamp_index_le: "clamp_index n i \<le> n"
  by (auto simp: clamp_index_def)

lemma clamp_index_nonneg: "0 \<le> i \<Longrightarrow> clamp_index n i = min n (nat i)"
  by (auto simp: clamp_index_def min_def)

lemma py_slice_nonneg:
  assumes "0 \<le> a" and "0 \<le> b"
  shows "py_slice xs a b = take (nat b - nat a) (drop (nat a) xs)"
proof (cases "nat a \<le> length xs")
  case True
  then show ?thesis
    using assms by (cases "nat b \<le> length xs") (simp_all add: py_slice_def clamp_index_nonneg Let_def)
next
  case False
  then show ?thesis
    using assms by (simp add: py_slice_def clamp_index_nonneg Let_def)
qed

lemma py_slice_all: "py_slice xs 0 (int (length xs)) = xs"
  by (simp add: py_slice_nonneg)

lemma length_py_slice:
  "0 \<le> a \<Longrightarrow> 0 \<le> b \<Longrightarrow> length (py_slice xs a b) = min (length xs) (nat b) - nat a"
  by (simp add: py_slice_nonneg min_diff)

lemma py_slice_append:
  assumes "0 \<le> a" and "a \<le> b" and "b \<le> c"
  shows "py_slice xs a b @ py_slice xs b c = py_slice xs a c"
proof -
  have d: "drop (nat b) xs = drop (nat b - nat a) (drop (nat a) xs)"
    using assms by simp
  have n: "(nat b - nat a) + (nat c - nat b) = nat c - nat a"
    using assms by simp
  have "0 \<le> b" and "0 \<le> c" using assms by simp_all
  then have "py_slice xs a b @ py_slice xs b c
      = take (nat b - nat a) (drop (nat a) xs)
        @ take (nat c - nat b) (drop (nat b - nat a) (drop (nat a) xs))"
    by (simp only: py_slice_nonneg [OF assms(1)] py_slice_nonneg d [symmetric])
  also have "\<dots> = take (nat c - nat a) (drop (nat a) xs)"
    by (simp only: take_add [symmetric] n)
  also have "\<dots> = py_slice xs a c"
    by (simp only: py_slice_nonneg [OF assms(1) \<open>0 \<le> c\<close>])
  finally show ?thesis .
qed

end
