(* ===== verification/Py_Regex.thy ===== *)
theory Py_Regex
  imports Py_String
begin

text \<open>
  The part of Python's \<open>re\<close> that the program uses: character classes, greedy bounded
  repetition of a class, sequence, ordered choice, capturing groups, and the anchors
  \<open>^\<close> and \<open>$\<close> (which also matches before a final newline). A match returns every way
  to match, in the order in which the backtracking engine tries them, as the captured
  groups and the rest of the string; \<open>re.match\<close> is the first of them.
\<close>

datatype regex =
    Eps
  | Cls "char \<Rightarrow> bool"
  | Many "char \<Rightarrow> bool" nat "nat option"
  | Seq regex regex
  | Alt regex regex
  | Grp regex
  | Bos
  | Eos

text \<open>The lengths a greedy repetition tries: longest first.\<close>

definition many_lengths :: "(char \<Rightarrow> bool) \<Rightarrow> nat \<Rightarrow> nat option \<Rightarrow> string \<Rightarrow> nat list" where
  "many_lengths P lo hi s =
     (let k = length (takeWhile P s);
          top = (case hi of None \<Rightarrow> k | Some h \<Rightarrow> min h k)
      in rev [lo ..< Suc top])"

text \<open>\<open>b\<close> tells whether the position is the beginning of the string.\<close>

fun rmatch :: "regex \<Rightarrow> bool \<Rightarrow> string \<Rightarrow> (string list \<times> string) list" where
  "rmatch Eps b s = [([], s)]"
| "rmatch (Cls P) b s = (case s of [] \<Rightarrow> [] | c # cs \<Rightarrow> if P c then [([], cs)] else [])"
| "rmatch (Many P lo hi) b s = map (\<lambda>n. ([], drop n s)) (many_lengths P lo hi s)"
| "rmatch (Seq r q) b s =
     concat (map (\<lambda>(g, t). map (\<lambda>(h, u). (g @ h, u))
       (rmatch q (b \<and> length t = length s) t)) (rmatch r b s))"
| "rmatch (Alt r q) b s = rmatch r b s @ rmatch q b s"
| "rmatch (Grp r) b s =
     map (\<lambda>(g, t). (take (length s - length t) s # g, t)) (rmatch r b s)"
| "rmatch Bos b s = (if b then [([], s)] else [])"
| "rmatch Eos b s = (if s = [] \<or> s = [CHR 0x0A] then [([], s)] else [])"

text \<open>\<open>expr.match(s)\<close>: the groups of the first match at the beginning, if there is one.\<close>

definition re_match :: "regex \<Rightarrow> string \<Rightarrow> string list option" where
  "re_match r s = (case rmatch r True s of [] \<Rightarrow> None | (g, t) # _ \<Rightarrow> Some g)"

text \<open>\<open>re.search\<close>, as a test.\<close>

fun re_search :: "regex \<Rightarrow> bool \<Rightarrow> string \<Rightarrow> bool" where
  "re_search r b [] = (rmatch r b [] \<noteq> [])"
| "re_search r b (c # cs) = (rmatch r b (c # cs) \<noteq> [] \<or> re_search r False cs)"

text \<open>\<open>expr.sub("", s)\<close> for an expression that only matches non-empty strings.\<close>

function re_remove :: "regex \<Rightarrow> bool \<Rightarrow> string \<Rightarrow> string" where
  "re_remove r b [] = []"
| "re_remove r b (c # cs) =
     (case rmatch r b (c # cs) of
        [] \<Rightarrow> c # re_remove r False cs
      | (g, t) # _ \<Rightarrow> if length t < length (c # cs) then re_remove r False t
                     else c # re_remove r False cs)"
  by pat_completeness auto
termination
  by (relation "measure (\<lambda>(r, b, s). length s)") auto

section \<open>Building expressions\<close>

fun lit :: "string \<Rightarrow> regex" where
  "lit [] = Eps"
| "lit (c # cs) = Seq (Cls (\<lambda>d. d = c)) (lit cs)"

fun seqs :: "regex list \<Rightarrow> regex" where
  "seqs [] = Eps"
| "seqs [r] = r"
| "seqs (r # rs) = Seq r (seqs rs)"

definition digits :: regex where
  "digits = Many is_digit 1 None"

definition az_dash :: "char \<Rightarrow> bool" where
  "az_dash c \<longleftrightarrow> is_lower_az c \<or> c = CHR ''-''"

lemma rmatch_lit:
  "rmatch (lit p) b s = (if prefix p s then [([], drop (length p) s)] else [])"
  by (induction p arbitrary: b s) (auto split: list.splits simp: prefix_Cons)

lemma rmatch_suffix: "(g, t) \<in> set (rmatch r b s) \<Longrightarrow> suffix t s"
proof (induction r arbitrary: b s g t)
  case (Many P lo hi)
  then show ?case by (auto simp: suffix_drop)
next
  case (Seq r q)
  then show ?case by (fastforce intro: suffix_order.trans)
qed (auto split: list.splits if_splits simp: suffix_Cons)

lemma rmatch_length: "(g, t) \<in> set (rmatch r b s) \<Longrightarrow> length t \<le> length s"
  by (auto dest!: rmatch_suffix suffix_length_le)

text \<open>The shape of most instructions: a literal, a captured run of a class that the
  rest of the expression cannot begin with, and so on.\<close>

lemma takeWhile_append_stop:
  "\<forall>c \<in> set p. P c \<Longrightarrow> (t = [] \<or> \<not> P (hd t)) \<Longrightarrow> takeWhile P (p @ t) = p"
  by (cases t) (simp_all add: takeWhile_tail)

lemma many_lengths_run:
  assumes "\<forall>c \<in> set p. P c" and "t = [] \<or> \<not> P (hd t)" and "1 \<le> length p"
  shows "\<exists>ns. many_lengths P 1 None (p @ t) = length p # ns"
proof -
  have "takeWhile P (p @ t) = p" using assms(1,2) by (rule takeWhile_append_stop)
  then have "many_lengths P 1 None (p @ t) = rev [1 ..< Suc (length p)]"
    by (simp add: many_lengths_def Let_def)
  also have "\<dots> = length p # rev [1 ..< length p]" using assms(3) by simp
  finally show ?thesis by blast
qed

text \<open>A literal followed by one captured run up to the end of the string.\<close>

definition lit_run :: "string \<Rightarrow> (char \<Rightarrow> bool) \<Rightarrow> regex" where
  "lit_run p P = seqs [lit p, Grp (Many P 1 None), Eos]"

lemma re_match_lit_run:
  assumes "\<forall>c \<in> set w. P c" and "w \<noteq> []"
  shows "re_match (lit_run p P) (p @ w) = Some [w]"
proof -
  have "1 \<le> length w" using assms(2) by (cases w) auto
  then obtain ns where ns: "many_lengths P (Suc 0) None w = length w # ns"
    using many_lengths_run [of w P "[]"] assms(1) by auto
  show ?thesis
    by (simp add: re_match_def lit_run_def rmatch_lit ns)
qed

lemma re_match_lit_run_prefix: "re_match (lit_run p P) s \<noteq> None \<Longrightarrow> prefix p s"
  by (auto simp: re_match_def lit_run_def rmatch_lit split: if_splits)

end
