(* ===== verification/Errors.thy ===== *)
theory Errors
  imports Py_String
begin

text \<open>
  \<open>src/testbench/error.py\<close>: the errors of the testbench, for REST handlers (no gRPC
  context) and for gRPC handlers (a context, whose \<open>abort\<close> raises).

  Every helper of the module ends in \<open>generic\<close>, which never returns; so a helper is
  modelled by the error it raises, and a call \<open>return error.invalid(...)\<close> in another
  theory is \<open>Inl (invalid ...)\<close>.  The message a helper builds is kept as a tree: the
  \<open>json.dumps\<close> text of that tree is what the code sends.
\<close>

section \<open>Contexts, status codes and exceptions\<close>

text \<open>\<open>context\<close> is \<open>None\<close> in REST handlers; a gRPC context is represented by its
  invocation metadata, the only part of it that the modelled code reads.\<close>

datatype ctx = Rest | Grpc "(string \<times> string) list"

datatype status = INVALID_ARGUMENT | FAILED_PRECONDITION | ABORTED | NOT_FOUND
  | ALREADY_EXISTS | OUT_OF_RANGE | UNIMPLEMENTED | UNKNOWN | UNAVAILABLE | INTERNAL
  | UNAUTHENTICATED | PERMISSION_DENIED | RESOURCE_EXHAUSTED | DEADLINE_EXCEEDED
  | CANCELLED | DATA_LOSS | OK_STATUS

text \<open>A REST status code: the code written in a handler, or the text that a retry
  instruction such as \<open>return-503\<close> carries.\<close>

datatype rest_code = Code int | Code_text string

text \<open>A message is a plain text, a text in the JSON error schema, the detailed CSEK error, or
  the dictionary \<open>{"error": {"message": ...}}\<close> of an injected failure.\<close>

datatype body = Text string
  | Simple_json string
  | Csek_json string string rest_code
  | Error_dict string

text \<open>The Python exceptions that the modelled code can raise itself.\<close>

datatype py_exn = ValueError | TypeError | AttributeError | KeyError | IndexError
  | Plain_exception string | AssertionError | OSError | BinasciiError | ParseError | UnicodeError | RuntimeError

datatype err = Rest_exception body rest_code
  | Grpc_abort "status option" body
  | Http_exception int
  | Exc py_exn

section \<open>The helpers\<close>

definition generic :: "body \<Rightarrow> rest_code \<Rightarrow> status option \<Rightarrow> ctx \<Rightarrow> err" where
  "generic msg rest_code grpc_code context = (case context of
     Grpc _ \<Rightarrow> Grpc_abort grpc_code msg
   | Rest \<Rightarrow> Rest_exception msg rest_code)"

definition csek :: "ctx \<Rightarrow> err" where
  "csek context = (
     let msg = ''Missing a SHA256 hash of the encryption key, or it is not''
               @ '' base64 encoded, or it does not match the encryption key.'';
         link = ''https://cloud.google.com/storage/docs/encryption/customer-supplied-keys''
     in generic (Csek_json msg link (Code 400)) (Code 400) (Some INVALID_ARGUMENT) context)"

definition invalid :: "string \<Rightarrow> ctx \<Rightarrow> err" where
  "invalid msg context =
     generic (Simple_json (msg @ '' is invalid.'')) (Code 400) (Some INVALID_ARGUMENT) context"

definition missing :: "string \<Rightarrow> ctx \<Rightarrow> err" where
  "missing name context =
     generic (Simple_json (''Missing '' @ name @ ''.'')) (Code 400) (Some INVALID_ARGUMENT)
       context"

definition show_opt :: "int option \<Rightarrow> string" where
  "show_opt v = (case v of None \<Rightarrow> ''None'' | Some i \<Rightarrow> show_int i)"

text \<open>\<open>mismatch\<close> takes the REST code as an argument: two callers pass 304.\<close>

definition mismatch_code ::
    "rest_code \<Rightarrow> status \<Rightarrow> string \<Rightarrow> string \<Rightarrow> string \<Rightarrow> ctx \<Rightarrow> err" where
  "mismatch_code rest_code grpc_code msg expect actual context =
     generic (Simple_json (msg @ '' validation failed. Expected = '' @ expect
                @ '' vs Actual = '' @ actual @ ''.''))
       rest_code (Some grpc_code) context"

definition mismatch :: "string \<Rightarrow> string \<Rightarrow> string \<Rightarrow> ctx \<Rightarrow> err" where
  "mismatch = mismatch_code (Code 412) FAILED_PRECONDITION"

definition not_soft_deleted :: "ctx \<Rightarrow> err" where
  "not_soft_deleted context =
     generic (Simple_json ''objectNotSoftDeleted'') (Code 412) (Some FAILED_PRECONDITION) context"

definition notchanged :: "string \<Rightarrow> ctx \<Rightarrow> err" where
  "notchanged msg context =
     generic (Simple_json (msg @ '' validation failed.'')) (Code 304) (Some ABORTED) context"

definition notfound :: "string \<Rightarrow> ctx \<Rightarrow> err" where
  "notfound name context =
     generic (Simple_json (name @ '' does not exist.'')) (Code 404) (Some NOT_FOUND) context"

definition notallowed :: "ctx \<Rightarrow> err" where
  "notallowed context =
     generic (Simple_json ''method is not allowed'') (Code 405) None context"

definition already_exists :: "ctx \<Rightarrow> err" where
  "already_exists context =
     generic (Simple_json ''resource already exists'') (Code 409) (Some ALREADY_EXISTS) context"

definition range_not_satisfiable :: "ctx \<Rightarrow> err" where
  "range_not_satisfiable context =
     generic (Simple_json ''request range not satisfiable'') (Code 416) (Some OUT_OF_RANGE)
       context"

definition unimplemented :: "string \<Rightarrow> ctx \<Rightarrow> err" where
  "unimplemented msg context =
     generic (Simple_json (msg @ '' is not implemented.'')) (Code 501) (Some UNIMPLEMENTED)
       context"

definition show_status :: "status option \<Rightarrow> string" where
  "show_status s = (case s of
     None \<Rightarrow> ''None''
   | Some INVALID_ARGUMENT \<Rightarrow> ''StatusCode.INVALID_ARGUMENT''
   | Some FAILED_PRECONDITION \<Rightarrow> ''StatusCode.FAILED_PRECONDITION''
   | Some ABORTED \<Rightarrow> ''StatusCode.ABORTED''
   | Some NOT_FOUND \<Rightarrow> ''StatusCode.NOT_FOUND''
   | Some ALREADY_EXISTS \<Rightarrow> ''StatusCode.ALREADY_EXISTS''
   | Some OUT_OF_RANGE \<Rightarrow> ''StatusCode.OUT_OF_RANGE''
   | Some UNIMPLEMENTED \<Rightarrow> ''StatusCode.UNIMPLEMENTED''
   | Some UNKNOWN \<Rightarrow> ''StatusCode.UNKNOWN''
   | Some UNAVAILABLE \<Rightarrow> ''StatusCode.UNAVAILABLE''
   | Some INTERNAL \<Rightarrow> ''StatusCode.INTERNAL''
   | Some UNAUTHENTICATED \<Rightarrow> ''StatusCode.UNAUTHENTICATED''
   | Some PERMISSION_DENIED \<Rightarrow> ''StatusCode.PERMISSION_DENIED''
   | Some RESOURCE_EXHAUSTED \<Rightarrow> ''StatusCode.RESOURCE_EXHAUSTED''
   | Some DEADLINE_EXCEEDED \<Rightarrow> ''StatusCode.DEADLINE_EXCEEDED''
   | Some CANCELLED \<Rightarrow> ''StatusCode.CANCELLED''
   | Some DATA_LOSS \<Rightarrow> ''StatusCode.DATA_LOSS''
   | Some OK_STATUS \<Rightarrow> ''StatusCode.OK'')"

definition inject_error :: "ctx \<Rightarrow> rest_code \<Rightarrow> status option \<Rightarrow> string \<Rightarrow> err" where
  "inject_error context rest_code grpc_code msg =
     generic (Simple_json (''Retry Test: Caused a '' @ show_status grpc_code @ ''. '' @ msg))
       rest_code grpc_code context"

section \<open>The REST error handler\<close>

text \<open>\<open>RestException.as_response\<close> and \<open>handler\<close>: the response has the schema
  \<open>{"error": {"code": ..., "message": ...}}\<close> and the same code as its status.  The text
  of a Python traceback is a parameter.\<close>

datatype error_response = Error_response rest_code body rest_code | Passed_through int

definition as_response :: "body \<Rightarrow> rest_code \<Rightarrow> error_response" where
  "as_response msg code = Error_response code msg code"

definition handler :: "(err \<Rightarrow> string) \<Rightarrow> err \<Rightarrow> error_response" where
  "handler format_exception ex = (case ex of
     Rest_exception msg code \<Rightarrow> as_response msg code
   | Http_exception code \<Rightarrow> Passed_through code
   | _ \<Rightarrow> as_response (Text (format_exception ex)) (Code 500))"

fun response_status :: "error_response \<Rightarrow> rest_code" where
  "response_status (Error_response _ _ st) = st"
| "response_status (Passed_through c) = Code c"

lemmas error_defs = generic_def csek_def invalid_def missing_def mismatch_def
  mismatch_code_def not_soft_deleted_def notchanged_def notfound_def notallowed_def
  already_exists_def range_not_satisfiable_def unimplemented_def inject_error_def

text \<open>The REST status and the gRPC status of each error, which is what clients see.\<close>

fun rest_status_of :: "err \<Rightarrow> rest_code option" where
  "rest_status_of (Rest_exception _ c) = Some c"
| "rest_status_of _ = None"

fun grpc_status_of :: "err \<Rightarrow> status option" where
  "grpc_status_of (Grpc_abort s _) = s"
| "grpc_status_of _ = None"

lemma grpc_status_simps [simp]:
  "grpc_status_of (invalid m (Grpc md)) = Some INVALID_ARGUMENT"
  "grpc_status_of (missing m (Grpc md)) = Some INVALID_ARGUMENT"
  "grpc_status_of (notfound m (Grpc md)) = Some NOT_FOUND"
  "grpc_status_of (mismatch m e a (Grpc md)) = Some FAILED_PRECONDITION"
  "grpc_status_of (already_exists (Grpc md)) = Some ALREADY_EXISTS"
  "grpc_status_of (range_not_satisfiable (Grpc md)) = Some OUT_OF_RANGE"
  "grpc_status_of (unimplemented m (Grpc md)) = Some UNIMPLEMENTED"
  "grpc_status_of (not_soft_deleted (Grpc md)) = Some FAILED_PRECONDITION"
  by (simp_all add: error_defs)

lemma rest_status_simps [simp]:
  "rest_status_of (invalid m Rest) = Some (Code 400)"
  "rest_status_of (missing m Rest) = Some (Code 400)"
  "rest_status_of (notfound m Rest) = Some (Code 404)"
  "rest_status_of (mismatch m e a Rest) = Some (Code 412)"
  "rest_status_of (notchanged m Rest) = Some (Code 304)"
  "rest_status_of (already_exists Rest) = Some (Code 409)"
  "rest_status_of (range_not_satisfiable Rest) = Some (Code 416)"
  "rest_status_of (unimplemented m Rest) = Some (Code 501)"
  "rest_status_of (not_soft_deleted Rest) = Some (Code 412)"
  by (simp_all add: error_defs)

lemma handler_status:
  "rest_status_of e = Some c \<Longrightarrow> response_status (handler tb e) = c"
  by (cases e) (simp_all add: handler_def as_response_def)

end
