(* ===== verification/Requests.thy ===== *)
theory Requests
  imports Py_Regex Errors
begin

text \<open>
  Requests as \<open>src/testbench/common.py\<close> sees them: the parts of a REST request that the
  handlers read, \<open>FakeRequest\<close> (which presents gRPC and XML requests as JSON ones), and the
  small helpers on names, headers and media.

  The header names of a request are in lower case: the code either lowers them itself or
  looks them up in a dictionary that ignores the case.
\<close>

section \<open>Names\<close>

definition bucket_prefix :: string where
  "bucket_prefix = ''projects/_/buckets/''"

definition bucket_name_to_proto :: "string \<Rightarrow> string" where
  "bucket_name_to_proto bucket_name = bucket_prefix @ bucket_name"

definition bucket_name_from_proto :: "string \<Rightarrow> string" where
  "bucket_name_from_proto bucket_name =
     (if startswith bucket_name bucket_prefix then drop (length bucket_prefix) bucket_name
      else bucket_name)"

lemma bucket_name_from_to [simp]: "bucket_name_from_proto (bucket_name_to_proto b) = b"
  by (simp add: bucket_name_from_proto_def bucket_name_to_proto_def)

lemma bucket_name_to_from:
  "startswith n bucket_prefix \<Longrightarrow> bucket_name_to_proto (bucket_name_from_proto n) = n"
  by (auto simp: bucket_name_from_proto_def bucket_name_to_proto_def prefix_def)

lemma bucket_name_to_proto_inject:
  "bucket_name_to_proto a = bucket_name_to_proto b \<longleftrightarrow> a = b"
  by (simp add: bucket_name_to_proto_def)

text \<open>\<open>re_snake_case = (?<!^)(?=[A-Z])\<close> matches the empty string before a capital letter
  that is not the first character.\<close>

fun insert_underscores :: "bool \<Rightarrow> string \<Rightarrow> string" where
  "insert_underscores first [] = []"
| "insert_underscores first (c # cs) =
     (if is_upper_az c \<and> \<not> first then [CHR ''_'', c] else [c]) @ insert_underscores False cs"

definition to_snake_case :: "string \<Rightarrow> string" where
  "to_snake_case s = py_lower (insert_underscores True s)"

definition remove_index_re :: regex where
  "remove_index_re =
     Alt (seqs [lit ''['', digits, Many (\<lambda>c. c = CHR '']'') 1 None])
         (seqs [Bos, digits])"

definition remove_index :: "string \<Rightarrow> string" where
  "remove_index s = re_remove remove_index_re True s"

section \<open>REST requests\<close>

record request =
  args :: "(string \<times> string) list"
  headers :: "(string \<times> string) list"
  environ :: "(string \<times> string) list"
  verb :: string

definition hget :: "request \<Rightarrow> string \<Rightarrow> string option" where
  "hget request name = map_of (headers request) name"

definition aget :: "request \<Rightarrow> string \<Rightarrow> string option" where
  "aget request name = map_of (args request) name"

text \<open>\<open>FakeRequest.xml_headers_to_json_args\<close> and \<open>init_xml\<close>.\<close>

definition xml_field_map :: "(string \<times> string) list" where
  "xml_field_map =
    [(''x-goog-if-generation-match'', ''ifGenerationMatch''),
     (''x-goog-if-metageneration-match'', ''ifMetagenerationMatch''),
     (''x-goog-acl'', ''predefinedAcl'')]"

definition xml_headers_to_json_args :: "(string \<times> string) list \<Rightarrow> (string \<times> string) list" where
  "xml_headers_to_json_args hs =
     concat (map (\<lambda>(xml, json). case map_of hs xml of None \<Rightarrow> [] | Some v \<Rightarrow> [(json, v)])
       xml_field_map)"

definition dict_update :: "('k \<times> 'v) list \<Rightarrow> ('k \<times> 'v) list \<Rightarrow> ('k \<times> 'v) list" where
  "dict_update d e = foldl (\<lambda>d (k, v). AList.update k v d) d e"

definition init_xml :: "request \<Rightarrow> request" where
  "init_xml r =
     (let hs = filter (\<lambda>(k, v). startswith (py_lower k) ''x-goog-''
                          \<or> py_lower k \<in> {''range'', ''accept-encoding''}) (headers r);
          hs = dict_update [] (map (\<lambda>(k, v). (py_lower k, v)) hs)
      in \<lparr>args = dict_update (args r) (xml_headers_to_json_args hs), headers = hs,
          environ = environ r, verb = []\<rparr>)"

section \<open>Projection, instructions and overrides\<close>

definition extract_projection :: "request \<Rightarrow> string \<Rightarrow> ctx \<Rightarrow> string" where
  "extract_projection r dflt c = (case c of
     Grpc _ \<Rightarrow> dflt
   | Rest \<Rightarrow> (case aget r ''projection'' of None \<Rightarrow> dflt | Some p \<Rightarrow> p))"

text \<open>In the metadata of a gRPC call the last value with the key wins.\<close>

definition extract_instruction :: "request \<Rightarrow> ctx \<Rightarrow> string option" where
  "extract_instruction r c = (case c of
     Grpc md \<Rightarrow> map_of (rev md) ''x-goog-emulator-instructions''
   | Rest \<Rightarrow> (case hget r ''x-goog-emulator-instructions'' of
       None \<Rightarrow> hget r ''x-goog-testbench-instructions''
     | Some i \<Rightarrow> Some i))"

definition enforce_patch_override :: "request \<Rightarrow> err + unit" where
  "enforce_patch_override r =
     (if verb r = ''POST''
         \<and> (case hget r ''x-http-method-override'' of None \<Rightarrow> '''' | Some v \<Rightarrow> v) \<noteq> ''PATCH''
      then Inl (notallowed Rest) else Inr ())"

text \<open>In these two the first value with the key wins.\<close>

definition invocation_metadata_value :: "ctx \<Rightarrow> string \<Rightarrow> string option" where
  "invocation_metadata_value c k = (case c of Rest \<Rightarrow> None | Grpc md \<Rightarrow> map_of md k)"

definition get_retry_test_id_from_context :: "ctx \<Rightarrow> string option" where
  "get_retry_test_id_from_context c = invocation_metadata_value c ''x-retry-test-id''"

definition get_context_request_params :: "ctx \<Rightarrow> string option" where
  "get_context_request_params c = invocation_metadata_value c ''x-goog-request-params''"

section \<open>Media\<close>

type_synonym bytes = "nat list"

text \<open>\<open>corrupt_media\<close>: the letter for an empty media is random, so it is an argument.\<close>

definition corrupt_media :: "nat \<Rightarrow> bytes \<Rightarrow> bytes" where
  "corrupt_media letter media =
     (if media = [] then [letter]
      else if take 1 media = [65] then 66 # drop 1 media else 65 # drop 1 media)"

definition partial_media :: "'a list \<Rightarrow> int \<Rightarrow> int \<Rightarrow> 'a list" where
  "partial_media media range_end range_start = py_slice media range_start range_end"

lemma corrupt_media_differs: "corrupt_media letter media \<noteq> media"
  by (cases media) (auto simp: corrupt_media_def)

lemma corrupt_media_length:
  "length (corrupt_media letter media) = max 1 (length media)"
  by (cases media) (auto simp: corrupt_media_def)

section \<open>Injected failures\<close>

definition grpc_forced_failure :: "string \<Rightarrow> status option" where
  "grpc_forced_failure http_code = map_of
    [(''400'', INVALID_ARGUMENT), (''401'', UNAUTHENTICATED), (''408'', UNAVAILABLE),
     (''429'', RESOURCE_EXHAUSTED), (''500'', INTERNAL), (''503'', UNAVAILABLE),
     (''504'', DEADLINE_EXCEEDED)] http_code"

end
