(* ===== verification/Acl.thy ===== *)
theory Acl
  imports Requests
begin

text \<open>
  \<open>src/testbench/acl.py\<close>: entities, access control entries and predefined ACLs, and the
  list operations on the ACL of a resource that \<open>src/gcs/object.py\<close> (lines 423 to 468) and
  \<open>src/gcs/bucket.py\<close> have in the same form.

  The three constants that come from environment variables, and the hexadecimal MD5 digest,
  are the record \<open>acl_env\<close>.
\<close>

record acl_env =
  project_number :: string
  object_owner_entity :: string
  object_reader_entity :: string
  md5hex :: "nat list \<Rightarrow> string"

definition acl_defaults :: "(nat list \<Rightarrow> string) \<Rightarrow> acl_env" where
  "acl_defaults h = \<lparr>project_number = ''123456789'',
     object_owner_entity = ''user-object.owners@example.com'',
     object_reader_entity = ''user-object.viewers@example.com'', md5hex = h\<rparr>"

record acl_entry =
  acl_role :: string
  acl_id :: string
  acl_etag :: string
  acl_entity :: string
  acl_entity_id :: string
  acl_email :: string
  acl_domain :: string
  acl_project_number :: string
  acl_team :: string
  acl_entity_alt :: string

section \<open>Entities\<close>

definition extract_email :: "string \<Rightarrow> string" where
  "extract_email entity =
     (if startswith entity ''user-'' then drop 5 entity
      else if startswith entity ''group-'' \<and> contains entity ''@'' then drop 6 entity
      else [])"

definition extract_domain :: "string \<Rightarrow> string" where
  "extract_domain entity = (if startswith entity ''domain-'' then drop 7 entity else [])"

definition extract_team :: "string \<Rightarrow> string" where
  "extract_team entity =
     (if startswith entity ''project-'' then split_on CHR ''-'' entity ! 1 else [])"

definition get_canonical_entity :: "acl_env \<Rightarrow> string \<Rightarrow> string" where
  "get_canonical_entity env entity =
     (if entity = ''allUsers'' \<or> entity = ''allAuthenticatedUsers'' then entity
      else
        let entity = (if startswith entity ''project-owners-''
                      then ''project-owners-'' @ project_number env else entity);
            entity = (if startswith entity ''project-editors-''
                      then ''project-editors-'' @ project_number env else entity);
            entity = (if startswith entity ''project-viewers-''
                      then ''project-viewers-'' @ project_number env else entity)
        in py_lower entity)"

definition get_project_entity :: "acl_env \<Rightarrow> string \<Rightarrow> ctx \<Rightarrow> err + string" where
  "get_project_entity env team c =
     (if team \<notin> {''editors'', ''owners'', ''viewers''}
      then Inl (invalid (''Team '' @ team @ '' for project'') c)
      else Inr (''project-'' @ team @ ''-'' @ project_number env))"

definition get_object_entity :: "acl_env \<Rightarrow> string \<Rightarrow> ctx \<Rightarrow> err + string" where
  "get_object_entity env role c =
     (if role = ''OWNER'' then Inr (object_owner_entity env)
      else if role = ''READER'' then Inr (object_reader_entity env)
      else Inl (invalid (''Role '' @ role @ '' for object acl'') c))"

section \<open>Entries\<close>

definition make_entry :: "acl_env \<Rightarrow> string \<Rightarrow> string \<Rightarrow> string \<Rightarrow> acl_entry" where
  "make_entry env bucket_name entity role =
     (let canonical = get_canonical_entity env entity
      in \<lparr>acl_role = role,
          acl_id = md5hex env (utf8 (join ''#'' [bucket_name, canonical, role])),
          acl_etag = md5hex env (utf8 (join ''#'' [canonical, role])),
          acl_entity = canonical,
          acl_entity_id = md5hex env (utf8 canonical),
          acl_email = extract_email canonical, acl_domain = extract_domain canonical,
          acl_project_number = project_number env, acl_team = extract_team canonical,
          acl_entity_alt = (if canonical \<noteq> entity then entity else [])\<rparr>)"

definition create_bucket_acl ::
    "acl_env \<Rightarrow> string \<Rightarrow> string \<Rightarrow> string \<Rightarrow> ctx \<Rightarrow> err + acl_entry" where
  "create_bucket_acl env bucket_name entity role c =
     (if role \<notin> {''OWNER'', ''WRITER'', ''READER''}
      then Inl (invalid (''Role '' @ role @ '' for bucket acl'') c)
      else Inr (make_entry env bucket_name entity role))"

definition create_default_object_acl ::
    "acl_env \<Rightarrow> string \<Rightarrow> string \<Rightarrow> string \<Rightarrow> ctx \<Rightarrow> err + acl_entry" where
  "create_default_object_acl env bucket_name entity role c =
     (if role \<notin> {''OWNER'', ''READER''}
      then Inl (invalid (''Role '' @ role @ '' for object acl'') c)
      else Inr (make_entry env bucket_name entity role))"

definition create_object_acl_from_default_object_acl ::
    "acl_env \<Rightarrow> string \<Rightarrow> int \<Rightarrow> acl_entry \<Rightarrow> acl_entry" where
  "create_object_acl_from_default_object_acl env object_name generation acl =
     acl\<lparr>acl_id := md5hex env (utf8 (object_name @ show_int generation @ acl_entity acl
                                 @ acl_role acl))\<rparr>"

definition create_object_acl ::
    "acl_env \<Rightarrow> string \<Rightarrow> string \<Rightarrow> int \<Rightarrow> string \<Rightarrow> string \<Rightarrow> ctx \<Rightarrow> err + acl_entry" where
  "create_object_acl env bucket_name object_name generation entity role c =
     bindE (create_default_object_acl env bucket_name entity role c) (\<lambda>acl.
       Inr (create_object_acl_from_default_object_acl env object_name generation acl))"

section \<open>Predefined ACLs\<close>

text \<open>In a gRPC request the two fields have other names (\<open>predefined_acl\<close> and
  \<open>destination_predefined_acl\<close>); \<open>FakeRequest\<close> stores them under the names used here.\<close>

definition extract_predefined_acl :: "request \<Rightarrow> bool \<Rightarrow> string" where
  "extract_predefined_acl r is_destination =
     (case aget r (if is_destination then ''destinationPredefinedAcl'' else ''predefinedAcl'') of
        None \<Rightarrow> '''' | Some v \<Rightarrow> v)"

definition acl_name :: "string \<Rightarrow> string" where
  "acl_name predefined_acl = py_replace ''-'' ''_'' (to_snake_case predefined_acl)"

fun collect :: "(err + 'a) list \<Rightarrow> err + 'a list" where
  "collect [] = Inr []"
| "collect (r # rs) = bindE r (\<lambda>x. bindE (collect rs) (\<lambda>xs. Inr (x # xs)))"

definition compute_predefined_bucket_acl ::
    "acl_env \<Rightarrow> string \<Rightarrow> string option \<Rightarrow> ctx \<Rightarrow> err + acl_entry list" where
  "compute_predefined_bucket_acl env bucket_name predefined_acl c = (case predefined_acl of
     None \<Rightarrow> Inr []
   | Some p \<Rightarrow>
     let n = acl_name p;
         project = \<lambda>team role. bindE (get_project_entity env team c)
                     (\<lambda>e. create_bucket_acl env bucket_name e role c);
         entry = \<lambda>e role. create_bucket_acl env bucket_name e role c
     in collect
       (if n = ''authenticated_read'' then
          [project ''owners'' ''OWNER'', entry ''allAuthenticatedUsers'' ''READER'']
        else if n = ''private'' then [project ''owners'' ''OWNER'']
        else if n = ''project_private'' then
          [project ''owners'' ''OWNER'', project ''editors'' ''WRITER'', project ''viewers'' ''READER'']
        else if n = ''public_read'' then [project ''owners'' ''OWNER'', entry ''allUsers'' ''READER'']
        else if n = ''public_read_write'' then
          [project ''owners'' ''OWNER'', entry ''allUsers'' ''WRITER'']
        else []))"

definition compute_predefined_object_acl_with ::
    "acl_env \<Rightarrow> string option \<Rightarrow> (string \<Rightarrow> string \<Rightarrow> err + acl_entry) \<Rightarrow> ctx \<Rightarrow> err + acl_entry list"
  where
  "compute_predefined_object_acl_with env predefined_acl acl_factory c = (case predefined_acl of
     None \<Rightarrow> Inr []
   | Some p \<Rightarrow>
     let n = acl_name p;
         owner = bindE (get_object_entity env ''OWNER'' c) (\<lambda>e. acl_factory e ''OWNER'');
         project = \<lambda>team role. bindE (get_project_entity env team c) (\<lambda>e. acl_factory e role)
     in collect
       (if n = ''authenticated_read'' then [owner, acl_factory ''allAuthenticatedUsers'' ''READER'']
        else if n = ''bucket_owner_full_control'' then [owner, project ''owners'' ''OWNER'']
        else if n = ''bucket_owner_read'' then [owner, project ''owners'' ''READER'']
        else if n = ''private'' then [owner]
        else if n = ''project_private'' then
          [owner, project ''owners'' ''OWNER'', project ''editors'' ''OWNER'',
           project ''viewers'' ''READER'']
        else if n = ''public_read'' then [owner, acl_factory ''allUsers'' ''READER'']
        else []))"

definition compute_predefined_default_object_acl ::
    "acl_env \<Rightarrow> string \<Rightarrow> string option \<Rightarrow> ctx \<Rightarrow> err + acl_entry list" where
  "compute_predefined_default_object_acl env bucket_name predefined_acl c =
     compute_predefined_object_acl_with env predefined_acl
       (\<lambda>entity role. create_default_object_acl env bucket_name entity role c) c"

definition compute_predefined_object_acl ::
    "acl_env \<Rightarrow> string \<Rightarrow> string \<Rightarrow> int \<Rightarrow> string option \<Rightarrow> ctx \<Rightarrow> err + acl_entry list" where
  "compute_predefined_object_acl env bucket_name object_name generation predefined_acl c =
     compute_predefined_object_acl_with env predefined_acl
       (\<lambda>entity role. create_object_acl env bucket_name object_name generation entity role c) c"

section \<open>The ACL of a resource\<close>

definition search_acl :: "acl_env \<Rightarrow> acl_entry list \<Rightarrow> string \<Rightarrow> nat option" where
  "search_acl env acls entity =
     (let e = get_canonical_entity env entity
      in List.find (\<lambda>i. acl_entity (acls ! i) = e) [0 ..< length acls])"

definition must_search_acl ::
    "acl_env \<Rightarrow> acl_entry list \<Rightarrow> string \<Rightarrow> ctx \<Rightarrow> err + nat" where
  "must_search_acl env acls entity c = (case search_acl env acls entity of
     None \<Rightarrow> Inl (notfound (''ACL '' @ get_canonical_entity env entity) c)
   | Some i \<Rightarrow> Inr i)"

text \<open>\<open>__upsert_acl\<close>, with the entry that \<open>create_..._acl\<close> makes of the entity and the role.\<close>

definition upsert_acl ::
    "acl_env \<Rightarrow> (string \<Rightarrow> string \<Rightarrow> err + acl_entry) \<Rightarrow> acl_entry list \<Rightarrow> string \<Rightarrow> string
       \<Rightarrow> err + acl_entry \<times> acl_entry list" where
  "upsert_acl env create acls entity role =
     (let index = search_acl env acls entity
      in bindE (create entity role) (\<lambda>acl. case index of
           Some i \<Rightarrow> Inr (acl, acls[i := acl])
         | None \<Rightarrow> Inr (acl, acls @ [acl])))"

definition get_acl :: "acl_env \<Rightarrow> acl_entry list \<Rightarrow> string \<Rightarrow> ctx \<Rightarrow> err + acl_entry" where
  "get_acl env acls entity c =
     bindE (must_search_acl env acls entity c) (\<lambda>i. Inr (acls ! i))"

definition delete_acl ::
    "acl_env \<Rightarrow> acl_entry list \<Rightarrow> string \<Rightarrow> ctx \<Rightarrow> err + acl_entry list" where
  "delete_acl env acls entity c =
     bindE (must_search_acl env acls entity c) (\<lambda>i. Inr (take i acls @ drop (Suc i) acls))"

section \<open>The list operations keep one entry per entity\<close>

definition acl_wf :: "acl_entry list \<Rightarrow> bool" where
  "acl_wf acls \<longleftrightarrow> distinct (map acl_entity acls)"

lemma search_acl_Some:
  "search_acl env acls entity = Some i \<Longrightarrow>
     i < length acls \<and> acl_entity (acls ! i) = get_canonical_entity env entity"
  by (auto simp: search_acl_def Let_def find_Some_iff)

lemma search_acl_None:
  "search_acl env acls entity = None \<longleftrightarrow>
     (\<forall>a \<in> set acls. acl_entity a \<noteq> get_canonical_entity env entity)"
  by (auto simp: search_acl_def Let_def find_None_iff all_set_conv_all_nth)

lemma search_acl_unique:
  assumes "acl_wf acls" and "i < length acls"
    and "acl_entity (acls ! i) = get_canonical_entity env entity"
  shows "search_acl env acls entity = Some i"
proof (cases "search_acl env acls entity")
  case None
  then show ?thesis
    using assms(2,3) by (auto simp: search_acl_None)
next
  case (Some j)
  then show ?thesis
    using assms search_acl_Some [OF Some] nth_eq_iff_index_eq [of "map acl_entity acls" i j]
    by (simp add: acl_wf_def)
qed

text \<open>The two constructors make an entry of the canonical entity, with the role.\<close>

definition acl_factory :: "acl_env \<Rightarrow> (string \<Rightarrow> string \<Rightarrow> err + acl_entry) \<Rightarrow> bool" where
  "acl_factory env create \<longleftrightarrow> (\<forall>entity role acl. create entity role = Inr acl \<longrightarrow>
     acl_entity acl = get_canonical_entity env entity \<and> acl_role acl = role)"

lemma create_bucket_acl_factory:
  "acl_factory env (\<lambda>entity role. create_bucket_acl env bucket_name entity role c)"
  by (auto simp: acl_factory_def create_bucket_acl_def make_entry_def Let_def split: if_splits)

lemma create_object_acl_factory:
  "acl_factory env (\<lambda>entity role. create_object_acl env bucket_name object_name g entity role c)"
  by (auto simp: acl_factory_def create_object_acl_def create_default_object_acl_def
      create_object_acl_from_default_object_acl_def make_entry_def Let_def bindE_eq_Inr
      split: if_splits)

lemma upsert_acl_wf:
  assumes "acl_wf acls" and "acl_factory env create"
    and "upsert_acl env create acls entity role = Inr (acl, acls')"
  shows "acl_wf acls'"
proof (cases "search_acl env acls entity")
  case None
  then have "acls' = acls @ [acl]" "acl_entity acl = get_canonical_entity env entity"
    using assms(2,3) by (auto simp: upsert_acl_def Let_def bindE_eq_Inr acl_factory_def)
  then show ?thesis
    using assms(1) None unfolding search_acl_None acl_wf_def by auto
next
  case (Some i)
  then have "acls' = acls[i := acl]" "acl_entity acl = acl_entity (acls ! i)" "i < length acls"
    using assms search_acl_Some [OF Some]
    by (auto simp: upsert_acl_def Let_def bindE_eq_Inr acl_factory_def)
  then have "map acl_entity acls' = map acl_entity acls"
    by (simp add: map_update list_update_same_conv)
  then show ?thesis using assms(1) by (simp add: acl_wf_def)
qed

lemma upsert_acl_get:
  assumes "acl_wf acls" and "acl_factory env create"
    and "upsert_acl env create acls entity role = Inr (acl, acls')"
  shows "get_acl env acls' entity c = Inr acl \<and> acl_role acl = role"
proof -
  have acl: "acl_entity acl = get_canonical_entity env entity" "acl_role acl = role"
    using assms by (auto simp: upsert_acl_def Let_def bindE_eq_Inr acl_factory_def
        split: option.splits)
  have wf: "acl_wf acls'"
    using assms by (rule upsert_acl_wf)
  have "\<exists>i < length acls'. acls' ! i = acl"
  proof (cases "search_acl env acls entity")
    case None
    then have "acls' = acls @ [acl]"
      using assms(3) by (auto simp: upsert_acl_def Let_def bindE_eq_Inr)
    then show ?thesis by (auto intro!: exI [of _ "length acls"])
  next
    case (Some i)
    then have "acls' = acls[i := acl]" "i < length acls"
      using assms(3) search_acl_Some [OF Some] by (auto simp: upsert_acl_def Let_def bindE_eq_Inr)
    then show ?thesis by (auto intro!: exI [of _ i])
  qed
  then obtain i where i: "i < length acls'" "acls' ! i = acl" by blast
  then have "search_acl env acls' entity = Some i"
    using wf acl by (intro search_acl_unique) auto
  then show ?thesis
    using i acl by (simp add: get_acl_def must_search_acl_def)
qed

lemma delete_acl_spec:
  assumes "acl_wf acls" and "delete_acl env acls entity c = Inr acls'"
  shows "acl_wf acls'" and "search_acl env acls' entity = None"
    and "set acls' = {a \<in> set acls. acl_entity a \<noteq> get_canonical_entity env entity}"
proof -
  obtain i where i: "search_acl env acls entity = Some i" "acls' = take i acls @ drop (Suc i) acls"
    using assms(2) by (auto simp: delete_acl_def must_search_acl_def bindE_eq_Inr split: option.splits)
  then have nth: "i < length acls" "acl_entity (acls ! i) = get_canonical_entity env entity"
    using search_acl_Some by auto
  have acls: "acls = take i acls @ acls ! i # drop (Suc i) acls"
    using nth by (simp add: id_take_nth_drop)
  have "distinct (map acl_entity (take i acls @ acls ! i # drop (Suc i) acls))"
    using assms(1) acls by (simp add: acl_wf_def)
  then have dist: "distinct (map acl_entity acls')"
      "\<forall>a \<in> set acls'. acl_entity a \<noteq> get_canonical_entity env entity"
    using nth i(2) by (auto simp: image_iff)
  then show "acl_wf acls'" "search_acl env acls' entity = None"
    by (simp_all add: acl_wf_def search_acl_None)
  have "set acls = insert (acls ! i) (set acls')"
    using arg_cong [OF acls, of set] i(2) by auto
  then show "set acls' = {a \<in> set acls. acl_entity a \<noteq> get_canonical_entity env entity}"
    using dist nth by auto
qed

section \<open>Properties\<close>

definition sample_env :: acl_env where
  "sample_env = acl_defaults (\<lambda>_. ''d41d'')"

definition sample_acl :: "acl_entry list" where
  "sample_acl = [make_entry sample_env ''b'' ''allUsers'' ''READER'']"

text \<open>Adding or replacing an access control entry keeps one entry per entity, and the entry is
  what is then found for the entity, with the role that was asked for; for the entries of buckets
  and for those of objects.\<close>

theorem upserted_entry_is_found:
  assumes "acl_wf acls"
    and "create = (\<lambda>entity role. create_bucket_acl env bucket_name entity role c)
       \<or> create = (\<lambda>entity role. create_object_acl env bucket_name object_name g entity role c)"
    and "upsert_acl env create acls entity role = Inr (acl, acls')"
  shows "acl_wf acls' \<and> get_acl env acls' entity d = Inr acl \<and> acl_role acl = role"
proof -
  have "acl_factory env create"
    using assms(2) create_bucket_acl_factory create_object_acl_factory by auto
  then show ?thesis
    using upsert_acl_wf [OF assms(1) _ assms(3)] upsert_acl_get [OF assms(1) _ assms(3)] by blast
qed

theorem upserted_entry_is_found_witness:
  "\<exists>acl acls'. upsert_acl sample_env (\<lambda>entity role. create_bucket_acl sample_env ''b'' entity role Rest)
        sample_acl ''user-a'' ''OWNER'' = Inr (acl, acls')
     \<and> get_acl sample_env acls' ''user-a'' Rest = Inr acl \<and> acl_role acl = ''OWNER''"
proof -
  let ?create = "\<lambda>entity role. create_bucket_acl sample_env ''b'' entity role Rest"
  obtain acl acls' where u: "upsert_acl sample_env ?create sample_acl ''user-a'' ''OWNER''
      = Inr (acl, acls')"
    by (cases "search_acl sample_env sample_acl ''user-a''")
      (auto simp: upsert_acl_def create_bucket_acl_def Let_def)
  have "acl_wf sample_acl" by (simp add: acl_wf_def sample_acl_def)
  from upserted_entry_is_found [OF this disjI1 u] u show ?thesis by blast
qed

text \<open>Deleting an access control entry removes exactly the entry of the entity: it is not found
  any more, and every other entry is still there.\<close>

theorem deleted_entry_is_gone:
  assumes "acl_wf acls" and "delete_acl env acls entity c = Inr acls'"
  shows "acl_wf acls'
    \<and> get_acl env acls' entity c
      = Inl (notfound (''ACL '' @ get_canonical_entity env entity) c)
    \<and> set acls' = {a \<in> set acls. acl_entity a \<noteq> get_canonical_entity env entity}"
  using delete_acl_spec [OF assms] by (simp_all add: get_acl_def must_search_acl_def)

theorem deleted_entry_is_gone_witness:
  "delete_acl sample_env sample_acl ''allUsers'' Rest = Inr []
   \<and> get_acl sample_env [] ''allUsers'' Rest
     = Inl (notfound (''ACL '' @ get_canonical_entity sample_env ''allUsers'') Rest)"
proof -
  have d: "delete_acl sample_env sample_acl ''allUsers'' Rest = Inr []"
    by code_simp
  have "acl_wf sample_acl" by (simp add: acl_wf_def sample_acl_def)
  from deleted_entry_is_gone [OF this d] d show ?thesis by blast
qed

end
