(* ===== verification/Codec.thy ===== *)
theory Codec
  imports Errors
begin

text \<open>
  The encodings between the REST and the gRPC forms of checksums: \<open>rest_crc32c_to_proto\<close>,
  \<open>rest_crc32c_from_proto\<close>, \<open>rest_md5_to_proto\<close> and \<open>rest_md5_from_proto\<close> of
  \<open>src/testbench/common.py\<close>, over the functions of the standard library that they call:
  \<open>base64.b64encode\<close>, \<open>base64.b64decode\<close> (which skips characters outside of the alphabet
  and stops at the padding), \<open>struct.pack(">I", n)\<close> and \<open>struct.unpack(">I", b)\<close>.
\<close>

section \<open>Base 64\<close>

definition b64_char :: "nat \<Rightarrow> char" where
  "b64_char n = (if n < 26 then char_of (65 + n)
     else if n < 52 then char_of (71 + n)
     else if n < 62 then char_of (n - 4)
     else if n = 62 then CHR ''+'' else CHR ''/'')"

definition b64_value :: "char \<Rightarrow> nat option" where
  "b64_value c = (if is_upper_az c then Some (py_ord c - 65)
     else if is_lower_az c then Some (py_ord c - 71)
     else if is_digit c then Some (py_ord c + 4)
     else if c = CHR ''+'' then Some 62
     else if c = CHR ''/'' then Some 63 else None)"

fun b64encode :: "nat list \<Rightarrow> string" where
  "b64encode [] = []"
| "b64encode [a] = [b64_char (a div 4), b64_char (a mod 4 * 16), CHR ''='', CHR ''='']"
| "b64encode [a, b] = [b64_char (a div 4), b64_char (a mod 4 * 16 + b div 16),
     b64_char (b mod 16 * 4), CHR ''='']"
| "b64encode (a # b # c # bs) = [b64_char (a div 4), b64_char (a mod 4 * 16 + b div 16),
     b64_char (b mod 16 * 4 + c div 64), b64_char (c mod 64)] @ b64encode bs"

text \<open>The loop of \<open>binascii.a2b_base64\<close>: the position in the quad, the bits left over and
  the number of pads seen; \<open>None\<close> is \<open>binascii.Error\<close>.\<close>

fun a2b :: "nat \<Rightarrow> nat \<Rightarrow> nat \<Rightarrow> string \<Rightarrow> nat list option" where
  "a2b quad left pads [] = (if quad = 0 then Some [] else None)"
| "a2b quad left pads (c # cs) =
    (if c = CHR ''='' then
       (if 2 \<le> quad \<and> 4 \<le> quad + Suc pads then Some []
        else a2b quad left (if 2 \<le> quad then Suc pads else pads) cs)
     else case b64_value c of
       None \<Rightarrow> a2b quad left pads cs
     | Some v \<Rightarrow>
         (if quad = 0 then a2b 1 v 0 cs
          else if quad = 1 then map_option ((#) (left * 4 + v div 16)) (a2b 2 (v mod 16) 0 cs)
          else if quad = 2 then map_option ((#) (left * 16 + v div 4)) (a2b 3 (v mod 4) 0 cs)
          else map_option ((#) (left * 64 + v)) (a2b 0 0 0 cs)))"

definition b64decode :: "string \<Rightarrow> nat list option" where
  "b64decode s = a2b 0 0 0 s"

definition is_bytes :: "nat list \<Rightarrow> bool" where
  "is_bytes bs \<longleftrightarrow> (\<forall>b \<in> set bs. b < 256)"

lemma is_bytes_simps [simp]:
  "is_bytes []" "is_bytes (b # bs) \<longleftrightarrow> b < 256 \<and> is_bytes bs"
  "is_bytes (xs @ ys) \<longleftrightarrow> is_bytes xs \<and> is_bytes ys"
  by (auto simp: is_bytes_def)

lemma py_ord_char_of: "n < 256 \<Longrightarrow> py_ord (char_of n) = n"
  by (simp add: py_ord_def)

lemma b64_value_char: "n < 64 \<Longrightarrow> b64_value (b64_char n) = Some n"
  by (auto simp: b64_value_def b64_char_def py_ord_char_of is_upper_az_def is_lower_az_def
      is_digit_def) (auto simp: py_ord_def)

lemma b64_char_not_pad: "n < 64 \<Longrightarrow> b64_char n \<noteq> CHR ''=''"
proof
  assume "n < 64" and "b64_char n = CHR ''=''"
  then have "b64_value (CHR ''='') = Some n"
    using b64_value_char [of n] by simp
  then show False
    by (simp add: b64_value_def is_upper_az_def is_lower_az_def is_digit_def py_ord_def)
qed

lemma b64decode_encode: "is_bytes bs \<Longrightarrow> b64decode (b64encode bs) = Some bs"
proof (induction bs rule: b64encode.induct)
  case (3 a b)
  then have "a div 4 < 64" "a mod 4 * 16 + b div 16 < 64" "b mod 16 * 4 < 64" "b div 16 < 16"
    by auto
  then show ?case
    using 3 by (simp add: b64decode_def b64_value_char b64_char_not_pad)
next
  case (4 a b c bs)
  have lt: "a div 4 < 64" "a mod 4 * 16 + b div 16 < 64" "b mod 16 * 4 + c div 64 < 64" "c mod 64 < 64"
    "b div 16 < 16" "c div 64 < 4"
    using 4 by auto
  then show ?case
    using 4 by (simp add: b64decode_def b64_value_char b64_char_not_pad)
qed (simp_all add: b64decode_def b64_value_char b64_char_not_pad)

section \<open>Big endian 32-bit integers\<close>

definition pack_be32 :: "int \<Rightarrow> nat list option" where
  "pack_be32 n = (if 0 \<le> n \<and> n < 2 ^ 32
     then let m = nat n in Some [m div 2 ^ 24, m div 2 ^ 16 mod 256, m div 2 ^ 8 mod 256, m mod 256]
     else None)"

fun unpack_be32 :: "nat list \<Rightarrow> int option" where
  "unpack_be32 [a, b, c, d] = Some (int (((a * 256 + b) * 256 + c) * 256 + d))"
| "unpack_be32 _ = None"

lemma be32_digits: "((m div 2 ^ 24 * 256 + m div 2 ^ 16 mod 256) * 256 + m div 2 ^ 8 mod 256) * 256
    + m mod 256 = (m :: nat)"
proof -
  have "m div 2 ^ 24 * 256 + m div 2 ^ 16 mod 256 = m div 2 ^ 16"
    using div_mult_mod_eq [of "m div 2 ^ 16" 256] by (simp add: div_mult2_eq [symmetric])
  moreover have "m div 2 ^ 16 * 256 + m div 2 ^ 8 mod 256 = m div 2 ^ 8"
    using div_mult_mod_eq [of "m div 2 ^ 8" 256] by (simp add: div_mult2_eq [symmetric])
  moreover have "m div 2 ^ 8 * 256 + m mod 256 = m"
    using div_mult_mod_eq [of m 256] by simp
  ultimately show ?thesis by simp
qed

lemma unpack_pack: "pack_be32 n = Some bs \<Longrightarrow> unpack_be32 bs = Some n"
  using be32_digits [of "nat n"] by (auto simp: pack_be32_def Let_def split: if_splits)

lemma pack_bytes: "pack_be32 n = Some bs \<Longrightarrow> is_bytes bs"
  by (auto simp: pack_be32_def Let_def less_mult_imp_div_less split: if_splits)

section \<open>Checksums\<close>

text \<open>\<open>struct.error\<close> is not a subclass of \<open>ValueError\<close>, but no handler tells the two
  apart.\<close>

definition rest_crc32c_to_proto :: "string \<Rightarrow> err + int" where
  "rest_crc32c_to_proto crc32c = (case b64decode crc32c of
     None \<Rightarrow> Inl (Exc BinasciiError)
   | Some bs \<Rightarrow> (case unpack_be32 bs of None \<Rightarrow> Inl (Exc ValueError) | Some n \<Rightarrow> Inr n))"

definition rest_crc32c_from_proto :: "int \<Rightarrow> err + string" where
  "rest_crc32c_from_proto crc32c = (case pack_be32 crc32c of
     None \<Rightarrow> Inl (Exc ValueError) | Some bs \<Rightarrow> Inr (b64encode bs))"

definition rest_md5_to_proto :: "string \<Rightarrow> err + nat list" where
  "rest_md5_to_proto md5 = (case b64decode md5 of
     None \<Rightarrow> Inl (Exc BinasciiError) | Some bs \<Rightarrow> Inr bs)"

definition rest_md5_from_proto :: "nat list \<Rightarrow> string" where
  "rest_md5_from_proto md5 = b64encode md5"

lemma crc32c_to_from:
  "rest_crc32c_from_proto n = Inr s \<Longrightarrow> rest_crc32c_to_proto s = Inr n"
  by (auto simp: rest_crc32c_from_proto_def rest_crc32c_to_proto_def b64decode_encode pack_bytes
      unpack_pack split: option.splits)

lemma crc32c_from_total: "0 \<le> n \<Longrightarrow> n < 2 ^ 32 \<Longrightarrow> \<exists>s. rest_crc32c_from_proto n = Inr s"
  by (simp add: rest_crc32c_from_proto_def pack_be32_def Let_def)

lemma md5_to_from: "is_bytes md5 \<Longrightarrow> rest_md5_to_proto (rest_md5_from_proto md5) = Inr md5"
  by (simp add: rest_md5_to_proto_def rest_md5_from_proto_def b64decode_encode)

section \<open>Properties\<close>

text \<open>The checksums of an object survive the trip from the message to the JSON resource and
  back: every 32-bit CRC32C has a text form that is read as the same number, and every MD5 hash
  is read back from its base64 text.\<close>

theorem checksums_survive_json:
  assumes "0 \<le> n" and "n < 2 ^ 32" and "is_bytes md5"
  shows "(\<exists>s. rest_crc32c_from_proto n = Inr s \<and> rest_crc32c_to_proto s = Inr n)
    \<and> rest_md5_to_proto (rest_md5_from_proto md5) = Inr md5"
  using crc32c_from_total [OF assms(1,2)] crc32c_to_from md5_to_from [OF assms(3)] by auto

theorem checksums_survive_json_witness:
  "(\<exists>s. rest_crc32c_from_proto 0x12345678 = Inr s \<and> rest_crc32c_to_proto s = Inr 0x12345678)
   \<and> rest_md5_to_proto (rest_md5_from_proto [0, 255, 7]) = Inr [0, 255, 7]"
  using checksums_survive_json [of "0x12345678" "[0, 255, 7]"] by (simp add: is_bytes_def)

end
