(* ===== verification/Media.thy ===== *)
theory Media
  imports Requests "HOL-Library.Word"
begin

unbundle bit_operations_syntax

text \<open>
  The bytes of objects and uploads: \<open>BytesMedia\<close> of \<open>src/testbench/media.py\<close>, which keeps
  them in memory, and \<open>FileMedia\<close> of \<open>src/testbench/filemedia.py\<close>, which keeps them in a
  file.  Both keep a rolling CRC32C and a rolling MD5.

  The package \<open>crc32c\<close> and the digest of MD5 are arguments.  A live \<open>hashlib.md5\<close> object is
  represented by the bytes it has been given, which is how \<open>hashlib\<close> documents it.  A file
  is the content of an inode; descriptors are not modelled, apart from the staging one that
  \<open>FileMedia\<close> appends through.
\<close>

type_synonym crc_fn = "bytes \<Rightarrow> nat \<Rightarrow> nat"
type_synonym md5_fn = "bytes \<Rightarrow> bytes"

section \<open>In memory\<close>

record bytes_media =
  bm_buf :: bytes
  bm_crc :: nat
  bm_md5 :: bytes

definition bytes_media_init :: "crc_fn \<Rightarrow> bytes \<Rightarrow> bytes_media" where
  "bytes_media_init crc32c initial = \<lparr>bm_buf = initial, bm_crc = crc32c initial 0, bm_md5 = initial\<rparr>"

definition bm_append :: "crc_fn \<Rightarrow> bytes \<Rightarrow> bytes_media \<Rightarrow> bytes_media" where
  "bm_append crc32c data m = m\<lparr>bm_buf := bm_buf m @ data, bm_crc := crc32c data (bm_crc m),
     bm_md5 := bm_md5 m @ data\<rparr>"

definition bm_slice :: "bytes_media \<Rightarrow> int \<Rightarrow> int \<Rightarrow> bytes" where
  "bm_slice m i j = py_slice (bm_buf m) i j"

text \<open>\<open>chunks\<close>: the loop \<open>while pos < end\<close>, which ends because a chunk is not empty (the
  code would not return for a chunk size of 0, which no caller passes).\<close>

function chunk_loop :: "(nat \<Rightarrow> nat \<Rightarrow> bytes) \<Rightarrow> nat \<Rightarrow> nat \<Rightarrow> nat \<Rightarrow> bytes list" where
  "chunk_loop get pos end sz =
     (if pos < end \<and> 0 < sz
      then let stop = min (pos + sz) end in get pos stop # chunk_loop get stop end sz
      else [])"
  by pat_completeness auto
termination
  by (relation "measure (\<lambda>(_, pos, end, _). end - pos)") auto

declare chunk_loop.simps [simp del]

definition bm_chunks :: "bytes_media \<Rightarrow> nat \<Rightarrow> nat \<Rightarrow> nat \<Rightarrow> bytes list" where
  "bm_chunks m begin end sz =
     chunk_loop (\<lambda>pos stop. py_slice (bm_buf m) (int pos) (int stop)) begin end sz"

definition bm_md5_digest :: "md5_fn \<Rightarrow> bytes_media \<Rightarrow> bytes" where
  "bm_md5_digest md5 m = md5 (bm_md5 m)"

section \<open>In a file\<close>

datatype md5_state = Frozen bytes | Live bytes

record file_media =
  fm_inode :: nat
  fm_size :: nat
  fm_crc :: nat
  fm_md5 :: md5_state
  fm_staging :: "string option"

type_synonym inodes = "nat \<Rightarrow> bytes"

definition pread :: "inodes \<Rightarrow> nat \<Rightarrow> nat \<Rightarrow> nat \<Rightarrow> bytes" where
  "pread fs inode len offset = take len (drop offset (fs inode))"

definition fm_pread :: "file_media \<Rightarrow> inodes \<Rightarrow> nat \<Rightarrow> nat \<Rightarrow> bytes" where
  "fm_pread m fs begin end =
     (if end \<le> begin \<or> fm_size m = 0 then []
      else pread fs (fm_inode m) (min end (fm_size m) - begin) begin)"

text \<open>\<open>key.indices(self._size)\<close> of a slice is the clamping that \<open>bytes\<close> does as well.\<close>

definition fm_slice :: "file_media \<times> inodes \<Rightarrow> int \<Rightarrow> int \<Rightarrow> bytes" where
  "fm_slice m i j = (case m of (m, fs) \<Rightarrow>
     fm_pread m fs (clamp_index (fm_size m) i) (clamp_index (fm_size m) j))"

definition fm_chunks :: "file_media \<times> inodes \<Rightarrow> nat \<Rightarrow> nat \<Rightarrow> nat \<Rightarrow> bytes list" where
  "fm_chunks m begin end sz = (case m of (m, fs) \<Rightarrow> chunk_loop (fm_pread m fs) begin end sz)"

definition fm_md5_digest :: "md5_fn \<Rightarrow> file_media \<times> inodes \<Rightarrow> bytes" where
  "fm_md5_digest md5 m = (case fm_md5 (fst m) of Frozen d \<Rightarrow> d | Live bs \<Rightarrow> md5 bs)"

definition fm_to_bytes :: "file_media \<times> inodes \<Rightarrow> bytes" where
  "fm_to_bytes m = (case m of (m, fs) \<Rightarrow> fm_pread m fs 0 (fm_size m))"

definition fm_new_staging :: "nat \<Rightarrow> string \<Rightarrow> inodes \<Rightarrow> file_media \<times> inodes" where
  "fm_new_staging inode name fs =
     (\<lparr>fm_inode = inode, fm_size = 0, fm_crc = 0, fm_md5 = Live [], fm_staging = Some name\<rparr>, fs)"

definition fm_append :: "crc_fn \<Rightarrow> bytes \<Rightarrow> file_media \<times> inodes \<Rightarrow> err + file_media \<times> inodes" where
  "fm_append crc32c data m = (case m of (m, fs) \<Rightarrow>
     (case fm_staging m of
        None \<Rightarrow> Inl (Exc RuntimeError)
      | Some _ \<Rightarrow> Inr
          (m\<lparr>fm_size := fm_size m + length data, fm_crc := crc32c data (fm_crc m),
             fm_md5 := (case fm_md5 m of Live bs \<Rightarrow> Live (bs @ data) | Frozen d \<Rightarrow> Frozen d)\<rparr>,
           fs(fm_inode m := fs (fm_inode m) @ data))))"

text \<open>\<open>finalize\<close> and \<open>seal\<close> freeze the digest and drop the staging name; the inode survives
  the rename and the unlink.\<close>

definition fm_freeze :: "md5_fn \<Rightarrow> file_media \<times> inodes \<Rightarrow> file_media \<times> inodes" where
  "fm_freeze md5 m = (if fm_staging (fst m) = None then m
     else ((fst m)\<lparr>fm_md5 := Frozen (fm_md5_digest md5 m), fm_staging := None\<rparr>, snd m))"

text \<open>\<open>_from_open_fd\<close>: one pass over the file in blocks.  The size comes from \<open>fstat\<close>, so
  a block inside of it is never empty.\<close>

definition READ_CHUNK :: nat where
  "READ_CHUNK = 1024 * 1024"

function checksum_loop ::
    "crc_fn \<Rightarrow> nat \<Rightarrow> inodes \<Rightarrow> nat \<Rightarrow> nat \<Rightarrow> nat \<Rightarrow> nat \<Rightarrow> bytes \<Rightarrow> nat \<times> bytes" where
  "checksum_loop crc32c block fs inode sz off crc md5_state =
     (if off < sz \<and> pread fs inode (min block (sz - off)) off \<noteq> []
      then let buf = pread fs inode (min block (sz - off)) off
           in checksum_loop crc32c block fs inode sz (off + length buf) (crc32c buf crc)
                (md5_state @ buf)
      else (crc, md5_state))"
  by pat_completeness auto
termination
  by (relation "measure (\<lambda>(_, _, _, _, sz, off, _, _). sz - off)")
    (auto simp: length_greater_0_conv [symmetric] simp del: length_greater_0_conv)

declare checksum_loop.simps [simp del]

definition fm_from_path :: "crc_fn \<Rightarrow> md5_fn \<Rightarrow> nat \<Rightarrow> inodes \<Rightarrow> file_media \<times> inodes" where
  "fm_from_path crc32c md5 inode fs =
     (let sz = length (fs inode);
          (crc, state) = checksum_loop crc32c READ_CHUNK fs inode sz 0 0 []
      in (\<lparr>fm_inode = inode, fm_size = sz, fm_crc = crc, fm_md5 = Frozen (md5 state),
           fm_staging = None\<rparr>, fs))"

section \<open>CRC32C\<close>

text \<open>The chaining law that both media rely on, \<open>crc32c(b, crc32c(a, s)) = crc32c(a + b, s)\<close>,
  as an interface; the Castagnoli polynomial, bit by bit, is an instance of it.\<close>

locale checksums =
  fixes crc32c :: crc_fn and md5 :: md5_fn
  assumes crc_nil: "crc32c [] 0 = 0"
    and crc_chain: "crc32c b (crc32c a s) = crc32c (a @ b) s"

definition crc_bit :: "32 word \<Rightarrow> 32 word" where
  "crc_bit w = (if bit w 0 then drop_bit 1 w XOR 0x82F63B78 else drop_bit 1 w)"

definition crc_byte :: "32 word \<Rightarrow> nat \<Rightarrow> 32 word" where
  "crc_byte w b = (crc_bit ^^ 8) (w XOR word_of_nat b)"

definition castagnoli :: crc_fn where
  "castagnoli data s = unat (NOT (foldl crc_byte (NOT (word_of_nat s)) data))"

lemma castagnoli_chain: "castagnoli b (castagnoli a s) = castagnoli (a @ b) s"
  by (simp add: castagnoli_def)

lemma castagnoli_nil: "castagnoli [] 0 = 0"
  by (simp add: castagnoli_def)

section \<open>The interface of a media\<close>

text \<open>What the upload and the download code rely on, for any implementation: a media stands
  for a string of bytes, appending appends, the rolling checksums are those of the bytes, and
  the chunks of a range put together are the slice of the range.\<close>

locale readable_media = checksums crc32c md5 for crc32c md5 +
  fixes inv :: "'m \<Rightarrow> bool"
    and bytes_of :: "'m \<Rightarrow> bytes"
    and len :: "'m \<Rightarrow> nat"
    and slice :: "'m \<Rightarrow> int \<Rightarrow> int \<Rightarrow> bytes"
    and chunks :: "'m \<Rightarrow> nat \<Rightarrow> nat \<Rightarrow> nat \<Rightarrow> bytes list"
    and crc :: "'m \<Rightarrow> nat"
    and digest :: "'m \<Rightarrow> bytes"
  assumes len_bytes: "inv m \<Longrightarrow> len m = length (bytes_of m)"
    and slice_bytes: "inv m \<Longrightarrow> slice m i j = py_slice (bytes_of m) i j"
    and chunks_bytes: "inv m \<Longrightarrow> b \<le> e \<Longrightarrow> e \<le> length (bytes_of m) \<Longrightarrow> 0 < n \<Longrightarrow>
          concat (chunks m b e n) = py_slice (bytes_of m) (int b) (int e)"
    and crc_bytes: "inv m \<Longrightarrow> crc m = crc32c (bytes_of m) 0"
    and digest_bytes: "inv m \<Longrightarrow> digest m = md5 (bytes_of m)"
begin

lemma chunks_whole: "inv m \<Longrightarrow> 0 < n \<Longrightarrow> concat (chunks m 0 (len m) n) = bytes_of m"
  by (simp add: chunks_bytes len_bytes py_slice_all)

lemma chunks_slice:
  "inv m \<Longrightarrow> b \<le> e \<Longrightarrow> e \<le> len m \<Longrightarrow> 0 < n \<Longrightarrow> concat (chunks m b e n) = slice m (int b) (int e)"
  by (simp add: chunks_bytes slice_bytes len_bytes)

end

locale media = readable_media crc32c md5 inv bytes_of len slice chunks crc digest
  for crc32c md5 and inv :: "'m \<Rightarrow> bool" and bytes_of len slice chunks crc digest +
  fixes app :: "bytes \<Rightarrow> 'm \<Rightarrow> 'm"
  assumes app_inv: "inv m \<Longrightarrow> inv (app d m)"
    and app_bytes: "inv m \<Longrightarrow> bytes_of (app d m) = bytes_of m @ d"
begin

lemma appends: "inv m \<Longrightarrow> inv (fold app ds m) \<and> bytes_of (fold app ds m) = bytes_of m @ concat ds"
  by (induction ds arbitrary: m) (simp_all add: app_inv app_bytes)

text \<open>An object written in pieces has the checksums of the whole.\<close>

lemma rolling_checksums:
  assumes "inv m"
  shows "crc (fold app ds m) = crc32c (bytes_of m @ concat ds) 0"
    and "digest (fold app ds m) = md5 (bytes_of m @ concat ds)"
  using appends [OF assms, of ds] by (simp_all add: crc_bytes digest_bytes)

end

section \<open>The two implementations\<close>

lemma chunk_loop_concat:
  assumes get: "\<And>i j. i \<le> j \<Longrightarrow> j \<le> length bs \<Longrightarrow> get i j = py_slice bs (int i) (int j)"
    and "0 < n"
  shows "b \<le> e \<Longrightarrow> e \<le> length bs \<Longrightarrow> concat (chunk_loop get b e n) = py_slice bs (int b) (int e)"
proof (induction "e - b" arbitrary: b rule: less_induct)
  case less
  show ?case
  proof (cases "b < e")
    case True
    let ?s = "min (b + n) e"
    have "concat (chunk_loop get ?s e n) = py_slice bs (int ?s) (int e)"
      using less assms(2) True by simp
    moreover have "py_slice bs (int b) (int ?s) @ py_slice bs (int ?s) (int e)
        = py_slice bs (int b) (int e)"
      using True py_slice_append [of "int b" "int ?s" "int e" bs] by simp
    ultimately show ?thesis
      using True assms(2) less.prems get [of b ?s]
      by (subst chunk_loop.simps) (simp add: Let_def)
  next
    case False
    then show ?thesis
      using less.prems by (simp add: chunk_loop.simps [of _ e] py_slice_nonneg)
  qed
qed

definition bm_inv :: "crc_fn \<Rightarrow> bytes_media \<Rightarrow> bool" where
  "bm_inv crc32c m \<longleftrightarrow> bm_crc m = crc32c (bm_buf m) 0 \<and> bm_md5 m = bm_buf m"

definition fm_inv :: "crc_fn \<Rightarrow> md5_fn \<Rightarrow> file_media \<times> inodes \<Rightarrow> bool" where
  "fm_inv crc32c md5 m = (case m of (m, fs) \<Rightarrow>
     fm_size m = length (fs (fm_inode m)) \<and> fm_crc m = crc32c (fs (fm_inode m)) 0
   \<and> (case fm_md5 m of Live bs \<Rightarrow> bs = fs (fm_inode m) | Frozen d \<Rightarrow> d = md5 (fs (fm_inode m)))
   \<and> (fm_staging m \<noteq> None \<longrightarrow> fm_md5 m = Live (fs (fm_inode m))))"

definition fm_bytes :: "file_media \<times> inodes \<Rightarrow> bytes" where
  "fm_bytes m = snd m (fm_inode (fst m))"

lemma bm_init_inv: "bm_inv crc32c (bytes_media_init crc32c bs)"
  by (simp add: bm_inv_def bytes_media_init_def)

sublocale checksums \<subseteq> bytes: media crc32c md5 "bm_inv crc32c" bm_buf
    "\<lambda>m. length (bm_buf m)" bm_slice bm_chunks bm_crc "bm_md5_digest md5" "bm_append crc32c"
  by unfold_locales (auto simp: bm_inv_def bm_slice_def bm_chunks_def bm_append_def
      bm_md5_digest_def crc_chain chunk_loop_concat)

lemma fm_pread_slice:
  assumes "fm_size m = length (fs (fm_inode m))" and "i \<le> j" and "j \<le> fm_size m"
  shows "fm_pread m fs i j = py_slice (fs (fm_inode m)) (int i) (int j)"
  using assms by (auto simp: fm_pread_def pread_def py_slice_nonneg min_def)

lemma fm_slice_slice:
  assumes "fm_size m = length (fs (fm_inode m))"
  shows "fm_slice (m, fs) i j = py_slice (fs (fm_inode m)) i j"
proof (cases "clamp_index (fm_size m) i \<le> clamp_index (fm_size m) j")
  case True
  then show ?thesis
    using assms fm_pread_slice [of m fs "clamp_index (fm_size m) i" "clamp_index (fm_size m) j"]
    by (simp add: clamp_index_le fm_slice_def py_slice_nonneg) (simp add: py_slice_def Let_def)
next
  case False
  then show ?thesis
    using assms by (simp add: fm_slice_def fm_pread_def py_slice_def Let_def)
qed

sublocale checksums \<subseteq> disk: readable_media crc32c md5 "fm_inv crc32c md5" fm_bytes
    "\<lambda>m. fm_size (fst m)" fm_slice fm_chunks "\<lambda>m. fm_crc (fst m)" "fm_md5_digest md5"
proof unfold_locales
  fix m :: "file_media \<times> inodes" and i j :: int and b e n :: nat
  assume inv: "fm_inv crc32c md5 m"
  then show "fm_size (fst m) = length (fm_bytes m)" "fm_crc (fst m) = crc32c (fm_bytes m) 0"
    by (auto simp: fm_inv_def fm_bytes_def split: prod.splits)
  show "fm_slice m i j = py_slice (fm_bytes m) i j"
    using inv by (cases m) (simp add: fm_inv_def fm_slice_slice fm_bytes_def)
  show "fm_md5_digest md5 m = md5 (fm_bytes m)"
    using inv by (auto simp: fm_inv_def fm_md5_digest_def fm_bytes_def split: md5_state.splits prod.splits)
  show "concat (fm_chunks m b e n) = py_slice (fm_bytes m) (int b) (int e)"
    if "b \<le> e" "e \<le> length (fm_bytes m)" "0 < n"
  proof (cases m)
    case (Pair f fs)
    then show ?thesis
      using inv that chunk_loop_concat [of "fs (fm_inode f)" "fm_pread f fs" n b e]
      by (simp add: fm_inv_def fm_chunks_def fm_bytes_def fm_pread_slice)
  qed
qed

text \<open>A file media that is still staged; the caller of \<open>append\<close> has one.\<close>

definition fm_staged :: "crc_fn \<Rightarrow> md5_fn \<Rightarrow> file_media \<times> inodes \<Rightarrow> bool" where
  "fm_staged crc32c md5 m \<longleftrightarrow> fm_inv crc32c md5 m \<and> fm_staging (fst m) \<noteq> None"

definition fm_app :: "crc_fn \<Rightarrow> bytes \<Rightarrow> file_media \<times> inodes \<Rightarrow> file_media \<times> inodes" where
  "fm_app crc32c data m = (case fm_append crc32c data m of Inl _ \<Rightarrow> m | Inr m' \<Rightarrow> m')"

lemma fm_append_staged:
  "fm_staged crc32c md5 m \<Longrightarrow> fm_append crc32c data m = Inr (fm_app crc32c data m)"
  by (auto simp: fm_staged_def fm_append_def fm_app_def split: prod.splits option.splits)

sublocale checksums \<subseteq> staged: media crc32c md5 "fm_staged crc32c md5" fm_bytes
    "\<lambda>m. fm_size (fst m)" fm_slice fm_chunks "\<lambda>m. fm_crc (fst m)" "fm_md5_digest md5"
    "fm_app crc32c"
proof unfold_locales
  fix m :: "file_media \<times> inodes" and d
  assume staged: "fm_staged crc32c md5 m"
  then show "fm_staged crc32c md5 (fm_app crc32c d m)"
      "fm_bytes (fm_app crc32c d m) = fm_bytes m @ d"
    by (auto simp: fm_staged_def fm_app_def fm_append_def fm_inv_def fm_bytes_def crc_chain
        split: prod.splits option.splits)
qed (auto simp: fm_staged_def disk.len_bytes disk.slice_bytes disk.chunks_bytes disk.crc_bytes
    disk.digest_bytes)

interpretation castagnoli: checksums castagnoli md5 for md5
  by unfold_locales (rule castagnoli_nil castagnoli_chain)+

lemma new_staging_staged:
  assumes "fs inode = []" and "crc32c [] 0 = 0"
  shows "fm_staged crc32c md5 (fm_new_staging inode name fs)"
  using assms by (simp add: fm_staged_def fm_inv_def fm_new_staging_def)

lemma fm_freeze_inv:
  "fm_inv crc32c md5 m \<Longrightarrow> fm_inv crc32c md5 (fm_freeze md5 m)
     \<and> fm_bytes (fm_freeze md5 m) = fm_bytes m"
  by (auto simp: fm_inv_def fm_freeze_def fm_bytes_def fm_md5_digest_def split: prod.splits)

text \<open>Hydration computes what appending had computed.\<close>

lemma checksum_loop_result:
  assumes "\<And>a b s. crc32c b (crc32c a s) = crc32c (a @ b) s" and "0 < block"
  shows "off \<le> length (fs inode) \<Longrightarrow>
    checksum_loop crc32c block fs inode (length (fs inode)) off (crc32c (take off (fs inode)) 0)
      (take off (fs inode)) = (crc32c (fs inode) 0, fs inode)"
proof (induction "length (fs inode) - off" arbitrary: off rule: less_induct)
  case less
  let ?n = "length (fs inode)"
  let ?buf = "pread fs inode (min block (?n - off)) off"
  show ?case
  proof (cases "off < ?n")
    case True
    have len: "length ?buf = min block (?n - off)"
      by (simp add: pread_def)
    have buf: "take off (fs inode) @ ?buf = take (off + length ?buf) (fs inode)"
      using len by (simp add: pread_def take_add)
    have "?buf \<noteq> []"
      using True assms(2) by (simp add: pread_def)
    moreover have "checksum_loop crc32c block fs inode ?n (off + length ?buf)
        (crc32c (take (off + length ?buf) (fs inode)) 0) (take (off + length ?buf) (fs inode))
      = (crc32c (fs inode) 0, fs inode)"
      using True assms(2) len by (intro less.hyps) auto
    ultimately show ?thesis
      using True by (subst checksum_loop.simps) (simp add: Let_def assms(1) buf)
  next
    case False
    then show ?thesis
      using less.prems by (simp add: checksum_loop.simps)
  qed
qed

lemma fm_from_path_inv:
  assumes "\<And>a b s. crc32c b (crc32c a s) = crc32c (a @ b) s" and "crc32c [] 0 = 0"
  shows "fm_inv crc32c md5 (fm_from_path crc32c md5 inode fs)"
  using checksum_loop_result [of crc32c READ_CHUNK 0 fs inode] assms
  by (simp add: fm_from_path_def fm_inv_def READ_CHUNK_def)

section \<open>Properties\<close>

text \<open>C33: A media that is written in pieces has at every moment the length, the CRC32C and the MD5
  of all its bytes, and reading it in chunks of any size gives the bytes back, for the media in
  memory and for the media in a file, with the Castagnoli polynomial and any MD5 function.\<close>

theorem written_media_is_whole:
  assumes "fs inode = []" and "0 < n"
    and "m = fold (bm_append castagnoli) ds (bytes_media_init castagnoli [])"
    and "f = fold (fm_app castagnoli) ds (fm_new_staging inode name fs)"
  shows "bm_crc m = castagnoli (concat ds) 0 \<and> bm_md5_digest md5 m = md5 (concat ds)
      \<and> concat (bm_chunks m 0 (length (bm_buf m)) n) = concat ds
    \<and> fm_crc (fst f) = castagnoli (concat ds) 0 \<and> fm_md5_digest md5 f = md5 (concat ds)
      \<and> concat (fm_chunks f 0 (fm_size (fst f)) n) = concat ds"
proof -
  let ?m0 = "bytes_media_init castagnoli []" and ?f0 = "fm_new_staging inode name fs"
  have m0: "bm_inv castagnoli ?m0" "bm_buf ?m0 = []"
    by (rule bm_init_inv) (simp add: bytes_media_init_def)
  have m: "bm_inv castagnoli m" "bm_buf m = concat ds"
    using castagnoli.bytes.appends [OF m0(1), of ds] m0(2) by (simp_all add: assms(3))
  then have bytes: "bm_crc m = castagnoli (concat ds) 0 \<and> bm_md5_digest md5 m = md5 (concat ds)
      \<and> concat (bm_chunks m 0 (length (bm_buf m)) n) = concat ds"
    using castagnoli.bytes.chunks_whole [OF m(1) assms(2)]
      castagnoli.bytes.crc_bytes [OF m(1)] castagnoli.bytes.digest_bytes [OF m(1), of md5] by simp
  have f0: "fm_staged castagnoli md5 ?f0" "fm_bytes ?f0 = []"
    by (intro new_staging_staged castagnoli_nil assms(1))
      (simp add: fm_new_staging_def fm_bytes_def assms(1))
  have f: "fm_staged castagnoli md5 f" "fm_bytes f = concat ds"
    using castagnoli.staged.appends [OF f0(1), of ds] f0(2) by (simp_all add: assms(4))
  then have "fm_crc (fst f) = castagnoli (concat ds) 0 \<and> fm_md5_digest md5 f = md5 (concat ds)
      \<and> concat (fm_chunks f 0 (fm_size (fst f)) n) = concat ds"
    using castagnoli.staged.chunks_whole [OF f(1) assms(2)]
      castagnoli.staged.crc_bytes [OF f(1)] castagnoli.staged.digest_bytes [OF f(1)] by simp
  with bytes show ?thesis by blast
qed

theorem written_media_is_whole_witness:
  "concat (bm_chunks (fold (bm_append castagnoli) [[1, 2], [3]] (bytes_media_init castagnoli [])) 0 3 2)
     = [1, 2, 3]"
  using written_media_is_whole [of "\<lambda>_. []" 0 2, OF _ _ refl refl, of "[[1, 2], [3]]" "\<lambda>b. b"]
  by (simp add: bytes_media_init_def bm_append_def) (simp add: bm_chunks_def eval_nat_numeral)

text \<open>Hydration after a restart computes from the file exactly the size and the checksums that
  appending had computed.\<close>

theorem hydration_recomputes_checksums:
  assumes "fm_inv castagnoli md5 (m, fs)"
  shows "fm_size (fst (fm_from_path castagnoli md5 (fm_inode m) fs)) = fm_size m
    \<and> fm_crc (fst (fm_from_path castagnoli md5 (fm_inode m) fs)) = fm_crc m
    \<and> fm_md5_digest md5 (fm_from_path castagnoli md5 (fm_inode m) fs) = fm_md5_digest md5 (m, fs)"
proof -
  have inv: "fm_inv castagnoli md5 (fm_from_path castagnoli md5 (fm_inode m) fs)"
    by (rule fm_from_path_inv) (simp_all add: castagnoli_chain castagnoli_nil)
  moreover have "fm_bytes (fm_from_path castagnoli md5 (fm_inode m) fs) = fm_bytes (m, fs)"
    by (simp add: fm_bytes_def fm_from_path_def Let_def split: prod.split)
  ultimately show ?thesis
    using castagnoli.disk.len_bytes [OF assms] castagnoli.disk.len_bytes [OF inv]
      castagnoli.disk.crc_bytes [OF assms] castagnoli.disk.crc_bytes [OF inv]
      castagnoli.disk.digest_bytes [OF assms] castagnoli.disk.digest_bytes [OF inv]
    by simp_all
qed

theorem hydration_recomputes_checksums_witness:
  "fm_crc (fst (fm_from_path castagnoli (\<lambda>b. b) 0 (\<lambda>_. [1, 2, 3]))) = castagnoli [1, 2, 3] 0"
proof -
  let ?m = "\<lparr>fm_inode = 0, fm_size = 3, fm_crc = castagnoli [1, 2, 3] 0,
      fm_md5 = Frozen [1, 2, 3], fm_staging = None\<rparr>"
  have "fm_inv castagnoli (\<lambda>b. b) (?m, \<lambda>_. [1, 2, 3])"
    by (simp add: fm_inv_def)
  from hydration_recomputes_checksums [OF this] show ?thesis by simp
qed

end
