(* ===== verification/Resources.thy ===== *)
theory Resources
  imports Acl Codec Media
begin

text \<open>
  The resources that the database keeps: the fields of the messages \<open>Object\<close> and \<open>Bucket\<close> of
  \<open>storage_pb2\<close> that the code under \<open>src/testbench\<close> and \<open>src/gcs\<close> reads or writes, and the
  classes of \<open>src/gcs/object.py\<close> and \<open>src/gcs/bucket.py\<close> that wrap them.

  A message field that tests its presence with \<open>HasField\<close> is an option.  Times are
  microseconds since the epoch.
\<close>

record context_payload =
  cp_value :: string
  cp_create_time :: int
  cp_update_time :: int

record obj_meta =
  om_name :: string
  om_bucket :: string
  om_generation :: int
  om_metageneration :: int
  om_etag :: string
  om_size :: nat
  om_storage_class :: string
  om_content_type :: string
  om_content_encoding :: string
  om_content_disposition :: string
  om_content_language :: string
  om_cache_control :: string
  om_acl :: "acl_entry list"
  om_owner :: string
  om_metadata :: "(string \<times> string) list"
  om_contexts :: "(string \<times> context_payload) list option"
  om_checksums :: "(int option \<times> bytes) option"
  om_create_time :: int
  om_update_time :: int
  om_finalize_time :: "int option"
  om_soft_delete_time :: "int option"
  om_hard_delete_time :: "int option"
  om_retention_expire_time :: "int option"
  om_custom_time :: "int option"
  om_customer_encryption :: "(string \<times> bytes) option"
  om_kms_key :: string
  om_temporary_hold :: bool
  om_event_based_hold :: "bool option"

text \<open>\<open>storage_pb2.Object()\<close>: every field at its default.\<close>

definition new_obj_meta :: obj_meta where
  "new_obj_meta = \<lparr>om_name = [], om_bucket = [], om_generation = 0, om_metageneration = 0,
     om_etag = [], om_size = 0, om_storage_class = [], om_content_type = [],
     om_content_encoding = [], om_content_disposition = [], om_content_language = [],
     om_cache_control = [], om_acl = [], om_owner = [], om_metadata = [], om_contexts = None,
     om_checksums = None, om_create_time = 0, om_update_time = 0, om_finalize_time = None,
     om_soft_delete_time = None, om_hard_delete_time = None, om_retention_expire_time = None,
     om_custom_time = None, om_customer_encryption = None, om_kms_key = [],
     om_temporary_hold = False, om_event_based_hold = None\<rparr>"

text \<open>\<open>gcs.object.Object\<close>: \<open>upload\<close> is the identifier of the upload that an appendable
  object belongs to, and \<open>upload_gen\<close> counts the streams that took the upload over.\<close>

record blob =
  b_metadata :: obj_meta
  b_media :: bytes_media
  b_upload :: "string option"
  b_upload_gen :: nat

definition b_name :: "blob \<Rightarrow> string" where
  "b_name b = om_name (b_metadata b)"

definition b_generation :: "blob \<Rightarrow> int" where
  "b_generation b = om_generation (b_metadata b)"

definition b_metageneration :: "blob \<Rightarrow> int" where
  "b_metageneration b = om_metageneration (b_metadata b)"

definition map_metadata :: "(obj_meta \<Rightarrow> obj_meta) \<Rightarrow> blob \<Rightarrow> blob" where
  "map_metadata f b = b\<lparr>b_metadata := f (b_metadata b)\<rparr>"

lemma map_metadata_simps [simp]:
  "b_metadata (map_metadata f b) = f (b_metadata b)"
  "b_media (map_metadata f b) = b_media b"
  by (simp_all add: map_metadata_def)

text \<open>\<open>gcs.bucket.Bucket\<close> and its metadata; durations are seconds.\<close>

record bucket =
  bk_name :: string
  bk_metageneration :: int
  bk_project :: string
  bk_storage_class :: string
  bk_acl :: "acl_entry list"
  bk_default_object_acl :: "acl_entry list"
  bk_versioning :: bool
  bk_ubla :: bool
  bk_retention :: "int option"
  bk_retention_locked :: bool
  bk_soft_delete :: "int option"
  bk_autoclass :: bool

end
