(* ===== verification/Json.thy ===== *)
theory Json
  imports Codec Requests
begin

text \<open>
  JSON resources: the functions of \<open>src/testbench/common.py\<close> that walk, filter, rename and
  patch the dictionary form of a resource (lines 197 to 283 and 1193 to 1314).

  A JSON value is a tree; a JSON object is a dictionary from texts to values.  Numbers are
  integers: the resources have no other.
\<close>

datatype json = JNull | JBool bool | JNum int | JStr string
  | JList "json list" | JObj "(string \<times> json) list"

type_synonym dict = "(string \<times> json) list"

fun is_obj :: "json \<Rightarrow> bool" where
  "is_obj (JObj _) = True"
| "is_obj _ = False"

section \<open>Keys and fields\<close>

text \<open>\<open>nested_key\<close>: the composite keys of a value, the keys of its parts first.\<close>

fun nested_key :: "json \<Rightarrow> string list"
  and list_keys :: "nat \<Rightarrow> json list \<Rightarrow> string list"
  and dict_keys :: "dict \<Rightarrow> string list" where
  "nested_key (JList xs) = list_keys 0 xs"
| "nested_key (JObj d) = dict_keys d"
| "nested_key _ = []"
| "list_keys i [] = []"
| "list_keys i (x # xs) =
     (let ix = ''['' @ show_nat i @ '']''
      in (case x of
            JObj _ \<Rightarrow> map (\<lambda>item. ix @ ''.'' @ item) (nested_key x)
          | JList _ \<Rightarrow> map (\<lambda>item. ix @ item) (nested_key x)
          | _ \<Rightarrow> []) @ ix # list_keys (Suc i) xs)"
| "dict_keys [] = []"
| "dict_keys ((key, x) # d) =
     (case x of
        JObj _ \<Rightarrow> map (\<lambda>item. key @ ''.'' @ item) (nested_key x)
      | JList _ \<Rightarrow> map (\<lambda>item. key @ item) (nested_key x)
      | _ \<Rightarrow> []) @ key # dict_keys d"

text \<open>\<open>parse_fields\<close> keeps a stack of characters, here with its top first.  A closing
  parenthesis takes the fields up to the opening one, and the name before it.\<close>

fun pop_children :: "string \<Rightarrow> string \<Rightarrow> string list \<Rightarrow> string list \<times> string" where
  "pop_children [] field children = (children, [])"
| "pop_children (c # res) field children =
     (if c \<noteq> CHR '','' \<and> c \<noteq> CHR ''('' then pop_children res (c # field) children
      else if c = CHR ''('' then (children @ [field], res)
      else pop_children res [] (children @ [field]))"

definition in_field :: "char \<Rightarrow> bool" where
  "in_field c \<longleftrightarrow> c \<noteq> CHR '','' \<and> c \<noteq> CHR ''(''"

definition close_paren :: "string \<Rightarrow> string" where
  "close_paren res =
     (let (children, res) = pop_children res [] [];
          parent = rev (takeWhile in_field res)
      in rev (join '','' (map (\<lambda>field. parent @ ''.'' @ field) children)) @ dropWhile in_field res)"

fun parse_loop :: "string \<Rightarrow> string \<Rightarrow> string" where
  "parse_loop res [] = rev res"
| "parse_loop res (c # cs) =
     (if c \<noteq> CHR '' '' \<and> c \<noteq> CHR '')'' then
        parse_loop ((if c = CHR ''/'' then CHR ''.'' else c) # res) cs
      else if c = CHR '')'' then parse_loop (close_paren res) cs
      else parse_loop res cs)"

definition parse_fields :: "string \<Rightarrow> string list" where
  "parse_fields flds = split_on (CHR '','') (parse_loop [] flds)"

text \<open>\<open>filter_response_rest\<close>.  The third-party \<open>scalpl.Cut\<close> resolves composite keys: its
  \<open>get\<close> and \<open>del\<close> are arguments.  The code deletes the keys of a set, in no fixed order.\<close>

definition keys_to_delete :: "dict \<Rightarrow> string \<Rightarrow> string option \<Rightarrow> string list" where
  "keys_to_delete response projection flds =
     (if projection = ''noAcl'' then [''owner'', ''acl'', ''defaultObjectAcl''] else [])
     @ (case flds of
          None \<Rightarrow> []
        | Some f \<Rightarrow> filter (\<lambda>key.
            \<not> (\<exists>field \<in> set (parse_fields f). field \<noteq> ''''
                 \<and> (startswith (remove_index key) field \<or> startswith field (remove_index key))))
            (nested_key (JObj response)))"

definition filter_response_rest ::
    "(dict \<Rightarrow> string \<Rightarrow> json option) \<Rightarrow> (dict \<Rightarrow> string \<Rightarrow> dict) \<Rightarrow> dict \<Rightarrow> string \<Rightarrow> string option \<Rightarrow> dict"
  where
  "filter_response_rest cut_get cut_del response projection flds =
     foldl (\<lambda>d key. case cut_get d key of
              None \<Rightarrow> d | Some JNull \<Rightarrow> d | Some _ \<Rightarrow> cut_del d key)
       response (remdups (keys_to_delete response projection flds))"

section \<open>Renaming\<close>

text \<open>\<open>rest_adjust\<close>: an action returns the new item, or \<open>None\<close> to drop it.\<close>

fun rest_adjust ::
    "dict \<Rightarrow> (string \<times> (json \<Rightarrow> err + (string \<times> json) option)) list \<Rightarrow> err + dict" where
  "rest_adjust data [] = Inr data"
| "rest_adjust data ((key, action) # adjustments) =
     (let modified = AList.delete key data
      in case map_of data key of
           None \<Rightarrow> rest_adjust modified adjustments
         | Some JNull \<Rightarrow> rest_adjust modified adjustments
         | Some v \<Rightarrow> bindE (action v) (\<lambda>r. case r of
             None \<Rightarrow> rest_adjust modified adjustments
           | Some (k, w) \<Rightarrow> rest_adjust (AList.update k w modified) adjustments))"

definition drop_field :: "json \<Rightarrow> err + (string \<times> json) option" where
  "drop_field x = Inr None"

definition rename :: "string \<Rightarrow> json \<Rightarrow> err + (string \<times> json) option" where
  "rename k x = Inr (Some (k, x))"

definition preprocess_customer_encryption :: "json \<Rightarrow> err + json" where
  "preprocess_customer_encryption x = (case x of
     JObj rest \<Rightarrow> bindE (rest_adjust rest [(''keySha256'', rename ''keySha256Bytes'')])
                    (\<lambda>d. Inr (JObj d))
   | JList _ \<Rightarrow> Inl (Exc TypeError)
   | _ \<Rightarrow> Inl (Exc AttributeError))"

definition object_adjustments ::
    "(string \<times> (json \<Rightarrow> err + (string \<times> json) option)) list" where
  "object_adjustments =
    [(''kind'', drop_field), (''id'', drop_field),
     (''timeCreated'', rename ''createTime''), (''timeFinalized'', rename ''finalizeTime''),
     (''updated'', rename ''updateTime''), (''kmsKeyName'', rename ''kmsKey''),
     (''retentionExpirationTime'', rename ''retentionExpireTime''),
     (''timeDeleted'', rename ''deleteTime''),
     (''timeStorageClassUpdated'', rename ''updateStorageClassTime''),
     (''customerEncryption'', \<lambda>x. bindE (preprocess_customer_encryption x)
        (\<lambda>y. Inr (Some (''customerEncryption'', y))))]"

text \<open>\<open>a.pop(field, None)\<close> for the fields that gRPC does not have, on each entry of the ACL.\<close>

definition strip_acl_entry :: "json \<Rightarrow> err + json" where
  "strip_acl_entry a = (case a of
     JObj d \<Rightarrow> Inr (JObj (foldl (\<lambda>d field. AList.delete field d) d
                 [''kind'', ''bucket'', ''object'', ''generation'', ''etag'']))
   | JList _ \<Rightarrow> Inl (Exc TypeError)
   | _ \<Rightarrow> Inl (Exc AttributeError))"

fun map_ok :: "('a \<Rightarrow> err + 'b) \<Rightarrow> 'a list \<Rightarrow> err + 'b list" where
  "map_ok f [] = Inr []"
| "map_ok f (x # xs) = bindE (f x) (\<lambda>y. bindE (map_ok f xs) (\<lambda>ys. Inr (y # ys)))"

definition strip_acl :: "json \<Rightarrow> err + json" where
  "strip_acl acl = (case acl of
     JList xs \<Rightarrow> bindE (map_ok strip_acl_entry xs) (\<lambda>ys. Inr (JList ys))
   | JObj d \<Rightarrow> if d = [] then Inr acl else Inl (Exc AttributeError)
   | JStr s \<Rightarrow> if s = [] then Inr acl else Inl (Exc AttributeError)
   | _ \<Rightarrow> Inl (Exc TypeError))"

definition crc32c_checksum :: "json option \<Rightarrow> err + dict" where
  "crc32c_checksum crc32c = (case crc32c of
     None \<Rightarrow> Inr []
   | Some JNull \<Rightarrow> Inr []
   | Some (JStr s) \<Rightarrow> bindE (rest_crc32c_to_proto s) (\<lambda>n. Inr [(''crc32c'', JNum n)])
   | Some _ \<Rightarrow> Inl (Exc AttributeError))"

definition md5_checksum :: "json option \<Rightarrow> dict" where
  "md5_checksum md5Hash = (case md5Hash of
     None \<Rightarrow> [] | Some JNull \<Rightarrow> [] | Some v \<Rightarrow> [(''md5Hash'', v)])"

definition preprocess_object_metadata :: "dict \<Rightarrow> err + dict" where
  "preprocess_object_metadata metadata =
     bindE (rest_adjust metadata object_adjustments) (\<lambda>md.
     bindE (crc32c_checksum (map_of md ''crc32c'')) (\<lambda>crc.
       let checksums = crc @ md5_checksum (map_of metadata ''md5Hash'');
           md = AList.delete ''md5Hash'' (AList.delete ''crc32c'' md);
           md = (if checksums \<noteq> [] then AList.update ''checksums'' (JObj checksums) md else md)
       in case map_of md ''acl'' of
            None \<Rightarrow> Inr md
          | Some acl \<Rightarrow> bindE (strip_acl acl) (\<lambda>acl. Inr (AList.update ''acl'' acl md))))"

section \<open>Patching\<close>

fun rest_patch :: "string list \<Rightarrow> dict \<Rightarrow> dict \<Rightarrow> err + dict" where
  "rest_patch path patched [] = Inr patched"
| "rest_patch path patched ((key, subpatch) # patch) =
     bindE (if subpatch = JNull then Inr (AList.delete key patched)
            else case map_of patched key of
              None \<Rightarrow> (case subpatch of
                 JObj p \<Rightarrow> bindE (rest_patch (path @ [key]) [] p)
                             (\<lambda>r. Inr (AList.update key (JObj r) patched))
               | v \<Rightarrow> Inr (AList.update key v patched))
            | Some subtarget \<Rightarrow> (case (subtarget, subpatch) of
                 (JObj t, JObj p) \<Rightarrow> bindE (rest_patch (path @ [key]) t p)
                             (\<lambda>r. Inr (AList.update key (JObj r) patched))
               | (t, p) \<Rightarrow> if is_obj t = is_obj p then Inr (AList.update key p patched)
                           else Inl (Exc (Plain_exception
                                  (''Type mismatch at '' @ join ''.'' (path @ [key]))))))
       (\<lambda>patched. rest_patch path patched patch)"

section \<open>Patches are idempotent\<close>

text \<open>A dictionary has no duplicate keys, at any depth.\<close>

fun json_wf :: "json \<Rightarrow> bool" where
  "json_wf (JObj d) \<longleftrightarrow> distinct (map fst d) \<and> (\<forall>p \<in> set d. json_wf (snd p))"
| "json_wf (JList xs) \<longleftrightarrow> (\<forall>x \<in> set xs. json_wf x)"
| "json_wf _ \<longleftrightarrow> True"

lemma delete_absent: "map_of d k = None \<Longrightarrow> AList.delete k d = d"
  by (force simp: AList.delete_eq map_of_eq_None_iff filter_id_conv)

text \<open>One iteration of the loop.\<close>

definition patch_item :: "string list \<Rightarrow> dict \<Rightarrow> string \<Rightarrow> json \<Rightarrow> err + dict" where
  "patch_item path patched key subpatch =
     (if subpatch = JNull then Inr (AList.delete key patched)
      else case map_of patched key of
        None \<Rightarrow> (case subpatch of
           JObj p \<Rightarrow> bindE (rest_patch (path @ [key]) [] p)
                       (\<lambda>r. Inr (AList.update key (JObj r) patched))
         | v \<Rightarrow> Inr (AList.update key v patched))
      | Some subtarget \<Rightarrow> (case (subtarget, subpatch) of
           (JObj t, JObj p) \<Rightarrow> bindE (rest_patch (path @ [key]) t p)
                       (\<lambda>r. Inr (AList.update key (JObj r) patched))
         | (t, p) \<Rightarrow> if is_obj t = is_obj p then Inr (AList.update key p patched)
                     else Inl (Exc (Plain_exception
                            (''Type mismatch at '' @ join ''.'' (path @ [key]))))))"

lemma rest_patch_Cons: "rest_patch path patched ((key, subpatch) # patch) =
    bindE (patch_item path patched key subpatch) (\<lambda>patched. rest_patch path patched patch)"
  by (simp add: patch_item_def)

declare rest_patch.simps(2) [simp del]

lemma patch_item_other:
  "patch_item path t key sp = Inr r \<Longrightarrow> k \<noteq> key \<Longrightarrow> map_of r k = map_of t k"
  by (auto simp: patch_item_def bindE_eq_Inr update_conv' delete_conv'
      split: if_splits option.splits json.splits)

lemma rest_patch_other:
  "rest_patch path t patch = Inr r \<Longrightarrow> k \<notin> fst ` set patch \<Longrightarrow> map_of r k = map_of t k"
proof (induction patch arbitrary: t)
  case (Cons a patch)
  then show ?case
    by (cases a) (auto simp: rest_patch_Cons bindE_eq_Inr dest: patch_item_other)
qed simp

text \<open>What a dictionary looks like where a patch has been applied.\<close>

definition settled :: "dict \<Rightarrow> string \<Rightarrow> json \<Rightarrow> bool" where
  "settled r k sp \<longleftrightarrow> (case sp of
     JNull \<Rightarrow> map_of r k = None
   | JObj p \<Rightarrow> (\<exists>t. map_of r k = Some (JObj t) \<and> (\<forall>path. rest_patch path t p = Inr t))
   | v \<Rightarrow> map_of r k = Some v)"

lemma settled_cong: "map_of r k = map_of r' k \<Longrightarrow> settled r k sp = settled r' k sp"
  by (simp add: settled_def split: json.splits)

lemma patch_item_settled:
  "settled r k sp \<Longrightarrow> patch_item path r k sp = Inr r"
  by (cases sp) (auto simp: settled_def patch_item_def update_same delete_absent
      split: option.splits json.splits)

lemma rest_patch_settled:
  "\<forall>(k, sp) \<in> set patch. settled r k sp \<Longrightarrow> rest_patch path r patch = Inr r"
  by (induction patch) (auto simp: rest_patch_Cons patch_item_settled)

lemma patch_item_leaf:
  "patch_item path t key sp = Inr r \<Longrightarrow> sp \<noteq> JNull \<Longrightarrow> \<not> is_obj sp \<Longrightarrow> r = AList.update key sp t"
  by (cases sp; cases "map_of t key") (auto simp: patch_item_def split: if_splits json.splits)

lemma patch_item_obj:
  "patch_item path t key (JObj p) = Inr r \<Longrightarrow>
     \<exists>path t' r'. rest_patch path t' p = Inr r' \<and> r = AList.update key (JObj r') t"
  by (cases "map_of t key")
    (force simp: patch_item_def bindE_eq_Inr split: if_splits json.splits)+

lemma patch_item_settles:
  assumes "patch_item path t key sp = Inr r"
    and "\<And>path t p r. sp = JObj p \<Longrightarrow> rest_patch path t p = Inr r \<Longrightarrow>
           (\<forall>path. rest_patch path r p = Inr r)"
  shows "settled r key sp"
proof (cases sp)
  case JNull
  then show ?thesis
    using assms(1) by (auto simp: settled_def patch_item_def delete_conv')
next
  case (JObj p)
  then obtain path' t' r' where "rest_patch path' t' p = Inr r'" "r = AList.update key (JObj r') t"
    using assms(1) patch_item_obj by blast
  then show ?thesis
    using assms(2) [OF JObj] JObj by (simp add: settled_def update_conv')
qed (use patch_item_leaf [OF assms(1)] in \<open>simp_all add: settled_def update_conv'\<close>)

lemma rest_patch_settles:
  "rest_patch path t patch = Inr r \<Longrightarrow> json_wf (JObj patch) \<Longrightarrow>
     \<forall>(k, sp) \<in> set patch. settled r k sp"
proof (induction "size_list (size_prod (\<lambda>_. 0) size) patch" arbitrary: path t patch r rule: less_induct)
  case less
  show ?case
  proof (cases patch)
    case (Cons a ps)
    obtain key sp where a: "a = (key, sp)" by force
    obtain u where u: "patch_item path t key sp = Inr u" "rest_patch path u ps = Inr r"
      using less.prems(1) by (auto simp: Cons a rest_patch_Cons bindE_eq_Inr)
    have sub: "\<forall>path. rest_patch path r' p = Inr r'"
      if "sp = JObj p" "rest_patch path' t' p = Inr r'" for p path' t' r'
    proof -
      have "\<forall>(k, q) \<in> set p. settled r' k q"
        using less.hyps [of p path' t' r'] less.prems(2) that by (auto simp: Cons a)
      then show ?thesis using rest_patch_settled by blast
    qed
    have "settled u key sp"
      using u(1) sub by (rule patch_item_settles)
    moreover have "map_of r key = map_of u key"
      using u(2) less.prems(2) by (intro rest_patch_other) (auto simp: Cons a)
    ultimately have "settled r key sp"
      using settled_cong [of r key u sp] by simp
    moreover have "\<forall>(k, sp) \<in> set ps. settled r k sp"
      using less.hyps [of ps path u r] less.prems(2) u(2) by (simp add: Cons a)
    ultimately show ?thesis by (simp add: Cons a)
  qed simp
qed

lemma rest_patch_idempotent:
  assumes "rest_patch path t patch = Inr r" and "json_wf (JObj patch)"
  shows "rest_patch path' r patch = Inr r"
  using rest_patch_settles [OF assms] by (rule rest_patch_settled)

section \<open>Nested fields\<close>

definition pushed :: "char \<Rightarrow> bool" where
  "pushed c \<longleftrightarrow> c \<noteq> CHR '' '' \<and> c \<noteq> CHR '')'' \<and> c \<noteq> CHR ''/''"

definition plain_field :: "string \<Rightarrow> bool" where
  "plain_field w \<longleftrightarrow> (\<forall>c \<in> set w. pushed c \<and> in_field c)"

lemma parse_loop_pushed:
  "\<forall>c \<in> set w. pushed c \<Longrightarrow> parse_loop res (w @ cs) = parse_loop (rev w @ res) cs"
  by (induction w arbitrary: res) (auto simp: pushed_def)

lemma pop_children_run:
  "\<forall>c \<in> set w. in_field c \<Longrightarrow>
     pop_children (rev w @ res) field children = pop_children res (w @ field) children"
  by (induction w arbitrary: res field) (auto simp: in_field_def)

lemma pop_children_fields:
  assumes "\<forall>f \<in> set fs. \<forall>c \<in> set f. in_field c" and "fs \<noteq> []"
  shows "pop_children (rev (join '','' fs) @ CHR ''('' # res) [] children
           = (children @ rev fs, res)"
  using assms
proof (induction fs arbitrary: children rule: rev_induct)
  case (snoc f fs)
  have run: "pop_children (rev f @ r) [] children = pop_children r f children" for r
    using pop_children_run [of f r "[]"] snoc.prems by simp
  show ?case
  proof (cases "fs = []")
    case True
    then show ?thesis using run by simp
  next
    case False
    have "join '','' (fs @ [f]) = join '','' fs @ CHR '','' # f"
      using False join_append [of fs "[f]" "'',''"] by simp
    then show ?thesis
      using run snoc False by simp
  qed
qed simp

lemma takeWhile_rev_field:
  "\<forall>c \<in> set p. in_field c \<Longrightarrow> takeWhile in_field (rev p) = rev p"
  "\<forall>c \<in> set p. in_field c \<Longrightarrow> dropWhile in_field (rev p) = []"
  by (simp_all add: takeWhile_eq_all_conv)

lemma parse_fields_nested:
  assumes "plain_field p" and "\<forall>f \<in> set fs. plain_field f" and "fs \<noteq> []"
  shows "parse_fields (p @ ''('' @ join '','' fs @ '')'') = map (\<lambda>f. p @ ''.'' @ f) (rev fs)"
proof -
  have pushed: "\<forall>c \<in> set (p @ ''('' @ join '','' fs). pushed c"
  proof -
    have "pushed c" if "c \<in> set (join '','' fs)" for c
      using set_join [OF that] assms(2) by (auto simp: plain_field_def) (simp add: pushed_def)
    moreover have "pushed (CHR ''('')" "\<forall>c \<in> set p. pushed c"
      using assms(1) by (simp_all add: pushed_def plain_field_def)
    ultimately show ?thesis by (simp add: ball_Un)
  qed
  have "pop_children (rev (join '','' fs) @ CHR ''('' # rev p) [] [] = (rev fs, rev p)"
    using pop_children_fields [of fs "rev p" "[]"] assms by (simp add: plain_field_def)
  moreover have "\<forall>c \<in> set p. in_field c"
    using assms(1) by (simp add: plain_field_def)
  ultimately have close: "close_paren (rev (join '','' fs) @ CHR ''('' # rev p)
      = rev (join '','' (map (\<lambda>f. p @ ''.'' @ f) (rev fs)))"
    by (simp add: close_paren_def takeWhile_rev_field)
  have "parse_loop [] ((p @ ''('' @ join '','' fs) @ '')'')
      = join '','' (map (\<lambda>f. p @ ''.'' @ f) (rev fs))"
    using close by (subst parse_loop_pushed [OF pushed]) simp
  moreover have "\<forall>w \<in> set (map (\<lambda>f. p @ ''.'' @ f) (rev fs)). CHR '','' \<notin> set w"
    using assms(1,2) by (auto simp: plain_field_def in_field_def)
  ultimately show ?thesis
    using assms(3) split_on_join [of "map (\<lambda>f. p @ ''.'' @ f) (rev fs)" "CHR '',''"]
    by (simp add: parse_fields_def)
qed

section \<open>Properties\<close>

text \<open>Applying a patch a second time changes nothing: the result of a patch, patched again, is
  itself, at any depth of the resource.\<close>

theorem patch_is_idempotent:
  assumes "rest_patch path t patch = Inr r" and "json_wf (JObj patch)"
  shows "rest_patch path' r patch = Inr r"
  using assms by (rule rest_patch_idempotent)

theorem patch_is_idempotent_witness:
  "rest_patch [] [(''a'', JObj [(''c'', JNum 2)])]
     [(''a'', JObj [(''b'', JNull), (''c'', JNum 2)]), (''d'', JNull)]
   = Inr [(''a'', JObj [(''c'', JNum 2)])]"
proof -
  have "rest_patch [] [(''a'', JObj [(''b'', JNum 1)]), (''d'', JStr ''x'')]
     [(''a'', JObj [(''b'', JNull), (''c'', JNum 2)]), (''d'', JNull)]
   = Inr [(''a'', JObj [(''c'', JNum 2)])]"
    by code_simp
  then show ?thesis by (rule patch_is_idempotent) simp
qed

text \<open>A patch leaves every field alone that it does not name, and a field that it names with a
  plain value has that value afterwards; null removes the field.\<close>

theorem patch_sets_what_it_names:
  assumes "rest_patch path t patch = Inr r" and "json_wf (JObj patch)"
  shows "(k \<notin> fst ` set patch \<longrightarrow> map_of r k = map_of t k)
    \<and> ((k, v) \<in> set patch \<and> \<not> is_obj v \<longrightarrow> map_of r k = (if v = JNull then None else Some v))"
proof -
  have "map_of r k = (if v = JNull then None else Some v)"
    if v: "(k, v) \<in> set patch" "\<not> is_obj v"
  proof -
    have "settled r k v" using rest_patch_settles [OF assms] v(1) by auto
    then show ?thesis using v(2) by (cases v) (simp_all add: settled_def)
  qed
  then show ?thesis using rest_patch_other [OF assms(1)] by blast
qed

theorem patch_sets_what_it_names_witness:
  "map_of [(''b'', JNum 2), (''c'', JNum 3)] ''b'' = map_of [(''a'', JNum 1), (''b'', JNum 2)] ''b''
   \<and> map_of [(''b'', JNum 2), (''c'', JNum 3)] ''a'' = None"
proof -
  have "rest_patch [] [(''a'', JNum 1), (''b'', JNum 2)] [(''a'', JNull), (''c'', JNum 3)]
      = Inr [(''b'', JNum 2), (''c'', JNum 3)]"
    by code_simp
  note p = patch_sets_what_it_names [OF this]
  show ?thesis using p [of "''b''"] p [of "''a''" JNull] by simp
qed

text \<open>The fields of a partial response that are nested in parentheses become composite keys:
  p(f1,...,fn) names the keys p.fn, ..., p.f1.\<close>

theorem nested_fields_are_composite_keys:
  assumes "plain_field p" and "\<forall>f \<in> set fs. plain_field f" and "fs \<noteq> []"
  shows "parse_fields (p @ ''('' @ join '','' fs @ '')'') = map (\<lambda>f. p @ ''.'' @ f) (rev fs)"
  using assms by (rule parse_fields_nested)

theorem nested_fields_are_composite_keys_witness:
  "parse_fields ''items(name,size)'' = [''items.size'', ''items.name'']"
proof -
  have "parse_fields (''items'' @ ''('' @ join '','' [''name'', ''size''] @ '')'')
      = map (\<lambda>f. ''items'' @ ''.'' @ f) (rev [''name'', ''size''])"
    by (rule nested_fields_are_composite_keys) (simp_all add: plain_field_def pushed_def in_field_def)
  then show ?thesis by simp
qed

end
