(* ===== verification/Proto2rest.thy ===== *)
theory Proto2rest
  imports Json
begin

text \<open>
  \<open>src/testbench/proto2rest.py\<close>: from the dictionary that \<open>json_format.MessageToDict\<close> makes of
  a message to the JSON resource of the REST API.  \<open>MessageToDict\<close> is third-party code, so each
  function starts from its result; \<open>repr\<close> is the text that Python shows for a list or a
  dictionary.
\<close>

section \<open>Python operations on JSON values\<close>

text \<open>\<open>rest_adjust(x, ...)\<close> for any value: \<open>x.copy()\<close> exists for lists and dictionaries, and
  \<open>pop(key, None)\<close> for dictionaries only.\<close>

definition adjust_value ::
    "(string \<times> (json \<Rightarrow> err + (string \<times> json) option)) list \<Rightarrow> json \<Rightarrow> err + json" where
  "adjust_value adjustments x = (case x of
     JObj d \<Rightarrow> bindE (rest_adjust d adjustments) (\<lambda>d. Inr (JObj d))
   | JList _ \<Rightarrow> Inl (Exc TypeError)
   | _ \<Rightarrow> Inl (Exc AttributeError))"

text \<open>An action \<open>lambda x: (key, f(x))\<close>.\<close>

definition into :: "string \<Rightarrow> (json \<Rightarrow> err + json) \<Rightarrow> json \<Rightarrow> err + (string \<times> json) option" where
  "into key f x = bindE (f x) (\<lambda>y. Inr (Some (key, y)))"

text \<open>\<open>[f(a) for a in x]\<close>: a text is iterated by characters, a dictionary by keys.\<close>

definition for_each :: "(json \<Rightarrow> err + json) \<Rightarrow> json \<Rightarrow> err + json" where
  "for_each f x = (case x of
     JList xs \<Rightarrow> bindE (map_ok f xs) (\<lambda>ys. Inr (JList ys))
   | JObj d \<Rightarrow> bindE (map_ok (\<lambda>p. f (JStr (fst p))) d) (\<lambda>ys. Inr (JList ys))
   | JStr s \<Rightarrow> bindE (map_ok (\<lambda>c. f (JStr [c])) s) (\<lambda>ys. Inr (JList ys))
   | _ \<Rightarrow> Inl (Exc TypeError))"

text \<open>The methods of dictionaries fail on other values.\<close>

definition as_dict :: "json \<Rightarrow> err + dict" where
  "as_dict x = (case x of JObj d \<Rightarrow> Inr d | _ \<Rightarrow> Inl (Exc AttributeError))"

text \<open>\<open>acl.copy()\<close> and \<open>copy[key] = value\<close>: a list refuses a text as its index.\<close>

definition as_acl :: "json \<Rightarrow> err + dict" where
  "as_acl x = (case x of
     JObj d \<Rightarrow> Inr d | JList _ \<Rightarrow> Inl (Exc TypeError) | _ \<Rightarrow> Inl (Exc AttributeError))"

definition as_str :: "json \<Rightarrow> err + string" where
  "as_str x = (case x of JStr s \<Rightarrow> Inr s | _ \<Rightarrow> Inl (Exc AttributeError))"

text \<open>\<open>"%s" % x\<close> and \<open>"%0<w>d" % x\<close> (a bool is an int).\<close>

definition py_str :: "(json \<Rightarrow> string) \<Rightarrow> json \<Rightarrow> string" where
  "py_str repr x = (case x of
     JStr s \<Rightarrow> s | JNum n \<Rightarrow> show_int n | JNull \<Rightarrow> ''None''
   | JBool b \<Rightarrow> if b then ''True'' else ''False'' | _ \<Rightarrow> repr x)"

definition zero_pad :: "nat \<Rightarrow> int \<Rightarrow> string" where
  "zero_pad w n =
     (if n < 0 then ''-'' @ replicate (w - 1 - length (show_nat (nat (- n)))) (CHR ''0'') @ show_nat (nat (- n))
      else replicate (w - length (show_nat (nat n))) (CHR ''0'') @ show_nat (nat n))"

definition pad_arg :: "nat \<Rightarrow> json option \<Rightarrow> err + string" where
  "pad_arg w x = (case x of
     Some (JNum n) \<Rightarrow> Inr (zero_pad w n)
   | Some (JBool b) \<Rightarrow> Inr (zero_pad w (if b then 1 else 0))
   | _ \<Rightarrow> Inl (Exc TypeError))"

section \<open>Buckets\<close>

definition postprocess_rest_ubla :: "json \<Rightarrow> err + json" where
  "postprocess_rest_ubla = adjust_value [(''lockTime'', rename ''lockedTime'')]"

definition postprocess_rest_pap :: "json \<Rightarrow> err + json" where
  "postprocess_rest_pap pap = bindE (as_str pap) (\<lambda>s. Inr (JStr (py_lower s)))"

definition setdefault :: "string \<Rightarrow> json \<Rightarrow> dict \<Rightarrow> dict" where
  "setdefault key v d = (if map_of d key = None then AList.update key v d else d)"

definition postprocess_rest_iam_configuration :: "json \<Rightarrow> err + json" where
  "postprocess_rest_iam_configuration config =
     bindE (adjust_value
       [(''publicAccessPrevention'', into ''publicAccessPrevention'' postprocess_rest_pap),
        (''uniformBucketLevelAccess'', into ''uniformBucketLevelAccess'' postprocess_rest_ubla)]
       config) (\<lambda>adjusted.
     bindE (as_dict adjusted) (\<lambda>d.
     Inr (JObj (setdefault ''publicAccessPrevention'' (JStr ''inherited'') d))))"

definition postprocess_rest_encryption :: "json \<Rightarrow> err + json" where
  "postprocess_rest_encryption = adjust_value [(''defaultKmsKey'', rename ''defaultKmsKeyName'')]"

definition postprocess_rest_date :: "json \<Rightarrow> err + json" where
  "postprocess_rest_date date =
     bindE (as_dict date) (\<lambda>d.
     bindE (pad_arg 4 (map_of d ''year'')) (\<lambda>y.
     bindE (pad_arg 2 (map_of d ''month'')) (\<lambda>m.
     bindE (pad_arg 2 (map_of d ''day'')) (\<lambda>day.
     Inr (JStr (y @ ''-'' @ m @ ''-'' @ day))))))"

definition postprocess_rest_condition :: "json \<Rightarrow> err + json" where
  "postprocess_rest_condition = adjust_value
     [(''ageDays'', rename ''age''),
      (''createdBefore'', into ''createdBefore'' postprocess_rest_date),
      (''customTimeBefore'', into ''customTimeBefore'' postprocess_rest_date),
      (''noncurrentTimeBefore'', into ''noncurrentTimeBefore'' postprocess_rest_date)]"

definition postprocess_rest_rule :: "json \<Rightarrow> err + json" where
  "postprocess_rest_rule = adjust_value [(''condition'', into ''condition'' postprocess_rest_condition)]"

text \<open>\<open>lc.pop("rule", None)\<close>: \<open>pop\<close> of a list takes an index.\<close>

definition over_rules :: "(json \<Rightarrow> err + json) \<Rightarrow> json \<Rightarrow> err + json" where
  "over_rules f lc = bindE (as_acl lc) (\<lambda>d.
     let rest = AList.delete ''rule'' d
     in case map_of d ''rule'' of
          None \<Rightarrow> Inr (JObj rest)
        | Some JNull \<Rightarrow> Inr (JObj rest)
        | Some rules \<Rightarrow> bindE (for_each f rules) (\<lambda>rs. Inr (JObj (AList.update ''rule'' rs rest))))"

definition postprocess_rest_lifecycle :: "json \<Rightarrow> err + json" where
  "postprocess_rest_lifecycle = over_rules postprocess_rest_rule"

definition postprocess_rest_bucket_acl :: "json \<Rightarrow> json \<Rightarrow> err + json" where
  "postprocess_rest_bucket_acl bucket_id acl = bindE (as_acl acl) (\<lambda>d.
     Inr (JObj (AList.delete ''entityAlt'' (AList.update ''bucket'' bucket_id
       (AList.update ''kind'' (JStr ''storage#bucketAccessControl'') d)))))"

definition postprocess_rest_default_object_acl :: "json \<Rightarrow> json \<Rightarrow> err + json" where
  "postprocess_rest_default_object_acl bucket_id acl = bindE (as_acl acl) (\<lambda>d.
     Inr (JObj (AList.delete ''entityAlt'' (AList.update ''bucket'' bucket_id
       (AList.update ''kind'' (JStr ''storage#objectAccessControl'') d)))))"

text \<open>\<open>str(int(data[:-1]))\<close> of a duration such as \<open>604800s\<close>.\<close>

definition duration_seconds :: "json \<Rightarrow> err + json" where
  "duration_seconds data = (case data of
     JStr s \<Rightarrow> (case py_int (butlast s) of
        None \<Rightarrow> Inl (Exc ValueError) | Some n \<Rightarrow> Inr (JStr (show_int n)))
   | _ \<Rightarrow> Inl (Exc TypeError))"

definition postprocess_rest_retention_policy_duration :: "json \<Rightarrow> err + json" where
  "postprocess_rest_retention_policy_duration = duration_seconds"

definition postprocess_rest_retention_policy :: "json \<Rightarrow> err + json" where
  "postprocess_rest_retention_policy = adjust_value
     [(''retentionDuration'', into ''retentionPeriod'' postprocess_rest_retention_policy_duration)]"

definition postprocess_rest_soft_delete_policy_duration :: "json \<Rightarrow> err + json" where
  "postprocess_rest_soft_delete_policy_duration = duration_seconds"

definition postprocess_rest_soft_delete_policy :: "json \<Rightarrow> err + json" where
  "postprocess_rest_soft_delete_policy = adjust_value
     [(''retentionDuration'',
       into ''retentionDurationSeconds'' postprocess_rest_soft_delete_policy_duration)]"

text \<open>The sources of an IP filter are adjusted in place when they are there.\<close>

definition over_sources :: "(json \<Rightarrow> err + json) \<Rightarrow> dict \<Rightarrow> err + dict" where
  "over_sources f d = (case map_of d ''vpcNetworkSources'' of
     None \<Rightarrow> Inr d
   | Some JNull \<Rightarrow> Inr d
   | Some sources \<Rightarrow> bindE (for_each f sources)
       (\<lambda>ss. Inr (AList.update ''vpcNetworkSources'' ss d)))"

definition postprocess_rest_ip_filter :: "json \<Rightarrow> err + json" where
  "postprocess_rest_ip_filter data =
     (let ranges = adjust_value [(''allowed_ip_cidr_ranges'', rename ''allowedIpCidrRanges'')]
      in bindE (as_dict data) (\<lambda>d.
         bindE (over_sources ranges d) (\<lambda>d.
         adjust_value
           [(''public_network_source'', into ''publicNetworkSource'' ranges),
            (''vpc_network_sources'', rename ''vpcNetworkSources''),
            (''allow_cross_org_vpcs'', rename ''allowCrossOrgVpcs''),
            (''allow_all_service_agent_access'', rename ''allowAllServiceAgentAccess'')] (JObj d))))"

text \<open>\<open>bucket_name_from_proto\<close> of any value; \<open>None\<close> stays \<open>None\<close>.\<close>

definition name_from_proto :: "json option \<Rightarrow> err + json" where
  "name_from_proto name = (case name of
     None \<Rightarrow> Inr JNull
   | Some JNull \<Rightarrow> Inr JNull
   | Some (JStr s) \<Rightarrow> Inr (JStr (bucket_name_from_proto s))
   | Some _ \<Rightarrow> Inl (Exc AttributeError))"

definition bucket_postprocessing ::
    "json \<Rightarrow> (string \<times> (json \<Rightarrow> err + (string \<times> json) option)) list" where
  "bucket_postprocessing bucket_id =
     [(''name'', \<lambda>x. Inr (Some (''name'', bucket_id))),
      (''bucketId'', \<lambda>x. Inr (Some (''id'', bucket_id))),
      (''project'', into ''projectNumber''
         (\<lambda>x. bindE (as_str x) (\<lambda>s. Inr (JStr (py_replace ''projects/'' [] s))))),
      (''createTime'', rename ''timeCreated''),
      (''updateTime'', rename ''updated''),
      (''iamConfig'', into ''iamConfiguration'' postprocess_rest_iam_configuration),
      (''encryption'', into ''encryption'' postprocess_rest_encryption),
      (''lifecycle'', into ''lifecycle'' postprocess_rest_lifecycle),
      (''acl'', into ''acl'' (for_each (postprocess_rest_bucket_acl bucket_id))),
      (''defaultObjectAcl'', into ''defaultObjectAcl''
         (for_each (postprocess_rest_default_object_acl bucket_id))),
      (''retentionPolicy'', into ''retentionPolicy'' postprocess_rest_retention_policy),
      (''softDeletePolicy'', into ''softDeletePolicy'' postprocess_rest_soft_delete_policy),
      (''ipFilter'', into ''ipFilter'' postprocess_rest_ip_filter)]"

definition postprocess_bucket_rest :: "dict \<Rightarrow> err + dict" where
  "postprocess_bucket_rest data =
     (if map_of data ''name'' = None then Inl (Exc KeyError) else
      bindE (name_from_proto (map_of data ''name'')) (\<lambda>bucket_id.
      bindE (rest_adjust data (bucket_postprocessing bucket_id)) (\<lambda>data.
      Inr (setdefault ''metageneration'' (JNum 0)
             (AList.update ''kind'' (JStr ''storage#bucket'') data)))))"

section \<open>Objects\<close>

definition postprocess_customer_encryption :: "json \<Rightarrow> err + json" where
  "postprocess_customer_encryption = adjust_value [(''keySha256Bytes'', rename ''keySha256'')]"

definition postprocess_object_access_control ::
    "json \<Rightarrow> json \<Rightarrow> json \<Rightarrow> json \<Rightarrow> err + json" where
  "postprocess_object_access_control bucket_id object_id generation access_control =
     bindE (as_acl access_control) (\<lambda>d.
     Inr (JObj (AList.delete ''entityAlt''
       (AList.update ''generation'' generation (AList.update ''object'' object_id
       (AList.update ''bucket'' bucket_id
       (AList.update ''kind'' (JStr ''storage#objectAccessControl'') d)))))))"

definition object_postprocessing ::
    "json \<Rightarrow> (string \<times> (json \<Rightarrow> err + (string \<times> json) option)) list" where
  "object_postprocessing bucket_id =
     [(''bucket'', \<lambda>x. Inr (Some (''bucket'', bucket_id))),
      (''createTime'', rename ''timeCreated''), (''finalizeTime'', rename ''timeFinalized''),
      (''updateTime'', rename ''updated''), (''kmsKey'', rename ''kmsKeyName''),
      (''retentionExpireTime'', rename ''retentionExpirationTime''),
      (''deleteTime'', rename ''timeDeleted''),
      (''updateStorageClassTime'', rename ''timeStorageClassUpdated''),
      (''customerEncryption'', into ''customerEncryption'' postprocess_customer_encryption)]"

definition key_of :: "dict \<Rightarrow> string \<Rightarrow> err + json" where
  "key_of d k = (case map_of d k of None \<Rightarrow> Inl (Exc KeyError) | Some v \<Rightarrow> Inr v)"

text \<open>The checksums of the message become two fields of the resource.\<close>

definition flat_crc32c :: "dict \<Rightarrow> dict \<Rightarrow> err + dict" where
  "flat_crc32c cs metadata = (case map_of cs ''crc32c'' of
     None \<Rightarrow> Inr metadata
   | Some (JNum n) \<Rightarrow> bindE (rest_crc32c_from_proto n)
       (\<lambda>s. Inr (AList.update ''crc32c'' (JStr s) metadata))
   | Some _ \<Rightarrow> Inl (Exc ValueError))"

definition flat_md5 :: "dict \<Rightarrow> dict \<Rightarrow> dict" where
  "flat_md5 cs metadata = (case map_of cs ''md5Hash'' of
     None \<Rightarrow> metadata | Some v \<Rightarrow> AList.update ''md5Hash'' v metadata)"

definition flatten_checksums :: "dict \<Rightarrow> err + dict" where
  "flatten_checksums metadata =
     (let rest = AList.delete ''checksums'' metadata
      in case map_of metadata ''checksums'' of
           None \<Rightarrow> Inr rest
         | Some JNull \<Rightarrow> Inr rest
         | Some (JObj cs) \<Rightarrow> bindE (flat_crc32c cs rest) (\<lambda>d. Inr (flat_md5 cs d))
         | Some _ \<Rightarrow> Inl (Exc TypeError))"

definition postprocess_object_rest :: "(json \<Rightarrow> string) \<Rightarrow> dict \<Rightarrow> err + dict" where
  "postprocess_object_rest repr metadata =
     bindE (name_from_proto (map_of metadata ''bucket'')) (\<lambda>bucket_id.
     bindE (rest_adjust metadata (object_postprocessing bucket_id)) (\<lambda>md.
     bindE (key_of md ''bucket'') (\<lambda>b.
     bindE (key_of md ''name'') (\<lambda>n.
     bindE (key_of md ''generation'') (\<lambda>g.
     bindE (flatten_checksums
       (AList.update ''id'' (JStr (py_str repr b @ ''/o/'' @ py_str repr n @ ''/'' @ py_str repr g))
         (AList.update ''kind'' (JStr ''storage#object'') md))) (\<lambda>md.
     case map_of md ''acl'' of
       None \<Rightarrow> Inr md
     | Some acl \<Rightarrow> bindE (for_each (postprocess_object_access_control bucket_id n g) acl)
         (\<lambda>acl. Inr (AList.update ''acl'' acl md))))))))"

section \<open>The interface of the module\<close>

text \<open>\<open>to_dict\<close> is \<open>json_format.MessageToDict\<close> on the kind of message.\<close>

definition bucket_as_rest :: "('b \<Rightarrow> dict) \<Rightarrow> 'b \<Rightarrow> err + dict" where
  "bucket_as_rest to_dict bucket = postprocess_bucket_rest (to_dict bucket)"

definition bucket_access_control_as_rest :: "('a \<Rightarrow> dict) \<Rightarrow> string \<Rightarrow> 'a \<Rightarrow> err + json" where
  "bucket_access_control_as_rest to_dict bucket_id acl =
     postprocess_rest_bucket_acl (JStr bucket_id) (JObj (to_dict acl))"

definition object_as_rest :: "(json \<Rightarrow> string) \<Rightarrow> ('o \<Rightarrow> dict) \<Rightarrow> 'o \<Rightarrow> err + dict" where
  "object_as_rest repr to_dict obj = postprocess_object_rest repr (to_dict obj)"

definition object_access_control_as_rest ::
    "('a \<Rightarrow> dict) \<Rightarrow> string \<Rightarrow> string \<Rightarrow> json \<Rightarrow> 'a \<Rightarrow> err + json" where
  "object_access_control_as_rest to_dict bucket_id object_id generation metadata =
     postprocess_object_access_control (JStr bucket_id) (JStr object_id) generation (JObj (to_dict metadata))"

definition default_object_access_control_as_rest ::
    "('a \<Rightarrow> dict) \<Rightarrow> string \<Rightarrow> 'a \<Rightarrow> err + json" where
  "default_object_access_control_as_rest to_dict bucket_id acl =
     postprocess_rest_default_object_acl (JStr bucket_id) (JObj (to_dict acl))"

section \<open>Adjustments on the map of a dictionary\<close>

text \<open>What \<open>rest_adjust\<close> does to the map of a dictionary; the order of the keys is forgotten.\<close>

fun adjust_map ::
    "(string \<rightharpoonup> json) \<Rightarrow> (string \<times> (json \<Rightarrow> err + (string \<times> json) option)) list
       \<Rightarrow> err + (string \<rightharpoonup> json)" where
  "adjust_map m [] = Inr m"
| "adjust_map m ((key, action) # adjustments) =
     (case m key of
        None \<Rightarrow> adjust_map (m(key := None)) adjustments
      | Some JNull \<Rightarrow> adjust_map (m(key := None)) adjustments
      | Some v \<Rightarrow> bindE (action v) (\<lambda>r. case r of
          None \<Rightarrow> adjust_map (m(key := None)) adjustments
        | Some (k, w) \<Rightarrow> adjust_map (m(key := None, k \<mapsto> w)) adjustments))"

declare adjust_map.simps(2) [simp del]

definition map_result :: "err + dict \<Rightarrow> err + (string \<rightharpoonup> json)" where
  "map_result r = (case r of Inl e \<Rightarrow> Inl e | Inr d \<Rightarrow> Inr (map_of d))"

lemma map_result_Inr: "map_result r = Inr m \<longleftrightarrow> (\<exists>d. r = Inr d \<and> map_of d = m)"
  by (cases r) (auto simp: map_result_def)

lemma map_result_bindE:
  "(\<And>x. map_result (f x) = g x) \<Longrightarrow> map_result (bindE r f) = bindE r g"
  by (cases r) (simp_all add: map_result_def)

lemma rest_adjust_map: "map_result (rest_adjust d adjs) = adjust_map (map_of d) adjs"
proof (induction adjs arbitrary: d)
  case Nil
  then show ?case by (simp add: map_result_def)
next
  case (Cons a adjs)
  obtain key action where a: "a = (key, action)" by force
  have del: "map_of (AList.delete key d) = (map_of d)(key := None)"
    by (rule delete_conv')
  have upd: "map_of (AList.update k w (AList.delete key d)) = (map_of d)(key := None, k \<mapsto> w)" for k w
    by (simp only: update_conv' del)
  have skip: "map_result (rest_adjust (AList.delete key d) adjs)
      = adjust_map ((map_of d)(key := None)) adjs"
    by (simp only: Cons.IH del)
  have put: "map_result (rest_adjust (AList.update k w (AList.delete key d)) adjs)
      = adjust_map ((map_of d)(key := None, k \<mapsto> w)) adjs" for k w
    by (simp only: Cons.IH upd)
  show ?case
  proof (cases "map_of d key")
    case None
    then show ?thesis using skip by (simp add: a adjust_map.simps(2) Let_def)
  next
    case (Some v)
    then show ?thesis
      using skip put
      by (cases v) (auto simp: a adjust_map.simps(2) Let_def intro!: map_result_bindE split: option.split)
  qed
qed

text \<open>Moving a field to a key that is free.\<close>

lemma adjust_rename:
  assumes "m s \<noteq> Some JNull" and "m t = None"
  shows "adjust_map m ((s, rename t) # adjs) = adjust_map (m(s := None, t := m s)) adjs"
proof (cases "m s")
  case None
  then have "m(s := None, t := m s) = m(s := None)"
    using assms(2) by (auto simp: fun_eq_iff)
  then show ?thesis using None by (simp add: adjust_map.simps(2))
next
  case (Some v)
  then show ?thesis
    using assms(1) by (cases v) (simp_all add: adjust_map.simps(2) rename_def)
qed

lemma adjust_drop:
  "m s \<noteq> Some JNull \<Longrightarrow> adjust_map m ((s, drop_field) # adjs) = adjust_map (m(s := None)) adjs"
  by (cases "m s") (auto simp: adjust_map.simps(2) drop_field_def split: json.split)

lemmas adjust_at = adjust_map.simps(2)

lemma adjust_none: "m s = None \<Longrightarrow> adjust_map m ((s, action) # adjs) = adjust_map m adjs"
proof -
  assume "m s = None"
  then have "m(s := None) = m" by auto
  then show ?thesis using \<open>m s = None\<close> by (simp add: adjust_map.simps(2))
qed

section \<open>Renaming a list of fields\<close>

text \<open>The map after the fields \<open>fst ` set ps\<close> have moved to the keys \<open>snd ` set ps\<close>.\<close>

definition moved :: "(string \<times> string) list \<Rightarrow> (string \<rightharpoonup> json) \<Rightarrow> string \<rightharpoonup> json" where
  "moved ps m k = (case map_of (map prod.swap ps) k of
     Some s \<Rightarrow> m s | None \<Rightarrow> if k \<in> fst ` set ps then None else m k)"

definition apart :: "(string \<times> string) list \<Rightarrow> bool" where
  "apart ps \<longleftrightarrow> distinct (map fst ps @ map snd ps)"

lemma moved_other: "k \<notin> fst ` set ps \<Longrightarrow> k \<notin> snd ` set ps \<Longrightarrow> moved ps m k = m k"
proof -
  assume a: "k \<notin> fst ` set ps" "k \<notin> snd ` set ps"
  then have "map_of (map prod.swap ps) k = None"
    by (force simp: map_of_eq_None_iff)
  then show ?thesis using a(1) by (simp add: moved_def)
qed

lemma moved_upd:
  "k \<notin> fst ` set ps \<Longrightarrow> k \<notin> snd ` set ps \<Longrightarrow> moved ps (m(k := v)) = (moved ps m)(k := v)"
proof
  fix j
  assume a: "k \<notin> fst ` set ps" "k \<notin> snd ` set ps"
  have "s \<noteq> k" if "map_of (map prod.swap ps) j = Some s" for s
    using that a(1) by (force dest!: map_of_SomeD)
  then show "moved ps (m(k := v)) j = ((moved ps m)(k := v)) j"
    using moved_other [OF a, of m] moved_other [OF a, of "m(k := v)"]
    by (cases "j = k") (auto simp: moved_def split: option.splits)
qed

lemma moved_back:
  assumes "apart ps" and "\<forall>t \<in> snd ` set ps. m t = None"
  shows "moved (map prod.swap ps) (moved ps m) = m"
proof
  fix k
  have d: "distinct (map fst ps)" "distinct (map snd ps)" "fst ` set ps \<inter> snd ` set ps = {}"
    using assms(1) by (auto simp: apart_def)
  have inv: "map_of (map prod.swap (map prod.swap ps)) = map_of ps"
    by (simp add: comp_def)
  show "moved (map prod.swap ps) (moved ps m) k = m k"
  proof (cases "map_of ps k")
    case (Some t)
    then have "(k, t) \<in> set ps" by (rule map_of_SomeD)
    then have "(t, k) \<in> set (map prod.swap ps)" by force
    moreover have "distinct (map fst (map prod.swap ps))" using d(2) by (simp add: comp_def)
    ultimately have "map_of (map prod.swap ps) t = Some k" by simp
    then show ?thesis
      using Some inv by (simp add: moved_def)
  next
    case None
    then have k: "k \<notin> fst ` set ps" by (simp add: map_of_eq_None_iff)
    show ?thesis
    proof (cases "k \<in> snd ` set ps")
      case True
      have "m k = None" by (rule bspec [OF assms(2) True])
      moreover have "fst ` set (map prod.swap ps) = snd ` set ps" by force
      ultimately show ?thesis
        using None inv True by (simp add: moved_def)
    next
      case False
      moreover have "fst ` set (map prod.swap ps) = snd ` set ps" by force
      ultimately show ?thesis
        using None inv moved_other [OF k False] by (simp add: moved_def)
    qed
  qed
qed

lemma moved_Cons:
  assumes "apart ((s, t) # ps)"
  shows "moved ((s, t) # ps) m = moved ps (m(s := None, t := m s))"
proof
  fix k
  have a: "s \<noteq> t" "s \<notin> fst ` set ps" "s \<notin> snd ` set ps" "t \<notin> fst ` set ps" "t \<notin> snd ` set ps"
    using assms by (auto simp: apart_def)
  have "u \<noteq> s \<and> u \<noteq> t" if "map_of (map prod.swap ps) k = Some u" for u
    using that a by (force dest!: map_of_SomeD)
  moreover have "map_of (map prod.swap ps) t = None" "map_of (map prod.swap ps) s = None"
    using a by (force simp: map_of_eq_None_iff)+
  ultimately show "moved ((s, t) # ps) m k = moved ps (m(s := None, t := m s)) k"
    using a by (auto simp: moved_def split: option.splits)
qed

lemma adjust_renames:
  assumes "apart ps" and "\<forall>t \<in> snd ` set ps. m t = None" and "\<forall>s \<in> fst ` set ps. m s \<noteq> Some JNull"
  shows "adjust_map m (map (\<lambda>(s, t). (s, rename t)) ps @ adjs) = adjust_map (moved ps m) adjs"
  using assms
proof (induction ps arbitrary: m)
  case Nil
  have "moved [] m = m" by (simp add: moved_def fun_eq_iff)
  then show ?case by simp
next
  case (Cons p ps)
  obtain s t where p: "p = (s, t)" by force
  have a: "apart ps" "s \<notin> fst ` set ps" "s \<notin> snd ` set ps" "t \<notin> fst ` set ps" "t \<notin> snd ` set ps"
    using Cons.prems(1) by (auto simp: apart_def p)
  have IH: "adjust_map (m(s := None, t := m s)) (map (\<lambda>(s, t). (s, rename t)) ps @ adjs)
      = adjust_map (moved ps (m(s := None, t := m s))) adjs"
    using Cons.prems a by (intro Cons.IH) (auto simp: p)
  have "adjust_map m ((s, rename t) # (map (\<lambda>(s, t). (s, rename t)) ps @ adjs))
      = adjust_map (m(s := None, t := m s)) (map (\<lambda>(s, t). (s, rename t)) ps @ adjs)"
    using Cons.prems by (intro adjust_rename) (auto simp: p)
  then show ?case
    using IH moved_Cons [of s t ps m] Cons.prems(1) by (simp add: p)
qed

section \<open>The resource of an object is read back\<close>

definition time_fields :: "(string \<times> string) list" where
  "time_fields = [(''createTime'', ''timeCreated''), (''finalizeTime'', ''timeFinalized''),
     (''updateTime'', ''updated''), (''kmsKey'', ''kmsKeyName''),
     (''retentionExpireTime'', ''retentionExpirationTime''), (''deleteTime'', ''timeDeleted''),
     (''updateStorageClassTime'', ''timeStorageClassUpdated'')]"

lemma time_fields_apart: "apart time_fields" "apart (map prod.swap time_fields)"
  by (simp_all add: apart_def time_fields_def)

definition special_fields :: "string set" where
  "special_fields = {''bucket'', ''name'', ''generation'', ''kind'', ''id'', ''customerEncryption'',
     ''checksums'', ''crc32c'', ''md5Hash'', ''acl''}"

lemma time_fields_special:
  "k \<in> special_fields \<Longrightarrow> k \<notin> fst ` set time_fields \<and> k \<notin> snd ` set time_fields"
  by (auto simp: special_fields_def time_fields_def)

lemma moved_special:
  assumes "k \<in> special_fields"
  shows "moved time_fields m k = m k"
    and "moved time_fields (m(k := v)) = (moved time_fields m)(k := v)"
    and "moved (map prod.swap time_fields) m k = m k"
    and "moved (map prod.swap time_fields) (m(k := v)) = (moved (map prod.swap time_fields) m)(k := v)"
proof -
  have k: "k \<notin> fst ` set time_fields" "k \<notin> snd ` set time_fields"
    using time_fields_special [OF assms] by simp_all
  moreover have "fst ` set (map prod.swap time_fields) = snd ` set time_fields"
      "snd ` set (map prod.swap time_fields) = fst ` set time_fields"
    by force+
  ultimately show "moved time_fields m k = m k" "moved time_fields (m(k := v)) = (moved time_fields m)(k := v)"
      "moved (map prod.swap time_fields) m k = m k"
      "moved (map prod.swap time_fields) (m(k := v)) = (moved (map prod.swap time_fields) m)(k := v)"
    by (simp_all only: moved_other moved_upd not_False_eq_True)
qed

text \<open>What \<open>MessageToDict\<close> makes of an object: no nulls, none of the fields that only the REST
  resource has, and the fields of the nested messages in the order of the message.\<close>

definition checksum_fields :: "int option \<Rightarrow> string option \<Rightarrow> dict" where
  "checksum_fields crc md5 = (case crc of None \<Rightarrow> [] | Some n \<Rightarrow> [(''crc32c'', JNum n)])
     @ (case md5 of None \<Rightarrow> [] | Some s \<Rightarrow> [(''md5Hash'', JStr s)])"

definition checksums_json :: "int option \<Rightarrow> string option \<Rightarrow> json option" where
  "checksums_json crc md5 = (if checksum_fields crc md5 = [] then None
     else Some (JObj (checksum_fields crc md5)))"

definition encryption_json :: "string \<Rightarrow> (string \<times> string) option \<Rightarrow> json option" where
  "encryption_json key e = (case e of None \<Rightarrow> None
     | Some (a, h) \<Rightarrow> Some (JObj [(''encryptionAlgorithm'', JStr a), (key, JStr h)]))"

definition object_dict ::
    "dict \<Rightarrow> string \<Rightarrow> string \<Rightarrow> string \<Rightarrow> (string \<times> string) option \<Rightarrow> int option \<Rightarrow> string option
       \<Rightarrow> dict list option \<Rightarrow> bool" where
  "object_dict d b n g e crc md5 acl \<longleftrightarrow> (\<forall>k. map_of d k \<noteq> Some JNull)
   \<and> (\<forall>k \<in> {''kind'', ''id'', ''crc32c'', ''md5Hash''} \<union> snd ` set time_fields. map_of d k = None)
   \<and> map_of d ''bucket'' = Some (JStr b) \<and> map_of d ''name'' = Some (JStr n)
   \<and> map_of d ''generation'' = Some (JStr g)
   \<and> map_of d ''customerEncryption'' = encryption_json ''keySha256Bytes'' e
   \<and> map_of d ''checksums'' = checksums_json crc md5
   \<and> (case crc of None \<Rightarrow> True | Some c \<Rightarrow> 0 \<le> c \<and> c < 2 ^ 32)
   \<and> map_of d ''acl'' = map_option (JList \<circ> map JObj) acl"

lemma encryption_there:
  "postprocess_customer_encryption (JObj [(''encryptionAlgorithm'', JStr a), (''keySha256Bytes'', JStr h)])
     = Inr (JObj [(''encryptionAlgorithm'', JStr a), (''keySha256'', JStr h)])"
  "preprocess_customer_encryption (JObj [(''encryptionAlgorithm'', JStr a), (''keySha256'', JStr h)])
     = Inr (JObj [(''encryptionAlgorithm'', JStr a), (''keySha256Bytes'', JStr h)])"
  by (simp_all add: postprocess_customer_encryption_def preprocess_customer_encryption_def
      adjust_value_def rename_def)

text \<open>The map after the adjustments of \<open>postprocess_object_rest\<close>.\<close>

lemma post_adjust:
  assumes "object_dict d b n g e crc md5 acl" and "bid \<noteq> JNull"
  shows "adjust_map (map_of d) (object_postprocessing bid)
    = Inr ((moved time_fields (map_of d))(''bucket'' \<mapsto> bid,
             ''customerEncryption'' := encryption_json ''keySha256'' e))"
proof -
  let ?m = "map_of d" and ?m1 = "(map_of d)(''bucket'' \<mapsto> bid)"
  have sp: "''bucket'' \<in> special_fields" "''customerEncryption'' \<in> special_fields"
    by (simp_all add: special_fields_def)
  have post: "object_postprocessing bid = (''bucket'', \<lambda>x. Inr (Some (''bucket'', bid)))
      # map (\<lambda>(s, t). (s, rename t)) time_fields
      @ [(''customerEncryption'', into ''customerEncryption'' postprocess_customer_encryption)]"
    by (simp add: object_postprocessing_def time_fields_def)
  have "adjust_map ?m1 (map (\<lambda>(s, t). (s, rename t)) time_fields
      @ [(''customerEncryption'', into ''customerEncryption'' postprocess_customer_encryption)])
    = adjust_map (moved time_fields ?m1)
        [(''customerEncryption'', into ''customerEncryption'' postprocess_customer_encryption)]"
    using assms time_fields_apart(1) time_fields_special [OF sp(1)]
    by (intro adjust_renames) (auto simp: object_dict_def)
  moreover have "moved time_fields ?m1 ''customerEncryption'' = encryption_json ''keySha256Bytes'' e"
    using assms(1) sp moved_special by (simp add: object_dict_def)
  ultimately show ?thesis
    using assms sp moved_special
    by (cases e) (auto simp: post adjust_at object_dict_def encryption_json_def into_def encryption_there
        fun_upd_twist)
qed

lemma flatten_ok:
  assumes "map_of d ''checksums'' = checksums_json crc md5"
    and "map_of d ''crc32c'' = None" and "map_of d ''md5Hash'' = None"
    and "case crc of None \<Rightarrow> True | Some c \<Rightarrow> 0 \<le> c \<and> c < 2 ^ 32"
  shows "\<exists>t r. (\<forall>c. crc = Some c \<longrightarrow> rest_crc32c_from_proto c = Inr t)
    \<and> flatten_checksums d = Inr r
    \<and> map_of r = (map_of d)(''checksums'' := None, ''crc32c'' := map_option (\<lambda>_. JStr t) crc,
         ''md5Hash'' := map_option JStr md5)"
proof -
  obtain t where t: "\<forall>c. crc = Some c \<longrightarrow> rest_crc32c_from_proto c = Inr t"
    using assms(4) crc32c_from_total by (cases crc) auto
  have "\<exists>r. flatten_checksums d = Inr r
    \<and> map_of r = (map_of d)(''checksums'' := None, ''crc32c'' := map_option (\<lambda>_. JStr t) crc,
         ''md5Hash'' := map_option JStr md5)"
    using assms(1-3) t
    by (cases crc; cases md5)
      (auto simp: flatten_checksums_def checksums_json_def checksum_fields_def flat_crc32c_def
        flat_md5_def update_conv' delete_conv' Let_def fun_eq_iff)
  then show ?thesis using t by blast
qed

lemma map_ok_objs:
  "(\<And>x. f (JObj x) = Inr (JObj (h x))) \<Longrightarrow> map_ok f (map JObj xs) = Inr (map (JObj \<circ> h) xs)"
  by (induction xs) simp_all

text \<open>The fields of an entry of the ACL that both translations keep.\<close>

definition acl_dropped :: "string set" where
  "acl_dropped = {''kind'', ''bucket'', ''object'', ''generation'', ''etag'', ''entityAlt''}"

definition acl_fields :: "dict \<Rightarrow> dict" where
  "acl_fields a = filter (\<lambda>(k, v). k \<notin> acl_dropped) a"

lemma acl_fields_update: "k \<in> acl_dropped \<Longrightarrow> acl_fields (AList.update k w d) = acl_fields d"
  by (induction d) (auto simp: acl_fields_def)

lemma acl_fields_delete: "k \<in> acl_dropped \<Longrightarrow> acl_fields (AList.delete k d) = acl_fields d"
  by (induction d) (auto simp: acl_fields_def)

definition acl_through :: "dict list option \<Rightarrow> dict list option \<Rightarrow> bool" where
  "acl_through acl acl' \<longleftrightarrow> map_option (map acl_fields) acl' = map_option (map acl_fields) acl
     \<and> (\<forall>xs. acl' = Some xs \<longrightarrow> (\<forall>x \<in> set xs. map_of x ''entityAlt'' = None))"

lemma acl_through_None: "acl_through None acl' \<longleftrightarrow> acl' = None"
  by (cases acl') (simp_all add: acl_through_def)

lemma acl_dropped_members:
  "''kind'' \<in> acl_dropped" "''bucket'' \<in> acl_dropped" "''object'' \<in> acl_dropped"
  "''generation'' \<in> acl_dropped" "''entityAlt'' \<in> acl_dropped"
  by (simp_all add: acl_dropped_def)

lemma acl_through_map:
  assumes "\<And>x. acl_fields (h x) = acl_fields x" and "\<And>x. map_of (h x) ''entityAlt'' = None"
  shows "acl_through (Some xs) (Some (map h xs))"
  using assms by (simp add: acl_through_def comp_def)

lemma post_entry:
  "\<exists>h. (\<forall>x. postprocess_object_access_control bid n g (JObj x) = Inr (JObj (h x)))
     \<and> (\<forall>xs. acl_through (Some xs) (Some (map h xs)))"
proof -
  define h where "h d = AList.delete ''entityAlt'' (AList.update ''generation'' g
        (AList.update ''object'' n (AList.update ''bucket'' bid
        (AList.update ''kind'' (JStr ''storage#objectAccessControl'') d))))" for d
  have "postprocess_object_access_control bid n g (JObj x) = Inr (JObj (h x))" for x
    by (simp only: postprocess_object_access_control_def as_acl_def h_def json.case bindE_simps)
  moreover have "acl_fields (h x) = acl_fields x" for x
    by (simp only: h_def acl_fields_update acl_fields_delete acl_dropped_members)
  moreover have "map_of (h x) ''entityAlt'' = None" for x
    by (simp only: h_def delete_conv' fun_upd_same)
  ultimately show ?thesis by (intro exI [of _ h] conjI allI acl_through_map)
qed

lemma foldl_delete: "foldl (\<lambda>d field. AList.delete field d) x ks = filter (\<lambda>(k, v). k \<notin> set ks) x"
  for x :: dict
  by (induction ks arbitrary: x) (auto simp: AList.delete_eq case_prod_unfold conj_commute
      intro!: filter_cong)

lemma filter_insert_key:
  fixes x :: dict
  assumes "map_of x j = None"
  shows "filter (\<lambda>(k, v). k \<notin> insert j K) x = filter (\<lambda>(k, v). k \<notin> K) x"
  using assms by (intro filter_cong refl) (force simp: map_of_eq_None_iff)

lemma acl_dropped_stripped:
  "acl_dropped = insert ''entityAlt'' (set [''kind'', ''bucket'', ''object'', ''generation'', ''etag''])"
  by (simp add: acl_dropped_def insert_commute)

lemma strip_entry:
  assumes "map_of x ''entityAlt'' = None"
  shows "strip_acl_entry (JObj x) = Inr (JObj (acl_fields x))"
  by (simp only: strip_acl_entry_def json.case foldl_delete acl_fields_def acl_dropped_stripped
      filter_insert_key [OF assms])

lemma post_resource:
  assumes "object_dict d b n g e crc md5 acl"
  shows "\<exists>t i acl' r. acl_through acl acl' \<and> (\<forall>c. crc = Some c \<longrightarrow> rest_crc32c_from_proto c = Inr t)
    \<and> postprocess_object_rest repr d = Inr r
    \<and> map_of r = (moved time_fields (map_of d))(''bucket'' \<mapsto> JStr (bucket_name_from_proto b),
         ''customerEncryption'' := encryption_json ''keySha256'' e,
         ''kind'' \<mapsto> JStr ''storage#object'', ''id'' \<mapsto> JStr i,
         ''checksums'' := None, ''crc32c'' := map_option (\<lambda>_. JStr t) crc,
         ''md5Hash'' := map_option JStr md5, ''acl'' := map_option (JList \<circ> map JObj) acl')"
proof -
  let ?bid = "JStr (bucket_name_from_proto b)"
  let ?m2 = "(moved time_fields (map_of d))(''bucket'' \<mapsto> ?bid,
      ''customerEncryption'' := encryption_json ''keySha256'' e)"
  have sp: "''name'' \<in> special_fields" "''generation'' \<in> special_fields"
    "''checksums'' \<in> special_fields" "''crc32c'' \<in> special_fields" "''md5Hash'' \<in> special_fields"
    "''acl'' \<in> special_fields"
    by (simp_all add: special_fields_def)
  have name: "name_from_proto (map_of d ''bucket'') = Inr ?bid"
    using assms by (simp add: object_dict_def name_from_proto_def)
  obtain md where md: "rest_adjust d (object_postprocessing ?bid) = Inr md" "map_of md = ?m2"
    using rest_adjust_map [of d "object_postprocessing ?bid"] post_adjust [OF assms, of ?bid]
    by (auto simp: map_result_Inr)
  have keys: "key_of md ''bucket'' = Inr ?bid" "key_of md ''name'' = Inr (JStr n)"
      "key_of md ''generation'' = Inr (JStr g)"
    using assms sp moved_special by (simp_all add: key_of_def md(2) object_dict_def)
  define i where "i = bucket_name_from_proto b @ ''/o/'' @ n @ ''/'' @ g"
  let ?d = "AList.update ''id'' (JStr i) (AList.update ''kind'' (JStr ''storage#object'') md)"
  have "\<exists>t r. (\<forall>c. crc = Some c \<longrightarrow> rest_crc32c_from_proto c = Inr t)
    \<and> flatten_checksums ?d = Inr r
    \<and> map_of r = (map_of ?d)(''checksums'' := None, ''crc32c'' := map_option (\<lambda>_. JStr t) crc,
         ''md5Hash'' := map_option JStr md5)"
    using assms sp moved_special
    by (intro flatten_ok) (simp_all add: update_conv' md(2) object_dict_def)
  then obtain t r where r: "\<forall>c. crc = Some c \<longrightarrow> rest_crc32c_from_proto c = Inr t"
      "flatten_checksums ?d = Inr r"
      "map_of r = (map_of ?d)(''checksums'' := None, ''crc32c'' := map_option (\<lambda>_. JStr t) crc,
         ''md5Hash'' := map_option JStr md5)"
    by blast
  have acl: "map_of r ''acl'' = map_option (JList \<circ> map JObj) acl"
    using assms sp moved_special by (simp add: r(3) update_conv' md(2) object_dict_def)
  have racl: "map_of r = ?m2(''kind'' \<mapsto> JStr ''storage#object'', ''id'' \<mapsto> JStr i,
         ''checksums'' := None, ''crc32c'' := map_option (\<lambda>_. JStr t) crc,
         ''md5Hash'' := map_option JStr md5)"
    by (simp only: r(3) update_conv' md(2))
  have run: "postprocess_object_rest repr d = (case map_of r ''acl'' of
       None \<Rightarrow> Inr r
     | Some acl \<Rightarrow> bindE (for_each (postprocess_object_access_control ?bid (JStr n) (JStr g)) acl)
         (\<lambda>acl. Inr (AList.update ''acl'' acl r)))"
    using r(2) by (simp add: postprocess_object_rest_def name md(1) keys py_str_def i_def)
  show ?thesis
  proof (cases acl)
    case None
    then have "postprocess_object_rest repr d = Inr r" using run acl by simp
    moreover have "map_of r = (map_of r)(''acl'' := map_option (JList \<circ> map JObj) None)"
      using None acl by (simp add: fun_eq_iff)
    ultimately show ?thesis using r(1) racl None acl_through_None by metis
  next
    case (Some xs)
    let ?f = "postprocess_object_access_control ?bid (JStr n) (JStr g)"
    obtain h where h: "\<And>x. ?f (JObj x) = Inr (JObj (h x))" "acl_through (Some xs) (Some (map h xs))"
      using post_entry by blast
    have "for_each ?f (JList (map JObj xs)) = Inr (JList (map JObj (map h xs)))"
      using map_ok_objs [of ?f h xs] h(1) by (simp add: for_each_def)
    then have "postprocess_object_rest repr d = Inr (AList.update ''acl'' (JList (map JObj (map h xs))) r)"
      using run acl Some by simp
    moreover have "map_of (AList.update ''acl'' (JList (map JObj (map h xs))) r)
        = (map_of r)(''acl'' := map_option (JList \<circ> map JObj) (Some (map h xs)))"
      by (simp add: update_conv')
    ultimately show ?thesis using r(1) racl Some h(2) by metis
  qed
qed

lemma moved_source:
  assumes "apart ps" and "s \<in> fst ` set ps"
  shows "moved ps m s = None"
proof -
  have "s \<notin> snd ` set ps" using assms by (auto simp: apart_def)
  then have "map_of (map prod.swap ps) s = None" by (force simp: map_of_eq_None_iff)
  then show ?thesis using assms(2) by (simp add: moved_def)
qed

lemma moved_not_null: "\<forall>k. m k \<noteq> Some JNull \<Longrightarrow> moved ps m k \<noteq> Some JNull"
  by (auto simp: moved_def split: option.splits)

text \<open>A map with a list of keys overridden.\<close>

definition over :: "('k \<times> 'v option) list \<Rightarrow> ('k \<rightharpoonup> 'v) \<Rightarrow> 'k \<rightharpoonup> 'v" where
  "over us m k = (case map_of us k of None \<Rightarrow> m k | Some v \<Rightarrow> v)"

lemma over_Nil: "over [] m = m"
  by (simp add: over_def fun_eq_iff)

lemma over_Cons: "over ((k, v) # us) m = (over us m)(k := v)"
  by (simp add: over_def fun_eq_iff)

lemma over_other: "k \<notin> fst ` set us \<Longrightarrow> over us m k = m k"
  by (simp add: over_def map_of_eq_None_iff [THEN iffD2])

text \<open>The map after the adjustments of \<open>preprocess_object_metadata\<close>, on what
  \<open>postprocess_object_rest\<close> has made.\<close>

lemma pre_adjust:
  fixes m :: "string \<rightharpoonup> json"
  assumes "\<forall>k. m k \<noteq> Some JNull" and "\<forall>t \<in> snd ` set time_fields. m t = None"
    and "r = (moved time_fields m)(''bucket'' \<mapsto> bid, ''customerEncryption'' := encryption_json ''keySha256'' e,
         ''kind'' \<mapsto> JStr kind, ''id'' \<mapsto> JStr i, ''checksums'' := cs, ''crc32c'' := crc,
         ''md5Hash'' := md5, ''acl'' := acl)"
  shows "\<exists>m'. adjust_map r object_adjustments = Inr m'
    \<and> m' ''customerEncryption'' = encryption_json ''keySha256Bytes'' e
    \<and> (\<forall>k. k \<noteq> ''customerEncryption'' \<longrightarrow> m' k = over [(''id'', None), (''kind'', None), (''acl'', acl),
         (''md5Hash'', md5), (''crc32c'', crc), (''checksums'', cs), (''bucket'', Some bid)] m k)"
proof -
  let ?sw = "map prod.swap time_fields"
  let ?last = "[(''customerEncryption'', \<lambda>x. bindE (preprocess_customer_encryption x)
        (\<lambda>y. Inr (Some (''customerEncryption'', y))))]"
  let ?r = "r(''kind'' := None, ''id'' := None)"
  have sp: "''bucket'' \<in> special_fields" "''customerEncryption'' \<in> special_fields"
    "''kind'' \<in> special_fields" "''id'' \<in> special_fields" "''checksums'' \<in> special_fields"
    "''crc32c'' \<in> special_fields" "''md5Hash'' \<in> special_fields" "''acl'' \<in> special_fields"
    by (simp_all add: special_fields_def)
  have adj: "object_adjustments = (''kind'', drop_field) # (''id'', drop_field)
      # map (\<lambda>(s, t). (s, rename t)) ?sw @ ?last"
    by (simp add: object_adjustments_def time_fields_def)
  have r: "r ''kind'' \<noteq> Some JNull" "(r(''kind'' := None)) ''id'' \<noteq> Some JNull"
    by (simp_all add: assms(3))
  have other: "?r k = moved time_fields m k" if "k \<notin> special_fields" for k
    using that by (simp only: assms(3) special_fields_def fun_upd_apply insert_iff empty_iff
        de_Morgan_disj simp_thms if_False)
  have ns: "k \<notin> special_fields" if "k \<in> fst ` set time_fields \<union> snd ` set time_fields" for k
    using that time_fields_special by blast
  have sets: "fst ` set ?sw = snd ` set time_fields" "snd ` set ?sw = fst ` set time_fields"
    by force+
  have "\<forall>t \<in> snd ` set ?sw. ?r t = None"
    unfolding sets
  proof
    fix t assume t: "t \<in> fst ` set time_fields"
    show "?r t = None"
      by (rule trans [OF other [OF ns [OF UnI1 [OF t]]] moved_source [OF time_fields_apart(1) t]])
  qed
  moreover have "\<forall>s \<in> fst ` set ?sw. ?r s \<noteq> Some JNull"
    unfolding sets
  proof
    fix t assume t: "t \<in> snd ` set time_fields"
    show "?r t \<noteq> Some JNull"
      by (subst other [OF ns [OF UnI2 [OF t]]]) (rule moved_not_null [OF assms(1)])
  qed
  ultimately have 1: "adjust_map r object_adjustments = adjust_map (moved ?sw ?r) ?last"
    using adjust_renames [OF time_fields_apart(2)]
    by (simp only: adj adjust_drop r not_False_eq_True)
  have undo: "moved ?sw (moved time_fields m) = m"
    by (rule moved_back [OF time_fields_apart(1) assms(2)])
  define mm where "mm = over [(''id'', None), (''kind'', None), (''acl'', acl), (''md5Hash'', md5),
     (''crc32c'', crc), (''checksums'', cs), (''id'', Some (JStr i)), (''kind'', Some (JStr kind)),
     (''customerEncryption'', encryption_json ''keySha256'' e), (''bucket'', Some bid)] m"
  have mm: "moved ?sw ?r = mm"
    by (simp only: mm_def over_Cons over_Nil assms(3) moved_special(4) sp undo)
  have others: "mm k = over [(''id'', None), (''kind'', None), (''acl'', acl),
         (''md5Hash'', md5), (''crc32c'', crc), (''checksums'', cs), (''bucket'', Some bid)] m k"
    if "k \<noteq> ''customerEncryption''" for k
    using that by (simp add: mm_def over_def)
  have ce: "mm ''customerEncryption'' = encryption_json ''keySha256'' e"
    by (simp add: mm_def over_def)
  show ?thesis
  proof (cases e)
    case None
    then show ?thesis
      using ce others by (simp add: 1 mm adjust_none encryption_json_def)
  next
    case (Some ah)
    obtain a h where ah: "ah = (a, h)" by force
    have "adjust_map mm ?last = Inr (mm(''customerEncryption'' := encryption_json ''keySha256Bytes'' e))"
      using ce by (simp add: adjust_at Some ah encryption_json_def encryption_there)
    then show ?thesis
      using others by (auto simp: 1 mm)
  qed
qed

lemma crc32c_checksum_ok:
  assumes "\<forall>c. crc = Some c \<longrightarrow> rest_crc32c_from_proto c = Inr t"
  shows "crc32c_checksum (map_option (\<lambda>_. JStr t) crc) = Inr (checksum_fields crc None)"
  using assms crc32c_to_from by (cases crc) (simp_all add: crc32c_checksum_def checksum_fields_def)

lemma md5_checksum_ok: "checksum_fields crc None @ md5_checksum (map_option JStr md5) = checksum_fields crc md5"
  by (cases md5) (simp_all add: md5_checksum_def checksum_fields_def)

lemma strip_acl_ok:
  assumes "\<forall>x \<in> set xs. map_of x ''entityAlt'' = None"
  shows "strip_acl (JList (map JObj xs)) = Inr (JList (map (JObj \<circ> acl_fields) xs))"
proof -
  have "map_ok strip_acl_entry (map JObj xs) = Inr (map (JObj \<circ> acl_fields) xs)"
    using assms by (induction xs) (simp_all add: strip_entry)
  then show ?thesis by (simp add: strip_acl_def)
qed

section \<open>Properties\<close>

text \<open>C38: The JSON resource of an object is read back: for a message with a bucket, a name, a
  generation and any other fields (none of them null), the resource that \<open>object_as_rest\<close> makes is
  accepted by \<open>preprocess_object_metadata\<close>, and gives the message again, field by field (times, keys,
  holds, retention, checksums, encryption, annotations).  Only the bucket loses its resource prefix,
  and the ACL has the same entries in the same order, each with the fields of the entry of the message
  and their values except \<open>etag\<close> and \<open>entityAlt\<close>, which the translations drop although the message
  has them (and \<open>kind\<close>, \<open>bucket\<close>, \<open>object\<close> and \<open>generation\<close>, which only the resource has).\<close>

theorem object_resource_round_trip:
  assumes "object_dict d b n g e crc md5 acl"
  shows "\<exists>r d'. postprocess_object_rest repr d = Inr r \<and> preprocess_object_metadata r = Inr d'
    \<and> map_of d' ''bucket'' = Some (JStr (bucket_name_from_proto b))
    \<and> (\<forall>k. k \<noteq> ''bucket'' \<and> k \<noteq> ''acl'' \<longrightarrow> map_of d' k = map_of d k)
    \<and> map_of d' ''acl'' = map_option (\<lambda>entries. JList (map (\<lambda>a. JObj (filter (\<lambda>(k, v).
         k \<notin> {''kind'', ''bucket'', ''object'', ''generation'', ''etag'', ''entityAlt''}) a)) entries)) acl"
proof -
  let ?bid = "JStr (bucket_name_from_proto b)"
  have fields: "acl_fields = filter (\<lambda>(k, v).
      k \<notin> {''kind'', ''bucket'', ''object'', ''generation'', ''etag'', ''entityAlt''})"
    by (simp add: acl_fields_def acl_dropped_def fun_eq_iff)
  obtain t i acl' r where r: "acl_through acl acl'"
      "\<forall>c. crc = Some c \<longrightarrow> rest_crc32c_from_proto c = Inr t"
      "postprocess_object_rest repr d = Inr r"
      "map_of r = (moved time_fields (map_of d))(''bucket'' \<mapsto> ?bid,
         ''customerEncryption'' := encryption_json ''keySha256'' e,
         ''kind'' \<mapsto> JStr ''storage#object'', ''id'' \<mapsto> JStr i,
         ''checksums'' := None, ''crc32c'' := map_option (\<lambda>_. JStr t) crc,
         ''md5Hash'' := map_option JStr md5, ''acl'' := map_option (JList \<circ> map JObj) acl')"
    using post_resource [OF assms] by blast
  have d: "\<forall>k. map_of d k \<noteq> Some JNull" "\<forall>t \<in> snd ` set time_fields. map_of d t = None"
    using assms by (auto simp: object_dict_def)
  obtain md where md: "rest_adjust r object_adjustments = Inr md"
      "map_of md ''customerEncryption'' = encryption_json ''keySha256Bytes'' e"
      "\<And>k. k \<noteq> ''customerEncryption'' \<Longrightarrow> map_of md k = over [(''id'', None), (''kind'', None),
         (''acl'', map_option (JList \<circ> map JObj) acl'), (''md5Hash'', map_option JStr md5),
         (''crc32c'', map_option (\<lambda>_. JStr t) crc), (''checksums'', None), (''bucket'', Some ?bid)]
         (map_of d) k"
    using rest_adjust_map [of r object_adjustments] pre_adjust [OF d r(4)]
    by (auto simp: map_result_Inr)
  define final where "final = (let md = AList.delete ''md5Hash'' (AList.delete ''crc32c'' md)
    in if checksum_fields crc md5 \<noteq> [] then AList.update ''checksums'' (JObj (checksum_fields crc md5)) md
       else md)"
  have final0: "map_of final = (map_of md)(''crc32c'' := None, ''md5Hash'' := None,
      ''checksums'' := checksums_json crc md5)"
  proof (cases "checksum_fields crc md5 = []")
    case True
    moreover have "map_of md ''checksums'' = None" by (simp add: md(3) over_def)
    ultimately show ?thesis
      by (auto simp: final_def Let_def delete_conv' checksums_json_def)
  next
    case False
    then show ?thesis
      by (simp add: final_def Let_def update_conv' delete_conv' checksums_json_def)
  qed
  have final: "map_of final k = map_of d k" if "k \<noteq> ''bucket''" "k \<noteq> ''acl''" for k
  proof (cases "k \<in> {''customerEncryption'', ''kind'', ''id'', ''checksums'', ''crc32c'', ''md5Hash''}")
    case True
    then show ?thesis
      using assms by (elim insertE emptyE) (simp_all add: final0 md(2,3) over_def object_dict_def)
  next
    case False
    then have "map_of md k = map_of d k"
      using that by (subst md(3)) (simp_all add: over_other)
    then show ?thesis
      using False by (simp add: final0)
  qed
  have special: "map_of final ''bucket'' = Some ?bid"
      "map_of final ''acl'' = map_option (JList \<circ> map JObj) acl'"
    by (simp_all add: final0 md(3) over_def)
  have crc: "crc32c_checksum (map_of md ''crc32c'') = Inr (checksum_fields crc None)"
    using crc32c_checksum_ok [OF r(2)] by (simp add: md(3) over_def)
  have md5: "checksum_fields crc None @ md5_checksum (map_of r ''md5Hash'') = checksum_fields crc md5"
    by (simp add: r(4) md5_checksum_ok)
  have pre: "preprocess_object_metadata r = (case map_of final ''acl'' of None \<Rightarrow> Inr final
      | Some acl \<Rightarrow> bindE (strip_acl acl) (\<lambda>acl. Inr (AList.update ''acl'' acl final)))"
    by (simp only: preprocess_object_metadata_def md(1) bindE_simps crc md5 Let_def final_def)
  show ?thesis
  proof (cases acl')
    case None
    then show ?thesis
      using r(1,3) pre final special
      by (intro exI [of _ r] exI [of _ final]) (cases acl; simp add: acl_through_def)
  next
    case (Some xs)
    then obtain ys where ys: "acl = Some ys" "map acl_fields xs = map acl_fields ys"
        "\<forall>x \<in> set xs. map_of x ''entityAlt'' = None"
      using r(1) by (cases acl) (auto simp: acl_through_def)
    have "map (JObj \<circ> acl_fields) xs = map JObj (map acl_fields ys)"
      by (simp only: ys(2) [symmetric] map_map)
    then have "strip_acl (JList (map JObj xs)) = Inr (JList (map (\<lambda>a. JObj (acl_fields a)) ys))"
      using strip_acl_ok [OF ys(3)] by (simp add: comp_def)
    then show ?thesis
      using r(3) pre final special Some ys(1)
      by (intro exI [of _ r] exI [of _ "AList.update ''acl'' (JList (map (\<lambda>a. JObj (acl_fields a)) ys)) final"])
        (simp add: update_conv' fields)
  qed
qed

definition sample_message :: dict where
  "sample_message = [(''name'', JStr ''n''), (''bucket'', JStr ''projects/_/buckets/b''),
     (''generation'', JStr ''7''), (''createTime'', JStr ''2024-01-01T00:00:00Z''),
     (''checksums'', JObj [(''crc32c'', JNum 1), (''md5Hash'', JStr ''AA=='')]),
     (''acl'', JList [JObj [(''entity'', JStr ''allusers''), (''role'', JStr ''READER''), (''etag'', JStr ''x'')]])]"

theorem object_resource_round_trip_witness:
  "\<exists>r d'. postprocess_object_rest (\<lambda>_. []) sample_message = Inr r
    \<and> preprocess_object_metadata r = Inr d' \<and> map_of d' ''bucket'' = Some (JStr ''b'')
    \<and> map_of d' ''createTime'' = Some (JStr ''2024-01-01T00:00:00Z'')
    \<and> map_of d' ''acl'' = Some (JList [JObj [(''entity'', JStr ''allusers''), (''role'', JStr ''READER'')]])"
proof -
  let ?acl = "[[(''entity'', JStr ''allusers''), (''role'', JStr ''READER''), (''etag'', JStr ''x'')]]"
  have "object_dict sample_message ''projects/_/buckets/b'' ''n'' ''7'' None (Some 1) (Some ''AA=='') (Some ?acl)"
    by (auto simp: object_dict_def sample_message_def time_fields_def encryption_json_def
        checksums_json_def checksum_fields_def)
  then obtain r d' where "postprocess_object_rest (\<lambda>_. []) sample_message = Inr r"
      "preprocess_object_metadata r = Inr d'"
      "map_of d' ''bucket'' = Some (JStr (bucket_name_from_proto ''projects/_/buckets/b''))"
      "map_of d' ''createTime'' = map_of sample_message ''createTime''"
      "map_of d' ''acl'' = Some (JList [JObj [(''entity'', JStr ''allusers''), (''role'', JStr ''READER'')]])"
    using object_resource_round_trip [of sample_message "''projects/_/buckets/b''" "''n''" "''7''" None
        "Some 1" "Some ''AA==''" "Some ?acl" "\<lambda>_. []"] by auto
  then show ?thesis
    by (simp add: sample_message_def bucket_name_from_proto_def bucket_prefix_def)
qed

end
