(* ===== verification/Gcs_Bucket.thy ===== *)
theory Gcs_Bucket
  imports Resources Proto2rest
begin

text \<open>
  \<open>src/gcs/bucket.py\<close>: the class \<open>Bucket\<close>.  The first part turns the JSON resource of a bucket
  into the form that \<open>json_format.ParseDict\<close> reads, the inverse of \<open>Proto2rest\<close>.  The second part
  makes buckets, changes their metadata, IAM policy and notifications, and validates them.

  Arguments stand for \<open>ParseDict\<close>, \<open>MessageToDict\<close>, \<open>FieldMask.MergeMessage\<close>, the digests, the
  clock and the random identifiers.
\<close>

section \<open>From the JSON resource\<close>

definition preprocess_rest_ubla :: "json \<Rightarrow> err + json" where
  "preprocess_rest_ubla = adjust_value [(''lockedTime'', rename ''lockTime'')]"

definition preprocess_rest_pap :: "json \<Rightarrow> err + json" where
  "preprocess_rest_pap pap = bindE (as_str pap) (\<lambda>s.
     let pap = py_upper s
     in Inr (JStr (if pap = ''UNSPECIFIED'' \<or> pap = ''INHERITED'' then ''INHERITED'' else pap)))"

definition preprocess_rest_iam_configuration :: "json \<Rightarrow> err + json" where
  "preprocess_rest_iam_configuration = adjust_value
     [(''uniformBucketLevelAccess'', into ''uniformBucketLevelAccess'' preprocess_rest_ubla),
      (''publicAccessPrevention'', into ''publicAccessPrevention'' preprocess_rest_pap)]"

definition preprocess_rest_encryption :: "json \<Rightarrow> err + json" where
  "preprocess_rest_encryption = adjust_value [(''defaultKmsKeyName'', rename ''defaultKmsKey'')]"

text \<open>\<open>year, month, day = date.split("-", 3)\<close>.\<close>

definition preprocess_rest_date :: "json \<Rightarrow> err + json" where
  "preprocess_rest_date date = bindE (as_str date) (\<lambda>s. case split_on (CHR ''-'') s of
     [year, month, day] \<Rightarrow>
       Inr (JObj [(''year'', JStr year), (''month'', JStr month), (''day'', JStr day)])
   | _ \<Rightarrow> Inl (Exc ValueError))"

definition preprocess_rest_condition :: "json \<Rightarrow> err + json" where
  "preprocess_rest_condition = adjust_value
     [(''age'', rename ''ageDays''),
      (''createdBefore'', into ''createdBefore'' preprocess_rest_date),
      (''customTimeBefore'', into ''customTimeBefore'' preprocess_rest_date),
      (''noncurrentTimeBefore'', into ''noncurrentTimeBefore'' preprocess_rest_date)]"

definition preprocess_rest_rule :: "json \<Rightarrow> err + json" where
  "preprocess_rest_rule = adjust_value [(''condition'', into ''condition'' preprocess_rest_condition)]"

definition preprocess_rest_lifecyle :: "json \<Rightarrow> err + json" where
  "preprocess_rest_lifecyle = over_rules preprocess_rest_rule"

definition drop_keys :: "string list \<Rightarrow> dict \<Rightarrow> dict" where
  "drop_keys ks d = foldl (\<lambda>d k. AList.delete k d) d ks"

definition preprocess_rest_acl :: "json \<Rightarrow> err + json" where
  "preprocess_rest_acl acl = bindE (as_acl acl) (\<lambda>d.
     Inr (JObj (drop_keys [''kind'', ''bucket'', ''etag''] d)))"

definition preprocess_rest_default_object_acl :: "json \<Rightarrow> err + json" where
  "preprocess_rest_default_object_acl acl = bindE (as_acl acl) (\<lambda>d.
     Inr (JObj (drop_keys [''kind'', ''bucket'', ''object'', ''etag''] d)))"

text \<open>\<open>f"{rp}s"\<close>.\<close>

definition preprocess_rest_retention_period :: "(json \<Rightarrow> string) \<Rightarrow> json \<Rightarrow> err + json" where
  "preprocess_rest_retention_period repr rp = Inr (JStr (py_str repr rp @ ''s''))"

definition preprocess_rest_retention_policy :: "(json \<Rightarrow> string) \<Rightarrow> json \<Rightarrow> err + json" where
  "preprocess_rest_retention_policy repr = adjust_value
     [(''retentionPeriod'', into ''retentionDuration'' (preprocess_rest_retention_period repr))]"

definition preprocess_rest_soft_delete_retention_duration ::
    "(json \<Rightarrow> string) \<Rightarrow> json \<Rightarrow> err + json" where
  "preprocess_rest_soft_delete_retention_duration repr rp = Inr (JStr (py_str repr rp @ ''s''))"

definition preprocess_rest_soft_delete_policy :: "(json \<Rightarrow> string) \<Rightarrow> json \<Rightarrow> err + json" where
  "preprocess_rest_soft_delete_policy repr = adjust_value
     [(''retentionDurationSeconds'',
       into ''retentionDuration'' (preprocess_rest_soft_delete_retention_duration repr))]"

definition preprocess_rest_ip_filter :: "json \<Rightarrow> err + json" where
  "preprocess_rest_ip_filter ipf =
     (let ranges = (''allowedIpCidrRanges'', rename ''allowed_ip_cidr_ranges'')
      in bindE (as_dict ipf) (\<lambda>d.
         bindE (over_sources (adjust_value [(''network'', rename ''network''), ranges]) d) (\<lambda>d.
         adjust_value
           [(''mode'', rename ''mode''),
            (''publicNetworkSource'', into ''public_network_source'' (adjust_value [ranges])),
            (''vpcNetworkSources'', rename ''vpc_network_sources''),
            (''allowCrossOrgVpcs'', rename ''allow_cross_org_vpcs''),
            (''allowAllServiceAgentAccess'', rename ''allow_all_service_agent_access'')] (JObj d))))"

definition bucket_preprocessing ::
    "(json \<Rightarrow> string) \<Rightarrow> (string \<times> (json \<Rightarrow> err + (string \<times> json) option)) list" where
  "bucket_preprocessing repr =
     [(''name'', into ''name'' (\<lambda>x. case x of
         JStr s \<Rightarrow> Inr (JStr (bucket_name_to_proto s)) | _ \<Rightarrow> Inl (Exc TypeError))),
      (''id'', rename ''bucketId''), (''kind'', drop_field), (''etag'', drop_field),
      (''projectNumber'', rename ''project''), (''timeCreated'', rename ''create_time''),
      (''updated'', rename ''update_time''),
      (''iamConfiguration'', into ''iamConfig'' preprocess_rest_iam_configuration),
      (''encryption'', into ''encryption'' preprocess_rest_encryption),
      (''lifecycle'', into ''lifecycle'' preprocess_rest_lifecyle),
      (''retentionPolicy'', into ''retentionPolicy'' (preprocess_rest_retention_policy repr)),
      (''softDeletePolicy'', into ''softDeletePolicy'' (preprocess_rest_soft_delete_policy repr)),
      (''ipFilter'', into ''ipFilter'' preprocess_rest_ip_filter)]"

definition adjust_list :: "string \<Rightarrow> (json \<Rightarrow> err + json) \<Rightarrow> dict \<Rightarrow> err + dict" where
  "adjust_list key f d = (case map_of d key of
     None \<Rightarrow> Inr d
   | Some JNull \<Rightarrow> Inr d
   | Some x \<Rightarrow> bindE (for_each f x) (\<lambda>y. Inr (AList.update key y d)))"

definition preprocess_rest :: "(json \<Rightarrow> string) \<Rightarrow> dict \<Rightarrow> err + dict" where
  "preprocess_rest repr rest =
     bindE (rest_adjust rest (bucket_preprocessing repr)) (\<lambda>rest.
     bindE (adjust_list ''acl'' preprocess_rest_acl rest) (\<lambda>rest.
     adjust_list ''defaultObjectAcl'' preprocess_rest_default_object_acl rest))"

section \<open>Names\<close>

definition bucket_name_char :: "char \<Rightarrow> bool" where
  "bucket_name_char c \<longleftrightarrow> is_lower_az c \<or> is_digit c"

definition json_bucket_name_re :: regex where
  "json_bucket_name_re = seqs [Bos, Cls bucket_name_char,
     Many (\<lambda>c. bucket_name_char c \<or> c \<in> {CHR ''.'', CHR ''_'', CHR ''-''}) 1 None,
     Cls bucket_name_char, Eos]"

definition google_re :: regex where
  "google_re = seqs [Cls (\<lambda>c. c = CHR ''g''), Cls (\<lambda>c. c \<in> {CHR ''0'', CHR ''o''}),
     Cls (\<lambda>c. c \<in> {CHR ''0'', CHR ''o''}), Cls (\<lambda>c. c = CHR ''g''),
     Cls (\<lambda>c. c \<in> {CHR ''1'', CHR ''l''}), Cls (\<lambda>c. c \<in> {CHR ''e'', CHR ''3''})]"

definition validate_json_bucket_name :: "string \<Rightarrow> ctx \<Rightarrow> err + unit" where
  "validate_json_bucket_name bucket_name c =
     (let valid =
        (if contains bucket_name ''.'' then
           length bucket_name \<le> 222 \<and> list_all (\<lambda>part. length part \<le> 63) (split_on (CHR ''.'') bucket_name)
         else length bucket_name \<le> 63 \<and> re_match json_bucket_name_re bucket_name \<noteq> None
           \<and> \<not> startswith bucket_name ''goog'' \<and> \<not> re_search google_re True bucket_name)
      in if \<not> valid then Inl (invalid (''Bucket name '' @ bucket_name) c) else Inr ())"

definition project_name_re :: regex where
  "project_name_re = seqs [Bos, lit ''projects/'', Many (\<lambda>c. c \<noteq> CHR ''/'') 1 None, Eos]"

definition validate_grpc_project_name :: "string \<Rightarrow> ctx \<Rightarrow> err + unit" where
  "validate_grpc_project_name project_name c =
     (if re_match project_name_re project_name = None
      then Inl (invalid (''Project name '' @ project_name) c) else Inr ())"

section \<open>The state of a bucket\<close>

text \<open>The message has more fields than the database reads; the \<open>soft_delete\<close> duration is whole
  seconds and nanoseconds.  An IAM policy is kept with its bindings (role and members).\<close>

record bucket_message = bucket +
  bk_bucket_id :: string
  bk_rpo :: string
  bk_etag :: string
  bk_owner_entity :: string
  bk_owner_entity_id :: string
  bk_create_time :: int
  bk_update_time :: int
  bk_toggle_time :: "int option"
  bk_soft_delete_nanos :: int
  bk_soft_delete_effective_time :: "int option"
  bk_retention_effective_time :: "int option"
  bk_labels :: "(string \<times> string) list"
  bk_location :: string
  bk_hierarchical_namespace :: bool

record iam_policy =
  ip_version :: int
  ip_bindings :: "(string \<times> string list) list"
  ip_etag :: bytes

record gcs_bucket =
  gb_metadata :: bucket_message
  gb_notifications :: "(string \<times> dict) list"
  gb_iam_policy :: iam_policy

record bucket_env =
  be_acl :: acl_env
  be_parse :: "dict \<Rightarrow> err + bucket_message"
  be_to_dict :: "bucket_message \<Rightarrow> dict"
  be_merge :: "string list \<Rightarrow> bucket_message \<Rightarrow> bucket_message \<Rightarrow> bucket_message"
  be_has_autoclass :: "bucket_message \<Rightarrow> bool"
  be_repr :: "json \<Rightarrow> string"

section \<open>Predefined ACLs\<close>

definition extract_predefined_default_object_acl :: "request \<Rightarrow> string" where
  "extract_predefined_default_object_acl r =
     (case aget r ''predefinedDefaultObjectAcl'' of None \<Rightarrow> '''' | Some v \<Rightarrow> v)"

definition insert_predefined_bucket_acl ::
    "bucket_env \<Rightarrow> string \<Rightarrow> ctx \<Rightarrow> bucket_message \<Rightarrow> err + bucket_message" where
  "insert_predefined_bucket_acl env predefined_acl c metadata =
     (if predefined_acl = [] \<or> predefined_acl = ''unspecified'' then Inr metadata
      else if bk_ubla metadata
        then Inl (invalid ''Predefined ACL with uniform bucket level access enabled'' c)
      else bindE (compute_predefined_bucket_acl (be_acl env) (bk_name metadata) (Some predefined_acl) c)
             (\<lambda>acls. Inr (metadata\<lparr>bk_acl := acls\<rparr>)))"

definition insert_predefined_default_object_acl ::
    "bucket_env \<Rightarrow> string \<Rightarrow> ctx \<Rightarrow> bucket_message \<Rightarrow> err + bucket_message" where
  "insert_predefined_default_object_acl env predefined c metadata =
     (if predefined = [] then Inr metadata
      else if bk_ubla metadata
        then Inl (invalid
          ''Predefined Default Object ACL with uniform bucket level access enabled'' c)
      else bindE (compute_predefined_default_object_acl (be_acl env) (bk_name metadata) (Some predefined) c)
             (\<lambda>acls. Inr (metadata\<lparr>bk_default_object_acl := acls\<rparr>)))"

section \<open>Making a bucket\<close>

definition bucket_etag :: "bucket_env \<Rightarrow> int \<Rightarrow> string" where
  "bucket_etag env metageneration = md5hex (be_acl env) (utf8 (show_int metageneration))"

definition init_defaults ::
    "bucket_env \<Rightarrow> int \<Rightarrow> ctx \<Rightarrow> bucket_message \<Rightarrow> err + bucket_message" where
  "init_defaults env now c metadata =
     bindE (get_project_entity (be_acl env) ''owners'' c) (\<lambda>owner.
     Inr (metadata\<lparr>
       bk_rpo := (if bk_rpo metadata = [] then ''DEFAULT'' else bk_rpo metadata),
       bk_storage_class := (if bk_storage_class metadata = [] then ''STANDARD''
                            else bk_storage_class metadata),
       bk_project := ''projects/'' @ project_number (be_acl env),
       bk_create_time := now, bk_update_time := now,
       bk_toggle_time := (if bk_autoclass metadata then Some now else bk_toggle_time metadata),
       bk_metageneration := 1, bk_owner_entity := owner,
       bk_owner_entity_id := md5hex (be_acl env) (utf8 owner), bk_etag := bucket_etag env 1\<rparr>))"

definition validate_soft_delete_policy :: "ctx \<Rightarrow> bucket_message \<Rightarrow> err + unit" where
  "validate_soft_delete_policy c metadata = (case bk_soft_delete metadata of
     None \<Rightarrow> Inr ()
   | Some seconds \<Rightarrow>
     if bk_soft_delete_nanos metadata \<noteq> 0 then Inl (invalid
       ''SoftDeletePolicy.retention_duration should not have nanoseconds'' c)
     else if seconds < 7 * 86400 then Inl (invalid
       ''SoftDeletePolicy.retention_duration should be at least 7 days'' c)
     else if 90 * 86400 \<le> seconds then Inl (invalid
       ''SoftDeletePolicy.retention_duration should be less than 90 days'' c)
     else Inr ())"

text \<open>\<open>uuid\<close> is the text of the random identifier.\<close>

definition legacy_role :: "string \<Rightarrow> string option" where
  "legacy_role = map_of [(''READER'', ''roles/storage.legacyBucketReader''),
     (''WRITER'', ''roles/storage.legacyBucketWriter''), (''OWNER'', ''roles/storage.legacyBucketOwner'')]"

definition init_iam_policy :: "string \<Rightarrow> ctx \<Rightarrow> bucket_message \<Rightarrow> err + iam_policy" where
  "init_iam_policy uuid c metadata =
     bindE (collect (map (\<lambda>entry. case legacy_role (acl_role entry) of
         None \<Rightarrow> Inl (invalid (''Legacy role '' @ acl_role entry) c)
       | Some role \<Rightarrow> Inr (role, [acl_entity entry])) (bk_acl metadata)))
       (\<lambda>bindings. Inr \<lparr>ip_version = 1, ip_bindings = bindings, ip_etag = utf8 uuid\<rparr>)"

definition touch_soft_delete :: "int \<Rightarrow> bucket_message \<Rightarrow> bucket_message" where
  "touch_soft_delete now metadata =
     (if bk_soft_delete metadata \<noteq> None then metadata\<lparr>bk_soft_delete_effective_time := Some now\<rparr>
      else metadata)"

text \<open>The ACL that a request asks for when the resource has none: \<open>fallback\<close> unless the request
  names another, which uniform access refuses.\<close>

definition requested_acl :: "string \<Rightarrow> string list \<Rightarrow> bool \<Rightarrow> string \<Rightarrow> ctx \<Rightarrow> err + string" where
  "requested_acl predefined none_of is_uniform msg c =
     (if predefined \<in> set none_of then Inr ''projectPrivate''
      else if is_uniform then Inl (invalid msg c) else Inr predefined)"

definition bucket_init ::
    "bucket_env \<Rightarrow> int \<Rightarrow> string \<Rightarrow> request \<Rightarrow> dict \<Rightarrow> ctx \<Rightarrow> err + gcs_bucket \<times> string" where
  "bucket_init env now uuid request data c =
     bindE (preprocess_rest (be_repr env) data) (\<lambda>data.
     bindE (be_parse env data) (\<lambda>metadata.
     bindE (init_defaults env now c metadata) (\<lambda>metadata.
     bindE (validate_json_bucket_name (bucket_name_from_proto (bk_name metadata)) c) (\<lambda>_.
     let default_projection =
           (if bk_acl metadata \<noteq> [] \<or> bk_default_object_acl metadata \<noteq> [] then ''full'' else ''noAcl'');
         is_uniform = bk_ubla metadata;
         metadata = metadata\<lparr>bk_ubla := False\<rparr>
     in bindE (if bk_acl metadata \<noteq> [] then Inr metadata
               else bindE (requested_acl (extract_predefined_acl request False) [''unspecified'', '''']
                       is_uniform ''Predefined ACL with uniform bucket level access enabled'' c)
                    (\<lambda>predefined. insert_predefined_bucket_acl env predefined c metadata)) (\<lambda>metadata.
        bindE (if bk_default_object_acl metadata \<noteq> [] then Inr metadata
               else bindE (requested_acl (extract_predefined_default_object_acl request) ['''']
                       is_uniform
                       ''Predefined Default Object ACL with uniform bucket level access enabled'' c)
                    (\<lambda>predefined. insert_predefined_default_object_acl env predefined c metadata)) (\<lambda>metadata.
        let metadata = touch_soft_delete now (metadata\<lparr>bk_ubla := is_uniform,
              bk_bucket_id := bucket_name_from_proto (bk_name metadata),
              bk_project := ''projects/'' @ project_number (be_acl env)\<rparr>)
        in bindE (validate_soft_delete_policy c metadata) (\<lambda>_.
           bindE (init_iam_policy uuid c metadata) (\<lambda>policy.
           Inr (\<lparr>gb_metadata = metadata, gb_notifications = [], gb_iam_policy = policy\<rparr>,
                extract_projection request default_projection c)))))))))"

text \<open>\<open>CreateBucketRequest\<close>.\<close>

record create_bucket_request =
  cb_parent :: string
  cb_bucket_id :: string
  cb_bucket :: bucket_message
  cb_predefined_acl :: string
  cb_predefined_default_object_acl :: string

definition init_grpc ::
    "bucket_env \<Rightarrow> int \<Rightarrow> string \<Rightarrow> create_bucket_request \<Rightarrow> ctx \<Rightarrow> err + gcs_bucket \<times> string" where
  "init_grpc env now uuid request c =
     bindE (validate_json_bucket_name (bucket_name_from_proto (cb_bucket_id request)) c) (\<lambda>_.
     bindE (if cb_parent request = ''projects/_''
            then validate_grpc_project_name (bk_project (cb_bucket request)) c
            else bindE (validate_grpc_project_name (cb_parent request) c) (\<lambda>_.
              if bk_project (cb_bucket request) \<noteq> [] then Inl (invalid
                (''CreateBucketRequest with invalid combination of `parent` and `bucket.project`''
                 @ '' fields'') c)
              else Inr ())) (\<lambda>_.
     bindE (init_defaults env now c (cb_bucket request)) (\<lambda>metadata.
     let metadata = metadata\<lparr>bk_bucket_id := cb_bucket_id request,
           bk_name := ''projects/_/buckets/'' @ cb_bucket_id request\<rparr>;
         or_private = \<lambda>p. if p \<noteq> [] then p else ''projectPrivate''
     in bindE (insert_predefined_bucket_acl env (or_private (cb_predefined_acl request)) c metadata)
          (\<lambda>metadata.
        bindE (insert_predefined_default_object_acl env
                 (or_private (cb_predefined_default_object_acl request)) c metadata) (\<lambda>metadata.
        let metadata = touch_soft_delete now metadata
        in bindE (validate_soft_delete_policy c metadata) (\<lambda>_.
           bindE (init_iam_policy uuid c metadata) (\<lambda>policy.
           Inr (\<lparr>gb_metadata = metadata, gb_notifications = [], gb_iam_policy = policy\<rparr>,
                ''noAcl''))))))))"

section \<open>IAM policies\<close>

text \<open>Over gRPC the policy comes with an entity tag.  Over REST the resource may be wrapped; it
  loses \<open>kind\<close>, \<open>etag\<close> and \<open>resourceId\<close> before \<open>ParseDict\<close> (\<open>parse\<close>) reads it.\<close>

definition set_iam_policy_grpc :: "string \<Rightarrow> (bytes \<Rightarrow> string) \<Rightarrow> iam_policy \<Rightarrow> ctx \<Rightarrow> gcs_bucket
       \<Rightarrow> err + iam_policy \<times> gcs_bucket" where
  "set_iam_policy_grpc uuid show_bytes policy c b =
     (if ip_etag policy \<noteq> ip_etag (gb_iam_policy b)
      then Inl (mismatch ''etag'' (show_bytes (ip_etag (gb_iam_policy b))) (show_bytes (ip_etag policy)) c)
      else let policy = policy\<lparr>ip_etag := utf8 uuid\<rparr> in Inr (policy, b\<lparr>gb_iam_policy := policy\<rparr>))"

definition set_iam_policy_rest ::
    "string \<Rightarrow> (dict \<Rightarrow> err + iam_policy) \<Rightarrow> dict \<Rightarrow> gcs_bucket \<Rightarrow> err + iam_policy \<times> gcs_bucket" where
  "set_iam_policy_rest uuid parse data b =
     bindE (case map_of data ''iam_request'' of
         None \<Rightarrow> Inr data
       | Some (JObj r) \<Rightarrow> bindE (key_of r ''policy'') as_dict
       | Some _ \<Rightarrow> Inl (Exc TypeError)) (\<lambda>data.
     bindE (parse (drop_keys [''kind'', ''etag'', ''resourceId''] data)) (\<lambda>policy.
       let policy = policy\<lparr>ip_etag := utf8 uuid\<rparr> in Inr (policy, b\<lparr>gb_iam_policy := policy\<rparr>)))"

section \<open>Changing the metadata\<close>

definition bucket_modifiable_fields :: "string list" where
  "bucket_modifiable_fields = [''acl'', ''autoclass'', ''default_object_acl'', ''lifecycle'',
     ''cors'', ''storage_class'', ''default_event_based_hold'', ''labels'', ''website'',
     ''versioning'', ''logging'', ''encryption'', ''billing'', ''retention_policy'',
     ''soft_delete_policy'', ''location_type'', ''iam_config'', ''rpo'', ''ip_filter'']"

definition update_bucket_metadata ::
    "bucket_env \<Rightarrow> int \<Rightarrow> bucket_message \<Rightarrow> string list option \<Rightarrow> bucket_message \<Rightarrow> bucket_message" where
  "update_bucket_metadata env now source update_mask metadata = (
     let paths = (case update_mask of None \<Rightarrow> bucket_modifiable_fields | Some m \<Rightarrow> m);
         metadata = be_merge env paths source metadata;
         metadata = (if ''autoclass'' \<in> set paths \<and> be_has_autoclass env source
           then metadata\<lparr>bk_toggle_time := Some now\<rparr> else metadata);
         metadata = (if ''soft_delete_policy'' \<in> set paths \<and> bk_soft_delete source \<noteq> None
           then metadata\<lparr>bk_soft_delete_effective_time := Some now\<rparr> else metadata);
         metadata = metadata\<lparr>bk_metageneration := bk_metageneration metadata + 1,
           bk_update_time := now\<rparr>
     in metadata\<lparr>bk_etag := bucket_etag env (bk_metageneration metadata)\<rparr>)"

text \<open>\<open>update\<close> and \<open>patch\<close> end in the same way.  The predefined ACLs are put into the parsed
  copy, after its fields have been merged into the bucket; an error there is raised with the
  bucket already changed.  The result is the error, if any, and the bucket.\<close>

definition replace_bucket_metadata ::
    "bucket_env \<Rightarrow> int \<Rightarrow> request \<Rightarrow> dict \<Rightarrow> gcs_bucket \<Rightarrow> (err + unit) \<times> gcs_bucket" where
  "replace_bucket_metadata env now request data b =
     (case bindE (be_parse env data) (\<lambda>metadata.
             bindE (validate_soft_delete_policy Rest metadata) (\<lambda>_. Inr metadata)) of
        Inl e \<Rightarrow> (Inl e, b)
      | Inr metadata \<Rightarrow>
          (bindE (insert_predefined_bucket_acl env (extract_predefined_acl request False) Rest metadata)
             (\<lambda>metadata. bindE (insert_predefined_default_object_acl env
                (extract_predefined_default_object_acl request) Rest metadata) (\<lambda>_. Inr ())),
           b\<lparr>gb_metadata := update_bucket_metadata env now metadata None (gb_metadata b)\<rparr>))"

definition bucket_update ::
    "bucket_env \<Rightarrow> int \<Rightarrow> request \<Rightarrow> dict \<Rightarrow> ctx \<Rightarrow> gcs_bucket \<Rightarrow> (err + unit) \<times> gcs_bucket" where
  "bucket_update env now request data c b =
     (if c \<noteq> Rest then (Inl (Exc AssertionError), b)
      else case preprocess_rest (be_repr env) data of
        Inl e \<Rightarrow> (Inl e, b) | Inr data \<Rightarrow> replace_bucket_metadata env now request data b)"

definition bucket_rest :: "bucket_env \<Rightarrow> gcs_bucket \<Rightarrow> err + dict" where
  "bucket_rest env b = bucket_as_rest (be_to_dict env) (gb_metadata b)"

definition bucket_patch ::
    "bucket_env \<Rightarrow> int \<Rightarrow> request \<Rightarrow> dict \<Rightarrow> ctx \<Rightarrow> gcs_bucket \<Rightarrow> (err + unit) \<times> gcs_bucket" where
  "bucket_patch env now request data c b =
     (if c \<noteq> Rest then (Inl (Exc AssertionError), b)
      else case bindE (bucket_rest env b) (\<lambda>rest.
                bindE (rest_patch [] rest data) (\<lambda>rest. preprocess_rest (be_repr env) rest)) of
        Inl e \<Rightarrow> (Inl e, b) | Inr data \<Rightarrow> replace_bucket_metadata env now request data b)"

section \<open>The two ACLs of a bucket\<close>

text \<open>The bodies of the requests: \<open>payload["entity"]\<close> and \<open>payload["role"]\<close>, as texts.\<close>

definition payload_text :: "dict \<Rightarrow> string \<Rightarrow> err + string" where
  "payload_text payload key = bindE (key_of payload key) as_str"

definition bucket_upsert_acl ::
    "bucket_env \<Rightarrow> string \<Rightarrow> string \<Rightarrow> ctx \<Rightarrow> gcs_bucket \<Rightarrow> err + acl_entry \<times> gcs_bucket" where
  "bucket_upsert_acl env entity role c b =
     bindE (upsert_acl (be_acl env)
        (\<lambda>entity role. create_bucket_acl (be_acl env) (bk_name (gb_metadata b)) entity role c)
        (bk_acl (gb_metadata b)) entity role) (\<lambda>(acl, acls).
     Inr (acl, b\<lparr>gb_metadata := (gb_metadata b)\<lparr>bk_acl := acls\<rparr>\<rparr>))"

definition bucket_get_acl :: "bucket_env \<Rightarrow> string \<Rightarrow> ctx \<Rightarrow> gcs_bucket \<Rightarrow> err + acl_entry" where
  "bucket_get_acl env entity c b = get_acl (be_acl env) (bk_acl (gb_metadata b)) entity c"

definition bucket_insert_acl ::
    "bucket_env \<Rightarrow> dict \<Rightarrow> ctx \<Rightarrow> gcs_bucket \<Rightarrow> err + acl_entry \<times> gcs_bucket" where
  "bucket_insert_acl env payload c b =
     bindE (payload_text payload ''entity'') (\<lambda>entity.
     bindE (payload_text payload ''role'') (\<lambda>role. bucket_upsert_acl env entity role c b))"

definition bucket_update_acl ::
    "bucket_env \<Rightarrow> dict \<Rightarrow> string \<Rightarrow> ctx \<Rightarrow> gcs_bucket \<Rightarrow> err + acl_entry \<times> gcs_bucket" where
  "bucket_update_acl env payload entity c b =
     bindE (payload_text payload ''role'') (\<lambda>role. bucket_upsert_acl env entity role c b)"

definition bucket_delete_acl :: "bucket_env \<Rightarrow> string \<Rightarrow> ctx \<Rightarrow> gcs_bucket \<Rightarrow> err + gcs_bucket" where
  "bucket_delete_acl env entity c b =
     bindE (delete_acl (be_acl env) (bk_acl (gb_metadata b)) entity c) (\<lambda>acls.
     Inr (b\<lparr>gb_metadata := (gb_metadata b)\<lparr>bk_acl := acls\<rparr>\<rparr>))"

text \<open>The default object ACL: the error of a missing entry has its own text.\<close>

definition must_search_default_object_acl ::
    "bucket_env \<Rightarrow> string \<Rightarrow> ctx \<Rightarrow> gcs_bucket \<Rightarrow> err + nat" where
  "must_search_default_object_acl env entity c b =
     (case search_acl (be_acl env) (bk_default_object_acl (gb_metadata b)) entity of
        None \<Rightarrow> Inl (notfound (''Default Object ACL '' @ get_canonical_entity (be_acl env) entity) c)
      | Some i \<Rightarrow> Inr i)"

definition upsert_default_object_acl ::
    "bucket_env \<Rightarrow> string \<Rightarrow> string \<Rightarrow> ctx \<Rightarrow> gcs_bucket \<Rightarrow> err + acl_entry \<times> gcs_bucket" where
  "upsert_default_object_acl env entity role c b =
     bindE (upsert_acl (be_acl env)
        (\<lambda>entity role. create_default_object_acl (be_acl env) (bk_name (gb_metadata b)) entity role c)
        (bk_default_object_acl (gb_metadata b)) entity role) (\<lambda>(acl, acls).
     Inr (acl, b\<lparr>gb_metadata := (gb_metadata b)\<lparr>bk_default_object_acl := acls\<rparr>\<rparr>))"

definition get_default_object_acl ::
    "bucket_env \<Rightarrow> string \<Rightarrow> ctx \<Rightarrow> gcs_bucket \<Rightarrow> err + acl_entry" where
  "get_default_object_acl env entity c b =
     bindE (must_search_default_object_acl env entity c b)
       (\<lambda>i. Inr (bk_default_object_acl (gb_metadata b) ! i))"

definition insert_default_object_acl ::
    "bucket_env \<Rightarrow> dict \<Rightarrow> ctx \<Rightarrow> gcs_bucket \<Rightarrow> err + acl_entry \<times> gcs_bucket" where
  "insert_default_object_acl env payload c b =
     bindE (payload_text payload ''entity'') (\<lambda>entity.
     bindE (payload_text payload ''role'') (\<lambda>role. upsert_default_object_acl env entity role c b))"

definition update_default_object_acl ::
    "bucket_env \<Rightarrow> dict \<Rightarrow> string \<Rightarrow> ctx \<Rightarrow> gcs_bucket \<Rightarrow> err + acl_entry \<times> gcs_bucket" where
  "update_default_object_acl env payload entity c b =
     bindE (payload_text payload ''role'') (\<lambda>role. upsert_default_object_acl env entity role c b)"

definition delete_default_object_acl ::
    "bucket_env \<Rightarrow> string \<Rightarrow> ctx \<Rightarrow> gcs_bucket \<Rightarrow> err + gcs_bucket" where
  "delete_default_object_acl env entity c b =
     bindE (must_search_default_object_acl env entity c b) (\<lambda>i.
     let acls = bk_default_object_acl (gb_metadata b)
     in Inr (b\<lparr>gb_metadata := (gb_metadata b)\<lparr>bk_default_object_acl :=
          take i acls @ drop (Suc i) acls\<rparr>\<rparr>))"

section \<open>Notifications\<close>

text \<open>The two loops run over sets of texts; \<open>required\<close> and \<open>optional\<close> are the orders in which
  Python iterates them.  A value \<open>None\<close> counts as missing.\<close>

definition snake_keys :: "dict \<Rightarrow> dict" where
  "snake_keys data = dict_update [] (map (\<lambda>(k, v). (to_snake_case k, v)) data)"

definition present :: "dict \<Rightarrow> string \<Rightarrow> json option" where
  "present data k = (case map_of data k of Some JNull \<Rightarrow> None | found \<Rightarrow> found)"

fun take_required :: "ctx \<Rightarrow> dict \<Rightarrow> string list \<Rightarrow> dict \<Rightarrow> err + dict" where
  "take_required c data [] notification = Inr notification"
| "take_required c data (k # ks) notification = (case present data k of
     None \<Rightarrow> Inl (invalid (''Missing field in notification '' @ k) c)
   | Some v \<Rightarrow> take_required c data ks (AList.update k v notification))"

fun take_optional :: "dict \<Rightarrow> string list \<Rightarrow> dict \<Rightarrow> dict" where
  "take_optional data [] notification = notification"
| "take_optional data (k # ks) notification =
     take_optional data ks (case present data k of
       None \<Rightarrow> notification | Some v \<Rightarrow> AList.update k v notification)"

definition insert_notification ::
    "string \<Rightarrow> string list \<Rightarrow> string list \<Rightarrow> dict \<Rightarrow> ctx \<Rightarrow> gcs_bucket \<Rightarrow> err + dict \<times> gcs_bucket" where
  "insert_notification uuid required optional data c b =
     (let i = ''notification-'' @ uuid;
          data = snake_keys data
      in bindE (take_required c data required
                  [(''kind'', JStr ''storage#notification''), (''id'', JStr i)]) (\<lambda>notification.
         let notification = take_optional data optional notification
         in Inr (notification,
              b\<lparr>gb_notifications := AList.update i notification (gb_notifications b)\<rparr>)))"

definition get_notification :: "string \<Rightarrow> ctx \<Rightarrow> gcs_bucket \<Rightarrow> err + dict" where
  "get_notification i c b = (case map_of (gb_notifications b) i of
     None \<Rightarrow> Inl (notfound (''Notification '' @ i) c) | Some n \<Rightarrow> Inr n)"

definition delete_notification :: "string \<Rightarrow> ctx \<Rightarrow> gcs_bucket \<Rightarrow> err + gcs_bucket" where
  "delete_notification i c b = (case map_of (gb_notifications b) i of
     None \<Rightarrow> Inl (notfound (''Notification '' @ i) c)
   | Some _ \<Rightarrow> Inr (b\<lparr>gb_notifications := AList.delete i (gb_notifications b)\<rparr>))"

definition list_notifications :: "gcs_bucket \<Rightarrow> dict" where
  "list_notifications b = [(''kind'', JStr ''storage#notifications''),
     (''items'', JList (map (JObj \<circ> snd) (gb_notifications b)))]"

section \<open>What the two constructors make\<close>

definition valid_bucket_name :: "string \<Rightarrow> bool" where
  "valid_bucket_name name \<longleftrightarrow>
     (if CHR ''.'' \<in> set name
      then length name \<le> 222 \<and> (\<forall>part \<in> set (split_on (CHR ''.'') name). length part \<le> 63)
      else length name \<le> 63 \<and> re_match json_bucket_name_re name \<noteq> None
        \<and> \<not> startswith name ''goog'' \<and> \<not> re_search google_re True name)"

lemma validate_json_bucket_name_iff:
  "validate_json_bucket_name name c = Inr u \<longleftrightarrow> valid_bucket_name name"
  by (simp add: validate_json_bucket_name_def valid_bucket_name_def contains_singleton list_all_iff Let_def)

definition soft_delete_ok :: "bucket_message \<Rightarrow> bool" where
  "soft_delete_ok md \<longleftrightarrow> (case bk_soft_delete md of None \<Rightarrow> True
     | Some s \<Rightarrow> 7 * 86400 \<le> s \<and> s < 90 * 86400 \<and> bk_soft_delete_nanos md = 0)"

lemma validate_soft_delete_policy_iff:
  "validate_soft_delete_policy c md = Inr u \<longleftrightarrow> soft_delete_ok md"
  by (auto simp: validate_soft_delete_policy_def soft_delete_ok_def split: option.splits if_splits)

lemma collect_length: "collect rs = Inr xs \<Longrightarrow> length xs = length rs"
  by (induction rs arbitrary: xs) (auto simp: bindE_eq_Inr)

lemma init_iam_policy_Inr:
  "init_iam_policy uuid c md = Inr p \<Longrightarrow>
     length (ip_bindings p) = length (bk_acl md) \<and> ip_etag p = utf8 uuid \<and> ip_version p = 1"
  by (auto simp: init_iam_policy_def bindE_eq_Inr dest!: collect_length)

lemma insert_predefined_bucket_acl_Inr:
  "insert_predefined_bucket_acl env p c md = Inr md' \<Longrightarrow> md' = md\<lparr>bk_acl := bk_acl md'\<rparr>"
  by (auto simp: insert_predefined_bucket_acl_def bindE_eq_Inr split: if_splits)

lemma insert_predefined_default_object_acl_Inr:
  "insert_predefined_default_object_acl env p c md = Inr md' \<Longrightarrow>
     md' = md\<lparr>bk_default_object_acl := bk_default_object_acl md'\<rparr>"
  by (auto simp: insert_predefined_default_object_acl_def bindE_eq_Inr split: if_splits)

lemma init_defaults_Inr:
  "init_defaults env now c md = Inr md' \<Longrightarrow> bk_metageneration md' = 1 \<and> bk_name md' = bk_name md
     \<and> bk_ubla md' = bk_ubla md \<and> bk_project md' = ''projects/'' @ project_number (be_acl env)
     \<and> bk_storage_class md' \<noteq> [] \<and> bk_etag md' = bucket_etag env 1"
  by (auto simp: init_defaults_def bindE_eq_Inr split: if_splits)

lemma touch_soft_delete_simps [simp]:
  "bk_metageneration (touch_soft_delete now md) = bk_metageneration md"
  "bk_name (touch_soft_delete now md) = bk_name md" "bk_ubla (touch_soft_delete now md) = bk_ubla md"
  "bk_project (touch_soft_delete now md) = bk_project md" "bk_acl (touch_soft_delete now md) = bk_acl md"
  "bk_etag (touch_soft_delete now md) = bk_etag md"
  "bk_storage_class (touch_soft_delete now md) = bk_storage_class md"
  "bk_bucket_id (touch_soft_delete now md) = bk_bucket_id md"
  by (simp_all add: touch_soft_delete_def)

text \<open>What holds of every new bucket.\<close>

definition new_bucket_ok :: "bucket_env \<Rightarrow> gcs_bucket \<Rightarrow> bool" where
  "new_bucket_ok env b \<longleftrightarrow>
     (valid_bucket_name (bk_bucket_id (gb_metadata b))
      \<or> valid_bucket_name (bucket_name_from_proto (bk_bucket_id (gb_metadata b))))
   \<and> bucket_name_from_proto (bk_name (gb_metadata b)) = bk_bucket_id (gb_metadata b)
   \<and> bk_metageneration (gb_metadata b) = 1 \<and> bk_etag (gb_metadata b) = bucket_etag env 1
   \<and> bk_storage_class (gb_metadata b) \<noteq> []
   \<and> bk_project (gb_metadata b) = ''projects/'' @ project_number (be_acl env)
   \<and> soft_delete_ok (gb_metadata b) \<and> gb_notifications b = []
   \<and> length (ip_bindings (gb_iam_policy b)) = length (bk_acl (gb_metadata b))"

lemma bucket_init_ok:
  assumes "bucket_init env now uuid request data c = Inr (b, projection)"
  shows "new_bucket_ok env b \<and> (\<exists>data' md. preprocess_rest (be_repr env) data = Inr data'
    \<and> be_parse env data' = Inr md \<and> bk_name (gb_metadata b) = bk_name md
    \<and> bk_ubla (gb_metadata b) = bk_ubla md)"
proof -
  obtain data' md md1 md2 md3 p u v where raw:
    "preprocess_rest (be_repr env) data = Inr data'" "be_parse env data' = Inr md"
    "init_defaults env now c md = Inr md1"
    "validate_json_bucket_name (bucket_name_from_proto (bk_name md1)) c = Inr u"
    "\<exists>x. (if bk_acl (md1\<lparr>bk_ubla := False\<rparr>) \<noteq> [] then Inr (md1\<lparr>bk_ubla := False\<rparr>)
        else bindE x (\<lambda>p. insert_predefined_bucket_acl env p c (md1\<lparr>bk_ubla := False\<rparr>))) = Inr md2"
    "\<exists>x. (if bk_default_object_acl md2 \<noteq> [] then Inr md2
        else bindE x (\<lambda>p. insert_predefined_default_object_acl env p c md2)) = Inr md3"
    "validate_soft_delete_policy c (touch_soft_delete now (md3\<lparr>bk_ubla := bk_ubla md1,
        bk_bucket_id := bucket_name_from_proto (bk_name md3),
        bk_project := ''projects/'' @ project_number (be_acl env)\<rparr>)) = Inr v"
    "init_iam_policy uuid c (touch_soft_delete now (md3\<lparr>bk_ubla := bk_ubla md1,
        bk_bucket_id := bucket_name_from_proto (bk_name md3),
        bk_project := ''projects/'' @ project_number (be_acl env)\<rparr>)) = Inr p"
    "\<exists>pr. Inr (\<lparr>gb_metadata = touch_soft_delete now (md3\<lparr>bk_ubla := bk_ubla md1,
        bk_bucket_id := bucket_name_from_proto (bk_name md3),
        bk_project := ''projects/'' @ project_number (be_acl env)\<rparr>), gb_notifications = [],
        gb_iam_policy = p\<rparr>, pr) = (Inr (b, projection) :: err + gcs_bucket \<times> string)"
    using assms unfolding bucket_init_def bindE_eq_Inr Let_def by blast
  have run:
    "preprocess_rest (be_repr env) data = Inr data'" "be_parse env data' = Inr md"
    "init_defaults env now c md = Inr md1"
    "validate_json_bucket_name (bucket_name_from_proto (bk_name md1)) c = Inr ()"
    "md2 = md1\<lparr>bk_ubla := False\<rparr>
      \<or> (\<exists>p. insert_predefined_bucket_acl env p c (md1\<lparr>bk_ubla := False\<rparr>) = Inr md2)"
    "md3 = md2 \<or> (\<exists>p. insert_predefined_default_object_acl env p c md2 = Inr md3)"
    "gb_metadata b = touch_soft_delete now (md3\<lparr>bk_ubla := bk_ubla md1,
        bk_bucket_id := bucket_name_from_proto (bk_name md3),
        bk_project := ''projects/'' @ project_number (be_acl env)\<rparr>)"
    "validate_soft_delete_policy c (gb_metadata b) = Inr ()"
    "init_iam_policy uuid c (gb_metadata b) = Inr p" "gb_iam_policy b = p" "gb_notifications b = []"
    using raw by (auto simp: bindE_eq_Inr split: if_splits)
  have 5: "md2 = (md1\<lparr>bk_ubla := False\<rparr>)\<lparr>bk_acl := bk_acl md2\<rparr>"
    using run(5) insert_predefined_bucket_acl_Inr by fastforce
  have 6: "md3 = md2\<lparr>bk_default_object_acl := bk_default_object_acl md3\<rparr>"
    using run(6) insert_predefined_default_object_acl_Inr by fastforce
  note fields = init_defaults_Inr [OF run(3)] 5 [THEN arg_cong, of bk_name]
    5 [THEN arg_cong, of bk_metageneration] 5 [THEN arg_cong, of bk_etag]
    5 [THEN arg_cong, of bk_storage_class]
    6 [THEN arg_cong, of bk_name] 6 [THEN arg_cong, of bk_metageneration]
    6 [THEN arg_cong, of bk_etag] 6 [THEN arg_cong, of bk_storage_class]
  show ?thesis
    using fields run(1,2,4,7-11) validate_json_bucket_name_iff validate_soft_delete_policy_iff
      init_iam_policy_Inr [OF run(9)]
    by (auto simp: new_bucket_ok_def)
qed

lemma init_grpc_ok:
  assumes "init_grpc env now uuid request c = Inr (b, projection)"
  shows "new_bucket_ok env b \<and> bk_name (gb_metadata b) = bucket_name_to_proto (cb_bucket_id request)"
proof -
  let ?name = "''projects/_/buckets/'' @ cb_bucket_id request"
  obtain md1 md2 md3 p u v where raw:
    "validate_json_bucket_name (bucket_name_from_proto (cb_bucket_id request)) c = Inr u"
    "init_defaults env now c (cb_bucket request) = Inr md1"
    "\<exists>p. insert_predefined_bucket_acl env p c
       (md1\<lparr>bk_bucket_id := cb_bucket_id request, bk_name := ?name\<rparr>) = Inr md2"
    "\<exists>p. insert_predefined_default_object_acl env p c md2 = Inr md3"
    "validate_soft_delete_policy c (touch_soft_delete now md3) = Inr v"
    "init_iam_policy uuid c (touch_soft_delete now md3) = Inr p"
    "Inr (\<lparr>gb_metadata = touch_soft_delete now md3, gb_notifications = [], gb_iam_policy = p\<rparr>,
       ''noAcl'') = (Inr (b, projection) :: err + gcs_bucket \<times> string)"
    using assms unfolding init_grpc_def bindE_eq_Inr Let_def by blast
  then have run:
    "validate_json_bucket_name (bucket_name_from_proto (cb_bucket_id request)) c = Inr ()"
    "init_defaults env now c (cb_bucket request) = Inr md1"
    "\<exists>p. insert_predefined_bucket_acl env p c
       (md1\<lparr>bk_bucket_id := cb_bucket_id request, bk_name := ?name\<rparr>) = Inr md2"
    "\<exists>p. insert_predefined_default_object_acl env p c md2 = Inr md3"
    "gb_metadata b = touch_soft_delete now md3"
    "validate_soft_delete_policy c (gb_metadata b) = Inr ()"
    "init_iam_policy uuid c (gb_metadata b) = Inr p" "gb_iam_policy b = p" "gb_notifications b = []"
    by auto
  have 3: "md2 = (md1\<lparr>bk_bucket_id := cb_bucket_id request, bk_name := ?name\<rparr>)\<lparr>bk_acl := bk_acl md2\<rparr>"
    using run(3) insert_predefined_bucket_acl_Inr by blast
  have 4: "md3 = md2\<lparr>bk_default_object_acl := bk_default_object_acl md3\<rparr>"
    using run(4) insert_predefined_default_object_acl_Inr by blast
  note fields = init_defaults_Inr [OF run(2)] 3 [THEN arg_cong, of bk_name]
    3 [THEN arg_cong, of bk_metageneration] 3 [THEN arg_cong, of bk_etag]
    3 [THEN arg_cong, of bk_storage_class] 3 [THEN arg_cong, of bk_project]
    3 [THEN arg_cong, of bk_bucket_id]
    4 [THEN arg_cong, of bk_name] 4 [THEN arg_cong, of bk_metageneration]
    4 [THEN arg_cong, of bk_etag] 4 [THEN arg_cong, of bk_storage_class]
    4 [THEN arg_cong, of bk_project] 4 [THEN arg_cong, of bk_bucket_id]
  have "bucket_name_from_proto ?name = cb_bucket_id request"
    by (simp add: bucket_name_from_proto_def bucket_prefix_def)
  then show ?thesis
    using fields run(1,5-9) validate_json_bucket_name_iff validate_soft_delete_policy_iff
      init_iam_policy_Inr [OF run(7)]
    by (auto simp: new_bucket_ok_def bucket_name_to_proto_def bucket_prefix_def)
qed

section \<open>Properties\<close>

text \<open>C37: A bucket that is created, over REST or over gRPC, has an acceptable name (over gRPC the
  identifier may also be the resource name of one), metageneration 1 with its entity tag, a storage
  class, the project of the testbench, a soft delete duration of at least 7 and less than 90 whole
  days' worth of seconds when it has one, no notifications, and an IAM policy with one binding for
  each entry of its ACL.\<close>

theorem created_bucket_is_valid:
  assumes "bucket_init env now uuid r data c = Inr (b, projection)
      \<or> init_grpc env now uuid request c = Inr (b, projection)"
  shows "new_bucket_ok env b"
  using assms bucket_init_ok init_grpc_ok by blast

text \<open>The predefined ACLs of an update or a patch of a bucket have no effect: they are put into
  the parsed copy of the resource after its fields have been merged.  So the bucket afterwards is the
  same for all requests with the same payload, and a request that is refused because of them has
  changed the bucket all the same.\<close>

theorem update_ignores_predefined_acls:
  "snd (bucket_update env now r data c b) = snd (bucket_update env now r' data c b)
   \<and> snd (bucket_patch env now r data c b) = snd (bucket_patch env now r' data c b)"
  by (auto simp: bucket_update_def bucket_patch_def replace_bucket_metadata_def split: sum.splits)

text \<open>The refused request of the last sentence.\<close>

lemma refused_update_changes_bucket:
  assumes "preprocess_rest (be_repr env) data = Inr data'" and "be_parse env data' = Inr md"
    and "soft_delete_ok md" and "bk_ubla md"
    and "extract_predefined_acl r False \<notin> {[], ''unspecified''}"
  shows "bucket_update env now r data Rest b
    = (Inl (invalid ''Predefined ACL with uniform bucket level access enabled'' Rest),
       b\<lparr>gb_metadata := update_bucket_metadata env now md None (gb_metadata b)\<rparr>)"
proof -
  have "validate_soft_delete_policy Rest md = Inr ()"
    using assms(3) validate_soft_delete_policy_iff by blast
  then show ?thesis
    using assms by (simp add: bucket_update_def replace_bucket_metadata_def
        insert_predefined_bucket_acl_def)
qed

text \<open>Over gRPC a policy without an entity tag is refused, because the test against the empty text
  never holds for bytes.\<close>

lemma policy_without_etag_refused:
  "ip_etag policy = [] \<Longrightarrow> ip_etag (gb_iam_policy b) \<noteq> [] \<Longrightarrow>
     set_iam_policy_grpc uuid sb policy c b = Inl (mismatch ''etag'' (sb (ip_etag (gb_iam_policy b))) (sb []) c)"
  by (simp add: set_iam_policy_grpc_def)

section \<open>Witness\<close>

definition sample_bucket_message :: bucket_message where
  "sample_bucket_message = \<lparr>bk_name = ''projects/_/buckets/b.c'', bk_metageneration = 0,
     bk_project = [], bk_storage_class = [],
     bk_acl = [make_entry (acl_defaults (\<lambda>_. ''00'')) ''b.c'' ''allUsers'' ''READER''],
     bk_default_object_acl = [make_entry (acl_defaults (\<lambda>_. ''00'')) ''b.c'' ''allUsers'' ''READER''],
     bk_versioning = False, bk_ubla = False, bk_retention = None, bk_retention_locked = False,
     bk_soft_delete = Some (8 * 86400), bk_autoclass = False, bk_bucket_id = [], bk_rpo = [],
     bk_etag = [], bk_owner_entity = [], bk_owner_entity_id = [], bk_create_time = 0,
     bk_update_time = 0, bk_toggle_time = None, bk_soft_delete_nanos = 0,
     bk_soft_delete_effective_time = None,
     bk_retention_effective_time = None, bk_labels = [], bk_location = [], bk_hierarchical_namespace = False\<rparr>"

definition sample_bucket_env :: bucket_env where
  "sample_bucket_env = \<lparr>be_acl = acl_defaults (\<lambda>_. ''00''), be_parse = (\<lambda>_. Inr sample_bucket_message),
     be_to_dict = (\<lambda>_. []), be_merge = (\<lambda>paths src dst. dst), be_has_autoclass = (\<lambda>_. False),
     be_repr = (\<lambda>_. [])\<rparr>"

theorem created_bucket_is_valid_witness:
  "\<exists>b. bucket_init sample_bucket_env 1 ''u'' \<lparr>args = [], headers = [], environ = [], verb = ''POST''\<rparr>
      [] Rest = Inr (b, ''full'') \<and> new_bucket_ok sample_bucket_env b
    \<and> bk_bucket_id (gb_metadata b) = ''b.c''"
proof -
  have name: "validate_json_bucket_name ''b.c'' Rest = Inr ()"
    by (simp add: validate_json_bucket_name_def contains_def)
  obtain b where b: "bucket_init sample_bucket_env 1 ''u''
      \<lparr>args = [], headers = [], environ = [], verb = ''POST''\<rparr> [] Rest = Inr (b, ''full'')"
      "bk_bucket_id (gb_metadata b) = ''b.c''"
    using name
    by (simp add: bucket_init_def preprocess_rest_def bucket_preprocessing_def adjust_list_def
        sample_bucket_env_def sample_bucket_message_def init_defaults_def get_project_entity_def
        bucket_name_from_proto_def bucket_prefix_def touch_soft_delete_def
        validate_soft_delete_policy_def init_iam_policy_def legacy_role_def make_entry_def
        extract_projection_def aget_def Let_def)
  show ?thesis
    using created_bucket_is_valid [OF disjI1, OF b(1)] b by blast
qed

end
