(* ===== verification/Csek.thy ===== *)
theory Csek
  imports Codec Requests
begin

text \<open>
  \<open>src/testbench/csek.py\<close>: customer supplied encryption keys.  The digest SHA-256 is an
  argument.  In a gRPC request the three values are fields of the message, once under
  \<open>common_object_request_params\<close> and once for the source of a copy; they are the record
  \<open>csek_params\<close>.
\<close>

record csek_params =
  encryption_algorithm :: string
  encryption_key_bytes :: bytes
  encryption_key_sha256_bytes :: bytes
  copy_source_encryption_algorithm :: string
  copy_source_encryption_key_bytes :: bytes
  copy_source_encryption_key_sha256_bytes :: bytes

definition no_params :: csek_params where
  "no_params = \<lparr>encryption_algorithm = [], encryption_key_bytes = [],
     encryption_key_sha256_bytes = [], copy_source_encryption_algorithm = [],
     copy_source_encryption_key_bytes = [], copy_source_encryption_key_sha256_bytes = []\<rparr>"

definition header_or_empty :: "request \<Rightarrow> string \<Rightarrow> string" where
  "header_or_empty r name = (case hget r name of None \<Rightarrow> [] | Some v \<Rightarrow> v)"

definition csek_extract ::
    "request \<Rightarrow> csek_params \<Rightarrow> bool \<Rightarrow> ctx \<Rightarrow> string \<times> string \<times> string" where
  "csek_extract request params is_source context = (case context of
     Rest \<Rightarrow>
       (header_or_empty request
          (if \<not> is_source then ''x-goog-encryption-algorithm''
           else ''x-goog-copy-source-encryption-algorithm''),
        header_or_empty request
          (if \<not> is_source then ''x-goog-encryption-key'' else ''x-goog-copy-source-encryption-key''),
        header_or_empty request
          (if \<not> is_source then ''x-goog-encryption-key-sha256''
           else ''x-goog-copy-source-encryption-key-sha256''))
   | Grpc _ \<Rightarrow>
       if \<not> is_source then
         (encryption_algorithm params, b64encode (encryption_key_bytes params),
          b64encode (encryption_key_sha256_bytes params))
       else
         (copy_source_encryption_algorithm params,
          b64encode (copy_source_encryption_key_bytes params),
          b64encode (copy_source_encryption_key_sha256_bytes params)))"

text \<open>\<open>b64decode\<close> of a text: a character that is not ASCII is a \<open>ValueError\<close>.  The other
  callers decode the UTF-8 bytes of the text, whose bytes from 128 on are skipped like any
  character outside of the alphabet.\<close>

definition b64decode_text :: "string \<Rightarrow> err + bytes" where
  "b64decode_text s =
     (if \<exists>c \<in> set s. 128 \<le> py_ord c then Inl (Exc ValueError)
      else case b64decode s of None \<Rightarrow> Inl (Exc BinasciiError) | Some bs \<Rightarrow> Inr bs)"

definition b64decode_utf8 :: "string \<Rightarrow> err + bytes" where
  "b64decode_utf8 s =
     (case b64decode s of None \<Rightarrow> Inl (Exc BinasciiError) | Some bs \<Rightarrow> Inr bs)"

definition csek_check ::
    "(bytes \<Rightarrow> bytes) \<Rightarrow> string \<Rightarrow> string \<Rightarrow> bytes \<Rightarrow> ctx \<Rightarrow> err + bytes" where
  "csek_check sha256 algorithm key_b64 expected_sha256 context =
     (if algorithm \<noteq> ''AES256''
      then Inl (invalid (''Algorithm '' @ algorithm @ '' for CSEK'') context)
      else bindE (b64decode_text key_b64) (\<lambda>key.
        if length key \<noteq> 256 div 8 then Inl (csek context)
        else let actual_sha256 = sha256 key
             in if expected_sha256 \<noteq> actual_sha256 then Inl (csek context)
                else Inr actual_sha256))"

text \<open>The hash of the stored key is an argument of \<open>validation\<close>, and only its emptiness is
  read; the result is what \<open>check\<close> returns, or \<open>None\<close>.\<close>

definition csek_validation ::
    "(bytes \<Rightarrow> bytes) \<Rightarrow> request \<Rightarrow> csek_params \<Rightarrow> bytes \<Rightarrow> bool \<Rightarrow> ctx \<Rightarrow> err + bytes option" where
  "csek_validation sha256 request params expected_sha256 is_source context =
     (let (algorithm, key_b64, key_sha256_b64) = csek_extract request params is_source context
      in if expected_sha256 = [] then
           (if key_sha256_b64 \<noteq> [] then Inl (csek context) else Inr None)
         else bindE (b64decode_utf8 key_sha256_b64) (\<lambda>key_sha256.
           bindE (csek_check sha256 algorithm key_b64 key_sha256 context)
             (\<lambda>actual. Inr (Some actual))))"

section \<open>What the checks accept\<close>

lemma csek_check_Inr:
  "csek_check sha256 algorithm key_b64 expected c = Inr actual \<longleftrightarrow>
     algorithm = ''AES256'' \<and> actual = expected
     \<and> (\<exists>key. b64decode_text key_b64 = Inr key \<and> length key = 32 \<and> sha256 key = expected)"
  by (auto simp: csek_check_def bindE_eq_Inr Let_def split: if_splits)

lemma csek_validation_same:
  "s \<noteq> [] \<Longrightarrow> t \<noteq> [] \<Longrightarrow>
     csek_validation sha256 r p s is_source c = csek_validation sha256 r p t is_source c"
  by (simp add: csek_validation_def)

lemma b64_char_ascii: "py_ord (b64_char n) < 128"
proof -
  have "py_ord (CHR ''+'') < 128" "py_ord (CHR ''/'') < 128"
    by (simp_all add: py_ord_def)
  moreover have "n < 62 \<Longrightarrow> n - 4 < 128" "n < 62 \<Longrightarrow> n - 4 < 256" by simp_all
  ultimately show ?thesis
    by (simp add: b64_char_def py_ord_char_of)
qed

lemma b64encode_ascii: "c \<in> set (b64encode bs) \<Longrightarrow> py_ord c < 128"
proof (induction bs rule: b64encode.induct)
  case (2 a)
  have "py_ord (CHR ''='') < 128" by (simp add: py_ord_def)
  then show ?case using 2 b64_char_ascii by auto
next
  case (3 a b)
  have "py_ord (CHR ''='') < 128" by (simp add: py_ord_def)
  then show ?case using 3 b64_char_ascii by auto
qed (use b64_char_ascii in auto)

lemma b64decode_text_encode: "is_bytes key \<Longrightarrow> b64decode_text (b64encode key) = Inr key"
  using b64encode_ascii [of _ key]
  by (auto simp: b64decode_text_def b64decode_encode linorder_not_le [symmetric])

section \<open>Properties\<close>

text \<open>The check of customer keys does not protect an object: for an object that is stored with
  any key (its hash is not empty), a REST request is accepted exactly when it shows the algorithm
  AES256 and a key of 32 bytes together with the hash of that same key, whether or not it is the
  key of the object.\<close>

theorem any_consistent_key_opens:
  assumes "stored \<noteq> []" and "is_bytes key" and "is_bytes (sha256 key)"
    and "hget r ''x-goog-encryption-algorithm'' = Some algorithm"
    and "hget r ''x-goog-encryption-key'' = Some (b64encode key)"
    and "hget r ''x-goog-encryption-key-sha256'' = Some (b64encode (sha256 key))"
  shows "csek_validation sha256 r p stored False Rest
    = (if algorithm \<noteq> ''AES256'' then Inl (invalid (''Algorithm '' @ algorithm @ '' for CSEK'') Rest)
       else if length key \<noteq> 32 then Inl (csek Rest) else Inr (Some (sha256 key)))"
  using assms by (simp add: csek_validation_def csek_extract_def header_or_empty_def
      b64decode_utf8_def b64decode_encode csek_check_def b64decode_text_encode Let_def)

theorem any_consistent_key_opens_witness:
  "csek_validation (\<lambda>bs. take 4 bs)
     \<lparr>args = [], headers = [(''x-goog-encryption-algorithm'', ''AES256''),
        (''x-goog-encryption-key'', b64encode (replicate 32 7)),
        (''x-goog-encryption-key-sha256'', b64encode (take 4 (replicate 32 7)))],
      environ = [], verb = ''GET''\<rparr> no_params [1, 2, 3, 4] False Rest
   = Inr (Some [7, 7, 7, 7])"
proof -
  have "is_bytes (replicate 32 7)" "is_bytes (take 4 (replicate 32 7))"
    by (auto simp: is_bytes_def)
  moreover have "take 4 (replicate 32 (7 :: nat)) = [7, 7, 7, 7]"
    by (simp add: numeral_eq_Suc)
  ultimately show ?thesis
    using any_consistent_key_opens [of "[1, 2, 3, 4]" "replicate 32 7" "\<lambda>bs. take 4 bs"
        "\<lparr>args = [], headers = [(''x-goog-encryption-algorithm'', ''AES256''),
          (''x-goog-encryption-key'', b64encode (replicate 32 7)),
          (''x-goog-encryption-key-sha256'', b64encode (take 4 (replicate 32 7)))],
          environ = [], verb = ''GET''\<rparr>" "''AES256''" no_params]
    by (simp add: hget_def)
qed

end
