(* ===== verification/Gcs_Object.thy ===== *)
theory Gcs_Object
  imports Resources Csek Proto2rest
begin

text \<open>
  \<open>src/gcs/object.py\<close>: the class \<open>Object\<close>.  Its fields are the record \<open>blob\<close> of \<open>Resources\<close>.

  The first part is the download: byte ranges, decompressive transcoding, the response headers
  and the faults that the header \<open>x-goog-emulator-instructions\<close> asks for.  The second part makes
  objects of uploads and changes their metadata.  Arguments stand for \<open>gzip\<close> decompression, the
  CRC32C package, the digests, \<open>json_format.ParseDict\<close>, \<open>json_format.MessageToDict\<close> and
  \<open>FieldMask.MergeMessage\<close>; the clock is an argument as well.
\<close>

section \<open>Byte ranges\<close>

definition range_forward_re :: regex where
  "range_forward_re = seqs [lit ''bytes='', Grp digits, lit ''-'', Grp digits]"

definition range_open_re :: regex where
  "range_open_re = seqs [lit ''bytes='', Grp digits, lit ''-'', Eos]"

definition range_suffix_re :: regex where
  "range_suffix_re = seqs [lit ''bytes=-'', Grp digits, Eos]"

definition int_of_digits :: "string \<Rightarrow> int" where
  "int_of_digits s = int (nat_of_digits 0 s)"

text \<open>The three expressions are tried in turn, and a later match wins.\<close>

definition download_range :: "request \<Rightarrow> nat \<Rightarrow> int \<times> int \<times> int" where
  "download_range request sz = (
     let length = int sz
     in case hget request ''range'' of
          None \<Rightarrow> (0, length, length)
        | Some range_header \<Rightarrow>
            let (begin, end) = (0, length);
                (begin, end) = (case re_match range_forward_re range_header of
                   Some [a, b] \<Rightarrow> (int_of_digits a, min (int_of_digits b + 1) length)
                 | _ \<Rightarrow> (begin, end));
                (begin, end) = (case re_match range_open_re range_header of
                   Some [a] \<Rightarrow> (int_of_digits a, length) | _ \<Rightarrow> (begin, end));
                (begin, end) = (case re_match range_suffix_re range_header of
                   Some [n] \<Rightarrow> (length - int_of_digits n, length) | _ \<Rightarrow> (begin, end))
            in (begin, end, length))"

section \<open>The body of a download\<close>

definition DOWNLOAD_CHUNK_SIZE :: nat where
  "DOWNLOAD_CHUNK_SIZE = 128 * 1024"

definition stream_media :: "bytes_media \<Rightarrow> int \<Rightarrow> int \<Rightarrow> bytes list" where
  "stream_media m begin end = bm_chunks m (nat begin) (nat end) DOWNLOAD_CHUNK_SIZE"

text \<open>The decompressed bytes, in reads of one chunk.\<close>

definition stream_transcode :: "bytes \<Rightarrow> bytes list" where
  "stream_transcode plain =
     chunk_loop (\<lambda>i j. py_slice plain (int i) (int j)) 0 (length plain) DOWNLOAD_CHUNK_SIZE"

definition decompress_on_download :: "request \<Rightarrow> obj_meta \<Rightarrow> bool" where
  "decompress_on_download request md =
     (if om_content_encoding md \<noteq> ''gzip'' then False
      else \<not> contains (case hget request ''accept-encoding'' of None \<Rightarrow> [] | Some v \<Rightarrow> v) ''gzip'')"

text \<open>What the WSGI server sees: pieces of the body, pauses (in hundredths of a second), and an
  exception that breaks the connection off.\<close>

datatype body_event = Piece bytes | Pause nat | Break err

text \<open>\<open>range(a, b, step)\<close>.\<close>

definition py_range :: "int \<Rightarrow> int \<Rightarrow> int \<Rightarrow> int list" where
  "py_range a b step = map (\<lambda>i. a + int i * step) [0 ..< nat ((b - a + step - 1) div step)]"

definition reset_error :: "int \<Rightarrow> err" where
  "reset_error code = Rest_exception (Text (''Injected '' @ [CHR 0x27]
     @ ''connection reset by peer'' @ [CHR 0x27] @ '' fault'')) (Code code)"

text \<open>The loop of \<open>return-broken-stream\<close> and of \<open>return-503-after-256K\<close>: pieces of one size,
  and the exception at the first piece that begins at the limit or after it.\<close>

fun broken_body :: "bytes \<Rightarrow> int \<Rightarrow> int \<Rightarrow> err \<Rightarrow> body_event list \<Rightarrow> int list \<Rightarrow> body_event list" where
  "broken_body payload chunk_size limit e pause [] = []"
| "broken_body payload chunk_size limit e pause (r # rs) =
     (if limit \<le> r then [Break e]
      else pause @ Piece (py_slice payload r (min (r + chunk_size) (int (length payload))))
        # broken_body payload chunk_size limit e pause rs)"

text \<open>The loops of \<open>stall-always\<close> and \<open>stall-at-256KiB\<close>: a pause before the piece at one
  position.\<close>

definition stalled_body :: "bytes \<Rightarrow> int \<Rightarrow> int \<Rightarrow> int \<Rightarrow> int \<Rightarrow> body_event list" where
  "stalled_body payload chunk_size stall_at begin end =
     concat (map (\<lambda>r. (if r = stall_at then [Pause 1000] else [])
        @ [Piece (py_slice payload r (min (r + chunk_size) end))]) (py_range begin end chunk_size))"

section \<open>The response\<close>

datatype header_value = HStr string | HInt int | HNone

record download_response =
  dr_status :: int
  dr_headers :: "(string \<times> header_value) list"
  dr_body :: "body_event list"

definition x_goog_hash_header :: "obj_meta \<Rightarrow> err + string option" where
  "x_goog_hash_header md = (case om_checksums md of
     None \<Rightarrow> Inr None
   | Some (crc32c, md5_hash) \<Rightarrow>
     bindE (case crc32c of
              None \<Rightarrow> Inr []
            | Some n \<Rightarrow> bindE (rest_crc32c_from_proto n) (\<lambda>s. Inr [''crc32c='' @ s])) (\<lambda>crc.
       let hashes = crc @ (if md5_hash \<noteq> [] then [''md5='' @ rest_md5_from_proto md5_hash] else [])
       in Inr (if hashes \<noteq> [] then Some (join '','' hashes) else None)))"

definition download_headers ::
    "obj_meta \<Rightarrow> bool \<Rightarrow> string \<Rightarrow> int \<Rightarrow> string option \<Rightarrow> (string \<times> header_value) list" where
  "download_headers md transcode content_range content_length hash =
     [(''Content-Range'', HStr content_range)]
     @ (if transcode
        then [(''x-guploader-response-body-transformations'', HStr ''gunzipped'')] else [])
     @ [(''x-goog-hash'', case hash of None \<Rightarrow> HNone | Some h \<Rightarrow> HStr h),
        (''x-goog-generation'', HInt (om_generation md)),
        (''x-goog-metageneration'', HInt (om_metageneration md)),
        (''x-goog-storage-class'', HStr (om_storage_class md)),
        (''Content-Type'', HStr (if om_content_type md \<noteq> [] then om_content_type md
                                else ''application/octet-stream'')),
        (''x-goog-stored-content-length'', HInt (int (om_size md))),
        (''Content-Length'', HInt content_length)]
     @ (if om_content_encoding md \<noteq> []
        then (''x-goog-stored-content-encoding'', HStr (om_content_encoding md))
          # (if \<not> transcode then [(''Content-Encoding'', HStr (om_content_encoding md))] else [])
        else [])
     @ (if om_content_disposition md \<noteq> []
        then [(''Content-Disposition'', HStr (om_content_disposition md))] else [])"

text \<open>The body for an instruction.  \<open>Inl\<close> is a response that is returned at once: its status
  and its body, without headers.\<close>

definition download_body ::
    "nat \<Rightarrow> string option \<Rightarrow> bytes_media \<Rightarrow> bool \<Rightarrow> bytes \<Rightarrow> int \<Rightarrow> int
       \<Rightarrow> (int \<times> bytes) + body_event list" where
  "download_body letter instructions m transcode plain begin end = (
     let normal = map Piece (if transcode then stream_transcode plain
                             else stream_media m (max 0 begin) end);
         payload = (if transcode then plain else bm_buf m);
         positions = \<lambda>chunk_size. py_range 0 (int (length payload)) chunk_size
     in case instructions of
          None \<Rightarrow> Inr normal
        | Some i \<Rightarrow>
          if i = ''return-broken-stream'' then
            Inr (broken_body payload (64 * 1024) (1024 * 1024) (reset_error 500) [Pause 10]
              (positions (64 * 1024)))
          else if i = ''return-corrupted-data'' then Inr [Piece (corrupt_media letter payload)]
          else if startswith i ''stall-always'' then
            Inr (stalled_body payload (16 * 1024) begin begin end)
          else if i = ''stall-at-256KiB'' \<and> begin = 0 then
            Inr (stalled_body payload (16 * 1024) (256 * 1024) begin end)
          else if startswith i ''return-503-after-256K'' \<or> startswith i ''break-after-256K'' then
            (if begin = 0 then
               Inr (broken_body payload (4 * 1024) (256 * 1024) (reset_error 503) [Pause 1]
                 (positions (4 * 1024)))
             else if endswith i ''/retry-1'' \<or> endswith i ''/retry-2''
               then Inl (503, utf8 ''Service Unavailable'')
             else Inl (200, payload))
          else Inr normal)"

definition rest_media ::
    "(bytes \<Rightarrow> err + bytes) \<Rightarrow> nat \<Rightarrow> request \<Rightarrow> blob \<Rightarrow> err + download_response" where
  "rest_media gunzip letter request b = (
     let md = b_metadata b; transcode = decompress_on_download request md
     in bindE (if transcode then gunzip (bm_buf (b_media b)) else Inr []) (\<lambda>plain.
        let transcoded_len = int (sum_list (map length (stream_transcode plain)));
            (begin, end, length) =
              (if transcode then (0, transcoded_len, transcoded_len)
               else download_range request (length (bm_buf (b_media b))));
            range_header = hget request ''range''
        in if range_header \<noteq> None \<and> length \<le> begin then Inl (range_not_satisfiable Rest)
           else
             let content_range = ''bytes '' @ show_int begin @ ''-'' @ show_int (end - 1) @ ''/''
                   @ show_int length
             in case download_body letter (extract_instruction request Rest) (b_media b) transcode
                       plain begin end of
                  Inl (status, bs) \<Rightarrow>
                    Inr \<lparr>dr_status = status, dr_headers = [], dr_body = [Piece bs]\<rparr>
                | Inr body \<Rightarrow>
                    bindE (x_goog_hash_header md) (\<lambda>hash.
                    let content_length = (if transcode then transcoded_len else end - max 0 begin);
                        ranged = (case range_header of None \<Rightarrow> False | Some h \<Rightarrow> h \<noteq> [])
                    in Inr \<lparr>dr_status = (if ranged \<and> \<not> transcode then 206 else 200),
                            dr_headers = download_headers md transcode content_range
                              content_length hash,
                            dr_body = body\<rparr>)))"

section \<open>Reading ranges\<close>

lemma rmatch_Seq_first:
  assumes "rmatch r b s = (g, t) # xs" and "rmatch q (b \<and> length t = length s) t = (h, u) # ys"
  shows "\<exists>zs. rmatch (Seq r q) b s = (g @ h, u) # zs"
  using assms by simp

lemma rmatch_Seq_lit: "rmatch (Seq (lit p) q) b s =
    (if prefix p s then rmatch q (b \<and> p = []) (drop (length p) s) else [])"
  by (auto simp: rmatch_lit prefix_def comp_def)

lemma rmatch_digits_first:
  assumes "\<forall>c \<in> set w. is_digit c" and "w \<noteq> []" and "t = [] \<or> \<not> is_digit (hd t)"
  shows "\<exists>xs. rmatch (Grp digits) b (w @ t) = ([w], t) # xs"
proof -
  have "1 \<le> length w" using assms(2) by (cases w) auto
  then obtain ns where "many_lengths is_digit (Suc 0) None (w @ t) = length w # ns"
    using many_lengths_run [OF assms(1,3)] by auto
  then show ?thesis by (simp add: digits_def)
qed

lemma rmatch_digits_some:
  "(g, t) \<in> set (rmatch (Grp digits) b s) \<Longrightarrow>
     \<exists>w. g = [w] \<and> s = w @ t \<and> w \<noteq> [] \<and> (\<forall>c \<in> set w. is_digit c)"
proof -
  assume "(g, t) \<in> set (rmatch (Grp digits) b s)"
  then obtain n where n: "n \<in> set (many_lengths is_digit 1 None s)" "t = drop n s"
      "g = [take (length s - length t) s]"
    by (auto simp: digits_def)
  have k: "1 \<le> n" "n \<le> length (takeWhile is_digit s)"
    using n(1) by (auto simp: many_lengths_def Let_def)
  have le: "length (takeWhile is_digit s) \<le> length s" by (rule length_takeWhile_le)
  have "takeWhile is_digit s = take (length (takeWhile is_digit s)) s"
    by (metis takeWhile_eq_take)
  then have "set (take n s) \<subseteq> set (takeWhile is_digit s)"
    using k(2) set_take_subset_set_take by metis
  then have "\<forall>c \<in> set (take n s). is_digit c"
    using set_takeWhileD by fastforce
  moreover have "take n s \<noteq> []" using k le by auto
  moreover have "g = [take n s]" "s = take n s @ t" using n(2,3) k(2) le by simp_all
  ultimately show ?thesis by blast
qed

text \<open>A run of digits before a dash is the whole run.\<close>

lemma digits_dash_unique:
  assumes "w @ CHR ''-'' # u = v @ CHR ''-'' # t" and "\<forall>c \<in> set w. is_digit c"
    and "\<forall>c \<in> set v. is_digit c"
  shows "w = v \<and> u = t"
  using assms
proof (induction w arbitrary: v)
  case Nil
  then show ?case by (cases v) auto
next
  case (Cons c w)
  then show ?case by (cases v) auto
qed

lemma show_nat_all_digits: "\<forall>c \<in> set (show_nat n). is_digit c"
  using show_nat_digits by blast

lemma dash_prefix_digits: "\<not> prefix ''bytes=-'' (''bytes='' @ show_nat a @ t)"
proof -
  obtain c cs where c: "show_nat a = c # cs" by (cases "show_nat a") auto
  then have "is_digit c" using show_nat_all_digits [of a] by simp
  then show ?thesis using c digit_not_sign [of c] by auto
qed

lemma forward_match:
  "re_match range_forward_re (''bytes='' @ show_nat a @ ''-'' @ show_nat b)
     = Some [show_nat a, show_nat b]"
proof -
  obtain xs where "rmatch (Grp digits) False (show_nat b @ []) = ([show_nat b], []) # xs"
    using rmatch_digits_first [OF show_nat_all_digits, of b "[]" False] by auto
  then have "rmatch (Seq (lit ''-'') (Grp digits)) False (''-'' @ show_nat b) = ([show_nat b], []) # xs"
    by (subst rmatch_Seq_lit) simp
  moreover obtain ys where "rmatch (Grp digits) False (show_nat a @ ''-'' @ show_nat b)
      = ([show_nat a], ''-'' @ show_nat b) # ys"
    using rmatch_digits_first [OF show_nat_all_digits, of a "''-'' @ show_nat b" False] by auto
  ultimately obtain zs where "rmatch (Seq (Grp digits) (Seq (lit ''-'') (Grp digits))) False
      (show_nat a @ ''-'' @ show_nat b) = ([show_nat a] @ [show_nat b], []) # zs"
    using rmatch_Seq_first [of "Grp digits" False "show_nat a @ ''-'' @ show_nat b"] by fastforce
  then show ?thesis
    unfolding re_match_def range_forward_re_def seqs.simps
    by (subst rmatch_Seq_lit) simp
qed

lemma open_match: "re_match range_open_re (''bytes='' @ show_nat a @ ''-'') = Some [show_nat a]"
proof -
  have "rmatch (Seq (lit ''-'') Eos) False ''-'' = [([], [])]"
    by (subst rmatch_Seq_lit) simp
  moreover obtain ys where "rmatch (Grp digits) False (show_nat a @ ''-'') = ([show_nat a], ''-'') # ys"
    using rmatch_digits_first [OF show_nat_all_digits, of a "''-''" False] by auto
  ultimately obtain zs where "rmatch (Seq (Grp digits) (Seq (lit ''-'') Eos)) False
      (show_nat a @ ''-'') = ([show_nat a] @ [], []) # zs"
    using rmatch_Seq_first [of "Grp digits" False "show_nat a @ ''-''"] by fastforce
  then show ?thesis
    unfolding re_match_def range_open_re_def seqs.simps
    by (subst rmatch_Seq_lit) simp
qed

lemma suffix_match: "re_match range_suffix_re (''bytes=-'' @ show_nat n) = Some [show_nat n]"
proof -
  obtain ys where "rmatch (Grp digits) False (show_nat n @ []) = ([show_nat n], []) # ys"
    using rmatch_digits_first [OF show_nat_all_digits, of n "[]" False] by auto
  then obtain zs where "rmatch (Seq (Grp digits) Eos) False (show_nat n) = ([show_nat n] @ [], []) # zs"
    using rmatch_Seq_first [of "Grp digits" False "show_nat n"] by fastforce
  then show ?thesis
    unfolding re_match_def range_suffix_re_def seqs.simps
    by (subst rmatch_Seq_lit) simp
qed

lemma re_match_None: "re_match r s = None \<longleftrightarrow> set (rmatch r True s) = {}"
  by (auto simp: re_match_def split: list.splits)

text \<open>What comes after the dash tells the first two expressions apart.\<close>

lemma dash_split:
  assumes "(g, u) \<in> set (rmatch (Seq (Grp digits) (Seq (lit ''-'') q)) False (show_nat a @ ''-'' @ t))"
  shows "\<exists>h. (h, u) \<in> set (rmatch q False t)"
proof -
  obtain g1 t1 h where 1: "(g1, t1) \<in> set (rmatch (Grp digits) False (show_nat a @ ''-'' @ t))"
      "(h, u) \<in> set (rmatch (Seq (lit ''-'') q) False t1)"
    using assms by (auto simp del: rmatch.simps(6))
  obtain w where w: "show_nat a @ ''-'' @ t = w @ t1" "\<forall>c \<in> set w. is_digit c"
    using rmatch_digits_some [OF 1(1)] by blast
  have "prefix ''-'' t1" and h: "(h, u) \<in> set (rmatch q False (drop 1 t1))"
    using 1(2) by (auto simp: rmatch_Seq_lit split: if_splits)
  then obtain t2 where "t1 = CHR ''-'' # t2" by (auto simp: prefix_def)
  then have "t2 = t"
    using digits_dash_unique [of w t2 "show_nat a" t] w show_nat_all_digits by simp
  then show ?thesis using h \<open>t1 = _\<close> by auto
qed

lemma dash_none:
  assumes "rmatch q False t = []"
  shows "set (rmatch (Seq (lit ''bytes='') (Seq (Grp digits) (Seq (lit ''-'') q))) True
    (''bytes='' @ show_nat a @ ''-'' @ t)) = {}"
proof -
  have "(g, u) \<notin> set (rmatch (Seq (Grp digits) (Seq (lit ''-'') q)) False (show_nat a @ ''-'' @ t))"
    for g u
    using dash_split [of g u q a t] unfolding assms by (metis empty_iff list.set(1))
  then have "rmatch (Seq (Grp digits) (Seq (lit ''-'') q)) False (show_nat a @ ''-'' @ t) = []"
    by (metis list.set_intros(1) neq_Nil_conv surj_pair)
  then show ?thesis
    by (subst rmatch_Seq_lit) (simp del: rmatch.simps(4,6))
qed

lemma open_no_forward: "re_match range_open_re (''bytes='' @ show_nat a @ ''-'' @ show_nat b) = None"
proof -
  have "\<not> is_digit (CHR 0x0A)" by (simp add: is_digit_def py_ord_def)
  then have "show_nat b \<noteq> [CHR 0x0A]"
    using show_nat_all_digits [of b] by auto
  then have "rmatch Eos False (show_nat b) = []" by simp
  then show ?thesis
    unfolding re_match_None range_open_re_def seqs.simps by (rule dash_none)
qed

lemma forward_no_open: "re_match range_forward_re (''bytes='' @ show_nat a @ ''-'') = None"
proof -
  have "rmatch (Grp digits) False [] = []"
    by (simp add: digits_def many_lengths_def)
  then show ?thesis
    unfolding re_match_None range_forward_re_def seqs.simps
    using dash_none [of "Grp digits" "[]" a] by simp
qed

lemma suffix_no_digit: "re_match range_suffix_re (''bytes='' @ show_nat a @ t) = None"
  unfolding re_match_None range_suffix_re_def seqs.simps
  using dash_prefix_digits [of a t] by (subst rmatch_Seq_lit) simp

lemma digits_no_dash: "rmatch (Grp digits) b (CHR ''-'' # t) = []"
  by (simp add: digits_def many_lengths_def)

lemma no_match_of_suffix:
  "re_match range_forward_re (''bytes=-'' @ t) = None"
  "re_match range_open_re (''bytes=-'' @ t) = None"
  unfolding re_match_None range_forward_re_def range_open_re_def seqs.simps
  using digits_no_dash by (subst rmatch_Seq_lit, simp del: rmatch.simps(6))+

lemma int_of_show_nat [simp]: "int_of_digits (show_nat n) = int n"
  by (simp add: int_of_digits_def nat_of_digits_show_nat)

lemmas range_matches = forward_match open_match suffix_match open_no_forward forward_no_open
  suffix_no_digit no_match_of_suffix

text \<open>The four forms of a request: no range, \<open>bytes=A-B\<close>, \<open>bytes=A-\<close> and \<open>bytes=-N\<close>.\<close>

lemma download_range_forms:
  "hget r ''range'' = None \<Longrightarrow> download_range r sz = (0, int sz, int sz)"
  "hget r ''range'' = Some (''bytes='' @ show_nat a @ ''-'' @ show_nat b) \<Longrightarrow>
     download_range r sz = (int a, min (int b + 1) (int sz), int sz)"
  "hget r ''range'' = Some (''bytes='' @ show_nat a @ ''-'') \<Longrightarrow>
     download_range r sz = (int a, int sz, int sz)"
  "hget r ''range'' = Some (''bytes=-'' @ show_nat n) \<Longrightarrow>
     download_range r sz = (int sz - int n, int sz, int sz)"
proof -
  show "download_range r sz = (0, int sz, int sz)" if "hget r ''range'' = None"
    using that by (simp add: download_range_def Let_def)
  show "download_range r sz = (int a, min (int b + 1) (int sz), int sz)"
    if "hget r ''range'' = Some (''bytes='' @ show_nat a @ ''-'' @ show_nat b)"
    unfolding download_range_def that option.case Let_def
    by (simp only: range_matches) simp
  show "download_range r sz = (int a, int sz, int sz)"
    if "hget r ''range'' = Some (''bytes='' @ show_nat a @ ''-'')"
    unfolding download_range_def that option.case Let_def
    by (simp only: range_matches) simp
  show "download_range r sz = (int sz - int n, int sz, int sz)"
    if "hget r ''range'' = Some (''bytes=-'' @ show_nat n)"
    unfolding download_range_def that option.case Let_def
    by (simp only: range_matches) simp
qed

section \<open>What a download delivers\<close>

fun body_bytes :: "body_event list \<Rightarrow> bytes" where
  "body_bytes [] = []"
| "body_bytes (Piece bs # es) = bs @ body_bytes es"
| "body_bytes (_ # es) = body_bytes es"

lemma body_bytes_append [simp]: "body_bytes (es @ fs) = body_bytes es @ body_bytes fs"
  by (induction es rule: body_bytes.induct) auto

lemma body_bytes_pieces [simp]: "body_bytes (map Piece cs) = concat cs"
  by (induction cs) auto

lemma stream_media_concat:
  assumes "0 \<le> begin" and "begin \<le> end" and "end \<le> int (length (bm_buf m))"
  shows "concat (stream_media m begin end) = py_slice (bm_buf m) begin end"
  using assms by (simp add: stream_media_def bm_chunks_def chunk_loop_concat DOWNLOAD_CHUNK_SIZE_def)

lemma stream_transcode_concat: "concat (stream_transcode plain) = plain"
  by (simp add: stream_transcode_def chunk_loop_concat [of plain] DOWNLOAD_CHUNK_SIZE_def
      py_slice_all [simplified])

lemma sum_length_concat: "sum_list (map length xs) = length (concat xs)"
  by (induction xs) auto

text \<open>The checksums of an object that can be put into a header.\<close>

definition checksums_ok :: "obj_meta \<Rightarrow> bool" where
  "checksums_ok md \<longleftrightarrow> (case om_checksums md of
     Some (Some crc, _) \<Rightarrow> 0 \<le> crc \<and> crc < 2 ^ 32 | _ \<Rightarrow> True)"

lemma x_goog_hash_header_ok: "checksums_ok md \<Longrightarrow> \<exists>h. x_goog_hash_header md = Inr h"
proof -
  assume ok: "checksums_ok md"
  show ?thesis
  proof (cases "om_checksums md")
    case None
    then show ?thesis by (simp add: x_goog_hash_header_def)
  next
    case (Some cs)
    then obtain crc md5 where cs: "cs = (crc, md5)" by force
    show ?thesis
    proof (cases crc)
      case None
      then show ?thesis using Some cs by (simp add: x_goog_hash_header_def)
    next
      case c: (Some n)
      then obtain s where "rest_crc32c_from_proto n = Inr s"
        using ok Some cs crc32c_from_total [of n] by (auto simp: checksums_ok_def)
      then show ?thesis using Some cs c by (simp add: x_goog_hash_header_def Let_def)
    qed
  qed
qed

lemma content_length_header:
  "map_of (download_headers md transcode content_range n hash) ''Content-Length'' = Some (HInt n)"
  "map_of (download_headers md transcode content_range n hash) ''Content-Range''
     = Some (HStr content_range)"
  by (auto simp: download_headers_def split: option.splits)

lemma rest_media_plain:
  assumes "extract_instruction r Rest = None" and "\<not> decompress_on_download r (b_metadata b)"
    and "checksums_ok (b_metadata b)"
    and "download_range r (length (bm_buf (b_media b))) = (begin, end, len)"
    and "hget r ''range'' \<noteq> None \<longrightarrow> begin < len"
  shows "\<exists>hash. x_goog_hash_header (b_metadata b) = Inr hash \<and> rest_media gunzip letter r b = Inr
    \<lparr>dr_status = (if (case hget r ''range'' of None \<Rightarrow> False | Some h \<Rightarrow> h \<noteq> []) then 206 else 200),
     dr_headers = download_headers (b_metadata b) False
       (''bytes '' @ show_int begin @ ''-'' @ show_int (end - 1) @ ''/'' @ show_int len)
       (end - max 0 begin) hash,
     dr_body = map Piece (stream_media (b_media b) (max 0 begin) end)\<rparr>"
  using assms x_goog_hash_header_ok [OF assms(3)]
  by (auto simp: rest_media_def Let_def download_body_def not_less)

lemma rest_media_unsatisfiable:
  assumes "\<not> decompress_on_download r (b_metadata b)"
    and "download_range r (length (bm_buf (b_media b))) = (begin, end, len)"
    and "hget r ''range'' \<noteq> None" and "len \<le> begin"
  shows "rest_media gunzip letter r b = Inl (range_not_satisfiable Rest)"
  using assms by (auto simp: rest_media_def Let_def)

section \<open>Object contexts\<close>

text \<open>The message of the \<open>ValueError\<close> is not modelled; \<open>invalid_chars\<close> are the quotes, the
  backslash and the slash.\<close>

definition restricted_char :: "char \<Rightarrow> bool" where
  "restricted_char c \<longleftrightarrow> py_ord c \<in> {0x27, 0x22, 0x5C, 0x2F}"

definition validate_context_item :: "string \<Rightarrow> err + nat" where
  "validate_context_item item =
     (if item = [] \<or> \<not> is_alnum (hd item) then Inl (Exc ValueError)
      else if \<exists>c \<in> set item. restricted_char c then Inl (Exc ValueError)
      else let item_length = length (utf8 item)
           in if \<not> (1 \<le> item_length \<and> item_length \<le> 256) then Inl (Exc ValueError)
              else Inr item_length)"

fun validate_context_items :: "(string \<times> context_payload) list \<Rightarrow> nat \<Rightarrow> err + nat" where
  "validate_context_items [] acc = Inr acc"
| "validate_context_items ((key, payload) # items) acc =
     (if startswith key ''goog'' then Inl (Exc ValueError)
      else bindE (validate_context_item key) (\<lambda>m.
           bindE (validate_context_item (cp_value payload)) (\<lambda>n.
           validate_context_items items (acc + m + n))))"

definition validate_object_contexts :: "(string \<times> context_payload) list \<Rightarrow> err + unit" where
  "validate_object_contexts custom_contexts =
     (if 50 < length custom_contexts then Inl (Exc ValueError)
      else bindE (validate_context_items custom_contexts 0) (\<lambda>total_size_bytes.
        if 25 * 1024 < total_size_bytes then Inl (Exc ValueError) else Inr ()))"

section \<open>Making an object\<close>

text \<open>What the code of the class gets from elsewhere.\<close>

record object_env =
  oe_acl :: acl_env
  oe_crc32c :: crc_fn
  oe_md5 :: md5_fn
  oe_sha256 :: "bytes \<Rightarrow> bytes"
  oe_parse :: "dict \<Rightarrow> err + obj_meta"
  oe_to_dict :: "obj_meta \<Rightarrow> dict"
  oe_merge :: "string list \<Rightarrow> obj_meta \<Rightarrow> obj_meta \<Rightarrow> obj_meta"
  oe_repr :: "json \<Rightarrow> string"
  oe_bytes_repr :: "bytes \<Rightarrow> string"
  oe_letter :: nat

text \<open>\<open>Object.init\<close> changes the counter of the module, the bucket that it is given and the
  metadata that it is given; the three are its state.\<close>

record making =
  mk_generation :: int
  mk_bucket :: bucket
  mk_meta :: obj_meta

type_synonym 'a makeM = "(err, making, 'a) pym"

definition upd_meta :: "(obj_meta \<Rightarrow> obj_meta) \<Rightarrow> unit makeM" where
  "upd_meta f = modS (\<lambda>s. s\<lparr>mk_meta := f (mk_meta s)\<rparr>)"

definition set_ubla :: "bool \<Rightarrow> unit makeM" where
  "set_ubla b = modS (\<lambda>s. s\<lparr>mk_bucket := (mk_bucket s)\<lparr>bk_ubla := b\<rparr>\<rparr>)"

definition make_generation :: "int makeM" where
  "make_generation s = (Inr (mk_generation s + 1), s\<lparr>mk_generation := mk_generation s + 1\<rparr>)"

definition metadata_etag :: "object_env \<Rightarrow> int \<Rightarrow> string" where
  "metadata_etag env metageneration = md5hex (oe_acl env) (utf8 (show_int metageneration))"

definition insert_predefined_acl ::
    "object_env \<Rightarrow> bucket \<Rightarrow> string \<Rightarrow> ctx \<Rightarrow> obj_meta \<Rightarrow> err + obj_meta" where
  "insert_predefined_acl env bucket predefined_acl c md =
     (if predefined_acl = [] then Inr md
      else if bk_ubla bucket
        then Inl (invalid ''Predefined ACL with uniform bucket level access enabled'' c)
      else bindE (compute_predefined_object_acl (oe_acl env) (om_bucket md) (om_name md)
                    (om_generation md) (Some predefined_acl) c)
             (\<lambda>acls. Inr (md\<lparr>om_acl := acls\<rparr>)))"

definition given_text :: "obj_meta \<Rightarrow> string \<Rightarrow> string option" where
  "given_text md key = (case map_of (om_metadata md) key of
     None \<Rightarrow> None | Some [] \<Rightarrow> None | found \<Rightarrow> found)"

text \<open>The checksums that the client gave, in the message and in the two annotations.\<close>

definition check_checksums :: "object_env \<Rightarrow> bytes \<Rightarrow> nat \<Rightarrow> ctx \<Rightarrow> obj_meta \<Rightarrow> err + unit" where
  "check_checksums env actual_md5 actual_crc c md =
     bindE (case om_checksums md of
         None \<Rightarrow> Inr ()
       | Some (crc, md5_hash) \<Rightarrow>
         if md5_hash \<noteq> [] \<and> actual_md5 \<noteq> md5_hash
         then Inl (mismatch ''md5Hash'' (oe_bytes_repr env actual_md5) (oe_bytes_repr env md5_hash) c)
         else case crc of
             None \<Rightarrow> Inr ()
           | Some n \<Rightarrow> if int actual_crc \<noteq> n
               then Inl (mismatch ''crc32c'' (show_int (int actual_crc)) (show_int n) c) else Inr ()) (\<lambda>_.
     bindE (case given_text md ''x_emulator_crc32c'' of
         None \<Rightarrow> Inr ()
       | Some s \<Rightarrow> bindE (rest_crc32c_to_proto s) (\<lambda>n. if int actual_crc \<noteq> n
           then Inl (mismatch ''crc32c'' (show_int (int actual_crc)) (show_int n) c) else Inr ())) (\<lambda>_.
     case given_text md ''x_emulator_md5'' of
         None \<Rightarrow> Inr ()
       | Some s \<Rightarrow> bindE (rest_md5_to_proto s) (\<lambda>m. if actual_md5 \<noteq> m
           then Inl (mismatch ''md5'' (oe_bytes_repr env actual_md5) (oe_bytes_repr env m) c)
           else Inr ())))"

definition stamp_contexts :: "int \<Rightarrow> (string \<times> context_payload) list \<Rightarrow> (string \<times> context_payload) list"
  where
  "stamp_contexts now custom =
     map (\<lambda>(k, p). (k, p\<lparr>cp_create_time := now, cp_update_time := now\<rparr>)) custom"

definition init_contexts :: "int \<Rightarrow> unit makeM" where
  "init_contexts now = bindM (getS (om_contexts \<circ> mk_meta)) (\<lambda>contexts. case contexts of
     None \<Rightarrow> ret ()
   | Some custom \<Rightarrow>
       seqM (upd_meta (\<lambda>md. md\<lparr>om_contexts := Some (stamp_contexts now custom)\<rparr>))
         (liftE (validate_object_contexts (stamp_contexts now custom))))"

definition init_retention :: "int \<Rightarrow> unit makeM" where
  "init_retention now = bindM (getS (bk_retention \<circ> mk_bucket)) (\<lambda>retention. case retention of
     None \<Rightarrow> ret ()
   | Some seconds \<Rightarrow>
       upd_meta (\<lambda>md. md\<lparr>om_retention_expire_time := Some (now + seconds * 1000000)\<rparr>))"

definition init_csek ::
    "object_env \<Rightarrow> request \<Rightarrow> csek_params \<Rightarrow> bool \<Rightarrow> ctx \<Rightarrow> unit makeM" where
  "init_csek env request params use_csek c =
     (let (algorithm, key_b64, key_sha256_b64) =
            (if use_csek then csek_extract request params False c else ([], [], []))
      in if algorithm = [] then ret ()
         else bindM (liftE (b64decode_text key_sha256_b64)) (\<lambda>key_sha256.
              bindM (liftE (csek_check (oe_sha256 env) algorithm key_b64 key_sha256 c)) (\<lambda>_.
              upd_meta (\<lambda>md. md\<lparr>om_customer_encryption := Some (algorithm, key_sha256)\<rparr>))))"

text \<open>Uniform access is switched off while the ACL is made; an error leaves it off.\<close>

definition init_acl :: "object_env \<Rightarrow> request \<Rightarrow> bool \<Rightarrow> ctx \<Rightarrow> string makeM" where
  "init_acl env request is_destination c =
     bindM (getS (bk_ubla \<circ> mk_bucket)) (\<lambda>is_uniform.
     seqM (set_ubla False)
     (bindM (getS (om_acl \<circ> mk_meta)) (\<lambda>acl.
      bindM (if acl \<noteq> [] then ret ''full''
             else let predefined_acl = extract_predefined_acl request is_destination
                  in bindM (if predefined_acl = [] then ret ''projectPrivate''
                            else if is_uniform then raise
                              (invalid ''Predefined ACL with uniform bucket level access enabled'' c)
                            else ret predefined_acl) (\<lambda>predefined_acl.
                     bindM (getS (\<lambda>s. insert_predefined_acl env (mk_bucket s) predefined_acl c (mk_meta s)))
                       (\<lambda>r. bindM (liftE r) (\<lambda>md.
                     seqM (upd_meta (\<lambda>_. md)) (ret ''noAcl''))))) (\<lambda>default_projection.
      seqM (set_ubla is_uniform) (ret default_projection)))))"

definition object_init ::
    "object_env \<Rightarrow> int \<Rightarrow> request \<Rightarrow> csek_params \<Rightarrow> bytes_media \<Rightarrow> bool \<Rightarrow> ctx \<Rightarrow> string option \<Rightarrow> bool
       \<Rightarrow> (blob \<times> string) makeM" where
  "object_init env now request params initial is_destination c upload use_csek = (
     let m = (if extract_instruction request c = Some ''inject-upload-data-error''
                  then bytes_media_init (oe_crc32c env) (corrupt_media (oe_letter env) (bm_buf initial))
                  else initial);
         actual_md5 = bm_md5_digest (oe_md5 env) m;
         actual_crc = bm_crc m
     in bindM make_generation (\<lambda>generation.
        bindM (getS mk_bucket) (\<lambda>bucket.
        seqM (upd_meta (\<lambda>md. md\<lparr>om_bucket := bk_name bucket, om_generation := generation,
                om_metageneration := 1, om_etag := metadata_etag env 1,
                om_size := length (bm_buf m)\<rparr>))
        (bindM (getS mk_meta) (\<lambda>md.
        seqM (liftE (check_checksums env actual_md5 actual_crc c md))
        (seqM (upd_meta (\<lambda>md. md\<lparr>om_checksums := Some (Some (int actual_crc), actual_md5),
                om_create_time := now, om_update_time := now\<rparr>))
        (seqM (init_contexts now)
        (seqM (if upload = None then upd_meta (\<lambda>md. md\<lparr>om_finalize_time := Some now\<rparr>) else ret ())
        (seqM (init_retention now)
        (bindM (liftE (get_object_entity (oe_acl env) ''OWNER'' c)) (\<lambda>owner.
        seqM (upd_meta (\<lambda>md. md\<lparr>om_owner := owner\<rparr>))
        (seqM (init_csek env request params use_csek c)
        (bindM (init_acl env request is_destination c) (\<lambda>default_projection.
        bindM (getS mk_meta) (\<lambda>md.
        ret (\<lparr>b_metadata = md, b_media = m, b_upload = upload,
              b_upload_gen = (if upload = None then 0 else 1)\<rparr>,
             extract_projection request default_projection c))))))))))))))))"

section \<open>Making an object of a REST request\<close>

text \<open>\<open>init_dict\<close>: the metadata is a JSON resource, the request a REST request.\<close>

definition init_dict ::
    "object_env \<Rightarrow> int \<Rightarrow> request \<Rightarrow> dict \<Rightarrow> bytes_media \<Rightarrow> bool \<Rightarrow> (blob \<times> string) makeM" where
  "init_dict env now request metadata m is_destination =
     bindM (liftE (preprocess_object_metadata metadata)) (\<lambda>md.
     bindM (liftE (oe_parse env md)) (\<lambda>md.
     seqM (upd_meta (\<lambda>_. md))
       (object_init env now request no_params m is_destination Rest None True)))"

text \<open>The body of a request: what \<open>request.data\<close> holds, and what the WSGI input gives when
  the transfer is chunked.\<close>

definition extract_media :: "request \<Rightarrow> bytes \<Rightarrow> bytes \<Rightarrow> bytes" where
  "extract_media request data wsgi_input =
     (if map_of (environ request) ''HTTP_TRANSFER_ENCODING'' = Some ''chunked'' then wsgi_input
      else data)"

definition or_null :: "string option \<Rightarrow> json" where
  "or_null v = (case v of None \<Rightarrow> JNull | Some s \<Rightarrow> JStr s)"

definition init_media ::
    "object_env \<Rightarrow> int \<Rightarrow> request \<Rightarrow> bytes \<Rightarrow> (blob \<times> string) makeM" where
  "init_media env now request body = (case aget request ''name'' of
     None \<Rightarrow> raise (missing ''name'' Rest)
   | Some object_name \<Rightarrow>
       bindM (getS (bk_name \<circ> mk_bucket)) (\<lambda>bucket_name.
       init_dict env now request
         [(''bucket'', JStr (bucket_name_from_proto bucket_name)), (''name'', JStr object_name),
          (''metadata'', JObj [(''x_emulator_upload'', JStr ''simple'')]),
          (''contentEncoding'', or_null (aget request ''contentEncoding'')),
          (''kmsKeyName'', or_null (aget request ''kmsKeyName''))]
         (bytes_media_init (oe_crc32c env) body) False))"

text \<open>\<open>parse_multipart\<close>: the third-party decoder gives the text, the headers and the content
  of each part, or refuses the body; \<open>loads\<close> is \<open>json.loads\<close>.\<close>

record multipart_lib =
  ml_decode :: "bytes \<Rightarrow> string \<Rightarrow> (string \<times> (string \<times> string) list \<times> bytes) list option"
  ml_loads :: "string \<Rightarrow> err + dict"
  ml_repr :: "bytes \<Rightarrow> string"

definition parse_multipart ::
    "multipart_lib \<Rightarrow> request \<Rightarrow> bytes \<Rightarrow> err + dict \<times> string \<times> bytes" where
  "parse_multipart ml request body = (
     let malformed = invalid (''Multipart body is malformed'' @ [CHR 0x0A] @ ml_repr ml body) Rest
     in case hget request ''content-type'' of
          None \<Rightarrow> Inl (invalid ''Content-type header in multipart upload'' Rest)
        | Some content_type \<Rightarrow>
          if \<not> startswith content_type ''multipart/related''
          then Inl (invalid ''Content-type header in multipart upload'' Rest)
          else (case ml_decode ml body content_type of
              Some [(resource, _, _), (_, part_headers, content)] \<Rightarrow>
                bindE (ml_loads ml resource) (\<lambda>metadata.
                case map_of part_headers ''content-type'' of
                  None \<Rightarrow> Inl (Exc KeyError)
                | Some part_type \<Rightarrow> Inr (metadata, part_type, content))
            | _ \<Rightarrow> Inl malformed))"

text \<open>\<open>metadata["metadata"][key] = value\<close>.\<close>

definition annotate :: "string \<Rightarrow> json \<Rightarrow> json \<Rightarrow> err + json" where
  "annotate key v annotations = (case annotations of
     JObj d \<Rightarrow> Inr (JObj (AList.update key v d)) | _ \<Rightarrow> Inl (Exc TypeError))"

definition copy_annotation :: "string \<Rightarrow> string \<Rightarrow> dict \<Rightarrow> json \<Rightarrow> err + json" where
  "copy_annotation field key metadata annotations = (case map_of metadata field of
     None \<Rightarrow> Inr annotations | Some v \<Rightarrow> annotate key v annotations)"

definition multipart_metadata ::
    "object_env \<Rightarrow> request \<Rightarrow> string \<Rightarrow> dict \<Rightarrow> string \<Rightarrow> err + dict" where
  "multipart_metadata env request bucket_name metadata part_type = (
     let name = (case aget request ''name'' of
           Some n \<Rightarrow> JStr n
         | None \<Rightarrow> (case map_of metadata ''name'' of None \<Rightarrow> JNull | Some v \<Rightarrow> v));
         metadata = AList.update ''name'' name metadata;
         content_type = (case map_of metadata ''contentType'' of None \<Rightarrow> JNull | Some v \<Rightarrow> v)
     in if name = JNull then Inl (missing ''name'' Rest)
        else if content_type \<noteq> JNull \<and> content_type \<noteq> JStr part_type
          then Inl (mismatch ''Content-Type'' part_type (py_str (oe_repr env) content_type) Rest)
        else
          let metadata = AList.update ''bucket'' (JStr (bucket_name_from_proto bucket_name)) metadata;
              metadata = (if map_of metadata ''contentType'' = None
                then AList.update ''contentType'' (JStr part_type) metadata else metadata);
              annotations = (case map_of metadata ''metadata'' of None \<Rightarrow> JObj [] | Some v \<Rightarrow> v)
          in bindE (annotate ''x_emulator_upload'' (JStr ''multipart'') annotations) (\<lambda>a.
             bindE (copy_annotation ''md5Hash'' ''x_emulator_md5'' metadata a) (\<lambda>a.
             bindE (copy_annotation ''crc32c'' ''x_emulator_crc32c'' metadata a) (\<lambda>a.
             Inr (AList.update ''metadata'' a metadata)))))"

definition init_multipart ::
    "object_env \<Rightarrow> multipart_lib \<Rightarrow> int \<Rightarrow> request \<Rightarrow> bytes \<Rightarrow> (blob \<times> string) makeM" where
  "init_multipart env ml now request body =
     bindM (liftE (parse_multipart ml request body)) (\<lambda>(metadata, part_type, content).
     bindM (getS (bk_name \<circ> mk_bucket)) (\<lambda>bucket_name.
     bindM (liftE (multipart_metadata env request bucket_name metadata part_type)) (\<lambda>metadata.
     init_dict env now request metadata (bytes_media_init (oe_crc32c env) content) False)))"

text \<open>\<open>init_xml\<close> reads the checksums of the header \<open>x-goog-hash\<close>; the last one of a kind wins.\<close>

fun xml_checksums :: "string list \<Rightarrow> dict \<Rightarrow> dict" where
  "xml_checksums [] metadata = metadata"
| "xml_checksums (checksum # rest) metadata =
     (let metadata = (if startswith checksum ''md5=''
            then AList.update ''md5Hash'' (JStr (drop 4 checksum)) metadata else metadata);
          metadata = (if startswith checksum ''crc32c=''
            then AList.update ''crc32c'' (JStr (drop 7 checksum)) metadata else metadata)
      in xml_checksums rest metadata)"

definition object_init_xml ::
    "object_env \<Rightarrow> int \<Rightarrow> request \<Rightarrow> string \<Rightarrow> bytes \<Rightarrow> (blob \<times> request) makeM" where
  "object_init_xml env now request name body =
     bindM (getS (bk_name \<circ> mk_bucket)) (\<lambda>bucket_name.
     let metadata = [(''bucket'', JStr bucket_name), (''name'', JStr name),
           (''metadata'', JObj [(''x_emulator_upload'', JStr ''xml'')])];
         metadata = (case hget request ''content-type'' of
           None \<Rightarrow> metadata | Some t \<Rightarrow> AList.update ''contentType'' (JStr t) metadata);
         fake_request = init_xml request;
         metadata = (case hget fake_request ''x-goog-hash'' of
           None \<Rightarrow> metadata | Some h \<Rightarrow> xml_checksums (split_on (CHR '','') h) metadata)
     in bindM (init_dict env now fake_request metadata
                 (bytes_media_init (oe_crc32c env) body) False) (\<lambda>(b, _).
        ret (b, fake_request)))"

section \<open>Changing the metadata\<close>

definition modifiable_fields :: "string list" where
  "modifiable_fields = [''content_encoding'', ''content_disposition'', ''cache_control'', ''acl'',
     ''content_language'', ''content_type'', ''storage_class'', ''kms_key'', ''temporary_hold'',
     ''retention_expire_time'', ''metadata'', ''event_based_hold'', ''customer_encryption'',
     ''custom_time'', ''contexts'']"

text \<open>\<open>__update_metadata\<close>; the time is the local one.\<close>

definition update_metadata ::
    "object_env \<Rightarrow> int \<Rightarrow> obj_meta \<Rightarrow> string list option \<Rightarrow> obj_meta \<Rightarrow> obj_meta" where
  "update_metadata env now_local source update_mask md =
     (let md = oe_merge env (case update_mask of None \<Rightarrow> modifiable_fields | Some m \<Rightarrow> m) source md;
          md = md\<lparr>om_metageneration := om_metageneration md + 1\<rparr>
      in md\<lparr>om_etag := metadata_etag env (om_metageneration md), om_update_time := now_local\<rparr>)"

definition stamp_context ::
    "int \<Rightarrow> (string \<times> context_payload) list \<Rightarrow> bool \<Rightarrow> string \<Rightarrow> context_payload \<Rightarrow> context_payload"
  where
  "stamp_context now original is_update key payload =
     (case map_of original key of
        None \<Rightarrow> payload\<lparr>cp_create_time := now, cp_update_time := now\<rparr>
      | Some old \<Rightarrow>
          if is_update then payload\<lparr>cp_create_time := now, cp_update_time := now\<rparr>
          else if cp_value old \<noteq> cp_value payload then payload\<lparr>cp_update_time := now\<rparr>
          else payload)"

definition update_contexts_with_timestamps ::
    "int \<Rightarrow> obj_meta \<Rightarrow> bool \<Rightarrow> obj_meta \<Rightarrow> err + obj_meta" where
  "update_contexts_with_timestamps now original is_update new_metadata =
     (case om_contexts new_metadata of
        None \<Rightarrow> Inr new_metadata
      | Some [] \<Rightarrow> Inr (new_metadata\<lparr>om_contexts := None\<rparr>)
      | Some custom \<Rightarrow>
          let old = (case om_contexts original of None \<Rightarrow> [] | Some c \<Rightarrow> c);
              custom = map (\<lambda>(key, payload). (key, stamp_context now old is_update key payload)) custom
          in bindE (validate_object_contexts custom) (\<lambda>_.
             Inr (new_metadata\<lparr>om_contexts := Some custom\<rparr>)))"

text \<open>The common end of \<open>update\<close> and \<open>patch\<close>.\<close>

definition replace_metadata ::
    "object_env \<Rightarrow> int \<Rightarrow> int \<Rightarrow> request \<Rightarrow> bucket \<Rightarrow> bool \<Rightarrow> dict \<Rightarrow> blob \<Rightarrow> err + blob" where
  "replace_metadata env now now_local request bucket is_update data b =
     bindE (oe_parse env data) (\<lambda>metadata.
     bindE (insert_predefined_acl env bucket (extract_predefined_acl request False) Rest metadata)
       (\<lambda>metadata.
     bindE (update_contexts_with_timestamps now (b_metadata b) is_update metadata) (\<lambda>metadata.
     Inr (map_metadata (update_metadata env now_local metadata None) b))))"

definition object_update ::
    "object_env \<Rightarrow> int \<Rightarrow> int \<Rightarrow> request \<Rightarrow> dict \<Rightarrow> bucket \<Rightarrow> ctx \<Rightarrow> blob \<Rightarrow> err + blob" where
  "object_update env now now_local request data bucket c b =
     (if c \<noteq> Rest then Inl (Exc AssertionError)
      else bindE (preprocess_object_metadata data) (\<lambda>data.
        replace_metadata env now now_local request bucket True data b))"

text \<open>\<open>Object.rest\<close>: annotations with \<open>emulator\<close> in their name appear under their former
  name as well.\<close>

definition former_names :: "dict \<Rightarrow> dict" where
  "former_names annotations =
     (let old = concat (map (\<lambda>(key, v). if contains key ''emulator''
            then [(py_replace ''emulator'' ''testbench'' key, v)] else []) annotations)
      in dict_update annotations old)"

definition object_rest :: "object_env \<Rightarrow> obj_meta \<Rightarrow> err + dict" where
  "object_rest env md =
     bindE (object_as_rest (oe_repr env) (oe_to_dict env) md) (\<lambda>response.
     case map_of response ''metadata'' of
       None \<Rightarrow> Inr response
     | Some (JObj annotations) \<Rightarrow>
         Inr (AList.update ''metadata'' (JObj (former_names annotations)) response)
     | Some _ \<Rightarrow> Inl (Exc AttributeError))"

definition object_patch ::
    "object_env \<Rightarrow> int \<Rightarrow> int \<Rightarrow> request \<Rightarrow> dict \<Rightarrow> bucket \<Rightarrow> ctx \<Rightarrow> blob \<Rightarrow> err + blob" where
  "object_patch env now now_local request data bucket c b =
     (if c \<noteq> Rest then Inl (Exc AssertionError)
      else bindE (object_rest env (b_metadata b)) (\<lambda>rest.
        bindE (rest_patch [] rest data) (\<lambda>rest.
        bindE (preprocess_object_metadata rest) (\<lambda>rest.
        replace_metadata env now now_local request bucket False rest b))))"

section \<open>What \<open>init\<close> makes\<close>

lemma liftE_Inr_iff: "liftE r s = (Inr x, s') \<longleftrightarrow> r = Inr x \<and> s' = s"
  by auto

lemma upd_meta_app [simp]: "upd_meta f s = (Inr (), s\<lparr>mk_meta := f (mk_meta s)\<rparr>)"
  by (simp add: upd_meta_def)

lemma set_ubla_app [simp]:
  "set_ubla v s = (Inr (), s\<lparr>mk_bucket := (mk_bucket s)\<lparr>bk_ubla := v\<rparr>\<rparr>)"
  by (simp add: set_ubla_def)

lemma make_generation_app [simp]:
  "make_generation s = (Inr (mk_generation s + 1), s\<lparr>mk_generation := mk_generation s + 1\<rparr>)"
  by (simp add: make_generation_def)

lemmas make_steps = bindM_Inr_iff seqM_Inr_iff liftE_Inr_iff

text \<open>Each part of \<open>init\<close> sets one field.\<close>

lemma init_contexts_Inr:
  "init_contexts now s = (Inr u, s') \<Longrightarrow>
     s' = s\<lparr>mk_meta := (mk_meta s)\<lparr>om_contexts := om_contexts (mk_meta s')\<rparr>\<rparr>"
  by (auto simp: init_contexts_def make_steps split: option.splits)

lemma init_retention_Inr:
  "init_retention now s = (Inr u, s') \<Longrightarrow>
     s' = s\<lparr>mk_meta := (mk_meta s)\<lparr>om_retention_expire_time := om_retention_expire_time (mk_meta s')\<rparr>\<rparr>"
  by (auto simp: init_retention_def split: option.splits)

lemma init_csek_Inr:
  "init_csek env r p u c s = (Inr v, s') \<Longrightarrow>
     s' = s\<lparr>mk_meta := (mk_meta s)\<lparr>om_customer_encryption := om_customer_encryption (mk_meta s')\<rparr>\<rparr>"
  by (auto simp: init_csek_def make_steps split: prod.splits if_splits)

lemma insert_predefined_acl_Inr:
  "insert_predefined_acl env bucket predefined c md = Inr md' \<Longrightarrow> md' = md\<lparr>om_acl := om_acl md'\<rparr>"
  by (auto simp: insert_predefined_acl_def bindE_eq_Inr split: if_splits)

lemma init_acl_Inr:
  assumes "init_acl env r d c s = (Inr v, s')"
  shows "s' = s\<lparr>mk_meta := (mk_meta s)\<lparr>om_acl := om_acl (mk_meta s')\<rparr>\<rparr>"
proof -
  have "bucket\<lparr>bk_ubla := False, bk_ubla := bk_ubla bucket\<rparr> = bucket" for bucket :: bucket
    by simp
  then show ?thesis
    using assms insert_predefined_acl_Inr
    by (cases s, cases "mk_bucket s", cases "om_acl (mk_meta s) = []")
      (force simp: init_acl_def make_steps Let_def split: if_splits)+
qed

lemma check_checksums_Inr:
  assumes "check_checksums env actual_md5 actual_crc c md = Inr u"
  shows "(\<forall>crc md5_hash. om_checksums md = Some (crc, md5_hash) \<longrightarrow>
      crc \<in> {None, Some (int actual_crc)} \<and> md5_hash \<in> {[], actual_md5})
    \<and> (\<forall>t. given_text md ''x_emulator_crc32c'' = Some t \<longrightarrow>
         rest_crc32c_to_proto t = Inr (int actual_crc))
    \<and> (\<forall>t. given_text md ''x_emulator_md5'' = Some t \<longrightarrow> rest_md5_to_proto t = Inr actual_md5)"
proof -
  have 1: "crc \<in> {None, Some (int actual_crc)} \<and> md5_hash \<in> {[], actual_md5}"
    if "om_checksums md = Some (crc, md5_hash)" for crc md5_hash
    using assms that by (cases crc) (auto simp: check_checksums_def bindE_eq_Inr split: if_splits)
  have 2: "rest_crc32c_to_proto t = Inr (int actual_crc)"
    if "given_text md ''x_emulator_crc32c'' = Some t" for t
    using assms that by (auto simp: check_checksums_def bindE_eq_Inr split: if_splits)
  have 3: "rest_md5_to_proto t = Inr actual_md5"
    if "given_text md ''x_emulator_md5'' = Some t" for t
    using assms that by (auto simp: check_checksums_def bindE_eq_Inr split: if_splits)
  show ?thesis using 1 2 3 by blast
qed

text \<open>The metadata that the checks read.\<close>

definition stamped :: "object_env \<Rightarrow> bytes_media \<Rightarrow> making \<Rightarrow> obj_meta" where
  "stamped env m s = (mk_meta s)\<lparr>om_bucket := bk_name (mk_bucket s),
     om_generation := mk_generation s + 1, om_metageneration := 1, om_etag := metadata_etag env 1,
     om_size := length (bm_buf m)\<rparr>"

lemma object_init_Inr:
  assumes "object_init env now r p initial d c up use_csek s = (Inr (b, projection), s')"
    and "m = (if extract_instruction r c = Some ''inject-upload-data-error''
              then bytes_media_init (oe_crc32c env) (corrupt_media (oe_letter env) (bm_buf initial))
              else initial)"
  shows "mk_generation s' = mk_generation s + 1 \<and> mk_bucket s' = mk_bucket s
    \<and> b_metadata b = mk_meta s' \<and> b_media b = m \<and> b_upload b = up
    \<and> check_checksums env (bm_md5_digest (oe_md5 env) m) (bm_crc m) c (stamped env m s) = Inr ()
    \<and> (\<exists>contexts retention encryption acl owner. mk_meta s' = (stamped env m s)\<lparr>
         om_checksums := Some (Some (int (bm_crc m)), bm_md5_digest (oe_md5 env) m),
         om_create_time := now, om_update_time := now, om_contexts := contexts,
         om_finalize_time := (if up = None then Some now else om_finalize_time (mk_meta s)),
         om_retention_expire_time := retention, om_owner := owner,
         om_customer_encryption := encryption, om_acl := acl\<rparr>)"
proof -
  define s0 where "s0 = s\<lparr>mk_generation := mk_generation s + 1, mk_meta := (stamped env m s)\<lparr>
      om_checksums := Some (Some (int (bm_crc m)), bm_md5_digest (oe_md5 env) m),
      om_create_time := now, om_update_time := now\<rparr>\<rparr>"
  obtain s1 s2 s3 s4 owner dp where run:
    "check_checksums env (bm_md5_digest (oe_md5 env) m) (bm_crc m) c (stamped env m s) = Inr ()"
    "init_contexts now s0 = (Inr (), s1)"
    "init_retention now (if up = None
       then s1\<lparr>mk_meta := (mk_meta s1)\<lparr>om_finalize_time := Some now\<rparr>\<rparr> else s1) = (Inr (), s2)"
    "init_csek env r p use_csek c (s2\<lparr>mk_meta := (mk_meta s2)\<lparr>om_owner := owner\<rparr>\<rparr>) = (Inr (), s3)"
    "init_acl env r d c s3 = (Inr dp, s4)"
    "b = \<lparr>b_metadata = mk_meta s4, b_media = m, b_upload = up,
          b_upload_gen = (if up = None then 0 else 1)\<rparr>" "s' = s4"
    using assms(1) unfolding object_init_def assms(2) [symmetric] Let_def
    by (auto simp: make_steps s0_def stamped_def split: if_splits)
  note steps = init_contexts_Inr [OF run(2)] init_retention_Inr [OF run(3)]
    init_csek_Inr [OF run(4)] init_acl_Inr [OF run(5)]
  note gens = steps [THEN arg_cong, of mk_generation]
  note buckets = steps [THEN arg_cong, of mk_bucket]
  note metas = steps [THEN arg_cong, of mk_meta]
  have "mk_generation s4 = mk_generation s + 1 \<and> mk_bucket s4 = mk_bucket s"
    using gens buckets by (simp add: s0_def split: if_splits)
  moreover have "mk_meta s4 = (stamped env m s)\<lparr>
         om_checksums := Some (Some (int (bm_crc m)), bm_md5_digest (oe_md5 env) m),
         om_create_time := now, om_update_time := now, om_contexts := om_contexts (mk_meta s1),
         om_finalize_time := (if up = None then Some now else om_finalize_time (mk_meta s)),
         om_retention_expire_time := om_retention_expire_time (mk_meta s2), om_owner := owner,
         om_customer_encryption := om_customer_encryption (mk_meta s3), om_acl := om_acl (mk_meta s4)\<rparr>"
  proof -
    have "mk_meta s1 = (mk_meta s0)\<lparr>om_contexts := om_contexts (mk_meta s1)\<rparr>"
      using metas(1) by simp
    moreover have "mk_meta s2 = (mk_meta s1)\<lparr>
        om_finalize_time := (if up = None then Some now else om_finalize_time (mk_meta s1)),
        om_retention_expire_time := om_retention_expire_time (mk_meta s2)\<rparr>"
      using metas(2) by (cases up) simp_all
    moreover have "mk_meta s3 = (mk_meta s2)\<lparr>om_owner := owner,
        om_customer_encryption := om_customer_encryption (mk_meta s3)\<rparr>"
      using metas(3) by simp
    moreover have "mk_meta s4 = (mk_meta s3)\<lparr>om_acl := om_acl (mk_meta s4)\<rparr>"
      using metas(4) by simp
    ultimately show ?thesis
      by (cases "mk_meta s4", cases "mk_meta s3", cases "mk_meta s2", cases "mk_meta s1")
        (auto simp: s0_def stamped_def)
  qed
  ultimately show ?thesis
    using run(1,6,7) by fastforce
qed

section \<open>Contexts that are accepted\<close>

definition context_text_ok :: "string \<Rightarrow> bool" where
  "context_text_ok t \<longleftrightarrow> t \<noteq> [] \<and> is_alnum (hd t) \<and> (\<forall>c \<in> set t. \<not> restricted_char c)
     \<and> length (utf8 t) \<le> 256"

definition context_size :: "(string \<times> context_payload) list \<Rightarrow> nat" where
  "context_size custom = sum_list (map (\<lambda>(k, p). length (utf8 k) + length (utf8 (cp_value p))) custom)"

lemma validate_context_item_iff:
  "validate_context_item t = Inr n \<longleftrightarrow> context_text_ok t \<and> n = length (utf8 t)"
proof -
  have "t \<noteq> [] \<Longrightarrow> Suc 0 \<le> length (utf8 t)"
    using length_utf8_ge [of t] by (cases t) auto
  then show ?thesis
    by (auto simp: validate_context_item_def context_text_ok_def Let_def split: if_splits)
qed

lemma validate_context_items_iff:
  "validate_context_items items n = Inr m \<longleftrightarrow>
     (\<forall>(k, p) \<in> set items. \<not> startswith k ''goog'' \<and> context_text_ok k \<and> context_text_ok (cp_value p))
     \<and> m = n + context_size items"
proof (induction items arbitrary: n)
  case (Cons a items)
  obtain k p where a: "a = (k, p)" by force
  show ?case
    using Cons.IH
    by (auto simp: a bindE_eq_Inr validate_context_item_iff context_size_def)
qed (auto simp: context_size_def)

section \<open>Merging\<close>

text \<open>The documented behaviour of \<open>FieldMask.MergeMessage\<close> with both replace options, for any mask of
  top-level fields: the fields of the mask are those of the source, all other fields those of the
  destination.\<close>

definition merge_fields :: "string list \<Rightarrow> obj_meta \<Rightarrow> obj_meta \<Rightarrow> obj_meta" where
  "merge_fields paths src dst = (let pick = (\<lambda>field. if field \<in> set paths then src else dst) in
    \<lparr>om_name = om_name (pick ''name''),
     om_bucket = om_bucket (pick ''bucket''),
     om_generation = om_generation (pick ''generation''),
     om_metageneration = om_metageneration (pick ''metageneration''),
     om_etag = om_etag (pick ''etag''),
     om_size = om_size (pick ''size''),
     om_storage_class = om_storage_class (pick ''storage_class''),
     om_content_type = om_content_type (pick ''content_type''),
     om_content_encoding = om_content_encoding (pick ''content_encoding''),
     om_content_disposition = om_content_disposition (pick ''content_disposition''),
     om_content_language = om_content_language (pick ''content_language''),
     om_cache_control = om_cache_control (pick ''cache_control''),
     om_acl = om_acl (pick ''acl''),
     om_owner = om_owner (pick ''owner''),
     om_metadata = om_metadata (pick ''metadata''),
     om_contexts = om_contexts (pick ''contexts''),
     om_checksums = om_checksums (pick ''checksums''),
     om_create_time = om_create_time (pick ''create_time''),
     om_update_time = om_update_time (pick ''update_time''),
     om_finalize_time = om_finalize_time (pick ''finalize_time''),
     om_soft_delete_time = om_soft_delete_time (pick ''soft_delete_time''),
     om_hard_delete_time = om_hard_delete_time (pick ''hard_delete_time''),
     om_retention_expire_time = om_retention_expire_time (pick ''retention_expire_time''),
     om_custom_time = om_custom_time (pick ''custom_time''),
     om_customer_encryption = om_customer_encryption (pick ''customer_encryption''),
     om_kms_key = om_kms_key (pick ''kms_key''),
     om_temporary_hold = om_temporary_hold (pick ''temporary_hold''),
     om_event_based_hold = om_event_based_hold (pick ''event_based_hold'')\<rparr>)"

lemma merge_fields_simps [simp]:
  "om_name (merge_fields paths src dst) = om_name (if ''name'' \<in> set paths then src else dst)"
  "om_bucket (merge_fields paths src dst) = om_bucket (if ''bucket'' \<in> set paths then src else dst)"
  "om_generation (merge_fields paths src dst) = om_generation (if ''generation'' \<in> set paths then src else dst)"
  "om_metageneration (merge_fields paths src dst) = om_metageneration (if ''metageneration'' \<in> set paths then src else dst)"
  "om_size (merge_fields paths src dst) = om_size (if ''size'' \<in> set paths then src else dst)"
  "om_owner (merge_fields paths src dst) = om_owner (if ''owner'' \<in> set paths then src else dst)"
  "om_checksums (merge_fields paths src dst) = om_checksums (if ''checksums'' \<in> set paths then src else dst)"
  "om_create_time (merge_fields paths src dst) = om_create_time (if ''create_time'' \<in> set paths then src else dst)"
  "om_finalize_time (merge_fields paths src dst) = om_finalize_time (if ''finalize_time'' \<in> set paths then src else dst)"
  "om_soft_delete_time (merge_fields paths src dst) = om_soft_delete_time (if ''soft_delete_time'' \<in> set paths then src else dst)"
  "om_hard_delete_time (merge_fields paths src dst) = om_hard_delete_time (if ''hard_delete_time'' \<in> set paths then src else dst)"
  "om_contexts (merge_fields paths src dst) = om_contexts (if ''contexts'' \<in> set paths then src else dst)"
  "om_metadata (merge_fields paths src dst) = om_metadata (if ''metadata'' \<in> set paths then src else dst)"
  by (simp_all add: merge_fields_def Let_def)

definition merges_by_name :: "object_env \<Rightarrow> bool" where
  "merges_by_name env \<longleftrightarrow> (\<forall>paths src dst. oe_merge env paths src dst = merge_fields paths src dst)"

section \<open>Properties\<close>

lemma plain_ranged_download:
  assumes "hget r ''range'' = Some (''bytes='' @ show_nat a @ ''-'' @ show_nat e)" and "a \<le> e"
    and "extract_instruction r Rest = None" and "\<not> decompress_on_download r (b_metadata b)"
    and "checksums_ok (b_metadata b)"
  shows "if length (bm_buf (b_media b)) \<le> a
    then rest_media gunzip letter r b = Inl (range_not_satisfiable Rest)
    else (\<exists>resp. rest_media gunzip letter r b = Inr resp \<and> dr_status resp = 206
      \<and> body_bytes (dr_body resp) = take (e + 1 - a) (drop a (bm_buf (b_media b)))
      \<and> map_of (dr_headers resp) ''Content-Length'' = Some (HInt (int (length (body_bytes (dr_body resp)))))
      \<and> map_of (dr_headers resp) ''Content-Range'' = Some (HStr (''bytes '' @ show_int (int a) @ ''-''
           @ show_int (int (min e (length (bm_buf (b_media b)) - 1))) @ ''/''
           @ show_int (int (length (bm_buf (b_media b)))))))"
proof -
  let ?n = "length (bm_buf (b_media b))"
  have rng: "download_range r ?n = (int a, min (int e + 1) (int ?n), int ?n)"
    using assms(1) by (rule download_range_forms)
  show ?thesis
  proof (cases "?n \<le> a")
    case True
    then show ?thesis
      using rest_media_unsatisfiable [OF assms(4) rng] assms(1) by simp
  next
    case False
    let ?e = "min (int e + 1) (int ?n)"
    have le: "int a \<le> ?e" using False assms(2) by simp
    have slice: "concat (stream_media (b_media b) (int a) ?e) = take (e + 1 - a) (drop a (bm_buf (b_media b)))"
      using le by (subst stream_media_concat) (auto simp: py_slice_nonneg min_def nat_add_distrib)
    have len: "int (length (take (e + 1 - a) (drop a (bm_buf (b_media b))))) = ?e - int a"
      using False assms(2) by (simp add: min_def) linarith
    have last: "?e - 1 = int (min e (?n - 1))"
      using False by (simp add: min_def) linarith
    show ?thesis
      using rest_media_plain [OF assms(3-5) rng, of gunzip letter] assms(1) False slice len last
      by (auto simp: content_length_header max_def)
  qed
qed

text \<open>With decompression on the way the range only matters when there is nothing to send.\<close>

lemma transcoded_download:
  assumes "extract_instruction r Rest = None" and "checksums_ok (b_metadata b)"
    and "decompress_on_download r (b_metadata b)"
  shows "case gunzip (bm_buf (b_media b)) of
      Inl err \<Rightarrow> rest_media gunzip letter r b = Inl err
    | Inr plain \<Rightarrow> if plain = [] \<and> hget r ''range'' \<noteq> None
        then rest_media gunzip letter r b = Inl (range_not_satisfiable Rest)
        else (\<exists>resp. rest_media gunzip letter r b = Inr resp \<and> dr_status resp = 200
          \<and> body_bytes (dr_body resp) = plain
          \<and> map_of (dr_headers resp) ''Content-Length'' = Some (HInt (int (length plain))))"
proof -
  obtain h where "x_goog_hash_header (b_metadata b) = Inr h"
    using x_goog_hash_header_ok [OF assms(2)] by blast
  then show ?thesis
    using assms(1,3)
    by (auto simp: rest_media_def download_body_def Let_def content_length_header
        stream_transcode_concat sum_length_concat split: sum.split)
qed

text \<open>C35: A download of a byte range \<open>bytes=A-B\<close> with \<open>A \<le> B\<close>, without a fault instruction, of an object whose stored
  checksums are well formed.  When the object is not decompressed on the way, the request is refused with
  416 exactly when the object has at most \<open>A\<close> bytes; otherwise the answer is a 206 whose body is the bytes
  from \<open>A\<close> to \<open>B\<close> (or the end of the object), with the matching Content-Length and
  Content-Range.  When it is (content encoding gzip and a client that does not accept it) the range is
  ignored: the answer is a 200 with all the decompressed bytes, and 416 when there are none; bytes that cannot be
  decompressed end the request with the error of gzip.\<close>

theorem ranged_download:
  assumes "hget r ''range'' = Some (''bytes='' @ show_nat a @ ''-'' @ show_nat e)" and "a \<le> e"
    and "extract_instruction r Rest = None" and "checksums_ok (b_metadata b)"
  shows "if decompress_on_download r (b_metadata b)
    then (case gunzip (bm_buf (b_media b)) of
        Inl err \<Rightarrow> rest_media gunzip letter r b = Inl err
      | Inr plain \<Rightarrow> if plain = [] then rest_media gunzip letter r b = Inl (range_not_satisfiable Rest)
          else (\<exists>resp. rest_media gunzip letter r b = Inr resp \<and> dr_status resp = 200
            \<and> body_bytes (dr_body resp) = plain
            \<and> map_of (dr_headers resp) ''Content-Length'' = Some (HInt (int (length plain)))))
    else if length (bm_buf (b_media b)) \<le> a
    then rest_media gunzip letter r b = Inl (range_not_satisfiable Rest)
    else (\<exists>resp. rest_media gunzip letter r b = Inr resp \<and> dr_status resp = 206
      \<and> body_bytes (dr_body resp) = take (e + 1 - a) (drop a (bm_buf (b_media b)))
      \<and> map_of (dr_headers resp) ''Content-Length'' = Some (HInt (int (length (body_bytes (dr_body resp)))))
      \<and> map_of (dr_headers resp) ''Content-Range'' = Some (HStr (''bytes '' @ show_int (int a) @ ''-''
           @ show_int (int (min e (length (bm_buf (b_media b)) - 1))) @ ''/''
           @ show_int (int (length (bm_buf (b_media b)))))))"
proof (cases "decompress_on_download r (b_metadata b)")
  case True
  then show ?thesis
    using transcoded_download [OF assms(3,4) True, of gunzip letter] assms(1) by (auto split: sum.split)
next
  case False
  then show ?thesis using plain_ranged_download [OF assms(1-3) False assms(4), of gunzip letter] by simp
qed

text \<open>A download without a range: the answer is a 200 whose body is the whole object, or
  its decompressed content when the object is stored with the content encoding gzip and the client
  does not accept it; Content-Length is the number of bytes that are sent.\<close>

theorem full_download:
  assumes "hget r ''range'' = None" and "extract_instruction r Rest = None"
    and "checksums_ok (b_metadata b)"
    and "decompress_on_download r (b_metadata b) \<Longrightarrow> gunzip (bm_buf (b_media b)) = Inr plain"
  shows "\<exists>resp. rest_media gunzip letter r b = Inr resp \<and> dr_status resp = 200
    \<and> body_bytes (dr_body resp)
        = (if decompress_on_download r (b_metadata b) then plain else bm_buf (b_media b))
    \<and> map_of (dr_headers resp) ''Content-Length'' = Some (HInt (int (length (body_bytes (dr_body resp)))))"
proof (cases "decompress_on_download r (b_metadata b)")
  case True
  then show ?thesis
    using transcoded_download [OF assms(2,3) True, of gunzip letter] assms(1,4) by auto
next
  case False
  let ?n = "length (bm_buf (b_media b))"
  have rng: "download_range r ?n = (0, int ?n, int ?n)"
    using assms(1) by (rule download_range_forms)
  have "concat (stream_media (b_media b) 0 (int ?n)) = bm_buf (b_media b)"
    by (subst stream_media_concat) (simp_all add: py_slice_all)
  then show ?thesis
    using rest_media_plain [OF assms(2) False assms(3) rng, of gunzip letter] assms(1) False
    by (auto simp: content_length_header)
qed

text \<open>C34: An object that \<open>init\<close> makes of a media with correct rolling checksums: it gets the
  next generation and metageneration 1, the size and both checksums of exactly the stored bytes,
  the name it was asked for and the name of its bucket; a finished upload has a finalize time; the
  bucket is unchanged; and the checksums that the client had given, in the message or in the
  annotations, are those of the bytes.\<close>

theorem new_object_is_consistent:
  assumes "object_init env now r p initial d c up use_csek s = (Inr (b, projection), s')"
    and "bm_inv (oe_crc32c env) initial"
  shows "mk_generation s' = mk_generation s + 1 \<and> b_generation b = mk_generation s'
    \<and> b_metageneration b = 1 \<and> b_name b = om_name (mk_meta s)
    \<and> om_bucket (b_metadata b) = bk_name (mk_bucket s) \<and> mk_bucket s' = mk_bucket s
    \<and> om_size (b_metadata b) = length (bm_buf (b_media b))
    \<and> om_checksums (b_metadata b) = Some (Some (int (oe_crc32c env (bm_buf (b_media b)) 0)),
         oe_md5 env (bm_buf (b_media b)))
    \<and> (om_finalize_time (b_metadata b) = Some now \<or> up \<noteq> None)
    \<and> (\<forall>crc md5_hash. om_checksums (mk_meta s) = Some (crc, md5_hash) \<longrightarrow>
         crc \<in> {None, Some (int (oe_crc32c env (bm_buf (b_media b)) 0))}
       \<and> md5_hash \<in> {[], oe_md5 env (bm_buf (b_media b))})
    \<and> (\<forall>t. given_text (mk_meta s) ''x_emulator_crc32c'' = Some t \<longrightarrow>
         rest_crc32c_to_proto t = Inr (int (oe_crc32c env (bm_buf (b_media b)) 0)))
    \<and> (\<forall>t. given_text (mk_meta s) ''x_emulator_md5'' = Some t \<longrightarrow>
         rest_md5_to_proto t = Inr (oe_md5 env (bm_buf (b_media b))))"
proof -
  define m where "m = (if extract_instruction r c = Some ''inject-upload-data-error''
    then bytes_media_init (oe_crc32c env) (corrupt_media (oe_letter env) (bm_buf initial)) else initial)"
  have inv: "bm_crc m = oe_crc32c env (bm_buf m) 0" "bm_md5_digest (oe_md5 env) m = oe_md5 env (bm_buf m)"
    using assms(2) bm_init_inv [of "oe_crc32c env"]
    by (auto simp: m_def bm_inv_def bm_md5_digest_def)
  have given: "given_text (stamped env m s) = given_text (mk_meta s)"
      "om_checksums (stamped env m s) = om_checksums (mk_meta s)"
    by (simp_all add: given_text_def stamped_def fun_eq_iff)
  note made = object_init_Inr [OF assms(1) m_def]
  note checked = check_checksums_Inr [OF made [THEN conjunct2, THEN conjunct2, THEN conjunct2,
        THEN conjunct2, THEN conjunct2, THEN conjunct1], unfolded given inv]
  show ?thesis
    using made checked
    by (auto simp: stamped_def inv b_generation_def b_metageneration_def b_name_def)
qed

text \<open>A refused upload changes its bucket: when the bucket has uniform bucket level access and
  the REST request asks for a predefined ACL (and nothing else is wrong with it), \<open>init\<close> answers
  that the predefined ACL is invalid, and leaves uniform access switched off.\<close>

theorem refused_acl_disables_uniform_access:
  assumes "bk_ubla (mk_bucket s)" and "extract_predefined_acl r d \<noteq> []"
    and "om_acl (mk_meta s) = []" and "om_checksums (mk_meta s) = None"
    and "om_metadata (mk_meta s) = []" and "om_contexts (mk_meta s) = None"
    and "hget r ''x-goog-encryption-algorithm'' = None"
  shows "\<exists>s'. object_init env now r p initial d Rest up use_csek s
      = (Inl (invalid ''Predefined ACL with uniform bucket level access enabled'' Rest), s')
    \<and> \<not> bk_ubla (mk_bucket s')"
proof -
  have checks: "check_checksums env m5 crc Rest (stamped env m s) = Inr ()" for m m5 crc
    using assms(4,5) by (simp add: check_checksums_def stamped_def given_text_def)
  have csek: "csek_extract r p False Rest = ([], k, h)" if "csek_extract r p False Rest = (a, k, h)" for a k h
    using that assms(7) by (auto simp: csek_extract_def header_or_empty_def)
  have owner: "get_object_entity (oe_acl env) ''OWNER'' Rest = Inr (object_owner_entity (oe_acl env))"
    by (simp add: get_object_entity_def)
  have no_csek: "init_csek env r p use_csek Rest t = (Inr (), t)" for t
    using csek by (cases "csek_extract r p False Rest") (auto simp: init_csek_def)
  have no_contexts: "om_contexts (mk_meta t) = None \<Longrightarrow> init_contexts now t = (Inr (), t)" for t
    by (simp add: init_contexts_def)
  have retention: "\<exists>e. init_retention now t
      = (Inr (), t\<lparr>mk_meta := (mk_meta t)\<lparr>om_retention_expire_time := e\<rparr>\<rparr>)" for t
    by (cases "bk_retention (mk_bucket t)") (auto simp: init_retention_def intro!: exI [of _ "case bk_retention (mk_bucket t) of
        None \<Rightarrow> om_retention_expire_time (mk_meta t) | Some n \<Rightarrow> Some (now + n * 1000000)"])
  have acl: "init_acl env r d Rest t
      = (Inl (invalid ''Predefined ACL with uniform bucket level access enabled'' Rest),
         t\<lparr>mk_bucket := (mk_bucket t)\<lparr>bk_ubla := False\<rparr>\<rparr>)"
    if "bk_ubla (mk_bucket t)" "om_acl (mk_meta t) = []" for t
    using that assms(2) by (simp add: init_acl_def seqM_def bindM_def Let_def)
  define m where "m = (if extract_instruction r Rest = Some ''inject-upload-data-error''
    then bytes_media_init (oe_crc32c env) (corrupt_media (oe_letter env) (bm_buf initial)) else initial)"
  define u where "u = s\<lparr>mk_generation := mk_generation s + 1, mk_meta := (stamped env m s)\<lparr>
      om_checksums := Some (Some (int (bm_crc m)), bm_md5_digest (oe_md5 env) m),
      om_create_time := now, om_update_time := now\<rparr>\<rparr>"
  define t where "t = (if up = None
      then u\<lparr>mk_meta := (mk_meta u)\<lparr>om_finalize_time := Some now\<rparr>\<rparr> else u)"
  obtain e where e: "init_retention now t
      = (Inr (), t\<lparr>mk_meta := (mk_meta t)\<lparr>om_retention_expire_time := e\<rparr>\<rparr>)"
    using retention by blast
  have t: "bk_ubla (mk_bucket t)" "om_acl (mk_meta t) = []"
    using assms(1,3) by (simp_all add: t_def u_def stamped_def)
  have ctx: "om_contexts (stamped env m s) = None"
    using assms(6) by (simp add: stamped_def)
  show ?thesis
    using checks [of _ _ m] e acl t ctx
    by (cases up) (simp_all add: object_init_def m_def [symmetric] Let_def seqM_def bindM_def
        stamped_def [symmetric] no_contexts owner no_csek t_def u_def)
qed

text \<open>The contexts of an object are accepted exactly when there are at most 50 of them, no key
  begins with \<open>goog\<close>, every key and every value begins with a letter or a digit, has no quote,
  backslash or slash and at most 256 bytes in UTF-8, and all of them together have at most 25
  KiB.\<close>

theorem accepted_contexts:
  "validate_object_contexts custom = Inr () \<longleftrightarrow>
     length custom \<le> 50 \<and> context_size custom \<le> 25 * 1024
   \<and> list_all (\<lambda>(k, p). \<not> startswith k ''goog'' \<and> context_text_ok k \<and> context_text_ok (cp_value p)) custom"
  by (auto simp: validate_object_contexts_def bindE_eq_Inr validate_context_items_iff list_all_iff
      split: if_splits)

text \<open>C36: An update or a patch of an object that succeeds takes the modifiable fields from the
  request only: the name, the bucket, the generation, the size, the checksums, the owner, the times of creation, completion,
  soft deletion and final deletion
  and the bytes stay, the metageneration grows by one and the entity tag follows it, the update time is that of the local clock.\<close>

theorem update_keeps_identity:
  assumes "object_update env now now_local r data bucket c b = Inr b'
      \<or> object_patch env now now_local r data bucket c b = Inr b'"
    and "merges_by_name env"
  shows "b_name b' = b_name b \<and> om_bucket (b_metadata b') = om_bucket (b_metadata b)
    \<and> b_generation b' = b_generation b \<and> om_size (b_metadata b') = om_size (b_metadata b)
    \<and> om_checksums (b_metadata b') = om_checksums (b_metadata b)
    \<and> om_owner (b_metadata b') = om_owner (b_metadata b)
    \<and> om_create_time (b_metadata b') = om_create_time (b_metadata b)
    \<and> om_finalize_time (b_metadata b') = om_finalize_time (b_metadata b)
    \<and> om_soft_delete_time (b_metadata b') = om_soft_delete_time (b_metadata b)
    \<and> om_hard_delete_time (b_metadata b') = om_hard_delete_time (b_metadata b)
    \<and> b_media b' = b_media b \<and> b_metageneration b' = b_metageneration b + 1
    \<and> om_etag (b_metadata b') = metadata_etag env (b_metageneration b')
    \<and> om_update_time (b_metadata b') = now_local"
proof -
  obtain md where "b' = map_metadata (update_metadata env now_local md None) b"
    using assms(1) by (auto simp: object_update_def object_patch_def replace_metadata_def
        bindE_eq_Inr split: if_splits)
  then show ?thesis
    using assms(2) by (simp add: update_metadata_def merges_by_name_def modifiable_fields_def Let_def
        b_name_def b_generation_def b_metageneration_def)
qed

text \<open>A range whose end is before its begin is not refused: the answer is a 206 with a negative
  Content-Length.\<close>

lemma reversed_range_negative_length:
  assumes "hget r ''range'' = Some (''bytes='' @ show_nat a @ ''-'' @ show_nat e)"
    and "e + 1 < a" and "a < length (bm_buf (b_media b))"
    and "extract_instruction r Rest = None" and "\<not> decompress_on_download r (b_metadata b)"
    and "checksums_ok (b_metadata b)"
  shows "\<exists>resp. rest_media gunzip letter r b = Inr resp \<and> dr_status resp = 206
    \<and> map_of (dr_headers resp) ''Content-Length'' = Some (HInt (int e + 1 - int a)) \<and> int e + 1 - int a < 0"
proof -
  have rng: "download_range r (length (bm_buf (b_media b)))
      = (int a, min (int e + 1) (int (length (bm_buf (b_media b)))), int (length (bm_buf (b_media b))))"
    using assms(1) by (rule download_range_forms)
  have "min (int e + 1) (int (length (bm_buf (b_media b)))) = int e + 1"
    using assms(2,3) by simp
  then show ?thesis
    using rest_media_plain [OF assms(4-6) rng, of gunzip letter] assms(1-3)
    by (auto simp: content_length_header max_def)
qed

section \<open>Witnesses\<close>

definition sample_env :: object_env where
  "sample_env = \<lparr>oe_acl = acl_defaults (\<lambda>_. ''00''), oe_crc32c = castagnoli,
     oe_md5 = (\<lambda>bs. take 16 bs), oe_sha256 = (\<lambda>bs. take 32 bs),
     oe_parse = (\<lambda>d. Inr (new_obj_meta\<lparr>om_content_type := ''text/plain''\<rparr>)),
     oe_to_dict = (\<lambda>md. [(''bucket'', JStr (om_bucket md)), (''name'', JStr (om_name md))]),
     oe_merge = merge_fields, oe_repr = (\<lambda>_. []), oe_bytes_repr = (\<lambda>_. []), oe_letter = 97\<rparr>"

definition sample_get :: "(string \<times> string) list \<Rightarrow> request" where
  "sample_get hs = \<lparr>args = [], headers = hs, environ = [], verb = ''GET''\<rparr>"

definition sample_object :: blob where
  "sample_object = \<lparr>b_metadata = new_obj_meta\<lparr>om_name := ''n'', om_size := 5\<rparr>,
     b_media = \<lparr>bm_buf = [1, 2, 3, 4, 5], bm_crc = 0, bm_md5 = []\<rparr>, b_upload = None, b_upload_gen = 0\<rparr>"

theorem ranged_download_witness:
  "\<exists>resp. rest_media Inr 97 (sample_get [(''range'', ''bytes='' @ show_nat 1 @ ''-'' @ show_nat 3)])
       sample_object = Inr resp
   \<and> dr_status resp = 206 \<and> body_bytes (dr_body resp) = [2, 3, 4]"
  using ranged_download [of "sample_get [(''range'', ''bytes='' @ show_nat 1 @ ''-'' @ show_nat 3)]"
      1 3 sample_object Inr 97]
  by (auto simp: sample_get_def sample_object_def hget_def extract_instruction_def
      decompress_on_download_def new_obj_meta_def checksums_ok_def)

theorem full_download_witness:
  "\<exists>resp. rest_media Inr 97 (sample_get []) sample_object = Inr resp
   \<and> dr_status resp = 200 \<and> body_bytes (dr_body resp) = [1, 2, 3, 4, 5]"
  using full_download [of "sample_get []" sample_object Inr "[1, 2, 3, 4, 5]" 97]
  by (auto simp: sample_get_def sample_object_def hget_def extract_instruction_def
      decompress_on_download_def new_obj_meta_def checksums_ok_def)

definition sample_bucket :: bucket where
  "sample_bucket = \<lparr>bk_name = ''projects/_/buckets/b'', bk_metageneration = 1, bk_project = ''p'',
     bk_storage_class = ''STANDARD'', bk_acl = [], bk_default_object_acl = [], bk_versioning = False,
     bk_ubla = True, bk_retention = None, bk_retention_locked = False, bk_soft_delete = None,
     bk_autoclass = False\<rparr>"

definition sample_entry :: acl_entry where
  "sample_entry = make_entry (acl_defaults (\<lambda>_. ''00'')) ''b'' ''allUsers'' ''READER''"

definition sample_making :: making where
  "sample_making = \<lparr>mk_generation = 41, mk_bucket = sample_bucket,
     mk_meta = new_obj_meta\<lparr>om_name := ''n'', om_acl := [sample_entry]\<rparr>\<rparr>"

lemma sample_object_made:
  "\<exists>b projection s'. object_init sample_env 7 (sample_get []) no_params
     (bytes_media_init castagnoli [1, 2, 3]) False Rest None True sample_making
   = (Inr (b, projection), s')"
  by (simp add: object_init_def Let_def sample_get_def extract_instruction_def hget_def seqM_def
      bindM_def check_checksums_def sample_making_def given_text_def new_obj_meta_def init_contexts_def
      init_retention_def sample_bucket_def get_object_entity_def init_csek_def csek_extract_def
      header_or_empty_def init_acl_def)

theorem new_object_is_consistent_witness:
  "\<exists>b projection s'. object_init sample_env 7 (sample_get []) no_params
     (bytes_media_init castagnoli [1, 2, 3]) False Rest None True sample_making
       = (Inr (b, projection), s')
   \<and> b_generation b = 42 \<and> b_name b = ''n''
   \<and> om_checksums (b_metadata b)
      = Some (Some (int (castagnoli (bm_buf (b_media b)) 0)), take 16 (bm_buf (b_media b)))"
proof -
  have "oe_crc32c sample_env = castagnoli" "oe_md5 sample_env = (\<lambda>bs. take 16 bs)"
    by (simp_all add: sample_env_def)
  moreover obtain b projection s' where run: "object_init sample_env 7 (sample_get []) no_params
      (bytes_media_init castagnoli [1, 2, 3]) False Rest None True sample_making
       = (Inr (b, projection), s')"
    using sample_object_made by blast
  moreover have "bm_inv (oe_crc32c sample_env) (bytes_media_init castagnoli [1, 2, 3])"
    by (simp add: sample_env_def bm_init_inv)
  ultimately show ?thesis
    using new_object_is_consistent [OF run] by (auto simp: sample_making_def)
qed

theorem refused_acl_disables_uniform_access_witness:
  "\<exists>s'. object_init sample_env 7 \<lparr>args = [(''predefinedAcl'', ''private'')], headers = [],
       environ = [], verb = ''POST''\<rparr> no_params (bytes_media_init castagnoli []) False Rest None True
       (sample_making\<lparr>mk_meta := new_obj_meta\<rparr>)
     = (Inl (invalid ''Predefined ACL with uniform bucket level access enabled'' Rest), s')
   \<and> bk_ubla sample_bucket \<and> \<not> bk_ubla (mk_bucket s')"
  using refused_acl_disables_uniform_access [of "sample_making\<lparr>mk_meta := new_obj_meta\<rparr>"
      "\<lparr>args = [(''predefinedAcl'', ''private'')], headers = [], environ = [], verb = ''POST''\<rparr>" False
      sample_env 7 no_params "bytes_media_init castagnoli []" None True]
  by (auto simp: sample_making_def sample_bucket_def extract_predefined_acl_def aget_def hget_def
      new_obj_meta_def)

theorem update_keeps_identity_witness:
  "\<exists>b'. object_update sample_env 7 7 (sample_get []) [] sample_bucket Rest sample_object = Inr b'
    \<and> b_name b' = ''n'' \<and> b_metageneration b' = 1"
proof -
  obtain b' where run: "object_update sample_env 7 7 (sample_get []) [] sample_bucket Rest sample_object
      = Inr b'"
    by (simp add: object_update_def preprocess_object_metadata_def object_adjustments_def
        crc32c_checksum_def md5_checksum_def replace_metadata_def sample_env_def
        insert_predefined_acl_def extract_predefined_acl_def aget_def sample_get_def
        update_contexts_with_timestamps_def new_obj_meta_def Let_def)
  have "merges_by_name sample_env"
    by (simp add: merges_by_name_def sample_env_def)
  then show ?thesis
    using update_keeps_identity [of sample_env 7 7 "sample_get []" "[]" sample_bucket Rest
        sample_object b'] run
    by (auto simp: sample_object_def b_name_def b_metageneration_def new_obj_meta_def)
qed

end
