(* ===== verification/Preconditions.thy ===== *)
theory Preconditions
  imports Errors
begin

text \<open>
  \<open>src/testbench/common.py\<close>, lines 331 to 609: the five builders of pre-conditions.

  A pre-condition of an object sees the metageneration of the object (\<open>None\<close> when there
  is no object), the generation that is live (\<open>None\<close> when there is none) and the context;
  one of a bucket sees the metageneration of the bucket only.  The arguments of a REST
  request are a dictionary of texts, the fields that a gRPC request has set are a
  dictionary of integers.
\<close>

type_synonym precondition = "int option \<Rightarrow> int option \<Rightarrow> ctx \<Rightarrow> err + bool"
type_synonym bucket_precondition = "int option \<Rightarrow> ctx \<Rightarrow> err + bool"

definition meta_or_0 :: "int option \<Rightarrow> int" where
  "meta_or_0 blob = (case blob of None \<Rightarrow> 0 | Some m \<Rightarrow> m)"

text \<open>\<open>match = ....get(name); assert match is not None\<close> and \<open>int(match)\<close>.\<close>

definition with_int :: "(string \<times> string) list \<Rightarrow> string \<Rightarrow> (string \<Rightarrow> int \<Rightarrow> err + bool) \<Rightarrow> err + bool"
  where
  "with_int args name k = (case map_of args name of
     None \<Rightarrow> Inl (Exc AssertionError)
   | Some match \<Rightarrow> (case py_int match of
       None \<Rightarrow> Inl (Exc ValueError)
     | Some m \<Rightarrow> k match m))"

definition with_field :: "(string \<times> int) list \<Rightarrow> string \<Rightarrow> (int \<Rightarrow> err + bool) \<Rightarrow> err + bool" where
  "with_field fields name k = (case map_of fields name of
     None \<Rightarrow> Inl (Exc AssertionError) | Some m \<Rightarrow> k m)"

section \<open>JSON requests\<close>

definition json_metageneration_match ::
    "(string \<times> string) list \<Rightarrow> string \<Rightarrow> precondition" where
  "json_metageneration_match args pre blob live c =
     with_int args (pre @ ''MetagenerationMatch'') (\<lambda>match m.
       let actual = meta_or_0 blob in
       if m = 0 \<and> blob = None then Inr True
       else if m \<noteq> 0 \<and> m = actual then Inr True
       else case blob of
         None \<Rightarrow> Inl (Exc AttributeError)
       | Some g \<Rightarrow> Inl (mismatch (pre @ ''MetagenerationMatch'') match (show_int g) c))"

definition json_metageneration_not_match ::
    "(string \<times> string) list \<Rightarrow> string \<Rightarrow> precondition" where
  "json_metageneration_not_match args pre blob live c =
     with_int args (pre @ ''MetagenerationNotMatch'') (\<lambda>match m.
       let actual = meta_or_0 blob in
       if m = 0 \<and> blob \<noteq> None then Inr True
       else if m \<noteq> 0 \<and> m \<noteq> actual then Inr True
       else Inl (notchanged (pre @ ''MetagenerationNotMatch expected '' @ match @ '' == actual ''
                   @ show_int actual) c))"

definition json_generation_match ::
    "(string \<times> string) list \<Rightarrow> string \<Rightarrow> precondition" where
  "json_generation_match args pre blob live c =
     with_int args (pre @ ''GenerationMatch'') (\<lambda>match m.
       if m = 0 \<and> (live = None \<or> live = Some 0) then Inr True
       else if m \<noteq> 0 \<and> Some m = live then Inr True
       else Inl (mismatch (pre @ ''GenerationMatch'') match (show_opt live) c))"

definition json_generation_not_match ::
    "(string \<times> string) list \<Rightarrow> string \<Rightarrow> precondition" where
  "json_generation_not_match args pre blob live c =
     with_int args (pre @ ''GenerationNotMatch'') (\<lambda>match m.
       if m = 0 \<and> (live \<noteq> None \<and> live \<noteq> Some 0) then Inr True
       else if m \<noteq> 0 \<and> Some m \<noteq> live then Inr True
       else Inl (notchanged (pre @ ''GenerationNotMatch expected '' @ match @ '' == actual ''
                   @ show_opt live) c))"

text \<open>The builders keep the order of their table, which is the order of the checks.\<close>

definition select :: "(string \<times> 'v) list \<Rightarrow> (string \<times> 'p) list \<Rightarrow> 'p list" where
  "select args table = map snd (filter (\<lambda>(name, _). map_of args name \<noteq> None) table)"

definition make_json_preconditions ::
    "(string \<times> string) list \<Rightarrow> string \<Rightarrow> precondition list" where
  "make_json_preconditions args pre = select args
     [(pre @ ''MetagenerationMatch'', json_metageneration_match args pre),
      (pre @ ''MetagenerationNotMatch'', json_metageneration_not_match args pre),
      (pre @ ''GenerationMatch'', json_generation_match args pre),
      (pre @ ''GenerationNotMatch'', json_generation_not_match args pre)]"

section \<open>XML requests\<close>

definition xml_metageneration_match :: "(string \<times> string) list \<Rightarrow> precondition" where
  "xml_metageneration_match headers blob live c =
     with_int headers ''x-goog-if-metageneration-match'' (\<lambda>match m.
       let actual = meta_or_0 blob in
       if m = 0 \<and> blob = None then Inr True
       else if m \<noteq> 0 \<and> m = actual then Inr True
       else Inl (mismatch ''x-goog-if-metageneration-match'' match (show_int actual) c))"

definition xml_generation_match :: "(string \<times> string) list \<Rightarrow> precondition" where
  "xml_generation_match headers blob live c =
     with_int headers ''x-goog-if-generation-match'' (\<lambda>match m.
       if m = 0 \<and> live = None then Inr True
       else if m \<noteq> 0 \<and> Some m = live then Inr True
       else Inl (mismatch ''x-goog-if-generation-match'' match (show_opt live) c))"

definition make_xml_preconditions :: "(string \<times> string) list \<Rightarrow> precondition list" where
  "make_xml_preconditions headers = select headers
     [(''x-goog-if-metageneration-match'', xml_metageneration_match headers),
      (''x-goog-if-generation-match'', xml_generation_match headers)]"

section \<open>gRPC requests\<close>

definition grpc_metageneration_match ::
    "(string \<times> int) list \<Rightarrow> string \<Rightarrow> precondition" where
  "grpc_metageneration_match fields pre blob live c =
     with_field fields (pre @ ''metageneration_match'') (\<lambda>m.
       if m = 0 \<and> blob = None then Inr True
       else let actual = meta_or_0 blob in
       if m \<noteq> 0 \<and> m = actual then Inr True
       else Inl (mismatch (pre @ ''if_metageneration_match'') (show_int m) (show_int actual) c))"

definition grpc_metageneration_not_match ::
    "(string \<times> int) list \<Rightarrow> string \<Rightarrow> precondition" where
  "grpc_metageneration_not_match fields pre blob live c =
     with_field fields (pre @ ''metageneration_not_match'') (\<lambda>m.
       if m = 0 \<and> blob \<noteq> None then Inr True
       else let actual = meta_or_0 blob in
       if m \<noteq> 0 \<and> m \<noteq> actual then Inr True
       else Inl (notchanged (pre @ ''metageneration_not_match expected '' @ show_int m
                   @ '' == actual '' @ show_int actual) c))"

definition grpc_generation_match ::
    "(string \<times> int) list \<Rightarrow> string \<Rightarrow> precondition" where
  "grpc_generation_match fields pre blob live c =
     with_field fields (pre @ ''generation_match'') (\<lambda>m.
       if m = 0 \<and> live = None then Inr True
       else if m \<noteq> 0 \<and> Some m = live then Inr True
       else Inl (mismatch (pre @ ''generation_match'') (show_int m) (show_opt live) c))"

definition grpc_generation_not_match ::
    "(string \<times> int) list \<Rightarrow> string \<Rightarrow> precondition" where
  "grpc_generation_not_match fields pre blob live c =
     with_field fields (pre @ ''generation_not_match'') (\<lambda>m.
       if m = 0 \<and> live \<noteq> None then Inr True
       else if m \<noteq> 0 \<and> Some m \<noteq> live then Inr True
       else Inl (notchanged (pre @ ''generation_not_match expected '' @ show_int m
                   @ '' == actual '' @ show_opt live) c))"

definition make_grpc_preconditions ::
    "(string \<times> int) list \<Rightarrow> string \<Rightarrow> precondition list" where
  "make_grpc_preconditions fields pre = select fields
     [(pre @ ''metageneration_match'', grpc_metageneration_match fields pre),
      (pre @ ''metageneration_not_match'', grpc_metageneration_not_match fields pre),
      (pre @ ''generation_match'', grpc_generation_match fields pre),
      (pre @ ''generation_not_match'', grpc_generation_not_match fields pre)]"

section \<open>Buckets\<close>

definition json_bucket_metageneration_match ::
    "(string \<times> string) list \<Rightarrow> bucket_precondition" where
  "json_bucket_metageneration_match args bucket c =
     with_int args ''ifMetagenerationMatch'' (\<lambda>match m.
       let actual = meta_or_0 bucket in
       if m = 0 \<and> bucket = None then Inr True
       else if m \<noteq> 0 \<and> m = actual then Inr True
       else Inl (mismatch ''ifMetagenerationMatch'' match (show_int actual) c))"

definition json_bucket_metageneration_not_match ::
    "(string \<times> string) list \<Rightarrow> bucket_precondition" where
  "json_bucket_metageneration_not_match args bucket c =
     with_int args ''ifMetagenerationNotMatch'' (\<lambda>match m.
       let actual = meta_or_0 bucket in
       if m = 0 \<and> bucket \<noteq> None then Inr True
       else if m \<noteq> 0 \<and> m \<noteq> actual then Inr True
       else Inl (notchanged (''ifMetagenerationNotMatch expected '' @ match @ '' == actual ''
                   @ show_int actual) c))"

definition make_json_bucket_preconditions ::
    "(string \<times> string) list \<Rightarrow> bucket_precondition list" where
  "make_json_bucket_preconditions args = select args
     [(''ifMetagenerationMatch'', json_bucket_metageneration_match args),
      (''ifMetagenerationNotMatch'', json_bucket_metageneration_not_match args)]"

definition grpc_bucket_metageneration_match ::
    "(string \<times> int) list \<Rightarrow> bucket_precondition" where
  "grpc_bucket_metageneration_match fields bucket c =
     with_field fields ''if_metageneration_match'' (\<lambda>m.
       if m = 0 \<and> bucket = None then Inr True
       else let actual = meta_or_0 bucket in
       if m \<noteq> 0 \<and> m = actual then Inr True
       else Inl (mismatch ''if_metageneration_match'' (show_int m) (show_int actual) c))"

definition grpc_bucket_metageneration_not_match ::
    "(string \<times> int) list \<Rightarrow> bucket_precondition" where
  "grpc_bucket_metageneration_not_match fields bucket c =
     with_field fields ''if_metageneration_not_match'' (\<lambda>m.
       if m = 0 \<and> bucket \<noteq> None then Inr True
       else let actual = meta_or_0 bucket in
       if m \<noteq> 0 \<and> m \<noteq> actual then Inr True
       else Inl (notchanged (''if_metageneration_not_match expected '' @ show_int m
                   @ '' == actual '' @ show_int actual) c))"

definition make_grpc_bucket_preconditions ::
    "(string \<times> int) list \<Rightarrow> bucket_precondition list" where
  "make_grpc_bucket_preconditions fields = select fields
     [(''if_metageneration_match'', grpc_bucket_metageneration_match fields),
      (''if_metageneration_not_match'', grpc_bucket_metageneration_not_match fields)]"

section \<open>Running the checks\<close>

text \<open>\<open>for precondition in preconditions: if not precondition(...): return None\<close>, the loop
  that \<open>src/testbench/database.py\<close> has three times.\<close>

fun check_preconditions ::
    "precondition list \<Rightarrow> int option \<Rightarrow> int option \<Rightarrow> ctx \<Rightarrow> err + bool" where
  "check_preconditions [] blob live c = Inr True"
| "check_preconditions (p # ps) blob live c =
     bindE (p blob live c) (\<lambda>ok. if ok then check_preconditions ps blob live c else Inr False)"

fun check_bucket_preconditions ::
    "bucket_precondition list \<Rightarrow> int option \<Rightarrow> ctx \<Rightarrow> err + bool" where
  "check_bucket_preconditions [] bucket c = Inr True"
| "check_bucket_preconditions (p # ps) bucket c =
     bindE (p bucket c) (\<lambda>ok. if ok then check_bucket_preconditions ps bucket c else Inr False)"

section \<open>What the checks mean\<close>

text \<open>The documented meaning: 0 asks that there be no current value, any other number that
  it be the current value.\<close>

definition held :: "int \<Rightarrow> int option \<Rightarrow> bool" where
  "held m cur \<longleftrightarrow> (if m = 0 then cur = None else cur = Some m)"

definition drop_zero :: "int option \<Rightarrow> int option" where
  "drop_zero live = (if live = Some 0 then None else live)"

lemma check_preconditions_all:
  "check_preconditions ps blob live c = Inr True \<longleftrightarrow> (\<forall>p \<in> set ps. p blob live c = Inr True)"
  by (induction ps) (auto simp: bindE_eq_Inr)

lemma check_bucket_preconditions_all:
  "check_bucket_preconditions ps bucket c = Inr True \<longleftrightarrow> (\<forall>p \<in> set ps. p bucket c = Inr True)"
  by (induction ps) (auto simp: bindE_eq_Inr)

lemma set_select: "p \<in> set (select args table) \<longleftrightarrow>
    (\<exists>name. (name, p) \<in> set table \<and> map_of args name \<noteq> None)"
  by (force simp: select_def)

lemma with_int_True:
  "map_of args name = Some v \<Longrightarrow> with_int args name k = Inr b \<longleftrightarrow>
     (\<exists>m. py_int v = Some m \<and> k v m = Inr b)"
  by (auto simp: with_int_def split: option.splits)

lemma with_field_simp: "map_of fields name = Some m \<Longrightarrow> with_field fields name k = k m"
  by (simp add: with_field_def)

lemmas precondition_defs = json_metageneration_match_def json_metageneration_not_match_def
  json_generation_match_def json_generation_not_match_def xml_metageneration_match_def
  xml_generation_match_def grpc_metageneration_match_def grpc_metageneration_not_match_def
  grpc_generation_match_def grpc_generation_not_match_def json_bucket_metageneration_match_def
  json_bucket_metageneration_not_match_def grpc_bucket_metageneration_match_def
  grpc_bucket_metageneration_not_match_def

lemma grpc_field_iff:
  assumes "map_of fields (pre @ name) = Some m"
  shows "name = ''metageneration_match'' \<Longrightarrow>
      grpc_metageneration_match fields pre blob live c = Inr True \<longleftrightarrow> held m blob"
    and "name = ''metageneration_not_match'' \<Longrightarrow>
      grpc_metageneration_not_match fields pre blob live c = Inr True \<longleftrightarrow> \<not> held m blob"
    and "name = ''generation_match'' \<Longrightarrow>
      grpc_generation_match fields pre blob live c = Inr True \<longleftrightarrow> held m live"
    and "name = ''generation_not_match'' \<Longrightarrow>
      grpc_generation_not_match fields pre blob live c = Inr True \<longleftrightarrow> \<not> held m live"
  using assms by (auto simp: precondition_defs with_field_simp held_def meta_or_0_def Let_def
      split: option.splits)

lemma json_arg_iff:
  assumes "map_of args (pre @ name) = Some v" and "py_int v = Some m"
  shows "name = ''MetagenerationMatch'' \<Longrightarrow>
      json_metageneration_match args pre blob live c = Inr True \<longleftrightarrow> held m blob"
    and "name = ''MetagenerationNotMatch'' \<Longrightarrow>
      json_metageneration_not_match args pre blob live c = Inr True \<longleftrightarrow> \<not> held m blob"
    and "name = ''GenerationMatch'' \<Longrightarrow>
      json_generation_match args pre blob live c = Inr True \<longleftrightarrow> held m (drop_zero live)"
    and "name = ''GenerationNotMatch'' \<Longrightarrow>
      json_generation_not_match args pre blob live c = Inr True \<longleftrightarrow> \<not> held m (drop_zero live)"
  using assms by (auto simp: precondition_defs with_int_True held_def drop_zero_def meta_or_0_def
      Let_def split: option.splits)

lemma json_arg_bad_int:
  assumes "map_of args name = Some v" and "py_int v = None"
  shows "with_int args name k = Inl (Exc ValueError)"
  using assms by (simp add: with_int_def)

lemma ball_select:
  "(\<forall>p \<in> set (select args table). P p) \<longleftrightarrow>
     (\<forall>(name, p) \<in> set table. \<forall>v. map_of args name = Some v \<longrightarrow> P p)"
  by (auto simp: set_select) blast+

lemma grpc_preconditions_iff:
  "check_preconditions (make_grpc_preconditions fields pre) blob live c = Inr True \<longleftrightarrow>
     (\<forall>m. map_of fields (pre @ ''metageneration_match'') = Some m \<longrightarrow> held m blob)
   \<and> (\<forall>m. map_of fields (pre @ ''metageneration_not_match'') = Some m \<longrightarrow> \<not> held m blob)
   \<and> (\<forall>m. map_of fields (pre @ ''generation_match'') = Some m \<longrightarrow> held m live)
   \<and> (\<forall>m. map_of fields (pre @ ''generation_not_match'') = Some m \<longrightarrow> \<not> held m live)"
  unfolding check_preconditions_all make_grpc_preconditions_def ball_select
  by (cases "map_of fields (pre @ ''metageneration_match'')";
      cases "map_of fields (pre @ ''metageneration_not_match'')";
      cases "map_of fields (pre @ ''generation_match'')";
      cases "map_of fields (pre @ ''generation_not_match'')") (simp_all add: grpc_field_iff)

lemma with_int_parsed:
  "map_of args name = Some v \<Longrightarrow> py_int v = Some m \<Longrightarrow> with_int args name k = k v m"
  by (simp add: with_int_def)

lemma json_bad_arg:
  assumes "map_of args (pre @ name) = Some v" and "py_int v = None"
  shows "name = ''MetagenerationMatch'' \<Longrightarrow>
      json_metageneration_match args pre blob live c = Inl (Exc ValueError)"
    and "name = ''MetagenerationNotMatch'' \<Longrightarrow>
      json_metageneration_not_match args pre blob live c = Inl (Exc ValueError)"
    and "name = ''GenerationMatch'' \<Longrightarrow>
      json_generation_match args pre blob live c = Inl (Exc ValueError)"
    and "name = ''GenerationNotMatch'' \<Longrightarrow>
      json_generation_not_match args pre blob live c = Inl (Exc ValueError)"
  using assms by (auto simp: precondition_defs json_arg_bad_int)

text \<open>An argument of a JSON request passes when it is a number and the check holds.\<close>

definition arg_ok :: "string option \<Rightarrow> (int \<Rightarrow> bool) \<Rightarrow> bool" where
  "arg_ok arg P = (case arg of None \<Rightarrow> True
     | Some v \<Rightarrow> (case py_int v of None \<Rightarrow> False | Some m \<Rightarrow> P m))"

lemma arg_ok_simps [simp]:
  "arg_ok None P"
  "py_int v = None \<Longrightarrow> \<not> arg_ok (Some v) P"
  "py_int v = Some m \<Longrightarrow> arg_ok (Some v) P = P m"
  by (simp_all add: arg_ok_def)

lemma json_arg_ok:
  "((\<exists>v. map_of args (pre @ ''MetagenerationMatch'') = Some v) \<longrightarrow>
      json_metageneration_match args pre blob live c = Inr True) \<longleftrightarrow>
   arg_ok (map_of args (pre @ ''MetagenerationMatch'')) (\<lambda>m. held m blob)"
  "((\<exists>v. map_of args (pre @ ''MetagenerationNotMatch'') = Some v) \<longrightarrow>
      json_metageneration_not_match args pre blob live c = Inr True) \<longleftrightarrow>
   arg_ok (map_of args (pre @ ''MetagenerationNotMatch'')) (\<lambda>m. \<not> held m blob)"
  "((\<exists>v. map_of args (pre @ ''GenerationMatch'') = Some v) \<longrightarrow>
      json_generation_match args pre blob live c = Inr True) \<longleftrightarrow>
   arg_ok (map_of args (pre @ ''GenerationMatch'')) (\<lambda>m. held m (drop_zero live))"
  "((\<exists>v. map_of args (pre @ ''GenerationNotMatch'') = Some v) \<longrightarrow>
      json_generation_not_match args pre blob live c = Inr True) \<longleftrightarrow>
   arg_ok (map_of args (pre @ ''GenerationNotMatch'')) (\<lambda>m. \<not> held m (drop_zero live))"
  by (auto simp: arg_ok_def json_arg_iff json_bad_arg split: option.splits)

lemma json_preconditions_iff:
  "check_preconditions (make_json_preconditions args pre) blob live c = Inr True \<longleftrightarrow>
     arg_ok (map_of args (pre @ ''MetagenerationMatch'')) (\<lambda>m. held m blob)
   \<and> arg_ok (map_of args (pre @ ''MetagenerationNotMatch'')) (\<lambda>m. \<not> held m blob)
   \<and> arg_ok (map_of args (pre @ ''GenerationMatch'')) (\<lambda>m. held m (drop_zero live))
   \<and> arg_ok (map_of args (pre @ ''GenerationNotMatch'')) (\<lambda>m. \<not> held m (drop_zero live))"
  unfolding check_preconditions_all make_json_preconditions_def ball_select
  by (simp add: json_arg_ok)

text \<open>The JSON arguments and the gRPC fields that say the same.\<close>

definition same_request :: "(string \<times> string) list \<Rightarrow> string \<Rightarrow> (string \<times> int) list \<Rightarrow> string \<Rightarrow> bool"
  where
  "same_request args jpre fields gpre \<longleftrightarrow>
     map_of args (jpre @ ''MetagenerationMatch'')
       = map_option show_int (map_of fields (gpre @ ''metageneration_match''))
   \<and> map_of args (jpre @ ''MetagenerationNotMatch'')
       = map_option show_int (map_of fields (gpre @ ''metageneration_not_match''))
   \<and> map_of args (jpre @ ''GenerationMatch'')
       = map_option show_int (map_of fields (gpre @ ''generation_match''))
   \<and> map_of args (jpre @ ''GenerationNotMatch'')
       = map_option show_int (map_of fields (gpre @ ''generation_not_match''))"

lemma arg_ok_show_int: "arg_ok (map_option show_int v) P \<longleftrightarrow> (\<forall>m. v = Some m \<longrightarrow> P m)"
  by (cases v) (simp_all add: arg_ok_def py_int_show_int)

lemma json_grpc_preconditions_agree:
  assumes "same_request args jpre fields gpre" and "live \<noteq> Some 0"
  shows "check_preconditions (make_json_preconditions args jpre) blob live c = Inr True \<longleftrightarrow>
         check_preconditions (make_grpc_preconditions fields gpre) blob live d = Inr True"
  using assms unfolding same_request_def
  by (simp add: json_preconditions_iff grpc_preconditions_iff arg_ok_show_int drop_zero_def)

text \<open>How the answers to a JSON request and to a gRPC request go together.\<close>

definition answers_agree :: "bool \<Rightarrow> err + bool \<Rightarrow> err + bool \<Rightarrow> bool" where
  "answers_agree absent r g \<longleftrightarrow> (case (r, g) of
      (Inr ok, Inr ok') \<Rightarrow> ok \<and> ok'
    | (Inl e, Inl e') \<Rightarrow>
        (case grpc_status_of e' of
           Some FAILED_PRECONDITION \<Rightarrow>
             if absent then e = Exc AttributeError else rest_status_of e = Some (Code 412)
         | Some ABORTED \<Rightarrow> rest_status_of e = Some (Code 304)
         | _ \<Rightarrow> False)
    | _ \<Rightarrow> False)"

lemma notchanged_grpc_status: "grpc_status_of (notchanged m (Grpc md)) = Some ABORTED"
  by (simp add: error_defs)

lemma answers_agree_simps [simp]:
  "answers_agree absent (Inr True) (Inr True)"
  "answers_agree False (Inl (mismatch a b c Rest)) (Inl (mismatch d e f (Grpc md)))"
  "answers_agree absent (Inl (notchanged a Rest)) (Inl (notchanged b (Grpc md)))"
  "answers_agree True (Inl (Exc AttributeError)) (Inl (mismatch d e f (Grpc md)))"
  by (simp_all add: answers_agree_def notchanged_grpc_status)

lemma answers_agree_bindE:
  "answers_agree absent r g \<Longrightarrow> answers_agree absent (f True) (h True) \<Longrightarrow>
     answers_agree absent (bindE r (\<lambda>ok. if ok then f ok else u)) (bindE g (\<lambda>ok. if ok then h ok else v))"
  by (cases r; cases g) (simp_all add: answers_agree_def)

lemma check_answers_agree:
  "list_all2 (\<lambda>p q. answers_agree absent (p blob live Rest) (q blob live' (Grpc md))) ps qs \<Longrightarrow>
     answers_agree absent (check_preconditions ps blob live Rest)
       (check_preconditions qs blob live' (Grpc md))"
  by (induction rule: list_all2_induct) (simp_all add: answers_agree_bindE)

lemma select_agree:
  "list_all2 (\<lambda>(n, p) (n', q). (map_of args n = None \<longleftrightarrow> map_of fields n' = None)
      \<and> (map_of args n \<noteq> None \<longrightarrow> R p q)) ps qs \<Longrightarrow>
     list_all2 R (select args ps) (select fields qs)"
  by (induction rule: list_all2_induct) (auto simp: select_def)

lemma single_checks_agree:
  assumes "map_of args a = Some (show_int m)" and "map_of fields g = Some m"
  shows "a = jpre @ ''MetagenerationMatch'' \<Longrightarrow> g = gpre @ ''metageneration_match'' \<Longrightarrow>
      answers_agree (blob = None \<and> m \<noteq> 0) (json_metageneration_match args jpre blob live Rest)
        (grpc_metageneration_match fields gpre blob live' (Grpc md))"
    and "a = jpre @ ''MetagenerationNotMatch'' \<Longrightarrow> g = gpre @ ''metageneration_not_match'' \<Longrightarrow>
      answers_agree absent (json_metageneration_not_match args jpre blob live Rest)
        (grpc_metageneration_not_match fields gpre blob live' (Grpc md))"
    and "a = jpre @ ''GenerationMatch'' \<Longrightarrow> g = gpre @ ''generation_match'' \<Longrightarrow>
      answers_agree False (json_generation_match args jpre blob live Rest)
        (grpc_generation_match fields gpre blob (drop_zero live) (Grpc md))"
    and "a = jpre @ ''GenerationNotMatch'' \<Longrightarrow> g = gpre @ ''generation_not_match'' \<Longrightarrow>
      answers_agree absent (json_generation_not_match args jpre blob live Rest)
        (grpc_generation_not_match fields gpre blob (drop_zero live) (Grpc md))"
  using assms
  by (auto simp: precondition_defs with_int_parsed py_int_show_int with_field_simp meta_or_0_def
      drop_zero_def Let_def split: option.split)

lemma metageneration_answers_agree:
  assumes "map_of args (jpre @ ''MetagenerationMatch'') = Some (show_int m)"
    and "map_of fields (gpre @ ''metageneration_match'') = Some m" and "m \<noteq> 0"
  shows "answers_agree True (check_preconditions (make_json_preconditions args jpre) None live Rest)
     (check_preconditions (make_grpc_preconditions fields gpre) None live' (Grpc md))"
  using assms
  by (simp add: make_json_preconditions_def make_grpc_preconditions_def select_def bindE_def
      json_metageneration_match_def grpc_metageneration_match_def with_int_parsed py_int_show_int
      with_field_simp meta_or_0_def Let_def)

lemma json_grpc_answers_agree:
  assumes "same_request args jpre fields gpre"
  shows "answers_agree (blob = None \<and> (\<exists>m. map_of fields (gpre @ ''metageneration_match'') = Some m \<and> m \<noteq> 0))
     (check_preconditions (make_json_preconditions args jpre) blob live Rest)
     (check_preconditions (make_grpc_preconditions fields gpre) blob (drop_zero live) (Grpc md))"
    (is "answers_agree ?absent _ _")
proof (cases ?absent)
  case True
  then obtain m where "blob = None" "map_of fields (gpre @ ''metageneration_match'') = Some m" "m \<noteq> 0"
    by blast
  with assms True show ?thesis
    by (auto simp: same_request_def intro!: metageneration_answers_agree)
next
  case False
  let ?R = "\<lambda>p q. answers_agree False (p blob live Rest) (q blob (drop_zero live) (Grpc md))"
  have first: "answers_agree False (json_metageneration_match args jpre blob live Rest)
      (grpc_metageneration_match fields gpre blob (drop_zero live) (Grpc md))"
    if m: "map_of fields (gpre @ ''metageneration_match'') = Some m" for m
  proof -
    have "answers_agree (blob = None \<and> m \<noteq> 0) (json_metageneration_match args jpre blob live Rest)
        (grpc_metageneration_match fields gpre blob (drop_zero live) (Grpc md))"
      using assms m by (intro single_checks_agree(1)) (simp_all add: same_request_def)
    moreover have "(blob = None \<and> m \<noteq> 0) = False" using False m by auto
    ultimately show ?thesis by (simp only:)
  qed
  have "list_all2 ?R (make_json_preconditions args jpre) (make_grpc_preconditions fields gpre)"
    unfolding make_json_preconditions_def make_grpc_preconditions_def
    using assms first single_checks_agree
    by (intro select_agree) (auto simp: same_request_def)
  then have "answers_agree False (check_preconditions (make_json_preconditions args jpre) blob live Rest)
     (check_preconditions (make_grpc_preconditions fields gpre) blob (drop_zero live) (Grpc md))"
    by (rule check_answers_agree)
  then show ?thesis using False by (simp only:)
qed

lemma xml_arg_ok:
  "((\<exists>v. map_of headers ''x-goog-if-metageneration-match'' = Some v) \<longrightarrow>
      xml_metageneration_match headers blob live c = Inr True) \<longleftrightarrow>
   arg_ok (map_of headers ''x-goog-if-metageneration-match'') (\<lambda>m. held m blob)"
  "((\<exists>v. map_of headers ''x-goog-if-generation-match'' = Some v) \<longrightarrow>
      xml_generation_match headers blob live c = Inr True) \<longleftrightarrow>
   arg_ok (map_of headers ''x-goog-if-generation-match'') (\<lambda>m. held m live)"
  by (auto simp: arg_ok_def precondition_defs with_int_def held_def meta_or_0_def Let_def
      split: option.splits if_splits)

lemma xml_preconditions_iff:
  "check_preconditions (make_xml_preconditions headers) blob live c = Inr True \<longleftrightarrow>
     arg_ok (map_of headers ''x-goog-if-metageneration-match'') (\<lambda>m. held m blob)
   \<and> arg_ok (map_of headers ''x-goog-if-generation-match'') (\<lambda>m. held m live)"
  unfolding check_preconditions_all make_xml_preconditions_def ball_select
  by (simp add: xml_arg_ok)

lemma bucket_arg_ok:
  "((\<exists>v. map_of args ''ifMetagenerationMatch'' = Some v) \<longrightarrow>
      json_bucket_metageneration_match args bucket c = Inr True) \<longleftrightarrow>
   arg_ok (map_of args ''ifMetagenerationMatch'') (\<lambda>m. held m bucket)"
  "((\<exists>v. map_of args ''ifMetagenerationNotMatch'' = Some v) \<longrightarrow>
      json_bucket_metageneration_not_match args bucket c = Inr True) \<longleftrightarrow>
   arg_ok (map_of args ''ifMetagenerationNotMatch'') (\<lambda>m. \<not> held m bucket)"
  by (auto simp: arg_ok_def precondition_defs with_int_def held_def meta_or_0_def Let_def
      split: option.splits if_splits)

lemma bucket_field_iff:
  "map_of fields ''if_metageneration_match'' = Some m \<Longrightarrow>
     grpc_bucket_metageneration_match fields bucket c = Inr True \<longleftrightarrow> held m bucket"
  "map_of fields ''if_metageneration_not_match'' = Some m \<Longrightarrow>
     grpc_bucket_metageneration_not_match fields bucket c = Inr True \<longleftrightarrow> \<not> held m bucket"
  by (auto simp: precondition_defs with_field_simp held_def meta_or_0_def Let_def
      split: option.splits)

lemma json_bucket_preconditions_iff:
  "check_bucket_preconditions (make_json_bucket_preconditions args) bucket c = Inr True \<longleftrightarrow>
     arg_ok (map_of args ''ifMetagenerationMatch'') (\<lambda>m. held m bucket)
   \<and> arg_ok (map_of args ''ifMetagenerationNotMatch'') (\<lambda>m. \<not> held m bucket)"
  unfolding check_bucket_preconditions_all make_json_bucket_preconditions_def ball_select
  by (simp add: bucket_arg_ok)

lemma grpc_bucket_preconditions_iff:
  "check_bucket_preconditions (make_grpc_bucket_preconditions fields) bucket c = Inr True \<longleftrightarrow>
     (\<forall>m. map_of fields ''if_metageneration_match'' = Some m \<longrightarrow> held m bucket)
   \<and> (\<forall>m. map_of fields ''if_metageneration_not_match'' = Some m \<longrightarrow> \<not> held m bucket)"
  unfolding check_bucket_preconditions_all make_grpc_bucket_preconditions_def ball_select
  by (cases "map_of fields ''if_metageneration_match''";
      cases "map_of fields ''if_metageneration_not_match''") (simp_all add: bucket_field_iff)

section \<open>How a check fails\<close>

text \<open>gRPC checks fail with \<open>FAILED_PRECONDITION\<close> or \<open>ABORTED\<close> and in no other way.\<close>

lemma grpc_precondition_error:
  assumes "p \<in> set (make_grpc_preconditions fields pre)" and "p blob live (Grpc md) = Inl e"
  shows "grpc_status_of e \<in> {Some FAILED_PRECONDITION, Some ABORTED}"
  using assms by (auto simp: make_grpc_preconditions_def set_select precondition_defs
      with_field_simp error_defs Let_def split: if_splits)

lemma grpc_check_error:
  "check_preconditions ps blob live (Grpc md) = Inl e \<Longrightarrow>
     set ps \<subseteq> set (make_grpc_preconditions fields pre) \<Longrightarrow>
     grpc_status_of e \<in> {Some FAILED_PRECONDITION, Some ABORTED}"
  by (induction ps) (auto simp: bindE_eq_Inl dest: grpc_precondition_error split: if_splits)

text \<open>A precondition of the builders never answers \<open>False\<close>, so the look-up finds an object
  or raises.\<close>

definition decisive :: "precondition list \<Rightarrow> bool" where
  "decisive ps \<longleftrightarrow> (\<forall>p \<in> set ps. \<forall>blob live c. p blob live c \<noteq> Inr False)"

lemma check_decisive: "decisive ps \<Longrightarrow> check_preconditions ps blob live c \<noteq> Inr False"
  by (induction ps) (auto simp: decisive_def bindE_eq_Inr split: if_splits)

lemma decisive_Nil [simp]: "decisive []"
  by (simp add: decisive_def)

lemma decisive_grpc: "decisive (make_grpc_preconditions fields pre)"
  by (auto simp: decisive_def make_grpc_preconditions_def set_select precondition_defs
      with_int_def with_field_def Let_def split: if_splits option.splits)

lemma decisive_json: "decisive (make_json_preconditions args pre)"
  by (auto simp: decisive_def make_json_preconditions_def set_select precondition_defs
      with_int_def with_field_def Let_def split: if_splits option.splits)

lemma decisive_xml: "decisive (make_xml_preconditions headers)"
  by (auto simp: decisive_def make_xml_preconditions_def set_select precondition_defs
      with_int_def with_field_def Let_def split: if_splits option.splits)

section \<open>Properties\<close>

text \<open>The preconditions of a gRPC request pass exactly when every field that is present holds:
  0 asks that there be no current value, any other number that it be the current one, and the
  negated fields ask for the opposite.\<close>

theorem grpc_preconditions_meaning:
  "check_preconditions (make_grpc_preconditions fields pre) blob live c = Inr True \<longleftrightarrow>
     (\<forall>m. map_of fields (pre @ ''metageneration_match'') = Some m \<longrightarrow> held m blob)
   \<and> (\<forall>m. map_of fields (pre @ ''metageneration_not_match'') = Some m \<longrightarrow> \<not> held m blob)
   \<and> (\<forall>m. map_of fields (pre @ ''generation_match'') = Some m \<longrightarrow> held m live)
   \<and> (\<forall>m. map_of fields (pre @ ''generation_not_match'') = Some m \<longrightarrow> \<not> held m live)"
  by (rule grpc_preconditions_iff)

theorem grpc_preconditions_meaning_witness:
  "check_preconditions (make_grpc_preconditions [(''if_generation_match'', 7)] ''if_'')
     (Some 1) (Some 7) (Grpc []) = Inr True"
  by (subst grpc_preconditions_meaning) (simp add: held_def)

text \<open>C29: A JSON request and a gRPC request with the same preconditions are answered alike,
  whatever the state of the object.  They are accepted together; when the JSON request is refused,
  with 412 or 304, the gRPC request is refused with FAILED_PRECONDITION or ABORTED, by the check of
  the same field.  Two things differ: JSON takes a live generation 0 for no live generation, and
  ifMetagenerationMatch with a number other than 0 for an object that does not exist raises an
  AttributeError, where gRPC answers FAILED_PRECONDITION.\<close>

theorem json_and_grpc_agree:
  assumes "same_request args jpre fields gpre"
  shows "case (check_preconditions (make_json_preconditions args jpre) blob live Rest,
               check_preconditions (make_grpc_preconditions fields gpre) blob (drop_zero live) (Grpc md)) of
      (Inr ok, Inr ok') \<Rightarrow> ok \<and> ok'
    | (Inl e, Inl e') \<Rightarrow>
        (case grpc_status_of e' of
           Some FAILED_PRECONDITION \<Rightarrow>
             if blob = None \<and> (\<exists>m. map_of fields (gpre @ ''metageneration_match'') = Some m \<and> m \<noteq> 0)
             then e = Exc AttributeError else rest_status_of e = Some (Code 412)
         | Some ABORTED \<Rightarrow> rest_status_of e = Some (Code 304)
         | _ \<Rightarrow> False)
    | _ \<Rightarrow> False"
  using json_grpc_answers_agree [OF assms, of blob live md] by (simp only: answers_agree_def)

theorem json_and_grpc_agree_witness:
  "\<exists>e e'. check_preconditions (make_json_preconditions [(''ifGenerationMatch'', ''7'')] ''if'')
      (Some 1) (Some 8) Rest = Inl e \<and> rest_status_of e = Some (Code 412)
   \<and> check_preconditions (make_grpc_preconditions [(''if_generation_match'', 7)] ''if_'')
      (Some 1) (Some 8) (Grpc []) = Inl e' \<and> grpc_status_of e' = Some FAILED_PRECONDITION"
proof -
  have same: "same_request [(''ifGenerationMatch'', ''7'')] ''if'' [(''if_generation_match'', 7)] ''if_''"
    by code_simp
  have "check_preconditions (make_grpc_preconditions [(''if_generation_match'', 7)] ''if_'')
      (Some 1) (Some 8) (Grpc []) = Inl (mismatch ''if_generation_match'' ''7'' ''8'' (Grpc []))"
    by code_simp
  then show ?thesis
    using json_and_grpc_agree [OF same, of "Some 1" "Some 8" "[]"]
    by (auto simp: drop_zero_def split: sum.splits)
qed

text \<open>A gRPC request whose preconditions fail is answered with FAILED_PRECONDITION or ABORTED
  and with no other status.\<close>

theorem grpc_precondition_status:
  assumes "check_preconditions (make_grpc_preconditions fields pre) blob live (Grpc md) = Inl e"
  shows "grpc_status_of e \<in> {Some FAILED_PRECONDITION, Some ABORTED}"
  using assms grpc_check_error by blast

theorem grpc_precondition_status_witness:
  "grpc_status_of (mismatch ''if_generation_match'' ''7'' ''None'' (Grpc []))
     \<in> {Some FAILED_PRECONDITION, Some ABORTED}"
proof -
  have "check_preconditions (make_grpc_preconditions [(''if_generation_match'', 7)] ''if_'')
      None None (Grpc []) = Inl (mismatch ''if_generation_match'' ''7'' ''None'' (Grpc []))"
    by code_simp
  then show ?thesis by (rule grpc_precondition_status)
qed

text \<open>A JSON request with ifMetagenerationMatch and a number other than 0, for an object that
  does not exist, is not answered with 412: the construction of the error reads the
  metageneration of the absent object, and the AttributeError becomes a 500.\<close>

theorem json_metageneration_match_of_absent:
  assumes "map_of args (pre @ ''MetagenerationMatch'') = Some v" and "py_int v = Some m"
    and "m \<noteq> 0"
  shows "json_metageneration_match args pre None live c = Inl (Exc AttributeError)"
  using assms by (simp add: json_metageneration_match_def with_int_parsed meta_or_0_def Let_def)

theorem json_metageneration_match_of_absent_witness:
  "json_metageneration_match [(''ifMetagenerationMatch'', ''3'')] ''if'' None None Rest
     = Inl (Exc AttributeError)"
proof -
  have "py_int ''3'' = Some 3" by code_simp
  then show ?thesis
    by (intro json_metageneration_match_of_absent [of _ _ "''3''" 3]) simp_all
qed

end
