(* ===== verification/Retry_Tests.thy ===== *)
theory Retry_Tests
  imports Requests
begin

text \<open>
  The retry-test API: the fault injections that a client of the testbench schedules.

  The first part is the state of \<open>src/testbench/database.py\<close>, lines 773 to 941: every
  retry test holds a queue of instructions per method.  The second part is
  \<open>src/testbench/common.py\<close>, lines 40 to 64 and 707 to 1144: the grammar of the instructions
  and what the REST and the gRPC servers do with the next one.  Socket operations and
  \<open>time.sleep\<close> are not modelled: what is modelled is what the client receives, what is
  persisted, and when an instruction is consumed.
\<close>

section \<open>The grammar of the instructions\<close>

definition retry_return_error_code :: regex where
  "retry_return_error_code = lit_run ''return-'' is_digit"

definition retry_return_error_connection :: regex where
  "retry_return_error_connection = lit_run ''return-'' az_dash"

definition retry_return_error_after_bytes :: regex where
  "retry_return_error_after_bytes =
     seqs [lit ''return-'', Grp digits, lit ''-after-'', Grp digits, lit ''K'', Eos]"

definition retry_return_short_response :: regex where
  "retry_return_short_response =
     seqs [lit ''return-broken-stream-final-chunk-after-'', Grp digits, lit ''B'', Eos]"

definition retry_return_broken_stream_after_bytes :: regex where
  "retry_return_broken_stream_after_bytes =
     seqs [lit ''return-broken-stream-after-'', Grp digits, lit ''K'', Eos]"

definition retry_stall_after_bytes :: regex where
  "retry_stall_after_bytes =
     seqs [lit ''stall-for-'', Grp digits, lit ''s-after-'', Grp digits, lit ''K'', Eos]"

definition retry_return_redirection_token :: regex where
  "retry_return_redirection_token = lit_run ''redirect-send-token-'' az_dash"

definition retry_return_handle_and_redirection_token :: regex where
  "retry_return_handle_and_redirection_token =
     lit_run ''redirect-send-handle-and-token-'' az_dash"

definition retry_expect_redirection_token :: regex where
  "retry_expect_redirection_token = lit_run ''redirect-expect-token-'' az_dash"

definition retry_return_error_if_dp_enforced :: regex where
  "retry_return_error_if_dp_enforced =
     seqs [lit ''return-'', Grp digits, lit ''-if-dp-enforced'', Eos]"

text \<open>In the class \<open>[a-zA-Z0-9,-_]\<close> the last three characters are the range from the comma
  to the underscore.\<close>

definition unreachable_char :: "char \<Rightarrow> bool" where
  "unreachable_char c \<longleftrightarrow> is_lower_az c \<or> (44 \<le> py_ord c \<and> py_ord c \<le> 95)"

definition retry_return_unreachable_buckets :: regex where
  "retry_return_unreachable_buckets = lit_run ''return-unreachable-buckets-'' unreachable_char"

definition instruction_forms :: "regex list" where
  "instruction_forms = [retry_return_error_code, retry_return_error_connection,
     retry_return_error_after_bytes, retry_return_short_response,
     retry_return_broken_stream_after_bytes, retry_stall_after_bytes,
     retry_return_redirection_token, retry_return_handle_and_redirection_token,
     retry_expect_redirection_token, retry_return_unreachable_buckets,
     retry_return_error_if_dp_enforced]"

section \<open>The retry tests of the database\<close>

record retry_test =
  rt_id :: string
  instructions :: "(string \<times> string list) list"
  completed :: bool
  transport :: string

record retry_db =
  retry_tests :: "(string \<times> retry_test) list"
  supported_methods :: "string list"

type_synonym 'a retryM = "(err, retry_db, 'a) pym"

definition insert_supported_methods :: "string list \<Rightarrow> unit retryM" where
  "insert_supported_methods methods =
     modS (\<lambda>db. db\<lparr>supported_methods := supported_methods db @ methods\<rparr>)"

definition to_serializeable_retry_test :: "retry_test \<Rightarrow> retry_test" where
  "to_serializeable_retry_test rt = rt\<lparr>transport := py_upper (transport rt)\<rparr>"

definition get_retry_test :: "string \<Rightarrow> retry_test retryM" where
  "get_retry_test i = bindM (getS (\<lambda>db. map_of (retry_tests db) i)) (\<lambda>found. case found of
     None \<Rightarrow> raise (notfound (''Retry Test '' @ i) Rest)
   | Some rt \<Rightarrow> ret (to_serializeable_retry_test rt))"

definition validate_injected_failure_description :: "string \<Rightarrow> err + unit" where
  "validate_injected_failure_description failure =
     (if \<exists>expr \<in> set instruction_forms. re_match expr failure \<noteq> None then Inr ()
      else Inl (invalid (''The fault injection request <'' @ failure @ ''>'') Rest))"

definition not_supported_grpc_w_retry :: "string list" where
  "not_supported_grpc_w_retry =
    [''storage.bucket_acl.get'', ''storage.bucket_acl.list'', ''storage.bucket_acl.delete'',
     ''storage.bucket_acl.insert'', ''storage.bucket_acl.patch'', ''storage.bucket_acl.update'',
     ''storage.default_object_acl.get'', ''storage.default_object_acl.list'',
     ''storage.default_object_acl.delete'', ''storage.default_object_acl.insert'',
     ''storage.default_object_acl.patch'', ''storage.default_object_acl.update'',
     ''storage.hmacKey.create'', ''storage.hmacKey.delete'', ''storage.hmacKey.get'',
     ''storage.hmacKey.list'', ''storage.hmacKey.update'',
     ''storage.object_acl.get'', ''storage.object_acl.list'', ''storage.object_acl.delete'',
     ''storage.object_acl.insert'', ''storage.object_acl.patch'', ''storage.object_acl.update'',
     ''storage.notifications.delete'', ''storage.notifications.get'',
     ''storage.notifications.insert'', ''storage.notifications.list'',
     ''storage.serviceaccount.get'']"

definition validate_grpc_method_implemented_retry :: "string \<Rightarrow> err + unit" where
  "validate_grpc_method_implemented_retry m =
     (if m \<in> set not_supported_grpc_w_retry
      then Inl (unimplemented (''Retry Test API not supported for the requested method <''
                  @ m @ ''> in GRPC'') Rest)
      else Inr ())"

fun all_ok :: "('a \<Rightarrow> err + unit) \<Rightarrow> 'a list \<Rightarrow> err + unit" where
  "all_ok f [] = Inr ()"
| "all_ok f (x # xs) = bindE (f x) (\<lambda>_. all_ok f xs)"

definition validate_instructions ::
    "string list \<Rightarrow> (string \<times> string list) list \<Rightarrow> string \<Rightarrow> err + unit" where
  "validate_instructions supported instrs tr = all_ok (\<lambda>(m, failures).
     if m \<notin> set supported
     then Inl (invalid (''The requested method <'' @ m @ ''> for fault injection'') Rest)
     else bindE (if py_upper tr = ''GRPC'' then validate_grpc_method_implemented_retry m
                 else Inr ())
       (\<lambda>_. all_ok validate_injected_failure_description failures)) instrs"

definition validate_transport :: "string \<Rightarrow> err + unit" where
  "validate_transport tr =
     (if py_upper tr \<notin> {''HTTP'', ''GRPC''}
      then Inl (invalid (''The requested transport <'' @ tr
                  @ ''> is not supported in the testbench'') Rest)
      else Inr ())"

text \<open>\<open>uuid.uuid4().hex\<close> is the argument \<open>fresh\<close>.\<close>

definition insert_retry_test ::
    "string \<Rightarrow> (string \<times> string list) list \<Rightarrow> string \<Rightarrow> retry_test retryM" where
  "insert_retry_test fresh instrs tr =
     seqM (liftE (validate_transport tr))
     (bindM (getS supported_methods) (\<lambda>supported.
      seqM (liftE (validate_instructions supported instrs tr))
      (let rt = \<lparr>rt_id = fresh, instructions = instrs, completed = False,
                 transport = py_upper tr\<rparr>
       in seqM (modS (\<lambda>db. db\<lparr>retry_tests := AList.update fresh rt (retry_tests db)\<rparr>))
          (ret (to_serializeable_retry_test rt)))))"

definition queue_of :: "retry_test \<Rightarrow> string \<Rightarrow> string list" where
  "queue_of rt m = (case map_of (instructions rt) m of None \<Rightarrow> [] | Some q \<Rightarrow> q)"

definition has_instructions_retry_test :: "string \<Rightarrow> string \<Rightarrow> string \<Rightarrow> bool retryM" where
  "has_instructions_retry_test i m tr = bindM (get_retry_test i) (\<lambda>rt.
     ret (0 < length (queue_of rt m) \<and> py_upper (transport rt) = py_upper tr))"

definition peek_next_instruction :: "string \<Rightarrow> string \<Rightarrow> string option retryM" where
  "peek_next_instruction i m = bindM (get_retry_test i) (\<lambda>rt.
     ret (case queue_of rt m of [] \<Rightarrow> None | x # _ \<Rightarrow> Some x))"

definition instructions_left :: "(string \<times> string list) list \<Rightarrow> nat" where
  "instructions_left instrs = sum_list (map (\<lambda>(_, q). length q) instrs)"

definition dequeue_next_instruction :: "string \<Rightarrow> string \<Rightarrow> string option retryM" where
  "dequeue_next_instruction i m = bindM (get_retry_test i) (\<lambda>rt.
     case queue_of rt m of
       [] \<Rightarrow> ret None
     | x # q \<Rightarrow> seqM (modS (\<lambda>db.
         let instrs = AList.update m q (instructions rt);
             done = completed rt \<or> instructions_left instrs = 0
         in db\<lparr>retry_tests := AList.update i
                 (the (map_of (retry_tests db) i)\<lparr>instructions := instrs, completed := done\<rparr>)
                 (retry_tests db)\<rparr>))
         (ret (Some x)))"

definition list_retry_tests :: "retry_test list retryM" where
  "list_retry_tests = getS (\<lambda>db. map (\<lambda>(_, rt). to_serializeable_retry_test rt) (retry_tests db))"

definition delete_retry_test :: "string \<Rightarrow> unit retryM" where
  "delete_retry_test i = seqM (get_retry_test i)
     (modS (\<lambda>db. db\<lparr>retry_tests := AList.delete i (retry_tests db)\<rparr>))"

section \<open>Queues\<close>

text \<open>The queue of a method, seen from outside: what the servers rely on.\<close>

definition queue :: "retry_db \<Rightarrow> string \<Rightarrow> string \<Rightarrow> string list" where
  "queue db i m = (case map_of (retry_tests db) i of None \<Rightarrow> [] | Some rt \<Rightarrow> queue_of rt m)"

definition known :: "retry_db \<Rightarrow> string \<Rightarrow> bool" where
  "known db i \<longleftrightarrow> map_of (retry_tests db) i \<noteq> None"

definition peek_list :: "'a list \<Rightarrow> 'a option" where
  "peek_list q = (case q of [] \<Rightarrow> None | x # _ \<Rightarrow> Some x)"

lemma peek_list_simps [simp]: "peek_list [] = None" "peek_list (x # q) = Some x"
  by (simp_all add: peek_list_def)

fun repeatM :: "nat \<Rightarrow> ('e, 's, 'a) pym \<Rightarrow> ('e, 's, 'a list) pym" where
  "repeatM 0 step = ret []"
| "repeatM (Suc n) step = bindM step (\<lambda>x. bindM (repeatM n step) (\<lambda>xs. ret (x # xs)))"

locale instruction_queues =
  fixes peek :: "string \<Rightarrow> string \<Rightarrow> ('e, 's, string option) pym"
    and deq :: "string \<Rightarrow> string \<Rightarrow> ('e, 's, string option) pym"
    and q :: "'s \<Rightarrow> string \<Rightarrow> string \<Rightarrow> string list"
    and isknown :: "'s \<Rightarrow> string \<Rightarrow> bool"
  assumes peek_spec: "isknown s i \<Longrightarrow> peek i m s = (Inr (peek_list (q s i m)), s)"
    and deq_result: "isknown s i \<Longrightarrow> fst (deq i m s) = Inr (peek_list (q s i m))"
    and deq_queue: "isknown s i \<Longrightarrow>
          q (snd (deq i m s)) j n = (if j = i \<and> n = m then tl (q s i m) else q s j n)"
    and deq_known: "isknown s i \<Longrightarrow> isknown (snd (deq i m s)) j = isknown s j"
begin

lemma peek_then_deq: "isknown s i \<Longrightarrow> fst (deq i m (snd (peek i m s))) = fst (peek i m s)"
  by (simp add: peek_spec deq_result)

lemma deq_app: "isknown s i \<Longrightarrow> deq i m s = (Inr (peek_list (q s i m)), snd (deq i m s))"
  by (metis deq_result prod.collapse)

lemma drain:
  "isknown s i \<Longrightarrow> \<exists>s'. repeatM k (deq i m) s =
       (Inr (map Some (take k (q s i m)) @ replicate (k - length (q s i m)) None), s')
     \<and> (\<forall>j n. q s' j n = (if j = i \<and> n = m then drop k (q s i m) else q s j n))
     \<and> (\<forall>j. isknown s' j = isknown s j)"
proof (induction k arbitrary: s)
  case (Suc k)
  obtain t where t: "deq i m s = (Inr (peek_list (q s i m)), t)"
    using deq_app [OF Suc.prems] by blast
  have q: "q t j n = (if j = i \<and> n = m then tl (q s i m) else q s j n)"
    and known: "isknown t j = isknown s j" for j n
    using deq_queue [OF Suc.prems, of m j n] deq_known [OF Suc.prems, of m j] t by simp_all
  obtain s' where s': "repeatM k (deq i m) t =
         (Inr (map Some (take k (q t i m)) @ replicate (k - length (q t i m)) None), s')"
       "\<forall>j n. q s' j n = (if j = i \<and> n = m then drop k (q t i m) else q t j n)"
       "\<forall>j. isknown s' j = isknown t j"
    using Suc.IH [of t] Suc.prems known by blast
  have "repeatM (Suc k) (deq i m) s = (Inr (peek_list (q s i m)
          # map Some (take k (tl (q s i m))) @ replicate (k - length (tl (q s i m))) None), s')"
    using s'(1) by (simp add: bindM_def t q)
  moreover have "peek_list (q s i m) # map Some (take k (tl (q s i m)))
        @ replicate (k - length (tl (q s i m))) None
      = map Some (take (Suc k) (q s i m)) @ replicate (Suc k - length (q s i m)) None"
    by (cases "q s i m") (simp_all add: replicate_append_same [symmetric])
  ultimately show ?case
    using s'(2,3) by (auto simp: q known drop_Suc)
qed auto

end

section \<open>The database implements queues\<close>

lemma to_ser_simps [simp]:
  "instructions (to_serializeable_retry_test rt) = instructions rt"
  "completed (to_serializeable_retry_test rt) = completed rt"
  "rt_id (to_serializeable_retry_test rt) = rt_id rt"
  "queue_of (to_serializeable_retry_test rt) m = queue_of rt m"
  by (simp_all add: to_serializeable_retry_test_def queue_of_def)

lemma get_retry_test_known:
  "map_of (retry_tests db) i = Some rt \<Longrightarrow>
     get_retry_test i db = (Inr (to_serializeable_retry_test rt), db)"
  by (simp add: get_retry_test_def)

lemma get_retry_test_unknown:
  "map_of (retry_tests db) i = None \<Longrightarrow>
     get_retry_test i db = (Inl (notfound (''Retry Test '' @ i) Rest), db)"
  by (simp add: get_retry_test_def)

text \<open>The retry test that is left after the first instruction of a method is taken.\<close>

definition popped :: "string \<Rightarrow> string list \<Rightarrow> retry_test \<Rightarrow> retry_test" where
  "popped m rest rt =
     (let instrs = AList.update m rest (instructions rt)
      in rt\<lparr>instructions := instrs, completed := completed rt \<or> instructions_left instrs = 0\<rparr>)"

lemma peek_known:
  "map_of (retry_tests db) i = Some rt \<Longrightarrow>
     peek_next_instruction i m db = (Inr (peek_list (queue_of rt m)), db)"
  by (simp add: peek_next_instruction_def bindM_result(1) [OF get_retry_test_known]
      peek_list_def)

lemma dequeue_known:
  assumes "map_of (retry_tests db) i = Some rt"
  shows "dequeue_next_instruction i m db = (case queue_of rt m of
     [] \<Rightarrow> (Inr None, db)
   | x # rest \<Rightarrow> (Inr (Some x),
       db\<lparr>retry_tests := AList.update i (popped m rest rt) (retry_tests db)\<rparr>))"
  using assms
  by (simp add: dequeue_next_instruction_def bindM_result(1) [OF get_retry_test_known]
      popped_def Let_def split: list.splits)

lemma queue_of_popped: "queue_of (popped m rest rt) n = (if n = m then rest else queue_of rt n)"
  by (simp add: queue_of_def popped_def Let_def update_conv')

interpretation rq: instruction_queues peek_next_instruction dequeue_next_instruction queue known
proof
  fix s :: retry_db and i m j n
  assume "known s i"
  then obtain rt where rt: "map_of (retry_tests s) i = Some rt"
    by (auto simp: known_def)
  show "peek_next_instruction i m s = (Inr (peek_list (queue s i m)), s)"
    using rt by (simp add: peek_known queue_def)
  show "fst (dequeue_next_instruction i m s) = Inr (peek_list (queue s i m))"
    using rt by (simp add: dequeue_known queue_def split: list.splits)
  show "queue (snd (dequeue_next_instruction i m s)) j n
      = (if j = i \<and> n = m then tl (queue s i m) else queue s j n)"
    using rt by (simp add: dequeue_known queue_def update_conv' queue_of_popped
        split: list.splits)
  show "known (snd (dequeue_next_instruction i m s)) j = known s j"
    using rt by (simp add: dequeue_known known_def update_conv' split: list.splits)
qed

section \<open>Well-formed retry tests\<close>

definition valid_instruction :: "string \<Rightarrow> bool" where
  "valid_instruction f \<longleftrightarrow> (\<exists>expr \<in> set instruction_forms. re_match expr f \<noteq> None)"

definition retry_test_wf :: "string list \<Rightarrow> string \<Rightarrow> retry_test \<Rightarrow> bool" where
  "retry_test_wf supported i rt \<longleftrightarrow>
     rt_id rt = i \<and> transport rt \<in> {''HTTP'', ''GRPC''} \<and> distinct (map fst (instructions rt))
   \<and> (completed rt \<longrightarrow> instructions_left (instructions rt) = 0)
   \<and> (\<forall>(m, q) \<in> set (instructions rt).
        m \<in> set supported \<and> (\<forall>f \<in> set q. valid_instruction f)
        \<and> (transport rt = ''GRPC'' \<longrightarrow> m \<notin> set not_supported_grpc_w_retry))"

definition retry_wf :: "retry_db \<Rightarrow> bool" where
  "retry_wf db \<longleftrightarrow> distinct (map fst (retry_tests db))
     \<and> (\<forall>(i, rt) \<in> set (retry_tests db). retry_test_wf (supported_methods db) i rt)"

lemma instructions_left_update:
  "map_of instrs m = Some (x # rest) \<Longrightarrow>
     Suc (instructions_left (AList.update m rest instrs)) = instructions_left instrs"
  by (induction instrs) (auto simp: instructions_left_def split: if_splits)

lemma set_alist_update:
  "distinct (map fst d) \<Longrightarrow>
     set (AList.update k v d) = insert (k, v) {p \<in> set d. fst p \<noteq> k}"
  by (induction d) (auto simp: rev_image_eqI)

lemma popped_wf:
  assumes "retry_test_wf supported i rt" and "queue_of rt m = x # rest"
  shows "retry_test_wf supported i (popped m rest rt)"
proof -
  have m: "map_of (instructions rt) m = Some (x # rest)"
    using assms(2) by (simp add: queue_of_def split: option.splits)
  then have "instructions_left (instructions rt) \<noteq> 0"
    using instructions_left_update [OF m] by simp
  moreover have "(m, x # rest) \<in> set (instructions rt)"
    using m by (rule map_of_SomeD)
  moreover have "distinct (map fst (instructions rt))"
    using assms(1) by (simp add: retry_test_wf_def)
  ultimately show ?thesis
    using assms(1)
    by (auto simp: retry_test_wf_def popped_def Let_def set_alist_update distinct_update)
qed

lemma retry_wf_lookup:
  "retry_wf db \<Longrightarrow> map_of (retry_tests db) i = Some rt \<Longrightarrow>
     retry_test_wf (supported_methods db) i rt"
  by (auto simp: retry_wf_def dest: map_of_SomeD)

lemma retry_wf_update:
  "retry_wf db \<Longrightarrow> retry_test_wf (supported_methods db) i rt \<Longrightarrow>
     retry_wf (db\<lparr>retry_tests := AList.update i rt (retry_tests db)\<rparr>)"
  by (auto simp: retry_wf_def set_alist_update distinct_update)

lemma keeps_get_retry_test: "keeps P (get_retry_test i)"
  by (auto simp: keeps_def get_retry_test_def split: option.splits)

lemma keeps_dequeue: "keeps retry_wf (dequeue_next_instruction i m)"
proof (rule keepsI)
  fix db
  assume wf: "retry_wf db"
  show "retry_wf (snd (dequeue_next_instruction i m db))"
  proof (cases "map_of (retry_tests db) i")
    case None
    then show ?thesis
      using wf by (simp add: dequeue_next_instruction_def
          bindM_result(2) [OF get_retry_test_unknown])
  next
    case (Some rt)
    then show ?thesis
      using wf popped_wf [OF retry_wf_lookup [OF wf Some]]
      by (auto simp: dequeue_known retry_wf_update split: list.splits)
  qed
qed

lemma keeps_peek: "keeps P (peek_next_instruction i m)"
  by (auto simp: peek_next_instruction_def keeps_get_retry_test)

lemma keeps_has: "keeps P (has_instructions_retry_test i m tr)"
  by (auto simp: has_instructions_retry_test_def keeps_get_retry_test)

lemma all_ok_iff: "all_ok f xs = Inr () \<longleftrightarrow> (\<forall>x \<in> set xs. f x = Inr ())"
  by (induction xs) (auto simp: bindE_eq_Inr)

lemma validated_instructions:
  assumes "validate_instructions supported instrs tr = Inr ()" and "(m, q) \<in> set instrs"
  shows "m \<in> set supported" and "\<And>f. f \<in> set q \<Longrightarrow> valid_instruction f"
    and "py_upper tr = ''GRPC'' \<Longrightarrow> m \<notin> set not_supported_grpc_w_retry"
  using assms
  by (auto simp: validate_instructions_def all_ok_iff bindE_eq_Inr valid_instruction_def
      validate_grpc_method_implemented_retry_def validate_injected_failure_description_def
      split: if_splits)

lemma insert_retry_test_result:
  "insert_retry_test fresh instrs tr db =
     (if validate_transport tr = Inr ()
         \<and> validate_instructions (supported_methods db) instrs tr = Inr ()
      then (let rt = \<lparr>rt_id = fresh, instructions = instrs, completed = False,
                      transport = py_upper tr\<rparr>
            in (Inr (to_serializeable_retry_test rt),
                db\<lparr>retry_tests := AList.update fresh rt (retry_tests db)\<rparr>))
      else (Inl (case bindE (validate_transport tr)
                   (\<lambda>_. validate_instructions (supported_methods db) instrs tr) of Inl e \<Rightarrow> e), db))"
  by (cases "validate_transport tr"; cases "validate_instructions (supported_methods db) instrs tr")
    (simp_all add: insert_retry_test_def seqM_def Let_def)

lemma keeps_insert_retry_test:
  assumes "distinct (map fst instrs)"
  shows "keeps retry_wf (insert_retry_test fresh instrs tr)"
proof (rule keepsI)
  fix db
  assume wf: "retry_wf db"
  show "retry_wf (snd (insert_retry_test fresh instrs tr db))"
  proof (cases "validate_transport tr = Inr ()
         \<and> validate_instructions (supported_methods db) instrs tr = Inr ()")
    case True
    then have "py_upper tr \<in> {''HTTP'', ''GRPC''}"
      by (auto simp: validate_transport_def split: if_splits)
    then have "retry_test_wf (supported_methods db) fresh
        \<lparr>rt_id = fresh, instructions = instrs, completed = False, transport = py_upper tr\<rparr>"
      using True validated_instructions [of "supported_methods db" instrs tr] assms
      by (auto simp: retry_test_wf_def)
    with True wf show ?thesis
      by (simp add: insert_retry_test_result Let_def retry_wf_update)
  next
    case False
    then show ?thesis
      using wf by (auto simp: insert_retry_test_result Let_def)
  qed
qed

lemma keeps_delete_retry_test: "keeps retry_wf (delete_retry_test i)"
proof -
  have "retry_wf (db\<lparr>retry_tests := AList.delete i (retry_tests db)\<rparr>)" if "retry_wf db" for db
    using that by (auto simp: retry_wf_def AList.delete_eq distinct_map_filter)
  then show ?thesis
    unfolding delete_retry_test_def by (intro keeps_seqM keeps_get_retry_test keeps_modS)
qed

lemma keeps_insert_supported_methods: "keeps retry_wf (insert_supported_methods ms)"
  unfolding insert_supported_methods_def
  by (intro keeps_modS) (fastforce simp: retry_wf_def retry_test_wf_def)

end
