(* ===== verification/Pathing.thy ===== *)
theory Pathing
  imports Py_Regex Errors
begin

text \<open>
  \<open>src/testbench/pathing.py\<close> and the two functions of \<open>src/testbench/filestore.py\<close>
  that turn names into places on the disk: which bucket names the file backend accepts,
  and where the bytes of an object live below the directory of its bucket.

  The SHA-256 hex digest is a parameter \<open>sha256hex\<close>; the lemmas use of it only that it
  contains no path separator or that it has no collisions, each as a hypothesis.
\<close>

section \<open>Constants\<close>

definition NAME_MAX :: nat where
  "NAME_MAX = 255"

definition RESERVED_PREFIX :: string where
  "RESERVED_PREFIX = ''.gcs/''"

definition RESERVED_SUFFIX :: string where
  "RESERVED_SUFFIX = ''.gcsmeta''"

definition NUL :: char where
  "NUL = CHR 0x00"

definition bucket_edge :: "char \<Rightarrow> bool" where
  "bucket_edge c \<longleftrightarrow> is_lower_az c \<or> is_digit c"

definition bucket_inner :: "char \<Rightarrow> bool" where
  "bucket_inner c \<longleftrightarrow> is_lower_az c \<or> is_digit c \<or> c = CHR ''.'' \<or> c = CHR ''_'' \<or> c = CHR ''-''"

definition bucket_re :: regex where
  "bucket_re = seqs [Bos, Cls bucket_edge, Many bucket_inner 1 (Some 61), Cls bucket_edge, Eos]"

definition goog_re :: regex where
  "goog_re = seqs [lit ''g'', Cls (\<lambda>c. c \<in> set ''0o''), Cls (\<lambda>c. c \<in> set ''0o''), lit ''g'',
                   Cls (\<lambda>c. c \<in> set ''1l''), Cls (\<lambda>c. c \<in> set ''e3'')]"

section \<open>Bucket names\<close>

text \<open>The six ways in which \<open>validate_bucket_name\<close> raises \<open>ValueError\<close>.\<close>

datatype bucket_error = Illegal | Traversal | Slash | Bad_length | Char_class | Reserved_goog

definition is_dots :: "string \<Rightarrow> bool" where
  "is_dots part \<longleftrightarrow> part = ''.'' \<or> part = ''..''"

definition validate_bucket_name :: "string \<Rightarrow> bucket_error + unit" where
  "validate_bucket_name name =
    (if contains name [NUL] \<or> startswith name ''/'' \<or> is_dots name then Inl Illegal
     else if (\<exists>part \<in> set (split_on CHR ''/'' name). is_dots part) then Inl Traversal
     else if contains name ''/'' then Inl Slash
     else if \<not> (3 \<le> length name \<and> length name \<le> 63) \<and> \<not> contains name ''.'' then Inl Bad_length
     else if re_match bucket_re name = None then Inl Char_class
     else if startswith name ''goog'' \<or> re_search goog_re True name then Inl Reserved_goog
     else Inr ())"

text \<open>\<open>FileStore.validate_bucket_name\<close>: the error of \<open>pathing\<close> becomes a 400 or an
  \<open>INVALID_ARGUMENT\<close>.  \<open>repr\<close> is Python's \<open>%r\<close>.\<close>

definition bucket_error_message :: "(string \<Rightarrow> string) \<Rightarrow> string \<Rightarrow> bucket_error \<Rightarrow> string" where
  "bucket_error_message repr name e = (case e of
     Illegal \<Rightarrow> ''illegal bucket name '' @ repr name
   | Traversal \<Rightarrow> ''traversal segment in bucket name '' @ repr name
   | Slash \<Rightarrow> ''slash in bucket name '' @ repr name
   | Bad_length \<Rightarrow> ''bucket name length '' @ repr name
   | Char_class \<Rightarrow> ''bucket name char-class '' @ repr name
   | Reserved_goog \<Rightarrow> ''reserved goog bucket name '' @ repr name)"

section \<open>Object names\<close>

definition needs_overflow :: "string \<Rightarrow> bool" where
  "needs_overflow object_name \<longleftrightarrow>
     endswith object_name ''/''
   \<or> startswith object_name RESERVED_PREFIX \<or> endswith object_name RESERVED_SUFFIX
   \<or> contains object_name [NUL] \<or> startswith object_name ''/''
   \<or> (\<exists>seg \<in> set (split_on CHR ''/'' object_name). is_dots seg \<or> NAME_MAX < length (utf8 seg))"

definition escape :: "string \<Rightarrow> string" where
  "escape object_name = py_replace ''%'' ''%25'' object_name"

definition unescape :: "string \<Rightarrow> string" where
  "unescape escaped = py_replace ''%25'' ''%'' escaped"

datatype kind = Overflow | Natural

definition overflow_token :: "(nat list \<Rightarrow> string) \<Rightarrow> string \<Rightarrow> string" where
  "overflow_token sha256hex name = sha256hex (utf8 name)"

definition classify :: "(nat list \<Rightarrow> string) \<Rightarrow> string \<Rightarrow> kind \<times> string" where
  "classify sha256hex object_name =
     (if needs_overflow object_name then (Overflow, overflow_token sha256hex object_name)
      else (Natural, escape object_name))"

definition dest_parts :: "(nat list \<Rightarrow> string) \<Rightarrow> string \<Rightarrow> string list \<times> string" where
  "dest_parts sha256hex object_name = (case classify sha256hex object_name of
     (Overflow, target) \<Rightarrow> ([''.gcs'', ''overflow''], target)
   | (Natural, target) \<Rightarrow> let parts = split_on CHR ''/'' target in (butlast parts, last parts))"

text \<open>\<open>os.path.normpath\<close> of the standard library (POSIX), which \<open>is_contained\<close> calls.\<close>

fun normcomps :: "bool \<Rightarrow> string list \<Rightarrow> string list \<Rightarrow> string list" where
  "normcomps rooted acc [] = acc"
| "normcomps rooted acc (seg # segs) =
     (if seg = '''' \<or> seg = ''.'' then normcomps rooted acc segs
      else if seg \<noteq> ''..'' \<or> (\<not> rooted \<and> acc = []) \<or> (acc \<noteq> [] \<and> last acc = ''..'')
        then normcomps rooted (acc @ [seg]) segs
      else normcomps rooted (butlast acc) segs)"

definition initial_slashes :: "string \<Rightarrow> nat" where
  "initial_slashes path =
     (if \<not> startswith path ''/'' then 0
      else if startswith path ''//'' \<and> \<not> startswith path ''///'' then 2 else 1)"

definition normpath :: "string \<Rightarrow> string" where
  "normpath path =
     (if path = [] then ''.''
      else let n = initial_slashes path;
               p = replicate n (CHR ''/'')
                   @ join ''/'' (normcomps (n \<noteq> 0) [] (split_on CHR ''/'' path))
           in if p = [] then ''.'' else p)"

definition is_contained :: "string \<Rightarrow> string \<Rightarrow> bool" where
  "is_contained candidate root =
     (let root = normpath root; cand = normpath candidate
      in cand = root \<or> startswith cand (root @ ''/''))"

section \<open>Escaping\<close>

lemma escape_simps [simp]:
  "escape [] = []"
  "escape (c # cs) = (if c = CHR ''%'' then ''%25'' else [c]) @ escape cs"
  by (simp_all add: escape_def py_replace_char)

lemma unescape_escape: "unescape (escape s) = s"
proof (induction s)
  case Nil
  show ?case by (simp add: unescape_def)
next
  case (Cons c s)
  show ?case
  proof (cases "c = CHR ''%''")
    case True
    then show ?thesis
      using Cons py_replace_match [of "''%25''" "''%''" "escape s"]
      by (simp add: unescape_def)
  next
    case False
    then show ?thesis
      using Cons by (simp add: unescape_def py_replace_skip)
  qed
qed

lemma escape_inject: "escape s = escape t \<longleftrightarrow> s = t"
  by (metis unescape_escape)

lemma set_escape: "c \<in> set (escape s) \<Longrightarrow> c \<in> set s \<or> c = CHR ''2'' \<or> c = CHR ''5''"
  by (induction s) (auto split: if_splits)

lemma escape_append: "escape (s @ t) = escape s @ escape t"
  by (induction s) auto

lemma split_on_escape: "split_on CHR ''/'' (escape s) = map escape (split_on CHR ''/'' s)"
  by (induction s) (auto split: list.splits)

lemma escape_eq_Nil [simp]: "escape s = [] \<longleftrightarrow> s = []"
  by (cases s) auto

lemma escape_plain: "CHR ''%'' \<notin> set s \<Longrightarrow> escape s = s"
  by (induction s) auto

lemma escape_eq_plain: "CHR ''%'' \<notin> set t \<Longrightarrow> escape s = t \<longleftrightarrow> s = t"
  by (metis escape_inject escape_plain)

section \<open>Where an object lives\<close>

text \<open>What the file store relies on of SHA-256: a hexadecimal digest of 64 digits.\<close>

definition hexdigest_ok :: "(nat list \<Rightarrow> string) \<Rightarrow> bool" where
  "hexdigest_ok h \<longleftrightarrow>
     (\<forall>bs. length (h bs) = 64 \<and> (\<forall>c \<in> set (h bs). is_digit c \<or> is_lower_az c))"

definition safe_component :: "string \<Rightarrow> bool" where
  "safe_component p \<longleftrightarrow> CHR ''/'' \<notin> set p \<and> NUL \<notin> set p \<and> \<not> is_dots p"

lemma hexdigest_safe: "hexdigest_ok h \<Longrightarrow> safe_component (h bs) \<and> h bs \<noteq> []"
  by (auto simp: hexdigest_ok_def safe_component_def is_dots_def NUL_def is_digit_def
      is_lower_az_def py_ord_def dest!: spec [of _ bs])

lemma is_dots_escape: "is_dots (escape s) \<longleftrightarrow> is_dots s"
  by (simp add: is_dots_def escape_eq_plain)

lemma NUL_escape: "NUL \<in> set (escape s) \<longleftrightarrow> NUL \<in> set s"
  by (induction s) (auto simp: NUL_def split: if_splits)

lemma dest_parts_natural:
  "\<not> needs_overflow n \<Longrightarrow> dest_parts h n =
     (map escape (butlast (split_on CHR ''/'' n)), escape (last (split_on CHR ''/'' n)))"
  by (simp add: dest_parts_def classify_def Let_def split_on_escape map_butlast last_map)

lemma dest_parts_overflow:
  "needs_overflow n \<Longrightarrow> dest_parts h n = ([''.gcs'', ''overflow''], h (utf8 n))"
  by (simp add: dest_parts_def classify_def overflow_token_def)

lemma natural_part_safe:
  assumes "\<not> needs_overflow n" and "p \<in> set (split_on CHR ''/'' n)"
  shows "safe_component (escape p)"
proof -
  have "NUL \<notin> set n"
    using assms(1) by (auto simp: needs_overflow_def contains_singleton)
  then have "NUL \<notin> set p"
    using set_split_on [OF assms(2)] by auto
  moreover have "CHR ''/'' \<notin> set (escape p)"
    using split_on_no_sep [OF assms(2)] by (auto dest!: set_escape)
  ultimately show ?thesis
    using assms by (auto simp: safe_component_def NUL_escape is_dots_escape needs_overflow_def)
qed

lemma split_on_eq_Nil [simp]: "split_on c s = [[]] \<longleftrightarrow> s = []"
proof
  assume "split_on c s = [[]]"
  then show "s = []"
    using join_split_on [of c s] by simp
qed simp

lemma last_split_on_Nil: "last (split_on c s) = [] \<longleftrightarrow> s = [] \<or> suffix [c] s"
proof (induction s)
  case (Cons d s)
  then show ?case
    by (cases "split_on c s") (auto simp: suffix_def Cons_eq_append_conv split: if_splits)
qed simp

lemma dest_parts_safe:
  assumes "hexdigest_ok h" and "dest_parts h n = (dirs, base)"
  shows "\<forall>p \<in> set (dirs @ [base]). safe_component p"
    and "n \<noteq> [] \<Longrightarrow> base \<noteq> []"
proof -
  have over: "safe_component ''.gcs''" "safe_component ''overflow''"
    by (simp_all add: safe_component_def is_dots_def NUL_def)
  show "\<forall>p \<in> set (dirs @ [base]). safe_component p"
  proof (cases "needs_overflow n")
    case True
    then show ?thesis
      using assms over hexdigest_safe [OF assms(1)] by (auto simp: dest_parts_overflow)
  next
    case False
    then show ?thesis
      using assms natural_part_safe [OF False]
      by (auto simp: dest_parts_natural dest!: in_set_butlastD)
  qed
  show "base \<noteq> []" if "n \<noteq> []"
  proof (cases "needs_overflow n")
    case True
    then show ?thesis
      using assms hexdigest_safe [OF assms(1)] by (auto simp: dest_parts_overflow)
  next
    case False
    then have "last (split_on CHR ''/'' n) \<noteq> []"
      using that by (auto simp: last_split_on_Nil needs_overflow_def)
    with False show ?thesis
      using assms(2) by (auto simp: dest_parts_natural)
  qed
qed

lemma natural_not_in_overflow_dir:
  assumes "\<not> needs_overflow n"
  shows "map escape (butlast (split_on CHR ''/'' n)) \<noteq> ''.gcs'' # ds"
proof
  assume eq: "map escape (butlast (split_on CHR ''/'' n)) = ''.gcs'' # ds"
  then obtain ps where bl: "butlast (split_on CHR ''/'' n) = ''.gcs'' # ps"
    by (cases "butlast (split_on CHR ''/'' n)") (auto simp: escape_eq_plain)
  then obtain q qs where "split_on CHR ''/'' n = ''.gcs'' # q # qs"
    by (metis append_butlast_last_id append_Cons split_on_nonempty list.exhaust append_is_Nil_conv
        list.distinct(1))
  then have "n = ''.gcs/'' @ join ''/'' (q # qs)"
    using join_split_on [of "CHR ''/''" n] by simp
  then show False
    using assms by (simp add: needs_overflow_def RESERVED_PREFIX_def)
qed

lemma dest_parts_inject:
  assumes eq: "dest_parts h m = dest_parts h n"
  shows "m = n \<or> (needs_overflow m \<and> needs_overflow n \<and> h (utf8 m) = h (utf8 n))"
proof -
  consider "needs_overflow m" "needs_overflow n" | "\<not> needs_overflow m" "\<not> needs_overflow n"
    | "needs_overflow m \<noteq> needs_overflow n" by blast
  then show ?thesis
  proof cases
    case 1
    then show ?thesis using eq by (simp add: dest_parts_overflow)
  next
    case 2
    have "split_on CHR ''/'' m = split_on CHR ''/'' n"
      using eq 2 by (simp add: dest_parts_natural escape_inject inj_map_eq_map inj_def)
        (metis append_butlast_last_id split_on_nonempty)
    then show ?thesis by (metis join_split_on)
  next
    case 3
    then show ?thesis
      using eq by (metis dest_parts_overflow dest_parts_natural natural_not_in_overflow_dir
          prod.inject)
  qed
qed

section \<open>Containment\<close>

text \<open>A canonical absolute path, as \<open>os.path.realpath\<close> returns it: the root, or \<open>/\<close>
  followed by components that are neither empty nor dots.\<close>

definition clean :: "string \<Rightarrow> bool" where
  "clean p \<longleftrightarrow> p \<noteq> [] \<and> CHR ''/'' \<notin> set p \<and> \<not> is_dots p"

definition abspath :: "string list \<Rightarrow> string" where
  "abspath segs = ''/'' @ join ''/'' segs"

lemma normcomps_no_dots:
  "\<forall>p \<in> set ps. \<not> is_dots p \<Longrightarrow> normcomps True acc ps = acc @ filter (\<lambda>p. p \<noteq> []) ps"
  by (induction ps arbitrary: acc) (auto simp: is_dots_def)

lemma normpath_abspath:
  assumes "ps \<noteq> []" and "hd ps \<noteq> []" and "\<forall>p \<in> set ps. CHR ''/'' \<notin> set p \<and> \<not> is_dots p"
  shows "normpath (abspath ps) = abspath (filter (\<lambda>p. p \<noteq> []) ps)"
proof -
  obtain a s qs where ps: "ps = (a # s) # qs" and a: "a \<noteq> CHR ''/''"
    using assms by (cases ps; cases "hd ps") auto
  have "initial_slashes (abspath ps) = 1"
    using a ps by (cases qs) (simp_all add: initial_slashes_def abspath_def)
  moreover have "split_on CHR ''/'' (abspath ps) = [] # ps"
    using split_on_join [of "[] # ps" "CHR ''/''"] assms by (simp add: abspath_def join_Cons)
  moreover have "normcomps True [] ([] # ps) = filter (\<lambda>p. p \<noteq> []) ps"
    using normcomps_no_dots [of "[] # ps" "[]"] assms by (simp add: is_dots_def)
  ultimately show ?thesis
    by (simp add: normpath_def Let_def abspath_def)
qed

lemma is_contained_below:
  assumes "root \<noteq> []" and "\<forall>p \<in> set root. clean p"
    and "\<forall>p \<in> set ps. CHR ''/'' \<notin> set p \<and> \<not> is_dots p"
  shows "is_contained (abspath (root @ ps)) (abspath root)"
proof -
  let ?ne = "filter (\<lambda>p. p \<noteq> [])"
  have hd: "hd root \<noteq> []" "hd (root @ ps) \<noteq> []"
    using assms(1,2) by (cases root; auto simp: clean_def)+
  have root: "?ne root = root"
    using assms(2) by (simp add: filter_id_conv clean_def)
  have "normpath (abspath root) = abspath root"
    using normpath_abspath [of root] assms(1,2) hd root by (simp add: clean_def)
  moreover have "normpath (abspath (root @ ps)) = abspath (root @ ?ne ps)"
    using normpath_abspath [of "root @ ps"] assms hd root by (auto simp: clean_def)
  ultimately show ?thesis
    using assms(1)
    by (cases "?ne ps = []") (simp_all add: is_contained_def Let_def abspath_def join_append)
qed

section \<open>Accepted bucket names\<close>

lemma validate_bucket_name_ok:
  "validate_bucket_name name = Inr () \<longleftrightarrow>
     \<not> contains name [NUL] \<and> \<not> startswith name ''/'' \<and> \<not> is_dots name
   \<and> (\<forall>part \<in> set (split_on CHR ''/'' name). \<not> is_dots part) \<and> \<not> contains name ''/''
   \<and> ((3 \<le> length name \<and> length name \<le> 63) \<or> contains name ''.'')
   \<and> re_match bucket_re name \<noteq> None \<and> \<not> startswith name ''goog'' \<and> \<not> re_search goog_re True name"
  by (auto simp: validate_bucket_name_def)

text \<open>The character class: an accepted name has 3 to 63 characters of the class, and at
  most one newline after them, because \<open>$\<close> also matches before a final newline.\<close>

lemma le_length_takeWhile:
  "k \<le> length (takeWhile P s) \<longleftrightarrow> k \<le> length s \<and> (\<forall>c \<in> set (take k s). P c)"
proof (induction s arbitrary: k)
  case (Cons c s)
  then show ?case by (cases k) auto
qed simp

lemma in_many_lengths:
  "k \<in> set (many_lengths P lo (Some hi) s) \<longleftrightarrow>
     lo \<le> k \<and> k \<le> hi \<and> k \<le> length s \<and> (\<forall>c \<in> set (take k s). P c)"
proof -
  have "k \<in> set (many_lengths P lo (Some hi) s) \<longleftrightarrow> lo \<le> k \<and> k \<le> hi \<and> k \<le> length (takeWhile P s)"
    by (auto simp: many_lengths_def Let_def)
  then show ?thesis by (simp add: le_length_takeWhile)
qed

lemma re_match_iff: "re_match r s \<noteq> None \<longleftrightarrow> (\<exists>g t. (g, t) \<in> set (rmatch r True s))"
  by (cases "rmatch r True s") (auto simp: re_match_def)

definition bucket_shape :: "string \<Rightarrow> bool" where
  "bucket_shape name \<longleftrightarrow> (\<exists>a m z. name = a # m @ [z] \<and> bucket_edge a \<and> bucket_edge z
     \<and> (\<forall>c \<in> set m. bucket_inner c) \<and> 1 \<le> length m \<and> length m \<le> 61)"

lemma bucket_re_iff:
  "re_match bucket_re name \<noteq> None \<longleftrightarrow>
     (\<exists>b. bucket_shape b \<and> (name = b \<or> name = b @ [CHR 0x0A]))" (is "?L \<longleftrightarrow> ?R")
proof
  assume ?L
  then obtain a s k z t where s: "name = a # s" "bucket_edge a" "z # t = drop k s" "bucket_edge z"
      "k \<in> set (many_lengths bucket_inner 1 (Some 61) s)" "t = [] \<or> t = [CHR 0x0A]"
    unfolding re_match_iff by (auto simp: bucket_re_def split: list.splits if_splits)
  then have "a # take k s @ [z] = a # take k s @ [z]" "name = (a # take k s @ [z]) @ t"
    using append_take_drop_id [of k s] by auto
  moreover have "bucket_shape (a # take k s @ [z])"
    using s by (auto simp: bucket_shape_def in_many_lengths min_def)
  ultimately show ?R using s by auto
next
  assume ?R
  then obtain a m z t where s: "name = a # m @ z # t" "bucket_edge a" "bucket_edge z"
      "\<forall>c \<in> set m. bucket_inner c" "1 \<le> length m" "length m \<le> 61" "t = [] \<or> t = [CHR 0x0A]"
    by (auto simp: bucket_shape_def)
  then have "length m \<in> set (many_lengths bucket_inner 1 (Some 61) (m @ z # t))"
    by (simp add: in_many_lengths)
  then have "([], t) \<in> set (rmatch bucket_re True name)"
    using s by (auto simp: bucket_re_def intro!: bexI [of _ "length m"])
  then show ?L unfolding re_match_iff by blast
qed

lemma bucket_shape_length: "bucket_shape b \<Longrightarrow> 3 \<le> length b \<and> length b \<le> 63"
  by (auto simp: bucket_shape_def)

lemma bucket_shape_chars: "bucket_shape b \<Longrightarrow> c \<in> set b \<Longrightarrow> bucket_inner c"
  by (auto simp: bucket_shape_def bucket_edge_def bucket_inner_def)

lemma bucket_shape_not_dots: "bucket_shape b \<Longrightarrow> \<not> is_dots b"
  by (auto simp: bucket_shape_def is_dots_def dest!: arg_cong [of _ _ length])

lemma bucket_inner_not_special: "\<not> bucket_inner (CHR ''/'') \<and> \<not> bucket_inner NUL"
  by (simp add: bucket_inner_def NUL_def is_lower_az_def is_digit_def py_ord_def)

text \<open>The four explicit checks before the expression accept every name that it accepts,
  apart from a name of 63 characters and a newline that has no dot.\<close>

lemma validate_bucket_name_iff:
  "validate_bucket_name name = Inr () \<longleftrightarrow>
     (\<exists>b. bucket_shape b \<and> (name = b \<or> (name = b @ [CHR 0x0A] \<and>
            (length b < 63 \<or> CHR ''.'' \<in> set b))))
     \<and> \<not> startswith name ''goog'' \<and> \<not> re_search goog_re True name"
proof -
  have explicit: "\<not> contains name [NUL] \<and> \<not> startswith name ''/'' \<and> \<not> is_dots name
     \<and> (\<forall>part \<in> set (split_on CHR ''/'' name). \<not> is_dots part) \<and> \<not> contains name ''/''"
    if "bucket_shape b" and "name = b \<or> name = b @ [CHR 0x0A]" for b
  proof -
    have nochars: "CHR ''/'' \<notin> set name" "NUL \<notin> set name"
      using that bucket_shape_chars [OF that(1)] bucket_inner_not_special
      by (auto simp: NUL_def)
    moreover have "\<not> is_dots name"
      using that bucket_shape_not_dots [OF that(1)] bucket_shape_length [OF that(1)]
      by (auto simp: is_dots_def)
    ultimately show ?thesis
      by (auto simp: contains_singleton split_on_id prefix_def)
  qed
  have "(3 \<le> length name \<and> length name \<le> 63) \<or> CHR ''.'' \<in> set name \<longleftrightarrow>
      name = b \<or> length b < 63 \<or> CHR ''.'' \<in> set b"
    if "bucket_shape b" and "name = b \<or> name = b @ [CHR 0x0A]" for b
    using that bucket_shape_length [OF that(1)] by auto
  with explicit show ?thesis
    unfolding validate_bucket_name_ok bucket_re_iff contains_singleton by blast
qed

lemma validated_bucket_clean:
  assumes "validate_bucket_name name = Inr ()"
  shows "clean name"
proof -
  obtain b where b: "bucket_shape b" "name = b \<or> name = b @ [CHR 0x0A]"
    using assms unfolding validate_bucket_name_iff by blast
  then have "CHR ''/'' \<notin> set name"
    using bucket_shape_chars [OF b(1)] bucket_inner_not_special by auto
  moreover have "\<not> is_dots name" "name \<noteq> []"
    using assms bucket_shape_length [OF b(1)] b(2) by (auto simp: validate_bucket_name_ok)
  ultimately show ?thesis by (simp add: clean_def)
qed

section \<open>Properties\<close>

text \<open>C26: The file of an object lies inside the directory of its bucket, for every object name
  (with dots, slashes, NUL bytes or percent signs in it) and every bucket name that the file
  store accepts, where SHA-256 is any function to hexadecimal digests.\<close>

theorem object_file_contained:
  assumes "hexdigest_ok h" and "root \<noteq> []" and "\<forall>p \<in> set root. clean p"
    and "validate_bucket_name b = Inr ()" and "dest_parts h n = (dirs, base)"
  shows "is_contained (abspath (root @ b # dirs @ [base])) (abspath (root @ [b]))"
proof -
  have "\<forall>p \<in> set (root @ [b]). clean p"
    using assms(3) validated_bucket_clean [OF assms(4)] by simp
  moreover have "\<forall>p \<in> set (dirs @ [base]). CHR ''/'' \<notin> set p \<and> \<not> is_dots p"
    using dest_parts_safe(1) [OF assms(1,5)] by (auto simp: safe_component_def)
  ultimately show ?thesis
    using is_contained_below [of "root @ [b]" "dirs @ [base]"] by simp
qed

definition sample_digest :: "nat list \<Rightarrow> string" where
  "sample_digest bs = replicate 64 (CHR ''a'')"

theorem object_file_contained_witness:
  "is_contained (abspath ([''srv''] @ ''my-bucket'' # [''.gcs'', ''overflow'']
     @ [replicate 64 (CHR ''a'')])) (abspath ([''srv''] @ [''my-bucket'']))"
proof (rule object_file_contained [of sample_digest _ _ "''../../etc/passwd''"])
  show "hexdigest_ok sample_digest"
    by (simp add: hexdigest_ok_def sample_digest_def is_lower_az_def py_ord_def)
  show "\<forall>p \<in> set [''srv'']. clean p" by (simp add: clean_def is_dots_def)
  show "validate_bucket_name ''my-bucket'' = Inr ()" by code_simp
  have "needs_overflow ''../../etc/passwd''" by code_simp
  then show "dest_parts sample_digest ''../../etc/passwd''
      = ([''.gcs'', ''overflow''], replicate 64 (CHR ''a''))"
    by (simp add: dest_parts_overflow sample_digest_def)
qed simp

text \<open>C27: Two objects of a bucket never share a file: the places of two names are equal exactly
  when the names are, as long as SHA-256 does not collide on the two.\<close>

theorem object_files_distinct:
  assumes "h (utf8 m) = h (utf8 n) \<Longrightarrow> m = n"
  shows "dest_parts h m = dest_parts h n \<longleftrightarrow> m = n"
  using dest_parts_inject [of h m n] assms by blast

theorem object_files_distinct_witness:
  "dest_parts (map char_of) ''a%2Fb'' \<noteq> dest_parts (map char_of) ''a/b''"
proof -
  have "map char_of (utf8 ''a%2Fb'') \<noteq> (map char_of (utf8 ''a/b'') :: string)"
    by code_simp
  then show ?thesis
    using object_files_distinct [of "map char_of" "''a%2Fb''" "''a/b''"] by simp
qed

text \<open>The name of an object whose file has a natural place is read back from the place: the
  components, unescaped and joined with slashes, are the name.\<close>

theorem natural_place_decodes:
  assumes "\<not> needs_overflow n" and "dest_parts h n = (dirs, base)"
  shows "join ''/'' (map unescape (dirs @ [base])) = n"
proof -
  have "dirs @ [base] = map escape (split_on CHR ''/'' n)"
  proof (cases "split_on CHR ''/'' n" rule: rev_cases)
    case (snoc ps p)
    then show ?thesis using assms by (simp add: dest_parts_natural)
  qed simp
  then show ?thesis
    by (simp add: comp_def unescape_escape join_split_on)
qed

theorem natural_place_decodes_witness:
  "join ''/'' (map unescape ([''a%25b''] @ [''c''])) = ''a%b/c''"
proof -
  have "\<not> needs_overflow ''a%b/c''" "dest_parts (map char_of) ''a%b/c'' = ([''a%25b''], ''c'')"
    by code_simp+
  then show ?thesis by (rule natural_place_decodes)
qed

text \<open>C28: The file store accepts a bucket name exactly when it is 3 to 63 characters of the
  documented class, does not start with goog and does not look like google, or when it is such a
  name followed by one newline (of at most 62 characters, or with a dot in it): the dollar sign
  of the expression also matches before a final newline.\<close>

theorem accepted_bucket_names:
  "validate_bucket_name name = Inr () \<longleftrightarrow>
     (\<exists>b. bucket_shape b \<and> (name = b \<or> (name = b @ [CHR 0x0A] \<and>
            (length b < 63 \<or> CHR ''.'' \<in> set b))))
     \<and> \<not> startswith name ''goog'' \<and> \<not> re_search goog_re True name"
  by (rule validate_bucket_name_iff)

end
