(* ===== verification/Database.thy ===== *)
theory Database
  imports Resources Preconditions Retry_Tests Pathing
begin

text \<open>
  \<open>src/testbench/database.py\<close>: the index of buckets, objects and folders that both servers
  work on (lines 86 to 760 and 943 to 999; the retry tests are in \<open>Retry_Tests\<close>).

  The dictionaries of the class are the fields of the record \<open>db\<close>.  Every method is a
  function on that state which also returns the state when it raises.  The locks make each
  method one step.  The \<open>Store\<close> that the database notifies is represented by the list of
  the notifications, in order; the check of bucket names that it may make is an argument.
\<close>

section \<open>The state\<close>

text \<open>A notification of \<open>src/testbench/store.py\<close>.\<close>

datatype event = Bucket_inserted string | Bucket_updated string | Bucket_deleted string
  | Object_inserted string string int
  | Object_updated string string int
  | Object_deleted string string int
  | Object_soft_deleted string string int
  | Object_purged string string int
  | Upload_deleted string string | Rewrite_deleted string string
  | Folder_inserted string | Folder_deleted string | Folder_renamed string string
  | Cleared

record db =
  buckets :: "(string \<times> bucket) list"
  objects :: "(string \<times> (string \<times> blob) list) list"
  live_generations :: "(string \<times> (string \<times> int) list) list"
  soft_deleted :: "(string \<times> (string \<times> blob list) list) list"
  uploads :: "(string \<times> string) list"
  rewrite_table :: "(string \<times> string) list"
  folders :: "(string \<times> string) list"
  retry :: retry_db
  events :: "event list"

text \<open>Of an upload and of a rewrite the index needs the bucket they notify the store with;
  of a folder, the resource.\<close>

type_synonym 'a dbM = "(err, db, 'a) pym"

text \<open>The clock: \<open>datetime.now(timezone.utc)\<close>, and \<open>datetime.now()\<close>, the local time without
  its zone, both in microseconds.\<close>

record clock =
  now_utc :: int
  now_local :: int

definition notify :: "event \<Rightarrow> unit dbM" where
  "notify e = modS (\<lambda>s. s\<lparr>events := events s @ [e]\<rparr>)"

text \<open>\<open>d[k]\<close>, which raises \<open>KeyError\<close>.\<close>

definition getitem :: "(db \<Rightarrow> (string \<times> 'v) list) \<Rightarrow> string \<Rightarrow> 'v dbM" where
  "getitem d k = bindM (getS (\<lambda>s. map_of (d s) k)) (\<lambda>r. case r of
     None \<Rightarrow> raise (Exc KeyError) | Some v \<Rightarrow> ret v)"

definition object_key :: "string \<Rightarrow> int \<Rightarrow> string" where
  "object_key name generation = name @ ''#'' @ show_int generation"

definition initial_db :: db where
  "initial_db = \<lparr>buckets = [], objects = [], live_generations = [], soft_deleted = [],
     uploads = [], rewrite_table = [], folders = [],
     retry = \<lparr>retry_tests = [], supported_methods = []\<rparr>, events = []\<rparr>"

text \<open>\<open>clear\<close> keeps the list of the supported methods.\<close>

definition clear :: "unit dbM" where
  "clear =
     seqM (modS (\<lambda>s. s\<lparr>buckets := [], objects := [], live_generations := [],
                      soft_deleted := [], folders := []\<rparr>))
     (seqM (notify Cleared)
     (modS (\<lambda>s. s\<lparr>uploads := [], rewrite_table := [],
                  retry := (retry s)\<lparr>retry_tests := []\<rparr>\<rparr>)))"

section \<open>Buckets\<close>

definition bucket_key :: "string \<Rightarrow> ctx \<Rightarrow> string" where
  "bucket_key bucket_name c = (case c of
     Grpc _ \<Rightarrow> bucket_name | Rest \<Rightarrow> bucket_name_to_proto bucket_name)"

definition get_bucket :: "string \<Rightarrow> ctx \<Rightarrow> bucket_precondition list \<Rightarrow> bucket option dbM" where
  "get_bucket bucket_name c preconditions =
     bindM (getS (\<lambda>s. map_of (buckets s) (bucket_key bucket_name c))) (\<lambda>found. case found of
       None \<Rightarrow> raise (notfound (''Bucket '' @ bucket_name) c)
     | Some bucket \<Rightarrow>
         bindM (liftE (check_bucket_preconditions preconditions
                  (Some (bk_metageneration bucket)) c))
           (\<lambda>ok. ret (if ok then Some bucket else None)))"

text \<open>\<open>FileStore.validate_bucket_name\<close>; the store of the memory backend accepts every name.\<close>

definition file_store_validate :: "(string \<Rightarrow> string) \<Rightarrow> string \<Rightarrow> ctx \<Rightarrow> err + unit" where
  "file_store_validate repr name c =
     (let short = bucket_name_from_proto name
      in case validate_bucket_name short of
           Inl e \<Rightarrow> Inl (invalid (''Bucket name '' @ bucket_error_message repr short e) c)
         | Inr _ \<Rightarrow> Inr ())"

definition insert_bucket ::
    "(string \<Rightarrow> ctx \<Rightarrow> err + unit) \<Rightarrow> bucket \<Rightarrow> ctx \<Rightarrow> unit dbM" where
  "insert_bucket validate bucket c =
     seqM (liftE (validate (bk_name bucket) c))
     (bindM (getS (\<lambda>s. map_of (buckets s) (bk_name bucket))) (\<lambda>found.
      if found \<noteq> None then raise (already_exists c)
      else seqM (modS (\<lambda>s. s\<lparr>buckets := AList.update (bk_name bucket) bucket (buckets s),
                            objects := AList.update (bk_name bucket) [] (objects s),
                            live_generations :=
                              AList.update (bk_name bucket) [] (live_generations s),
                            soft_deleted := AList.update (bk_name bucket) [] (soft_deleted s)\<rparr>))
             (notify (Bucket_inserted (bk_name bucket)))))"

text \<open>The retry tests, run on the part of the state that they use.\<close>

definition on_retry_db :: "'a retryM \<Rightarrow> 'a dbM" where
  "on_retry_db step s = (case step (retry s) of (r, q) \<Rightarrow> (r, s\<lparr>retry := q\<rparr>))"

text \<open>The names in a \<open>return-unreachable-buckets-...\<close> instruction, which is consumed.\<close>

definition unreachable_instruction :: "request \<Rightarrow> string list dbM" where
  "unreachable_instruction r =
     (let api_method = ''storage.buckets.list''
      in case hget r ''x-retry-test-id'' of
        None \<Rightarrow> ret []
      | Some test_id \<Rightarrow>
        if test_id = [] then ret [] else
        bindM (on_retry_db (has_instructions_retry_test test_id api_method ''HTTP'')) (\<lambda>has.
        if \<not> has then ret [] else
        bindM (on_retry_db (peek_next_instruction test_id api_method)) (\<lambda>next. case next of
          None \<Rightarrow> raise (Exc TypeError)
        | Some instruction \<Rightarrow>
          (case re_match retry_return_unreachable_buckets instruction of
             Some (g # _) \<Rightarrow>
               seqM (on_retry_db (dequeue_next_instruction test_id api_method))
                 (ret (split_on CHR '','' g))
           | _ \<Rightarrow> ret []))))"

definition list_bucket ::
    "string option \<Rightarrow> string \<Rightarrow> request option \<Rightarrow> ctx \<Rightarrow> (bucket list \<times> string list) dbM" where
  "list_bucket project_id pre request c =
     (if project_id = None \<or> endswith (the project_id) ''-''
      then raise (invalid (''Project id ''
             @ (case project_id of None \<Rightarrow> ''None'' | Some p \<Rightarrow> p)) c)
      else
        bindM (getS (\<lambda>s. map snd (buckets s))) (\<lambda>all.
        let all = (if pre \<noteq> [] then
              filter (\<lambda>b. startswith (bk_name b) (bucket_prefix @ pre)) all else all)
        in bindM (case request of None \<Rightarrow> ret [] | Some r \<Rightarrow> unreachable_instruction r)
           (\<lambda>instructed.
           let unreachable_names =
             (if instructed = [] \<and> (case request of None \<Rightarrow> False
                 | Some r \<Rightarrow> py_lower (case aget r ''returnPartialSuccess'' of
                               None \<Rightarrow> ''false'' | Some v \<Rightarrow> v) = ''true'')
              then map bk_name (filter (\<lambda>b. contains (bk_name b) ''unreachable'') all)
              else instructed)
           in ret (filter (\<lambda>b. bk_name b \<notin> set unreachable_names) all,
                   map bk_name (filter (\<lambda>b. bk_name b \<in> set unreachable_names) all)))))"

text \<open>The text of the live generations in the error message is not modelled.\<close>

definition delete_bucket :: "string \<Rightarrow> ctx \<Rightarrow> bucket_precondition list \<Rightarrow> unit dbM" where
  "delete_bucket bucket_name c preconditions =
     bindM (get_bucket bucket_name c preconditions) (\<lambda>found. case found of
       None \<Rightarrow> raise (Exc AttributeError)
     | Some bucket \<Rightarrow>
       bindM (getitem live_generations (bk_name bucket)) (\<lambda>live.
       if 0 < length live
       then raise (invalid (''Deleting non-empty bucket '' @ bk_name bucket) c)
       else seqM (modS (\<lambda>s. s\<lparr>buckets := AList.delete (bk_name bucket) (buckets s),
                             objects := AList.delete (bk_name bucket) (objects s),
                             live_generations :=
                               AList.delete (bk_name bucket) (live_generations s),
                             soft_deleted := AList.delete (bk_name bucket) (soft_deleted s)\<rparr>))
              (notify (Bucket_deleted (bk_name bucket)))))"

definition do_update_bucket ::
    "string \<Rightarrow> (bucket \<Rightarrow> err + bucket) \<Rightarrow> ctx \<Rightarrow> bucket_precondition list \<Rightarrow> bucket option dbM" where
  "do_update_bucket bucket_name update_fn c preconditions =
     bindM (get_bucket bucket_name c preconditions) (\<lambda>found. case found of
       None \<Rightarrow> ret None
     | Some bucket \<Rightarrow>
         bindM (liftE (update_fn bucket)) (\<lambda>bucket'.
         seqM (modS (\<lambda>s. s\<lparr>buckets :=
                 AList.update (bucket_key bucket_name c) bucket' (buckets s)\<rparr>))
         (seqM (notify (Bucket_updated (bk_name bucket'))) (ret (Some bucket')))))"

text \<open>\<open>seed_buckets\<close>: the buckets named in the environment, each made at most once.  How
  \<open>Bucket.init\<close> makes a bucket of a name is an argument.\<close>

definition seed_buckets ::
    "(string \<Rightarrow> ctx \<Rightarrow> err + unit) \<Rightarrow> (string \<Rightarrow> err + bucket) \<Rightarrow> string list \<Rightarrow> unit dbM" where
  "seed_buckets validate mk names = each (\<lambda>name.
     bindM (getS (\<lambda>s. map_of (buckets s) (bucket_key name Rest))) (\<lambda>found.
     if found \<noteq> None then ret ()
     else bindM (liftE (mk name)) (\<lambda>bucket. insert_bucket validate bucket Rest))) names"

section \<open>Objects\<close>

definition get_bucket_for_object :: "string \<Rightarrow> ctx \<Rightarrow> (string \<times> blob) list dbM" where
  "get_bucket_for_object bucket_name c =
     bindM (getS (\<lambda>s. map_of (objects s) (bucket_key bucket_name c))) (\<lambda>found. case found of
       None \<Rightarrow> raise (notfound (''Bucket '' @ bucket_name) c)
     | Some bucket \<Rightarrow> ret bucket)"

definition get_live_generation :: "string \<Rightarrow> string \<Rightarrow> ctx \<Rightarrow> int option dbM" where
  "get_live_generation bucket_name object_name c =
     bindM (getitem live_generations (bucket_key bucket_name c)) (\<lambda>live.
     ret (map_of live object_name))"

text \<open>Assignments into the dictionary of one bucket.\<close>

definition upd_objects ::
    "string \<Rightarrow> ((string \<times> blob) list \<Rightarrow> (string \<times> blob) list) \<Rightarrow> db \<Rightarrow> db" where
  "upd_objects k f s = s\<lparr>objects := AList.map_entry k f (objects s)\<rparr>"

definition upd_live ::
    "string \<Rightarrow> ((string \<times> int) list \<Rightarrow> (string \<times> int) list) \<Rightarrow> db \<Rightarrow> db" where
  "upd_live k f s = s\<lparr>live_generations := AList.map_entry k f (live_generations s)\<rparr>"

definition upd_soft ::
    "string \<Rightarrow> ((string \<times> blob list) list \<Rightarrow> (string \<times> blob list) list) \<Rightarrow> db \<Rightarrow> db" where
  "upd_soft k f s = s\<lparr>soft_deleted := AList.map_entry k f (soft_deleted s)\<rparr>"

definition set_live_generation :: "string \<Rightarrow> string \<Rightarrow> int \<Rightarrow> ctx \<Rightarrow> unit dbM" where
  "set_live_generation bucket_name object_name generation c =
     seqM (getitem live_generations (bucket_key bucket_name c))
       (modS (upd_live (bucket_key bucket_name c) (AList.update object_name generation)))"

definition del_live_generation :: "string \<Rightarrow> string \<Rightarrow> ctx \<Rightarrow> unit dbM" where
  "del_live_generation bucket_name object_name c =
     seqM (getitem live_generations (bucket_key bucket_name c))
       (modS (upd_live (bucket_key bucket_name c) (AList.delete object_name)))"

definition soft_list :: "(string \<times> blob list) list \<Rightarrow> string \<Rightarrow> blob list" where
  "soft_list d object_name = (case map_of d object_name of None \<Rightarrow> [] | Some bs \<Rightarrow> bs)"

definition soft_delete_object ::
    "clock \<Rightarrow> string \<Rightarrow> string \<Rightarrow> blob \<Rightarrow> int \<Rightarrow> ctx \<Rightarrow> unit dbM" where
  "soft_delete_object clk bucket_name object_name blob retention_duration c =
     (let k = bucket_key bucket_name c;
          blob = map_metadata (\<lambda>m. m\<lparr>om_soft_delete_time := Some (now_utc clk),
                   om_hard_delete_time := Some (now_utc clk + retention_duration * 1000000)\<rparr>) blob
      in bindM (getitem soft_deleted k) (\<lambda>soft.
         seqM (modS (upd_soft k (AList.update object_name (soft_list soft object_name @ [blob]))))
           (notify (Object_soft_deleted k (b_name blob) (b_generation blob)))))"

text \<open>A missing hard delete time reads as the epoch.\<close>

definition hard_delete_time :: "blob \<Rightarrow> int" where
  "hard_delete_time b = (case om_hard_delete_time (b_metadata b) of None \<Rightarrow> 0 | Some t \<Rightarrow> t)"

definition remove_expired_objects_from_soft_delete ::
    "clock \<Rightarrow> string \<Rightarrow> string \<Rightarrow> ctx \<Rightarrow> unit dbM" where
  "remove_expired_objects_from_soft_delete clk bucket_name object_name c =
     (let k = bucket_key bucket_name c in
      bindM (getitem soft_deleted k) (\<lambda>soft. case map_of soft object_name of
        None \<Rightarrow> ret ()
      | Some bs \<Rightarrow>
          let live = filter (\<lambda>b. now_local clk < hard_delete_time b) bs;
              expired = filter (\<lambda>b. \<not> now_local clk < hard_delete_time b) bs
          in seqM (modS (upd_soft k (AList.update object_name live)))
             (each (\<lambda>b. notify (Object_purged k object_name (b_generation b))) expired)))"

definition remove_restored_soft_deleted_object ::
    "string \<Rightarrow> string \<Rightarrow> int \<Rightarrow> ctx \<Rightarrow> unit dbM" where
  "remove_restored_soft_deleted_object bucket_name object_name generation c =
     (let k = bucket_key bucket_name c in
      bindM (getitem soft_deleted k) (\<lambda>soft. case map_of soft object_name of
        None \<Rightarrow> ret ()
      | Some bs \<Rightarrow> modS (upd_soft k (AList.update object_name
                     (filter (\<lambda>b. b_generation b = generation) bs)))))"

definition get_soft_deleted_object ::
    "string \<Rightarrow> string \<Rightarrow> int \<Rightarrow> ctx \<Rightarrow> blob dbM" where
  "get_soft_deleted_object bucket_name object_name generation c =
     bindM (getitem soft_deleted (bucket_key bucket_name c)) (\<lambda>soft.
     case List.find (\<lambda>b. b_generation b = generation) (soft_list soft object_name) of
       None \<Rightarrow> raise (notfound object_name c)
     | Some b \<Rightarrow> ret b)"

definition get_all_soft_deleted_objects :: "string \<Rightarrow> ctx \<Rightarrow> blob list dbM" where
  "get_all_soft_deleted_objects bucket_name c =
     bindM (getitem soft_deleted (bucket_key bucket_name c)) (\<lambda>soft.
     ret (sort_key b_generation (concat (map snd soft))))"

text \<open>A generation in a request: absent, a number, or a text that \<open>int()\<close> rejects, which
  raises where the code calls \<open>int()\<close>.\<close>

type_synonym generation_arg = "(err + int) option"

definition generation_of_text :: "string option \<Rightarrow> generation_arg" where
  "generation_of_text t = map_option (\<lambda>v. case py_int v of
     None \<Rightarrow> Inl (Exc ValueError) | Some g \<Rightarrow> Inr g) t"

definition generation_of_field :: "int \<Rightarrow> generation_arg" where
  "generation_of_field g = Some (Inr g)"

text \<open>\<open>__get_object\<close>.\<close>

definition lookup_object ::
    "string \<Rightarrow> string \<Rightarrow> ctx \<Rightarrow> generation_arg \<Rightarrow> precondition list \<Rightarrow> bool
       \<Rightarrow> (blob option \<times> int option) dbM" where
  "lookup_object bucket_name object_name c generation preconditions require_live =
     bindM (getS (\<lambda>s. map_of (live_generations s) (bucket_key bucket_name c))) (\<lambda>found.
     case found of
       None \<Rightarrow> raise (notfound (''Bucket '' @ bucket_name) c)
     | Some lives \<Rightarrow>
       let live_generation = map_of lives object_name in
       bindM (liftE (case generation of None \<Rightarrow> Inr 0 | Some g \<Rightarrow> g)) (\<lambda>g.
       if g = 0 \<and> live_generation = None then
         (if require_live
          then raise (notfound (''Live version of object '' @ bucket_name @ ''/'' @ object_name) c)
          else ret (None, None))
       else
         let lookup_generation = (if g = 0 then the live_generation else g) in
         bindM (get_bucket_for_object bucket_name c) (\<lambda>bucket.
         case map_of bucket (object_key object_name lookup_generation) of
           None \<Rightarrow> raise (notfound (''Could not find object '' @ bucket_name @ ''/''
                     @ object_name @ ''#'' @ show_int lookup_generation) c)
         | Some blob \<Rightarrow>
             bindM (liftE (check_preconditions preconditions (Some (b_metageneration blob))
                      live_generation c))
               (\<lambda>ok. ret (if ok then (Some blob, live_generation) else (None, None))))))"

definition get_object ::
    "string \<Rightarrow> string \<Rightarrow> ctx \<Rightarrow> generation_arg \<Rightarrow> precondition list \<Rightarrow> bool \<Rightarrow> blob option dbM" where
  "get_object bucket_name object_name c generation preconditions soft =
     (if \<not> soft then
        bindM (lookup_object bucket_name object_name c generation preconditions True)
          (\<lambda>(blob, _). ret blob)
      else
        bindM (get_bucket bucket_name c []) (\<lambda>bucket. case bucket of
          None \<Rightarrow> raise (Exc AttributeError)
        | Some bk \<Rightarrow>
          if bk_soft_delete bk = None then raise (invalid ''SoftDeletePolicyRequired'' c)
          else bindM (liftE (case generation of None \<Rightarrow> Inl (Exc TypeError) | Some g \<Rightarrow> g)) (\<lambda>g.
               bindM (get_soft_deleted_object bucket_name object_name g c) (\<lambda>b. ret (Some b)))))"

definition insert_object ::
    "string \<Rightarrow> blob \<Rightarrow> ctx \<Rightarrow> precondition list \<Rightarrow> unit dbM" where
  "insert_object bucket_name blob c preconditions =
     (let object_name = b_name blob in
      bindM (get_bucket_for_object bucket_name c) (\<lambda>bucket.
      bindM (get_live_generation bucket_name object_name c) (\<lambda>live_generation.
      let current = (case live_generation of
            None \<Rightarrow> None | Some g \<Rightarrow> map_of bucket (object_key object_name g)) in
      bindM (liftE (check_preconditions preconditions (map_option b_metageneration current)
               live_generation c)) (\<lambda>ok.
      if \<not> ok then ret ()
      else
        seqM (modS (upd_objects (bucket_key bucket_name c)
                (AList.update (object_key object_name (b_generation blob)) blob)))
        (seqM (set_live_generation bucket_name object_name (b_generation blob) c)
        (notify (Object_inserted (bucket_key bucket_name c) object_name (b_generation blob))))))))"

definition delete_object ::
    "clock \<Rightarrow> string \<Rightarrow> string \<Rightarrow> ctx \<Rightarrow> int \<Rightarrow> precondition list \<Rightarrow> unit dbM" where
  "delete_object clk bucket_name object_name c generation preconditions =
     bindM (lookup_object bucket_name object_name c (Some (Inr generation)) preconditions True)
       (\<lambda>(found, live_generation).
     seqM (if generation = 0 \<or> live_generation = Some generation
           then del_live_generation bucket_name object_name c else ret ())
     (bindM (get_bucket_for_object bucket_name c) (\<lambda>_.
      bindM (get_bucket bucket_name c []) (\<lambda>bucket. case (bucket, found) of
        (Some bk, Some blob) \<Rightarrow>
          seqM (case bk_soft_delete bk of
                  Some retention \<Rightarrow>
                    soft_delete_object clk bucket_name object_name blob retention c
                | None \<Rightarrow> ret ())
          (seqM (modS (upd_objects (bucket_key bucket_name c)
                   (AList.delete (object_key (b_name blob) (b_generation blob)))))
          (if bk_soft_delete bk = None
           then notify (Object_deleted (bucket_key bucket_name c) (b_name blob)
                  (b_generation blob))
           else ret ()))
      | _ \<Rightarrow> raise (Exc AttributeError)))))"

text \<open>\<open>do_update_object\<close>.  The callback gets the object that is stored, not a copy: what it
  makes of it is its second result.\<close>

definition do_update_object ::
    "string \<Rightarrow> string \<Rightarrow> (blob option \<Rightarrow> int option \<Rightarrow> ('a \<times> blob option) dbM) \<Rightarrow> ctx
       \<Rightarrow> generation_arg \<Rightarrow> precondition list \<Rightarrow> bool \<Rightarrow> 'a dbM" where
  "do_update_object bucket_name object_name update_fn c generation preconditions require_live =
     bindM (lookup_object bucket_name object_name c generation preconditions require_live)
       (\<lambda>(blob, live_generation).
     bindM (update_fn blob live_generation) (\<lambda>(result, blob').
     seqM (case (blob, blob') of
         (Some b, Some b') \<Rightarrow>
           seqM (modS (upd_objects (bucket_key bucket_name c)
                   (AList.map_entry (object_key object_name (b_generation b)) (\<lambda>_. b'))))
             (notify (Object_updated (bucket_key bucket_name c) (b_name b') (b_generation b')))
       | _ \<Rightarrow> ret ())
     (ret result)))"

definition restored :: "clock \<Rightarrow> bucket \<Rightarrow> obj_meta \<Rightarrow> obj_meta" where
  "restored clk bk m =
     (let m = m\<lparr>om_create_time := now_utc clk, om_soft_delete_time := None,
               om_metageneration := 1, om_generation := om_generation m + 1\<rparr>
      in if bk_autoclass bk then m\<lparr>om_storage_class := ''STANDARD''\<rparr> else m)"

fun update_first :: "('a \<Rightarrow> bool) \<Rightarrow> ('a \<Rightarrow> 'a) \<Rightarrow> 'a list \<Rightarrow> 'a list" where
  "update_first P f [] = []"
| "update_first P f (x # xs) = (if P x then f x # xs else x # update_first P f xs)"

text \<open>\<open>restore_object\<close> changes the soft deleted object in place before it inserts it; the
  part of it that follows the look-up is \<open>restore_found\<close>.\<close>

definition restore_found ::
    "clock \<Rightarrow> string \<Rightarrow> string \<Rightarrow> int \<Rightarrow> precondition list \<Rightarrow> ctx \<Rightarrow> bucket \<Rightarrow> blob \<Rightarrow> blob dbM" where
  "restore_found clk bucket_name object_name generation preconditions c bk old =
     (let k = bucket_key bucket_name c; blob = map_metadata (restored clk bk) old in
      seqM (modS (upd_soft k (AList.map_entry object_name
              (update_first (\<lambda>b. b_generation b = generation) (\<lambda>_. blob)))))
      (seqM (insert_object bucket_name blob c preconditions)
      (seqM (notify (Object_purged k object_name generation))
      (seqM (remove_restored_soft_deleted_object bucket_name object_name generation c)
      (ret blob)))))"

definition restore_object ::
    "clock \<Rightarrow> string \<Rightarrow> string \<Rightarrow> int \<Rightarrow> precondition list \<Rightarrow> ctx \<Rightarrow> blob dbM" where
  "restore_object clk bucket_name object_name generation preconditions c =
     bindM (get_bucket bucket_name c []) (\<lambda>found. case found of
       None \<Rightarrow> raise (Exc AttributeError)
     | Some bk \<Rightarrow>
       if bk_soft_delete bk = None then raise (invalid ''SoftDeletePolicyRequired'' c)
       else
       bindM (get_bucket_for_object bucket_name c) (\<lambda>bucket.
       if map_of bucket (object_key object_name generation) \<noteq> None
       then raise (not_soft_deleted c)
       else
       seqM (remove_expired_objects_from_soft_delete clk bucket_name object_name c)
       (bindM (get_soft_deleted_object bucket_name object_name generation c)
          (restore_found clk bucket_name object_name generation preconditions c bk))))"

section \<open>Listing objects\<close>

record list_args =
  la_delimiter :: string
  la_prefix :: string
  la_versions :: bool
  la_start_offset :: string
  la_end_offset :: string
  la_include_trailing_delimiter :: bool
  la_match_glob :: string
  la_soft_deleted :: bool

text \<open>In a REST request a flag counts as set when its text is not empty, whatever the text.\<close>

definition truthy :: "string option \<Rightarrow> bool" where
  "truthy v \<longleftrightarrow> (case v of None \<Rightarrow> False | Some t \<Rightarrow> t \<noteq> [])"

definition text_arg :: "string option \<Rightarrow> string" where
  "text_arg v = (case v of None \<Rightarrow> [] | Some t \<Rightarrow> t)"

definition extract_list_object_request :: "request \<Rightarrow> list_args" where
  "extract_list_object_request r =
     \<lparr>la_delimiter = text_arg (aget r ''delimiter''), la_prefix = text_arg (aget r ''prefix''),
      la_versions = truthy (aget r ''versions''),
      la_start_offset = text_arg (aget r ''startOffset''),
      la_end_offset = text_arg (aget r ''endOffset''),
      la_include_trailing_delimiter = truthy (aget r ''includeTrailingDelimiter''),
      la_match_glob = text_arg (aget r ''matchGlob''),
      la_soft_deleted = truthy (aget r ''softDeleted'')\<rparr>"

text \<open>One round of the loop: whether the object is skipped, the prefix it adds, and whether it
  is an item.  \<open>pathlib.PurePath.match\<close> is the argument \<open>glob\<close>.\<close>

definition list_step ::
    "(string \<Rightarrow> string \<Rightarrow> bool) \<Rightarrow> list_args \<Rightarrow> (string \<times> int) list \<Rightarrow> blob \<Rightarrow> string option \<times> bool" where
  "list_step glob a lives obj =
     (let name = b_name obj in
      if \<not> la_soft_deleted a \<and> \<not> la_versions a \<and> Some (b_generation obj) \<noteq> map_of lives name
        then (None, False)
      else if find_from (la_prefix a) name 0 \<noteq> 0 then (None, False)
      else if name < la_start_offset a then (None, False)
      else if la_end_offset a \<noteq> [] \<and> la_end_offset a \<le> name then (None, False)
      else if la_match_glob a \<noteq> [] \<and> \<not> glob name (la_match_glob a) then (None, False)
      else
        let delimiter_index = find_from (la_delimiter a) name (length (la_prefix a)) in
        if la_delimiter a \<noteq> [] \<and> 0 < delimiter_index
        then (Some (take (nat (delimiter_index + 1)) name),
              \<not> (delimiter_index < int (length name) - 1 \<or> \<not> la_include_trailing_delimiter a))
        else (None, True))"

definition list_object ::
    "(string \<Rightarrow> string \<Rightarrow> bool) \<Rightarrow> list_args \<Rightarrow> string \<Rightarrow> ctx \<Rightarrow> (obj_meta list \<times> string list) dbM" where
  "list_object glob a bucket_name c =
     bindM (get_bucket_for_object bucket_name c) (\<lambda>bucket.
     bindM (get_bucket bucket_name c []) (\<lambda>found. case found of
       None \<Rightarrow> raise (Exc AttributeError)
     | Some bk \<Rightarrow>
       if (la_soft_deleted a \<and> bk_soft_delete bk = None) \<or> (la_soft_deleted a \<and> la_versions a)
       then raise (invalid ''bad request'' c)
       else
         bindM (if la_soft_deleted a then get_all_soft_deleted_objects bucket_name c
                else ret (map snd bucket)) (\<lambda>objs.
         bindM (getitem live_generations (bucket_key bucket_name c)) (\<lambda>lives.
         let steps = map (\<lambda>obj. (list_step glob a lives obj, b_metadata obj)) objs
         in ret (sort_key om_name (map snd (filter (\<lambda>((_, item), _). item) steps)),
                 remdups (sort (concat (map (\<lambda>((p, _), _). case p of
                    None \<Rightarrow> [] | Some p \<Rightarrow> [p]) steps))))))))"

section \<open>Uploads, rewrites and folders\<close>

definition get_upload :: "string \<Rightarrow> ctx \<Rightarrow> string dbM" where
  "get_upload upload_id c = bindM (getS (\<lambda>s. map_of (uploads s) upload_id)) (\<lambda>found.
     case found of None \<Rightarrow> raise (notfound (''Upload '' @ upload_id) c) | Some u \<Rightarrow> ret u)"

definition insert_upload :: "string \<Rightarrow> string \<Rightarrow> unit dbM" where
  "insert_upload upload_id bucket_name =
     modS (\<lambda>s. s\<lparr>uploads := AList.update upload_id bucket_name (uploads s)\<rparr>)"

definition delete_upload :: "string \<Rightarrow> ctx \<Rightarrow> unit dbM" where
  "delete_upload upload_id c = bindM (get_upload upload_id c) (\<lambda>bucket_name.
     seqM (modS (\<lambda>s. s\<lparr>uploads := AList.delete upload_id (uploads s)\<rparr>))
       (notify (Upload_deleted bucket_name upload_id)))"

definition get_rewrite :: "string \<Rightarrow> ctx \<Rightarrow> string dbM" where
  "get_rewrite token c = bindM (getS (\<lambda>s. map_of (rewrite_table s) token)) (\<lambda>found.
     case found of None \<Rightarrow> raise (notfound (''Rewrite '' @ token) c) | Some u \<Rightarrow> ret u)"

definition insert_rewrite :: "string \<Rightarrow> string \<Rightarrow> unit dbM" where
  "insert_rewrite token dst_bucket_name =
     modS (\<lambda>s. s\<lparr>rewrite_table := AList.update token dst_bucket_name (rewrite_table s)\<rparr>)"

definition delete_rewrite :: "string \<Rightarrow> ctx \<Rightarrow> unit dbM" where
  "delete_rewrite token c = bindM (get_rewrite token c) (\<lambda>dst_bucket_name.
     seqM (modS (\<lambda>s. s\<lparr>rewrite_table := AList.delete token (rewrite_table s)\<rparr>))
       (notify (Rewrite_deleted dst_bucket_name token)))"

text \<open>\<open>error.already_exists\<close> takes the context only; the two calls for folders pass it a
  message as well, which raises \<open>TypeError\<close>.\<close>

definition insert_folder :: "string \<Rightarrow> string \<Rightarrow> ctx \<Rightarrow> string dbM" where
  "insert_folder folder_name folder c =
     bindM (getS (\<lambda>s. map_of (folders s) folder_name)) (\<lambda>found.
     if found \<noteq> None then raise (Exc TypeError)
     else seqM (modS (\<lambda>s. s\<lparr>folders := AList.update folder_name folder (folders s)\<rparr>))
          (seqM (notify (Folder_inserted folder_name)) (ret folder)))"

definition get_folder :: "string \<Rightarrow> ctx \<Rightarrow> string dbM" where
  "get_folder folder_name c = bindM (getS (\<lambda>s. map_of (folders s) folder_name)) (\<lambda>found.
     case found of None \<Rightarrow> raise (notfound (''Folder '' @ folder_name) c) | Some f \<Rightarrow> ret f)"

definition delete_folder :: "string \<Rightarrow> ctx \<Rightarrow> unit dbM" where
  "delete_folder folder_name c = seqM (get_folder folder_name c)
     (seqM (modS (\<lambda>s. s\<lparr>folders := AList.delete folder_name (folders s)\<rparr>))
       (notify (Folder_deleted folder_name)))"

definition list_folders :: "string \<Rightarrow> string \<Rightarrow> string list dbM" where
  "list_folders bucket_name pre =
     getS (\<lambda>s. map snd (filter (\<lambda>(folder_name, _). startswith folder_name bucket_name
        \<and> (pre = [] \<or> startswith folder_name (bucket_name @ ''/'' @ pre))) (folders s)))"

definition rename_folder :: "string \<Rightarrow> string \<Rightarrow> ctx \<Rightarrow> string dbM" where
  "rename_folder src_folder_name dst_folder_name c =
     bindM (getS (\<lambda>s. map_of (folders s) src_folder_name)) (\<lambda>src. case src of
       None \<Rightarrow> raise (notfound (''Source folder '' @ src_folder_name) c)
     | Some folder \<Rightarrow>
       bindM (getS (\<lambda>s. map_of (folders s) dst_folder_name)) (\<lambda>dst.
       if dst \<noteq> None then raise (Exc TypeError)
       else seqM (modS (\<lambda>s. s\<lparr>folders := AList.update dst_folder_name folder
                    (AList.delete src_folder_name (folders s))\<rparr>))
            (seqM (notify (Folder_renamed src_folder_name dst_folder_name)) (ret folder))))"

section \<open>Keys of objects\<close>

declare map_of_eq_Some_iff [simp del]

lemma hash_not_in_show_int: "CHR ''#'' \<notin> set (show_int i)"
  by (auto dest!: show_int_chars simp: is_digit_def py_ord_def)

lemma append_unique_sep:
  assumes "a @ (c :: char) # s = b @ c # t" and "c \<notin> set s" and "c \<notin> set t"
  shows "a = b \<and> s = t"
proof -
  have "split_on c (a @ c # s) = split_on c a @ [s]" "split_on c (b @ c # t) = split_on c b @ [t]"
    using assms(2,3) by (simp_all add: split_on_append_sep split_on_id)
  then have "split_on c a = split_on c b \<and> s = t"
    using assms(1) by simp
  then show ?thesis by (metis join_split_on)
qed

lemma object_key_inject: "object_key n g = object_key m h \<longleftrightarrow> n = m \<and> g = h"
  using append_unique_sep [of n "CHR ''#''" "show_int g" m "show_int h"]
  by (auto simp: object_key_def hash_not_in_show_int show_int_inject)

section \<open>The invariant\<close>

text \<open>What one bucket holds: every object is filed under its name and generation, every live
  generation is that of an object, every soft deleted object is filed under its name.\<close>

definition objs_ok :: "(string \<times> blob) list \<Rightarrow> bool" where
  "objs_ok os \<longleftrightarrow> distinct (map fst os)
     \<and> (\<forall>k b. map_of os k = Some b \<longrightarrow> k = object_key (b_name b) (b_generation b))"

definition live_ok :: "(string \<times> blob) list \<Rightarrow> (string \<times> int) list \<Rightarrow> bool" where
  "live_ok os ls \<longleftrightarrow> distinct (map fst ls)
     \<and> (\<forall>n g. map_of ls n = Some g \<longrightarrow> map_of os (object_key n g) \<noteq> None)"

definition soft_ok :: "(string \<times> blob list) list \<Rightarrow> bool" where
  "soft_ok sd \<longleftrightarrow> distinct (map fst sd)
     \<and> (\<forall>n bs. map_of sd n = Some bs \<longrightarrow> (\<forall>b \<in> set bs. b_name b = n))"

type_synonym contents =
  "bucket \<times> (string \<times> blob) list \<times> (string \<times> int) list \<times> (string \<times> blob list) list"

definition contents :: "db \<Rightarrow> string \<Rightarrow> contents option" where
  "contents s k =
    (case (map_of (buckets s) k, map_of (objects s) k, map_of (live_generations s) k,
           map_of (soft_deleted s) k) of
       (Some bk, Some os, Some ls, Some sd) \<Rightarrow> Some (bk, os, ls, sd) | _ \<Rightarrow> None)"

definition aligned :: "db \<Rightarrow> string \<Rightarrow> bool" where
  "aligned s k \<longleftrightarrow> (map_of (objects s) k = None \<longleftrightarrow> map_of (buckets s) k = None)
     \<and> (map_of (live_generations s) k = None \<longleftrightarrow> map_of (buckets s) k = None)
     \<and> (map_of (soft_deleted s) k = None \<longleftrightarrow> map_of (buckets s) k = None)"

definition contents_ok :: "string \<Rightarrow> contents \<Rightarrow> bool" where
  "contents_ok k x \<longleftrightarrow> (case x of (bk, os, ls, sd) \<Rightarrow>
     bk_name bk = k \<and> objs_ok os \<and> live_ok os ls \<and> soft_ok sd)"

definition db_wf :: "db \<Rightarrow> bool" where
  "db_wf s \<longleftrightarrow> distinct (map fst (buckets s)) \<and> distinct (map fst (objects s))
     \<and> distinct (map fst (live_generations s)) \<and> distinct (map fst (soft_deleted s))
     \<and> (\<forall>k. aligned s k) \<and> (\<forall>k x. contents s k = Some x \<longrightarrow> contents_ok k x)
     \<and> retry_wf (retry s)"

lemma initial_db_wf: "db_wf initial_db"
  by (simp add: db_wf_def initial_db_def aligned_def contents_def retry_wf_def)

lemma contents_cong:
  "map_of (buckets s) k = map_of (buckets t) k \<Longrightarrow> map_of (objects s) k = map_of (objects t) k \<Longrightarrow>
   map_of (live_generations s) k = map_of (live_generations t) k \<Longrightarrow>
   map_of (soft_deleted s) k = map_of (soft_deleted t) k \<Longrightarrow> contents s k = contents t k"
  by (simp add: contents_def)

lemma aligned_contents:
  "aligned s k \<Longrightarrow> contents s k = None \<longleftrightarrow> map_of (buckets s) k = None"
  by (auto simp: aligned_def contents_def split: option.splits)

lemma contents_SomeD:
  "contents s k = Some (bk, os, ls, sd) \<Longrightarrow>
     map_of (buckets s) k = Some bk \<and> map_of (objects s) k = Some os
     \<and> map_of (live_generations s) k = Some ls \<and> map_of (soft_deleted s) k = Some sd"
  by (auto simp: contents_def split: option.splits)

lemma map_of_map_entry:
  "map_of (AList.map_entry k f d) j = (if j = k then map_option f (map_of d k) else map_of d j)"
  by (induction d) auto

lemma keys_map_entry [simp]: "map fst (AList.map_entry k f d) = map fst d"
  by (induction d) auto

lemma contents_upd:
  "contents (upd_objects k f s) j = (if j = k
     then map_option (\<lambda>(bk, os, ls, sd). (bk, f os, ls, sd)) (contents s k) else contents s j)"
  "contents (upd_live k g s) j = (if j = k
     then map_option (\<lambda>(bk, os, ls, sd). (bk, os, g ls, sd)) (contents s k) else contents s j)"
  "contents (upd_soft k h s) j = (if j = k
     then map_option (\<lambda>(bk, os, ls, sd). (bk, os, ls, h sd)) (contents s k) else contents s j)"
  by (auto simp: contents_def upd_objects_def upd_live_def upd_soft_def map_of_map_entry
      split: option.splits)

lemma aligned_upd [simp]:
  "aligned (upd_objects k f s) j = aligned s j"
  "aligned (upd_live k g s) j = aligned s j"
  "aligned (upd_soft k h s) j = aligned s j"
  by (auto simp: aligned_def upd_objects_def upd_live_def upd_soft_def map_of_map_entry)

lemma upd_frame [simp]:
  "buckets (upd_objects k f s) = buckets s" "buckets (upd_live k g s) = buckets s"
  "buckets (upd_soft k h s) = buckets s" "retry (upd_objects k f s) = retry s"
  "retry (upd_live k g s) = retry s" "retry (upd_soft k h s) = retry s"
  "events (upd_objects k f s) = events s" "events (upd_live k g s) = events s"
  "events (upd_soft k h s) = events s"
  by (simp_all add: upd_objects_def upd_live_def upd_soft_def)

lemma upd_keys [simp]:
  "map fst (objects (upd_objects k f s)) = map fst (objects s)"
  "map fst (live_generations (upd_objects k f s)) = map fst (live_generations s)"
  "map fst (soft_deleted (upd_objects k f s)) = map fst (soft_deleted s)"
  "map fst (objects (upd_live k g s)) = map fst (objects s)"
  "map fst (live_generations (upd_live k g s)) = map fst (live_generations s)"
  "map fst (soft_deleted (upd_live k g s)) = map fst (soft_deleted s)"
  "map fst (objects (upd_soft k h s)) = map fst (objects s)"
  "map fst (live_generations (upd_soft k h s)) = map fst (live_generations s)"
  "map fst (soft_deleted (upd_soft k h s)) = map fst (soft_deleted s)"
  by (simp_all add: upd_objects_def upd_live_def upd_soft_def)

lemma contents_events [simp]:
  "contents (s\<lparr>events := es\<rparr>) = contents s" "aligned (s\<lparr>events := es\<rparr>) = aligned s"
  by (simp_all add: fun_eq_iff contents_def aligned_def)

lemma db_wf_events [simp]: "db_wf (s\<lparr>events := es\<rparr>) = db_wf s"
  by (simp add: db_wf_def)

lemma wf_contents: "db_wf s \<Longrightarrow> contents s k = Some x \<Longrightarrow> contents_ok k x"
  unfolding db_wf_def by blast

text \<open>Changing the contents of one bucket keeps the invariant when they stay consistent.\<close>

lemma wf_upd:
  assumes "db_wf s"
    and "\<And>bk os ls sd. contents s k = Some (bk, os, ls, sd) \<Longrightarrow> objs_ok os \<Longrightarrow> live_ok os ls \<Longrightarrow>
           soft_ok sd \<Longrightarrow> objs_ok (f os) \<and> live_ok (f os) (g ls) \<and> soft_ok (h sd)"
  shows "db_wf (upd_objects k f (upd_live k g (upd_soft k h s)))"
  using assms by (auto simp: db_wf_def contents_upd contents_ok_def split: if_splits)

lemma map_entry_id: "AList.map_entry k (\<lambda>x. x) d = d"
  by (induction d) auto

lemma upd_live_id [simp]: "upd_live k (\<lambda>ls. ls) s = s"
  by (simp add: upd_live_def map_entry_id)

lemma upd_soft_id [simp]: "upd_soft k (\<lambda>sd. sd) s = s"
  by (simp add: upd_soft_def map_entry_id)

lemma upd_objects_id [simp]: "upd_objects k (\<lambda>os. os) s = s"
  by (simp add: upd_objects_def map_entry_id)

section \<open>What the operations on objects do\<close>

lemma getitem_Some: "map_of (d s) k = Some v \<Longrightarrow> getitem d k s = (Inr v, s)"
  by (simp add: getitem_def)

lemma getitem_state: "snd (getitem d k s) = s"
  by (auto simp: getitem_def split: option.splits)

lemma notify_app: "notify e s = (Inr (), s\<lparr>events := events s @ [e]\<rparr>)"
  by (simp add: notify_def)

lemma get_bucket_state: "snd (get_bucket b c ps s) = s"
  by (auto simp: get_bucket_def bindM_def split: option.splits sum.splits)

lemma get_bucket_for_object_state: "snd (get_bucket_for_object b c s) = s"
  by (auto simp: get_bucket_for_object_def split: option.splits)

lemma get_soft_deleted_state: "snd (get_soft_deleted_object b n g c s) = s"
  by (auto simp: get_soft_deleted_object_def getitem_def bindM_def split: option.splits)

lemma lookup_state: "snd (lookup_object b n c g ps req s) = s"
  by (auto simp: lookup_object_def get_bucket_for_object_def bindM_def Let_def
      split: option.splits sum.splits)

lemma lookup_cases:
  obtains e where "lookup_object b n c g ps req s = (Inl e, s)"
  | r where "lookup_object b n c g ps req s = (Inr r, s)"
  by (metis lookup_state prod.collapse sum.exhaust)

text \<open>The generation that is looked up, and what a successful look-up means.\<close>

definition wanted :: "(string \<times> int) list \<Rightarrow> string \<Rightarrow> int \<Rightarrow> int" where
  "wanted ls n g = (if g = 0 then the (map_of ls n) else g)"

lemma lookup_found:
  assumes "lookup_object b n c (Some (Inr g)) ps req s = (Inr (Some blob, live), t)"
    and "contents s (bucket_key b c) = Some (bk, os, ls, sd)"
  shows "t = s" and "live = map_of ls n" and "map_of os (object_key n (wanted ls n g)) = Some blob"
    and "g = 0 \<Longrightarrow> live \<noteq> None"
    and "check_preconditions ps (Some (b_metageneration blob)) live c = Inr True"
  using assms contents_SomeD [OF assms(2)]
  by (auto simp: lookup_object_def get_bucket_for_object_def bindM_def Let_def wanted_def
      split: option.splits sum.splits if_splits) (metis not_None_eq)

lemma found_identity:
  assumes "objs_ok os" and "map_of os (object_key n g) = Some blob"
  shows "b_name blob = n" and "b_generation blob = g"
  using assms unfolding objs_ok_def by (metis object_key_inject)+

lemma lookup_contents:
  assumes "lookup_object b n c g ps req s = (Inr r, t)" and "db_wf s"
  obtains bk os ls sd where "contents s (bucket_key b c) = Some (bk, os, ls, sd)" and "objs_ok os"
    and "live_ok os ls" and "soft_ok sd" and "bk_name bk = bucket_key b c"
proof -
  have "map_of (live_generations s) (bucket_key b c) \<noteq> None"
    using assms(1) by (auto simp: lookup_object_def split: option.splits)
  moreover have "aligned s (bucket_key b c)"
    using assms(2) by (simp add: db_wf_def)
  ultimately have "contents s (bucket_key b c) \<noteq> None"
    by (auto simp: aligned_def aligned_contents)
  then show ?thesis
    using that wf_contents [OF assms(2)] by (force simp: contents_ok_def)
qed

lemmas plain_steps = seqM_def bindM_def get_bucket_def get_bucket_for_object_def
  get_live_generation_def set_live_generation_def del_live_generation_def getitem_def
  notify_app Let_def

text \<open>The effect of a deletion that finds its object.\<close>

definition soft_deleted_blob :: "clock \<Rightarrow> int \<Rightarrow> blob \<Rightarrow> blob" where
  "soft_deleted_blob clk retention = map_metadata (\<lambda>m. m\<lparr>om_soft_delete_time := Some (now_utc clk),
     om_hard_delete_time := Some (now_utc clk + retention * 1000000)\<rparr>)"

lemma soft_deleted_blob_simps [simp]:
  "b_name (soft_deleted_blob clk r b) = b_name b"
  "b_generation (soft_deleted_blob clk r b) = b_generation b"
  by (simp_all add: soft_deleted_blob_def b_name_def b_generation_def)

definition after_delete ::
    "clock \<Rightarrow> string \<Rightarrow> string \<Rightarrow> bucket \<Rightarrow> blob \<Rightarrow> bool \<Rightarrow> db \<Rightarrow> db" where
  "after_delete clk k n bk blob was_live s =
     (let s1 = upd_objects k (AList.delete (object_key (b_name blob) (b_generation blob)))
           (upd_live k (if was_live then AList.delete n else (\<lambda>ls. ls))
           (upd_soft k (case bk_soft_delete bk of None \<Rightarrow> (\<lambda>sd. sd)
              | Some r \<Rightarrow> AList.update n (soft_list (the (map_of (soft_deleted s) k)) n
                             @ [soft_deleted_blob clk r blob])) s))
      in s1\<lparr>events := events s @ [case bk_soft_delete bk of
            None \<Rightarrow> Object_deleted k (b_name blob) (b_generation blob)
          | Some _ \<Rightarrow> Object_soft_deleted k (b_name blob) (b_generation blob)]\<rparr>)"

lemma upd_commute:
  "upd_soft k h (upd_live k g s) = upd_live k g (upd_soft k h s)"
  "upd_live k g (upd_objects k f s) = upd_objects k f (upd_live k g s)"
  "upd_soft k h (upd_objects k f s) = upd_objects k f (upd_soft k h s)"
  by (simp_all add: upd_objects_def upd_live_def upd_soft_def)

lemma upd_events:
  "upd_objects k f (s\<lparr>events := es\<rparr>) = (upd_objects k f s)\<lparr>events := es\<rparr>"
  "upd_live k g (s\<lparr>events := es\<rparr>) = (upd_live k g s)\<lparr>events := es\<rparr>"
  "upd_soft k h (s\<lparr>events := es\<rparr>) = (upd_soft k h s)\<lparr>events := es\<rparr>"
  by (simp_all add: upd_objects_def upd_live_def upd_soft_def)

lemma objects_upd [simp]:
  "map_of (live_generations (upd_live k g s)) k = map_option g (map_of (live_generations s) k)"
  "map_of (objects (upd_live k g s)) j = map_of (objects s) j"
  "map_of (soft_deleted (upd_live k g s)) j = map_of (soft_deleted s) j"
  "map_of (objects (upd_soft k h s)) j = map_of (objects s) j"
  "map_of (live_generations (upd_soft k h s)) j = map_of (live_generations s) j"
  "map_of (soft_deleted (upd_soft k h s)) k = map_option h (map_of (soft_deleted s) k)"
  "map_of (objects (upd_objects k f s)) k = map_option f (map_of (objects s) k)"
  "map_of (live_generations (upd_objects k f s)) j = map_of (live_generations s) j"
  "map_of (soft_deleted (upd_objects k f s)) j = map_of (soft_deleted s) j"
  by (simp_all add: upd_objects_def upd_live_def upd_soft_def map_of_map_entry)

lemma delete_object_found:
  assumes "lookup_object b n c (Some (Inr g)) ps True s = (Inr (Some blob, live), s)"
    and "contents s (bucket_key b c) = Some (bk, os, ls, sd)"
  shows "delete_object clk b n c g ps s =
    (Inr (), after_delete clk (bucket_key b c) n bk blob (g = 0 \<or> live = Some g) s)"
  using assms(1) contents_SomeD [OF assms(2)]
  by (cases "bk_soft_delete bk")
    (simp_all add: delete_object_def plain_steps after_delete_def soft_delete_object_def
      upd_events upd_commute soft_deleted_blob_def [symmetric])

lemma map_of_delete_ne: "map_of (AList.delete k d) j = (if j = k then None else map_of d j)"
  by (simp add: delete_conv')

lemma map_of_update_if: "map_of (AList.update k v d) j = (if j = k then Some v else map_of d j)"
  by (simp add: update_conv')

lemma distinct_delete_keys: "distinct (map fst d) \<Longrightarrow> distinct (map fst (AList.delete k d))"
  by (simp add: AList.delete_eq distinct_map_filter)

lemma soft_ok_add:
  assumes "soft_ok sd" and "b_name b = n"
  shows "soft_ok (AList.update n (soft_list sd n @ [b]) sd)"
  using assms by (auto simp: soft_ok_def soft_list_def map_of_update_if distinct_update
      split: option.splits if_splits)

lemma wf_after_delete:
  assumes wf: "db_wf s" and c: "contents s k = Some (bk, os, ls, sd)"
    and blob: "map_of os (object_key n h) = Some blob"
    and live: "map_of ls n = Some h \<longrightarrow> was_live"
  shows "db_wf (after_delete clk k n bk blob was_live s)"
proof -
  have ok: "objs_ok os" "live_ok os ls" "soft_ok sd" "map_of (soft_deleted s) k = Some sd"
    using wf_contents [OF wf c] contents_SomeD [OF c] by (auto simp: contents_ok_def)
  have id: "b_name blob = n" "b_generation blob = h"
    using found_identity [OF ok(1) blob] by auto
  let ?g = "if was_live then AList.delete n else (\<lambda>ls. ls)"
  let ?h = "case bk_soft_delete bk of None \<Rightarrow> (\<lambda>sd. sd)
      | Some r \<Rightarrow> AList.update n (soft_list sd n @ [soft_deleted_blob clk r blob])"
  have "objs_ok (AList.delete (object_key n h) os)"
    using ok(1) by (auto simp: objs_ok_def map_of_delete_ne distinct_delete_keys split: if_splits)
  moreover have "live_ok (AList.delete (object_key n h) os) (?g ls)"
    using ok(2) live
    by (auto simp: live_ok_def map_of_delete_ne distinct_delete_keys object_key_inject
        split: if_splits)
  moreover have "soft_ok (?h sd)"
    using ok(3) by (cases "bk_soft_delete bk") (simp_all add: soft_ok_add id)
  ultimately have "db_wf (upd_objects k (AList.delete (object_key n h)) (upd_live k ?g (upd_soft k ?h s)))"
    using wf c by (intro wf_upd) auto
  then show ?thesis
    by (cases "bk_soft_delete bk") (simp_all add: after_delete_def id ok(4))
qed

lemma keeps_delete_object: "keeps db_wf (delete_object clk b n c g ps)"
proof (rule keepsI)
  fix s
  assume wf: "db_wf s"
  show "db_wf (snd (delete_object clk b n c g ps s))"
  proof (cases rule: lookup_cases [of b n c "Some (Inr g)" ps True s])
    case (1 e)
    then show ?thesis using wf by (simp add: delete_object_def bindM_def)
  next
    case (2 r)
    obtain bk os ls sd where c: "contents s (bucket_key b c) = Some (bk, os, ls, sd)"
        "objs_ok os" "live_ok os ls" "soft_ok sd"
      using lookup_contents [OF 2 wf] by metis
    show ?thesis
    proof (cases "fst r")
      case None
      have "db_wf (upd_live (bucket_key b c) (AList.delete n) s)"
        using wf_upd [OF wf, of "bucket_key b c" "\<lambda>os. os" "AList.delete n" "\<lambda>sd. sd"]
        by (auto simp: live_ok_def map_of_delete_ne distinct_delete_keys)
      then show ?thesis
        using wf 2 None contents_SomeD [OF c(1)]
        by (cases r) (auto simp: delete_object_def plain_steps)
    next
      case (Some blob)
      then have l: "lookup_object b n c (Some (Inr g)) ps True s = (Inr (Some blob, snd r), s)"
        using 2 by (cases r) simp
      have f: "delete_object clk b n c g ps s = (Inr (),
            after_delete clk (bucket_key b c) n bk blob (g = 0 \<or> snd r = Some g) s)"
          "snd r = map_of ls n" "map_of os (object_key n (wanted ls n g)) = Some blob"
        using delete_object_found [OF l c(1)] lookup_found [OF l c(1)] by auto
      then have "db_wf (after_delete clk (bucket_key b c) n bk blob (g = 0 \<or> snd r = Some g) s)"
        using wf c(1) by (intro wf_after_delete) (auto simp: wanted_def split: if_splits)
      with f(1) show ?thesis by simp
    qed
  qed
qed

text \<open>The effect of an insertion, and that it is refused when a pre-condition fails.\<close>

definition current_object :: "(string \<times> blob) list \<Rightarrow> (string \<times> int) list \<Rightarrow> string \<Rightarrow> blob option" where
  "current_object os ls n = (case map_of ls n of
     None \<Rightarrow> None | Some g \<Rightarrow> map_of os (object_key n g))"

definition after_insert :: "string \<Rightarrow> blob \<Rightarrow> db \<Rightarrow> db" where
  "after_insert k blob s =
     (upd_objects k (AList.update (object_key (b_name blob) (b_generation blob)) blob)
       (upd_live k (AList.update (b_name blob) (b_generation blob)) s))
     \<lparr>events := events s @ [Object_inserted k (b_name blob) (b_generation blob)]\<rparr>"

lemma insert_object_result:
  assumes "contents s (bucket_key b c) = Some (bk, os, ls, sd)"
  shows "insert_object b blob c ps s =
    (case check_preconditions ps (map_option b_metageneration (current_object os ls (b_name blob)))
            (map_of ls (b_name blob)) c of
       Inl e \<Rightarrow> (Inl e, s)
     | Inr ok \<Rightarrow> (Inr (), if ok then after_insert (bucket_key b c) blob s else s))"
  using contents_SomeD [OF assms]
  by (simp add: insert_object_def plain_steps current_object_def [symmetric] after_insert_def
      upd_events upd_commute split: sum.splits)

lemma insert_object_no_bucket:
  assumes "db_wf s" and "contents s (bucket_key b c) = None"
  shows "insert_object b blob c ps s = (Inl (notfound (''Bucket '' @ b) c), s)"
proof -
  have "map_of (objects s) (bucket_key b c) = None"
    using assms aligned_contents [of s "bucket_key b c"] by (simp add: db_wf_def aligned_def)
  then show ?thesis by (simp add: insert_object_def plain_steps)
qed

lemma wf_after_insert:
  assumes "db_wf s"
  shows "db_wf (after_insert k blob s)"
proof -
  have "objs_ok (AList.update (object_key (b_name blob) (b_generation blob)) blob os)"
    if "objs_ok os" for os
    using that by (auto simp: objs_ok_def map_of_update_if distinct_update split: if_splits)
  moreover have "live_ok (AList.update (object_key (b_name blob) (b_generation blob)) blob os)
      (AList.update (b_name blob) (b_generation blob) ls)" if "live_ok os ls" for os ls
    using that by (auto simp: live_ok_def map_of_update_if distinct_update object_key_inject
        split: if_splits)
  ultimately show ?thesis
    using wf_upd [OF assms, of k "AList.update (object_key (b_name blob) (b_generation blob)) blob"
        "AList.update (b_name blob) (b_generation blob)" "\<lambda>sd. sd"]
    by (simp add: after_insert_def)
qed

lemma keeps_insert_object: "keeps db_wf (insert_object b blob c ps)"
proof (rule keepsI)
  fix s
  assume wf: "db_wf s"
  show "db_wf (snd (insert_object b blob c ps s))"
  proof (cases "contents s (bucket_key b c)")
    case None
    then show ?thesis using wf by (simp add: insert_object_no_bucket)
  next
    case (Some x)
    then obtain bk os ls sd where "contents s (bucket_key b c) = Some (bk, os, ls, sd)"
      by (cases x) auto
    then show ?thesis
      using wf by (auto simp: insert_object_result wf_after_insert split: sum.splits)
  qed
qed

text \<open>Reads.\<close>

lemma keeps_read: "(\<And>s. snd (m s) = s) \<Longrightarrow> keeps P m"
  by (simp add: keeps_def)

lemma get_object_state: "snd (get_object b n c g ps soft s) = s"
proof (cases soft)
  case False
  have "snd (lookup_object b n c g ps True s) = s" by (rule lookup_state)
  with False show ?thesis
    by (auto simp: get_object_def bindM_def split: prod.splits sum.splits)
next
  case True
  then show ?thesis
    using get_bucket_state [of b c "[]" s] get_soft_deleted_state [of b n _ c s]
    by (auto simp: get_object_def bindM_def split: prod.splits sum.splits option.splits)
       (metis snd_conv)+
qed

lemma list_object_state: "snd (list_object glob a b c s) = s"
  by (auto simp: list_object_def get_all_soft_deleted_objects_def plain_steps
      split: option.splits sum.splits)

lemmas keeps_reads = keeps_read [OF get_object_state] keeps_read [OF list_object_state]
  keeps_read [OF get_bucket_state] keeps_read [OF lookup_state]
  keeps_read [OF get_bucket_for_object_state] keeps_read [OF get_soft_deleted_state]
  keeps_read [OF getitem_state]

lemma keeps_notify [simp]: "keeps db_wf (notify e)"
  by (simp add: keeps_def notify_app)

text \<open>Updates: the callback keeps the invariant, and the name and generation of the object.\<close>

lemma wf_replace_object:
  assumes "db_wf s" and "b_name b' = n" and "b_generation b' = g"
  shows "db_wf (upd_objects k (AList.map_entry (object_key n g) (\<lambda>_. b')) s)"
proof -
  have "objs_ok (AList.map_entry (object_key n g) (\<lambda>_. b') os)" if "objs_ok os" for os
    using that assms(2,3) by (auto simp: objs_ok_def map_of_map_entry split: if_splits)
  moreover have "live_ok (AList.map_entry (object_key n g) (\<lambda>_. b') os) ls" if "live_ok os ls" for os ls
    using that by (auto simp: live_ok_def map_of_map_entry object_key_inject)
  ultimately show ?thesis
    using wf_upd [OF assms(1), of k "AList.map_entry (object_key n g) (\<lambda>_. b')" "\<lambda>ls. ls" "\<lambda>sd. sd"]
    by simp
qed

definition update_fn_ok ::
    "string \<Rightarrow> (blob option \<Rightarrow> int option \<Rightarrow> ('a \<times> blob option) dbM) \<Rightarrow> bool" where
  "update_fn_ok n f \<longleftrightarrow> (\<forall>blob live. keeps db_wf (f blob live))
     \<and> (\<forall>b live s r b' s'. f (Some b) live s = (Inr (r, Some b'), s') \<longrightarrow> b_name b = n \<longrightarrow>
          b_name b' = b_name b \<and> b_generation b' = b_generation b)"

lemma keeps_do_update_object:
  assumes "update_fn_ok n f"
  shows "keeps db_wf (do_update_object b n f c g ps req)"
proof (rule keepsI)
  fix s
  assume wf: "db_wf s"
  show "db_wf (snd (do_update_object b n f c g ps req s))"
  proof (cases rule: lookup_cases [of b n c g ps req s])
    case (1 e)
    then show ?thesis using wf by (simp add: do_update_object_def bindM_def)
  next
    case (2 r)
    obtain blob live where r: "r = (blob, live)" by force
    obtain res t where f: "f blob live s = (res, t)" by force
    then have t: "db_wf t"
      using assms wf keepsD [of db_wf "f blob live" s] by (simp add: update_fn_ok_def)
    show ?thesis
    proof (cases res)
      case (Inl e)
      then show ?thesis using 2 r f t by (simp add: do_update_object_def bindM_def)
    next
      case (Inr y)
      obtain x b2 where y: "y = (x, b2)" by force
      show ?thesis
      proof (cases "blob = None \<or> b2 = None")
        case True
        then show ?thesis
          using 2 r f t Inr y
          by (auto simp: do_update_object_def bindM_def seqM_def split: option.splits)
      next
        case False
        then obtain b1 b' where b: "blob = Some b1" "b2 = Some b'" by auto
        obtain bk os ls sd where c: "contents s (bucket_key b c) = Some (bk, os, ls, sd)" "objs_ok os"
          using lookup_contents [OF 2 wf] by metis
        have "\<exists>h. map_of os (object_key n h) = Some b1"
          using 2 r b contents_SomeD [OF c(1)]
          by (auto simp: lookup_object_def get_bucket_for_object_def bindM_def Let_def
              split: option.splits sum.splits if_splits)
        then have "b_name b1 = n"
          using found_identity [OF c(2)] by blast
        moreover have "f (Some b1) live s = (Inr (x, Some b'), t)"
          using f Inr y b by simp
        ultimately have "b_name b' = n" "b_generation b' = b_generation b1"
          using assms unfolding update_fn_ok_def by metis+
        then have "db_wf (upd_objects (bucket_key b c)
            (AList.map_entry (object_key n (b_generation b1)) (\<lambda>_. b')) t)"
          using t by (intro wf_replace_object) auto
        then show ?thesis
          using 2 r f Inr y b
          by (simp add: do_update_object_def bindM_def seqM_def notify_app)
      qed
    qed
  qed
qed

text \<open>Restoring.\<close>

lemma wf_upd_soft:
  assumes "db_wf s" and "\<And>sd. soft_ok sd \<Longrightarrow> soft_ok (h sd)"
  shows "db_wf (upd_soft k h s)"
  using wf_upd [OF assms(1), of k "\<lambda>os. os" "\<lambda>ls. ls" h] assms(2) by simp

lemma soft_ok_map_entry:
  assumes "soft_ok sd" and "\<And>bs. \<forall>b \<in> set bs. b_name b = n \<Longrightarrow> \<forall>b \<in> set (f bs). b_name b = n"
  shows "soft_ok (AList.map_entry n f sd)"
  using assms by (auto simp: soft_ok_def map_of_map_entry split: if_splits)

lemma soft_ok_update:
  assumes "soft_ok sd" and "\<forall>b \<in> set bs. b_name b = n"
  shows "soft_ok (AList.update n bs sd)"
  using assms by (auto simp: soft_ok_def map_of_update_if distinct_update split: if_splits)

lemma keeps_modS_soft:
  "(\<And>sd. soft_ok sd \<Longrightarrow> soft_ok (h sd)) \<Longrightarrow> keeps db_wf (modS (upd_soft k h))"
  by (intro keeps_modS wf_upd_soft) auto

text \<open>In a bucket that is well-formed the soft deleted objects of a name have that name.\<close>

lemma soft_names:
  assumes "db_wf s" and "map_of (soft_deleted s) k = Some sd"
  shows "soft_ok sd"
proof -
  have "aligned s k" using assms(1) by (simp add: db_wf_def)
  then obtain bk os ls where "contents s k = Some (bk, os, ls, sd)"
    using assms(2) by (auto simp: aligned_def contents_def split: option.splits)
  then show ?thesis
    using wf_contents [OF assms(1)] by (auto simp: contents_ok_def)
qed

lemma each_notify: "each (\<lambda>b. notify (e b)) bs s = (Inr (), s\<lparr>events := events s @ map e bs\<rparr>)"
  by (induction bs arbitrary: s) (simp_all add: seqM_def bindM_def notify_app)

lemma keeps_remove_expired: "keeps db_wf (remove_expired_objects_from_soft_delete clk b n c)"
proof (rule keepsI)
  fix s
  assume wf: "db_wf s"
  let ?k = "bucket_key b c"
  show "db_wf (snd (remove_expired_objects_from_soft_delete clk b n c s))"
  proof (cases "map_of (soft_deleted s) ?k")
    case None
    then show ?thesis using wf by (simp add: remove_expired_objects_from_soft_delete_def plain_steps)
  next
    case (Some sd)
    show ?thesis
    proof (cases "map_of sd n")
      case None
      then show ?thesis
        using wf Some by (simp add: remove_expired_objects_from_soft_delete_def plain_steps)
    next
      case (Some bs)
      let ?live = "filter (\<lambda>b. now_local clk < hard_delete_time b) bs"
      have "db_wf (upd_soft ?k (AList.update n ?live) s)"
        using soft_names [OF wf \<open>map_of (soft_deleted s) ?k = Some sd\<close>] Some
        by (intro wf_upd_soft [OF wf] soft_ok_update) (auto simp: soft_ok_def)
      then show ?thesis
        using Some \<open>map_of (soft_deleted s) ?k = Some sd\<close>
        by (simp add: remove_expired_objects_from_soft_delete_def plain_steps each_notify)
    qed
  qed
qed

lemma keeps_remove_restored: "keeps db_wf (remove_restored_soft_deleted_object b n g c)"
proof (rule keepsI)
  fix s
  assume wf: "db_wf s"
  let ?k = "bucket_key b c"
  show "db_wf (snd (remove_restored_soft_deleted_object b n g c s))"
  proof (cases "map_of (soft_deleted s) ?k")
    case None
    then show ?thesis using wf by (simp add: remove_restored_soft_deleted_object_def plain_steps)
  next
    case (Some sd)
    show ?thesis
    proof (cases "map_of sd n")
      case None
      then show ?thesis
        using wf Some by (simp add: remove_restored_soft_deleted_object_def plain_steps)
    next
      case (Some bs)
      have "db_wf (upd_soft ?k (AList.update n (filter (\<lambda>b. b_generation b = g) bs)) s)"
        using soft_names [OF wf \<open>map_of (soft_deleted s) ?k = Some sd\<close>] Some
        by (intro wf_upd_soft [OF wf] soft_ok_update) (auto simp: soft_ok_def)
      then show ?thesis
        using Some \<open>map_of (soft_deleted s) ?k = Some sd\<close>
        by (simp add: remove_restored_soft_deleted_object_def plain_steps)
    qed
  qed
qed

lemma set_update_first: "x \<in> set (update_first P f xs) \<Longrightarrow> x \<in> set xs \<or> (\<exists>y \<in> set xs. P y \<and> x = f y)"
  by (induction xs) (auto split: if_splits)

lemma get_soft_deleted_found:
  assumes "get_soft_deleted_object b n g c s = (Inr old, t)" and "db_wf s"
  shows "b_name old = n \<and> b_generation old = g"
proof -
  obtain sd bs where "map_of (soft_deleted s) (bucket_key b c) = Some sd"
      "old \<in> set (soft_list sd n)" "b_generation old = g"
    using assms(1) by (auto simp: get_soft_deleted_object_def plain_steps find_Some_iff in_set_conv_nth
        split: option.splits)
  then show ?thesis
    using soft_names [OF assms(2)] by (auto simp: soft_ok_def soft_list_def split: option.splits)
qed

lemma restored_name [simp]: "b_name (map_metadata (restored clk bk) b) = b_name b"
  by (simp add: b_name_def restored_def Let_def)

lemma keeps_bindM_result:
  assumes "keeps P m" and "\<And>s x t. P s \<Longrightarrow> m s = (Inr x, t) \<Longrightarrow> P t \<Longrightarrow> P (snd (f x t))"
  shows "keeps P (bindM m f)"
proof (rule keepsI)
  fix s
  assume "P s"
  moreover from this have "P (snd (m s))" using assms(1) by (simp add: keeps_def)
  ultimately show "P (snd (bindM m f s))"
    using assms(2) [of s] by (cases "m s"; cases "fst (m s)") (auto simp: bindM_def)
qed

lemma keeps_restore_found:
  "b_name old = n \<Longrightarrow> keeps db_wf (restore_found clk b n g ps c bk old)"
  unfolding restore_found_def Let_def
  by (intro keeps_seqM keeps_modS_soft soft_ok_map_entry keeps_insert_object keeps_notify
      keeps_remove_restored keeps_ret)
    (auto dest!: set_update_first)

lemma keeps_restore_object: "keeps db_wf (restore_object clk b n g ps c)"
proof -
  have "keeps db_wf (bindM (get_soft_deleted_object b n g c) (restore_found clk b n g ps c bk))" for bk
    by (rule keeps_bindM_result [OF keeps_read [OF get_soft_deleted_state]])
      (metis get_soft_deleted_found keepsD keeps_restore_found)
  then have "keeps db_wf (if bk_soft_delete bk = None then raise (invalid ''SoftDeletePolicyRequired'' c)
      else bindM (get_bucket_for_object b c) (\<lambda>bucket.
        if map_of bucket (object_key n g) \<noteq> None then raise (not_soft_deleted c)
        else seqM (remove_expired_objects_from_soft_delete clk b n c)
          (bindM (get_soft_deleted_object b n g c) (restore_found clk b n g ps c bk))))" for bk
    by (intro keeps_if keeps_raise keeps_bindM [OF keeps_read [OF get_bucket_for_object_state]]
        keeps_seqM keeps_remove_expired)
  then show ?thesis
    unfolding restore_object_def
    by (intro keeps_bindM [OF keeps_read [OF get_bucket_state]]) (simp split: option.split)
qed

section \<open>The invariant on buckets\<close>

text \<open>The memory backend, and the file backend, only accept or refuse a name.\<close>

lemma keeps_insert_bucket: "keeps db_wf (insert_bucket validate bk c)"
proof (rule keepsI)
  fix s
  assume wf: "db_wf s"
  let ?n = "bk_name bk"
  let ?t = "s\<lparr>buckets := AList.update ?n bk (buckets s), objects := AList.update ?n [] (objects s),
      live_generations := AList.update ?n [] (live_generations s),
      soft_deleted := AList.update ?n [] (soft_deleted s)\<rparr>"
  have "contents ?t k = (if k = ?n then Some (bk, [], [], []) else contents s k)" for k
    by (simp add: contents_def map_of_update_if)
  moreover have "aligned ?t k = (k = ?n \<or> aligned s k)" for k
    by (simp add: aligned_def map_of_update_if)
  ultimately have "db_wf ?t"
    using wf by (simp add: db_wf_def distinct_update contents_ok_def objs_ok_def live_ok_def
        soft_ok_def)
  then show "db_wf (snd (insert_bucket validate bk c s))"
    using wf by (cases "validate ?n c") (simp_all add: insert_bucket_def plain_steps)
qed

lemma get_bucket_found:
  "get_bucket b c ps s = (Inr (Some bk), t) \<Longrightarrow> t = s \<and> map_of (buckets s) (bucket_key b c) = Some bk"
  by (auto simp: get_bucket_def bindM_def split: option.splits sum.splits if_splits)

lemma bucket_name_key:
  assumes "db_wf s" and "map_of (buckets s) k = Some bk"
  shows "bk_name bk = k"
proof -
  have "aligned s k" using assms(1) by (simp add: db_wf_def)
  then obtain os ls sd where "contents s k = Some (bk, os, ls, sd)"
    using assms(2) by (auto simp: aligned_def contents_def split: option.splits)
  then show ?thesis
    using wf_contents [OF assms(1)] by (auto simp: contents_ok_def)
qed

lemma wf_delete_bucket:
  assumes "db_wf s"
  shows "db_wf (s\<lparr>buckets := AList.delete k (buckets s), objects := AList.delete k (objects s),
     live_generations := AList.delete k (live_generations s),
     soft_deleted := AList.delete k (soft_deleted s)\<rparr>)" (is "db_wf ?t")
proof -
  have "contents ?t j = (if j = k then None else contents s j)" for j
    by (simp add: contents_def map_of_delete_ne)
  moreover have "aligned ?t j = (j = k \<or> aligned s j)" for j
    by (simp add: aligned_def map_of_delete_ne)
  ultimately show ?thesis
    using assms by (simp add: db_wf_def distinct_delete_keys)
qed

lemma keeps_delete_bucket: "keeps db_wf (delete_bucket b c ps)"
  unfolding delete_bucket_def
  by (intro keeps_bindM keeps_read [OF get_bucket_state])
    (auto split: option.splits intro!: keeps_bindM keeps_if keeps_seqM keeps_modS wf_delete_bucket
      keeps_read [OF getitem_state])

lemma wf_update_bucket:
  assumes "db_wf s" and "map_of (buckets s) k \<noteq> None" and "bk_name bk = k"
  shows "db_wf (s\<lparr>buckets := AList.update k bk (buckets s)\<rparr>)" (is "db_wf ?t")
proof -
  have "aligned ?t j = aligned s j" for j
    using assms(2) by (auto simp: aligned_def map_of_update_if)
  moreover have "contents ?t j = (if j = k then map_option (\<lambda>(_, x). (bk, x)) (contents s k)
      else contents s j)" for j
    using assms(2) by (auto simp: contents_def map_of_update_if split: option.splits)
  ultimately show ?thesis
    using assms by (auto simp: db_wf_def distinct_update contents_ok_def)
qed

lemma keeps_do_update_bucket:
  assumes "\<And>bk bk'. f bk = Inr bk' \<Longrightarrow> bk_name bk' = bk_name bk"
  shows "keeps db_wf (do_update_bucket b f c ps)"
  unfolding do_update_bucket_def
proof (rule keeps_bindM_result [OF keeps_read [OF get_bucket_state]])
  fix s found t
  assume wf: "db_wf s" and found: "get_bucket b c ps s = (Inr found, t)" and t: "db_wf t"
  show "db_wf (snd ((case found of None \<Rightarrow> ret None
     | Some bucket \<Rightarrow> bindM (liftE (f bucket)) (\<lambda>bucket'.
         seqM (modS (\<lambda>s. s\<lparr>buckets := AList.update (bucket_key b c) bucket' (buckets s)\<rparr>))
         (seqM (notify (Bucket_updated (bk_name bucket'))) (ret (Some bucket'))))) t))"
  proof (cases found)
    case None
    then show ?thesis using t by simp
  next
    case (Some bk)
    then have "map_of (buckets t) (bucket_key b c) = Some bk"
      using get_bucket_found [of b c ps s bk t] found by simp
    then show ?thesis
      using t assms bucket_name_key [OF t] wf_update_bucket [OF t] Some
      by (cases "f bk") (simp_all add: seqM_def bindM_def notify_app)
  qed
qed

lemma db_wf_retry: "db_wf s \<Longrightarrow> retry_wf q \<Longrightarrow> db_wf (s\<lparr>retry := q\<rparr>)"
proof -
  have "contents (s\<lparr>retry := q\<rparr>) = contents s" "aligned (s\<lparr>retry := q\<rparr>) = aligned s"
    by (simp_all add: fun_eq_iff contents_def aligned_def)
  then show "db_wf s \<Longrightarrow> retry_wf q \<Longrightarrow> db_wf (s\<lparr>retry := q\<rparr>)"
    by (simp add: db_wf_def)
qed

lemma keeps_on_retry_db: "keeps retry_wf m \<Longrightarrow> keeps db_wf (on_retry_db m)"
  unfolding keeps_def on_retry_db_def
  by (auto split: prod.splits intro!: db_wf_retry) (metis db_wf_def snd_conv)

lemma keeps_clear: "keeps db_wf clear"
proof -
  have "db_wf (s\<lparr>buckets := [], objects := [], live_generations := [], soft_deleted := [],
      folders := []\<rparr>)" if "db_wf s" for s
    using that by (simp add: db_wf_def aligned_def contents_def)
  moreover have "db_wf (s\<lparr>uploads := [], rewrite_table := [],
      retry := (retry s)\<lparr>retry_tests := []\<rparr>\<rparr>)" if "db_wf s" for s
    using that by (simp add: db_wf_def aligned_def contents_def retry_wf_def)
  ultimately show ?thesis
    unfolding clear_def by (intro keeps_seqM keeps_modS keeps_notify)
qed

lemma keeps_seed_buckets: "keeps db_wf (seed_buckets validate mk names)"
  unfolding seed_buckets_def
  by (intro keeps_each keeps_bindM keeps_if keeps_insert_bucket) auto

lemma keeps_list_bucket: "keeps db_wf (list_bucket p pre request c)"
proof -
  have found: "keeps db_wf (case next of None \<Rightarrow> raise (Exc TypeError) | Some i \<Rightarrow>
      (case re_match retry_return_unreachable_buckets i of
        Some (g # _) \<Rightarrow> seqM (on_retry_db (dequeue_next_instruction test_id m)) (ret (split_on d g))
      | _ \<Rightarrow> ret []))" for "next" test_id m d
    by (auto split: option.split list.split
        intro!: keeps_seqM keeps_on_retry_db keeps_dequeue)
  have "keeps db_wf (unreachable_instruction r)" for r
    unfolding unreachable_instruction_def Let_def
    by (simp split: option.split)
      (intro allI impI keeps_bindM [OF keeps_on_retry_db [OF keeps_has]] keeps_if keeps_ret
        keeps_bindM [OF keeps_on_retry_db [OF keeps_peek]] found)
  then have "keeps db_wf (case request of None \<Rightarrow> ret [] | Some r \<Rightarrow> unreachable_instruction r)"
    by (simp split: option.split)
  then show ?thesis
    unfolding list_bucket_def Let_def
    by (intro keeps_if keeps_raise keeps_bindM keeps_getS keeps_ret)
qed

lemma lookup_decisive:
  assumes "decisive ps" and "lookup_object b n c g ps True s = (Inr (found, live), t)"
  shows "found \<noteq> None"
  using assms check_decisive [OF assms(1)]
  by (auto simp: lookup_object_def get_bucket_for_object_def bindM_def Let_def
      split: option.splits sum.splits if_splits) (metis option.distinct(1))+

end
