(* ===== verification/Store_Mirror.thy ===== *)
theory Store_Mirror
  imports Database
begin

text \<open>
  The contract between the database and a \<open>Store\<close> (\<open>src/testbench/store.py\<close>): whoever
  follows the notifications knows what the index holds.

  An observer has a view of the database and a reaction to every notification.  The locale
  states what a view must satisfy for each elementary change of the index; in it, the result
  of folding the reactions over the notifications is shown to be the view of the database,
  whatever operations have run and however they ended.  Two views are interpreted: which
  generations of which objects exist in which buckets, and which generation is live.
\<close>

section \<open>Observers\<close>

definition bucket_added :: "bucket \<Rightarrow> db \<Rightarrow> db" where
  "bucket_added bk s = s\<lparr>buckets := AList.update (bk_name bk) bk (buckets s),
     objects := AList.update (bk_name bk) [] (objects s),
     live_generations := AList.update (bk_name bk) [] (live_generations s),
     soft_deleted := AList.update (bk_name bk) [] (soft_deleted s)\<rparr>"

definition bucket_removed :: "string \<Rightarrow> db \<Rightarrow> db" where
  "bucket_removed k s = s\<lparr>buckets := AList.delete k (buckets s),
     objects := AList.delete k (objects s),
     live_generations := AList.delete k (live_generations s),
     soft_deleted := AList.delete k (soft_deleted s)\<rparr>"

definition deletion_event :: "string \<Rightarrow> bucket \<Rightarrow> string \<Rightarrow> int \<Rightarrow> event" where
  "deletion_event k bk n g = (case bk_soft_delete bk of
     None \<Rightarrow> Object_deleted k n g | Some _ \<Rightarrow> Object_soft_deleted k n g)"

text \<open>A callback of \<open>do_update_object\<close> keeps the name and the generation of the object it is handed.\<close>

definition keeps_identity ::
    "string \<Rightarrow> (blob option \<Rightarrow> int option \<Rightarrow> ('a \<times> blob option) dbM) \<Rightarrow> bool" where
  "keeps_identity n f \<longleftrightarrow> (\<forall>b live s r b' s'. f (Some b) live s = (Inr (r, Some b'), s') \<longrightarrow> b_name b = n \<longrightarrow>
     b_name b' = b_name b \<and> b_generation b' = b_generation b)"

locale observer =
  fixes step :: "event \<Rightarrow> 'v \<Rightarrow> 'v" and view :: "db \<Rightarrow> 'v"
  assumes view_frame: "map_of (buckets s) = map_of (buckets t) \<Longrightarrow> objects s = objects t \<Longrightarrow>
        live_generations s = live_generations t \<Longrightarrow> view s = view t"
    and cleared: "buckets s = [] \<Longrightarrow> objects s = [] \<Longrightarrow> live_generations s = [] \<Longrightarrow>
        step Cleared v = view s"
    and added: "db_wf s \<Longrightarrow> map_of (buckets s) (bk_name bk) = None \<Longrightarrow>
        view (bucket_added bk s) = step (Bucket_inserted (bk_name bk)) (view s)"
    and removed: "db_wf s \<Longrightarrow> contents s k = Some (bk, os, [], sd) \<Longrightarrow>
        view (bucket_removed k s) = step (Bucket_deleted k) (view s)"
    and inserted: "db_wf s \<Longrightarrow> contents s k \<noteq> None \<Longrightarrow>
        view (after_insert k blob s)
          = step (Object_inserted k (b_name blob) (b_generation blob)) (view s)"
    and deleted: "db_wf s \<Longrightarrow> contents s k = Some (bk, os, ls, sd) \<Longrightarrow>
        map_of os (object_key n h) = Some blob \<Longrightarrow> was_live = (map_of ls n = Some h) \<Longrightarrow>
        view (after_delete clk k n bk blob was_live s) = step (deletion_event k bk n h) (view s)"
    and replaced: "db_wf s \<Longrightarrow> b_name b' = n \<Longrightarrow> b_generation b' = g \<Longrightarrow>
        view (upd_objects k (AList.map_entry (object_key n g) (\<lambda>_. b')) s) = view s"
    and bucket_replaced: "db_wf s \<Longrightarrow> map_of (buckets s) k \<noteq> None \<Longrightarrow>
        view (s\<lparr>buckets := AList.update k bk (buckets s)\<rparr>) = view s"
    and silent: "step (Object_purged k n g) v = v" "step (Object_updated k n g) v = v"
        "step (Bucket_updated k) v = v" "step (Upload_deleted k i) v = v"
        "step (Rewrite_deleted k i) v = v" "step (Folder_inserted i) v = v"
        "step (Folder_deleted i) v = v" "step (Folder_renamed i j) v = v"
begin

definition replay :: "event list \<Rightarrow> 'v" where
  "replay es = fold step es (view initial_db)"

definition synced :: "db \<Rightarrow> bool" where
  "synced s \<longleftrightarrow> db_wf s \<and> replay (events s) = view s"

lemma replay_snoc [simp]: "replay (es @ [e]) = step e (replay es)"
  by (simp add: replay_def)

lemma view_events [simp]: "view (s\<lparr>events := es\<rparr>) = view s"
  by (rule view_frame) simp_all

lemma view_soft [simp]: "view (upd_soft k h s) = view s"
  by (rule view_frame) (simp_all add: upd_soft_def)

lemma synced_initial: "synced initial_db"
proof -
  have "replay (events initial_db) = view initial_db"
    by (simp add: replay_def initial_db_def)
  then show ?thesis by (simp add: synced_def initial_db_wf)
qed

lemma synced_wf: "synced s \<Longrightarrow> db_wf s"
  by (simp add: synced_def)

lemma follows_silent:
  assumes "\<And>v. step e v = v"
  shows "keeps synced (notify e)"
  using assms by (simp add: keeps_def synced_def notify_app)

lemma follows_soft:
  assumes "\<And>sd. soft_ok sd \<Longrightarrow> soft_ok (h sd)"
  shows "keeps synced (modS (upd_soft k h))"
  using assms by (simp add: keeps_def synced_def wf_upd_soft)

lemma synced_insert:
  assumes "synced s" and "contents s k \<noteq> None"
  shows "synced (after_insert k blob s)"
proof -
  have "events (after_insert k blob s)
      = events s @ [Object_inserted k (b_name blob) (b_generation blob)]"
    by (simp add: after_insert_def)
  then show ?thesis
    using assms inserted [of s k blob] by (simp add: synced_def wf_after_insert)
qed

lemma follows_insert_object: "keeps synced (insert_object b blob c ps)"
proof (rule keepsI)
  fix s
  assume s: "synced s"
  show "synced (snd (insert_object b blob c ps s))"
  proof (cases "contents s (bucket_key b c)")
    case None
    then show ?thesis using s synced_wf [OF s] by (simp add: insert_object_no_bucket)
  next
    case (Some x)
    then obtain bk os ls sd where "contents s (bucket_key b c) = Some (bk, os, ls, sd)"
      by (cases x) auto
    then show ?thesis
      using s by (auto simp: insert_object_result synced_insert split: sum.splits)
  qed
qed

lemma follows_delete_object:
  assumes "decisive ps"
  shows "keeps synced (delete_object clk b n c g ps)"
proof (rule keepsI)
  fix s
  assume s: "synced s"
  note wf = synced_wf [OF s]
  show "synced (snd (delete_object clk b n c g ps s))"
  proof (cases rule: lookup_cases [of b n c "Some (Inr g)" ps True s])
    case (1 e)
    then show ?thesis using s by (simp add: delete_object_def bindM_def)
  next
    case (2 r)
    obtain bk os ls sd where c: "contents s (bucket_key b c) = Some (bk, os, ls, sd)" "objs_ok os"
      using lookup_contents [OF 2 wf] by metis
    obtain blob live where l: "lookup_object b n c (Some (Inr g)) ps True s = (Inr (Some blob, live), s)"
      using lookup_decisive [OF assms, of b n c _ s] 2 by (cases r) fastforce
    note f = lookup_found [OF l c(1)]
    have was: "(g = 0 \<or> live = Some g) = (map_of ls n = Some (wanted ls n g))"
      using f(2,4) by (auto simp: wanted_def)
    have id: "b_name blob = n" "b_generation blob = wanted ls n g"
      using found_identity [OF c(2) f(3)] by auto
    let ?t = "after_delete clk (bucket_key b c) n bk blob (map_of ls n = Some (wanted ls n g)) s"
    have "view ?t = step (deletion_event (bucket_key b c) bk n (wanted ls n g)) (view s)"
      using wf c(1) f(3) by (rule deleted) simp
    moreover have "events ?t
        = events s @ [deletion_event (bucket_key b c) bk n (wanted ls n g)]"
      by (cases "bk_soft_delete bk") (simp_all add: after_delete_def deletion_event_def id)
    moreover have "db_wf ?t"
      using wf c(1) f(3) by (rule wf_after_delete) simp
    ultimately have "synced ?t"
      using s by (simp add: synced_def)
    then show ?thesis
      using delete_object_found [OF l c(1)] was by simp
  qed
qed

lemma soft_ok_restored:
  assumes "soft_ok sd" and "b_name b' = n"
  shows "soft_ok (AList.map_entry n (update_first P (\<lambda>_. b')) sd)"
  using assms by (intro soft_ok_map_entry) (auto dest!: set_update_first)

lemma follows_remove_restored: "keeps synced (remove_restored_soft_deleted_object b n g c)"
proof (rule keepsI)
  fix s
  assume s: "synced s"
  let ?t = "snd (remove_restored_soft_deleted_object b n g c s)"
  have "db_wf ?t"
    using keeps_remove_restored synced_wf [OF s] by (rule keepsD)
  moreover have "\<exists>h. ?t = upd_soft (bucket_key b c) h s"
    by (auto simp: remove_restored_soft_deleted_object_def plain_steps split: option.splits
        intro: exI [of _ "\<lambda>sd. sd"])
  ultimately show "synced ?t"
    using s by (auto simp: synced_def)
qed

lemma replay_purged:
  "replay (es @ map (\<lambda>b. Object_purged k n (gen b)) bs) = replay es"
  by (induction bs rule: rev_induct) (simp_all add: silent flip: append_assoc)

lemma follows_remove_expired: "keeps synced (remove_expired_objects_from_soft_delete clk b n c)"
proof (rule keepsI)
  fix s
  assume s: "synced s"
  let ?t = "snd (remove_expired_objects_from_soft_delete clk b n c s)"
  have "db_wf ?t"
    using keeps_remove_expired synced_wf [OF s] by (rule keepsD)
  moreover have "?t = s \<or> (\<exists>h bs. ?t = (upd_soft (bucket_key b c) h s)\<lparr>events := events s
      @ map (\<lambda>x. Object_purged (bucket_key b c) n (b_generation x)) bs\<rparr>)"
    by (auto simp: remove_expired_objects_from_soft_delete_def plain_steps each_notify
        split: option.splits)
  ultimately show "synced ?t"
    using s by (auto simp: synced_def replay_purged)
qed

lemma follows_restore_found:
  "b_name old = n \<Longrightarrow> keeps synced (restore_found clk b n g ps c bk old)"
  unfolding restore_found_def Let_def
  by (intro keeps_seqM follows_soft soft_ok_restored follows_insert_object follows_remove_restored
      keeps_ret follows_silent silent) simp_all

lemma follows_restore_object: "keeps synced (restore_object clk b n g ps c)"
proof -
  have "keeps synced (bindM (get_soft_deleted_object b n g c) (restore_found clk b n g ps c bk))" for bk
    by (rule keeps_bindM_result [OF keeps_read [OF get_soft_deleted_state]])
      (metis get_soft_deleted_found synced_wf keepsD follows_restore_found)
  then have "keeps synced (if bk_soft_delete bk = None then raise (invalid ''SoftDeletePolicyRequired'' c)
      else bindM (get_bucket_for_object b c) (\<lambda>bucket.
        if map_of bucket (object_key n g) \<noteq> None then raise (not_soft_deleted c)
        else seqM (remove_expired_objects_from_soft_delete clk b n c)
          (bindM (get_soft_deleted_object b n g c) (restore_found clk b n g ps c bk))))" for bk
    by (intro keeps_if keeps_raise keeps_bindM [OF keeps_read [OF get_bucket_for_object_state]]
        keeps_seqM follows_remove_expired)
  then show ?thesis
    unfolding restore_object_def
    by (intro keeps_bindM [OF keeps_read [OF get_bucket_state]]) (simp split: option.split)
qed

lemma follows_insert_bucket: "keeps synced (insert_bucket validate bk c)"
proof (rule keepsI)
  fix s
  assume s: "synced s"
  let ?t = "snd (insert_bucket validate bk c s)"
  have wf: "db_wf ?t"
    using keeps_insert_bucket synced_wf [OF s] by (rule keepsD)
  show "synced ?t"
  proof (cases "validate (bk_name bk) c = Inr () \<and> map_of (buckets s) (bk_name bk) = None")
    case True
    then have "?t = (bucket_added bk s)\<lparr>events := events s @ [Bucket_inserted (bk_name bk)]\<rparr>"
      by (simp add: insert_bucket_def plain_steps bucket_added_def)
    then show ?thesis
      using s wf True added [of s bk] by (simp add: synced_def)
  next
    case False
    then have "?t = s"
      by (cases "validate (bk_name bk) c") (auto simp: insert_bucket_def plain_steps)
    then show ?thesis using s by simp
  qed
qed

lemma follows_delete_bucket: "keeps synced (delete_bucket b c ps)"
proof (rule keepsI)
  fix s
  assume s: "synced s"
  note wf = synced_wf [OF s]
  let ?t = "snd (delete_bucket b c ps s)"
  have wft: "db_wf ?t"
    using keeps_delete_bucket wf by (rule keepsD)
  have "?t = s \<or> (\<exists>k bk os sd. contents s k = Some (bk, os, [], sd)
      \<and> ?t = (bucket_removed k s)\<lparr>events := events s @ [Bucket_deleted k]\<rparr>)"
  proof (cases "get_bucket b c ps s")
    case (Pair r t)
    have t: "t = s" using get_bucket_state [of b c ps s] Pair by simp
    show ?thesis
    proof (cases r)
      case (Inl e)
      then show ?thesis using Pair t by (simp add: delete_bucket_def bindM_def)
    next
      case (Inr found)
      show ?thesis
      proof (cases found)
        case None
        then show ?thesis using Pair t Inr by (simp add: delete_bucket_def bindM_def)
      next
        case (Some bk)
        have bk: "map_of (buckets s) (bucket_key b c) = Some bk"
          using get_bucket_found [of b c ps s bk t] Pair Inr Some by simp
        then have name: "bk_name bk = bucket_key b c" by (rule bucket_name_key [OF wf])
        have "contents s (bucket_key b c) \<noteq> None"
          using wf bk by (simp add: db_wf_def aligned_contents)
        then obtain os ls sd where c: "contents s (bucket_key b c) = Some (bk, os, ls, sd)"
          using bk by (auto simp: contents_def split: option.splits)
        show ?thesis
          using Pair t Inr Some name c contents_SomeD [OF c]
          by (cases ls) (auto simp: delete_bucket_def plain_steps bucket_removed_def)
      qed
    qed
  qed
  then show "synced ?t"
    using s wft removed [OF wf] by (auto simp: synced_def)
qed

lemma follows_do_update_bucket:
  assumes "\<And>bk bk'. f bk = Inr bk' \<Longrightarrow> bk_name bk' = bk_name bk"
  shows "keeps synced (do_update_bucket b f c ps)"
proof (rule keepsI)
  fix s
  assume s: "synced s"
  let ?t = "snd (do_update_bucket b f c ps s)"
  have wft: "db_wf ?t"
    using keeps_do_update_bucket [of f, OF assms] synced_wf [OF s] by (rule keepsD)
  have "?t = s \<or> (\<exists>bk' e. map_of (buckets s) (bucket_key b c) \<noteq> None
      \<and> ?t = s\<lparr>buckets := AList.update (bucket_key b c) bk' (buckets s),
               events := events s @ [Bucket_updated e]\<rparr>)"
    by (auto simp: do_update_bucket_def get_bucket_def bindM_def seqM_def notify_app
        split: option.splits sum.splits)
  then show "synced ?t"
    using s wft bucket_replaced [OF synced_wf [OF s], of "bucket_key b c"]
    by (auto simp: synced_def silent)
qed

lemma follows_do_update_object:
  assumes callback: "\<And>blob live. keeps synced (f blob live)" and "keeps_identity n f"
  shows "keeps synced (do_update_object b n f c g ps req)"
proof (rule keepsI)
  fix s
  assume s: "synced s"
  note wf = synced_wf [OF s]
  show "synced (snd (do_update_object b n f c g ps req s))"
  proof (cases rule: lookup_cases [of b n c g ps req s])
    case (1 e)
    then show ?thesis using s by (simp add: do_update_object_def bindM_def)
  next
    case (2 r)
    obtain blob live where r: "r = (blob, live)" by force
    obtain res t where f: "f blob live s = (res, t)" by force
    then have t: "synced t" using keepsD [OF callback s, of blob live] by simp
    show ?thesis
    proof (cases res)
      case (Inl e)
      then show ?thesis using 2 r f t by (simp add: do_update_object_def bindM_def)
    next
      case (Inr y)
      obtain x b2 where y: "y = (x, b2)" by force
      show ?thesis
      proof (cases "blob = None \<or> b2 = None")
        case True
        then show ?thesis
          using 2 r f t Inr y
          by (auto simp: do_update_object_def bindM_def seqM_def split: option.splits)
      next
        case False
        then obtain b1 b' where b: "blob = Some b1" "b2 = Some b'" by auto
        obtain bk os ls sd where c: "contents s (bucket_key b c) = Some (bk, os, ls, sd)" "objs_ok os"
          using lookup_contents [OF 2 wf] by metis
        have "\<exists>h. map_of os (object_key n h) = Some b1"
          using 2 r b contents_SomeD [OF c(1)]
          by (auto simp: lookup_object_def get_bucket_for_object_def bindM_def Let_def
              split: option.splits sum.splits if_splits)
        then have "b_name b1 = n"
          using found_identity [OF c(2)] by blast
        moreover have "f (Some b1) live s = (Inr (x, Some b'), t)"
          using f Inr y b by simp
        ultimately have id: "b_name b' = n" "b_generation b' = b_generation b1"
          using assms(2) unfolding keeps_identity_def by metis+
        let ?u = "upd_objects (bucket_key b c) (AList.map_entry (object_key n (b_generation b1)) (\<lambda>_. b')) t"
        have "snd (do_update_object b n f c g ps req s)
            = ?u\<lparr>events := events t @ [Object_updated (bucket_key b c) (b_name b') (b_generation b')]\<rparr>"
          using 2 r f Inr y b by (simp add: do_update_object_def bindM_def seqM_def notify_app)
        then show ?thesis
          using t wf_replace_object [OF synced_wf [OF t] id] replaced [OF synced_wf [OF t] id]
          by (simp add: synced_def silent)
      qed
    qed
  qed
qed

text \<open>Steps that change neither buckets nor objects.\<close>

lemma synced_aside:
  assumes "synced s" and "db_wf t" and "buckets t = buckets s" and "objects t = objects s"
    and "live_generations t = live_generations s"
    and "events t = events s @ es" and "\<And>e v. e \<in> set es \<Longrightarrow> step e v = v"
  shows "synced t"
proof -
  have "replay (events s @ es) = replay (events s)" if "\<And>e v. e \<in> set es \<Longrightarrow> step e v = v"
    using that
  proof (induction es rule: rev_induct)
    case (snoc e es)
    have "replay (events s @ es @ [e]) = step e (replay (events s @ es))"
      using replay_snoc [of "events s @ es" e] by simp
    then show ?case using snoc by simp
  qed simp
  then show ?thesis
    using assms view_frame [of t s] by (simp add: synced_def)
qed

lemma follows_clear: "keeps synced clear"
proof (rule keepsI)
  fix s
  assume s: "synced s"
  have "db_wf (snd (clear s))"
    using keeps_clear synced_wf [OF s] by (rule keepsD)
  moreover have "replay (events (snd (clear s))) = view (snd (clear s))"
    using cleared [of "snd (clear s)"] by (simp add: clear_def seqM_def bindM_def notify_app)
  ultimately show "synced (snd (clear s))"
    by (simp add: synced_def)
qed

end

section \<open>The generations that exist\<close>

definition held_generations :: "db \<Rightarrow> string set \<times> (string \<times> string \<times> int) set" where
  "held_generations s = ({k. map_of (buckets s) k \<noteq> None},
     {(k, n, g). \<exists>os. map_of (objects s) k = Some os \<and> map_of os (object_key n g) \<noteq> None})"

fun generations_step ::
    "event \<Rightarrow> string set \<times> (string \<times> string \<times> int) set \<Rightarrow> string set \<times> (string \<times> string \<times> int) set"
  where
  "generations_step (Bucket_inserted k) (bs, gs) = (insert k bs, gs)"
| "generations_step (Bucket_deleted k) (bs, gs) = (bs - {k}, {x \<in> gs. fst x \<noteq> k})"
| "generations_step (Object_inserted k n g) (bs, gs) = (bs, insert (k, n, g) gs)"
| "generations_step (Object_deleted k n g) (bs, gs) = (bs, gs - {(k, n, g)})"
| "generations_step (Object_soft_deleted k n g) (bs, gs) = (bs, gs - {(k, n, g)})"
| "generations_step Cleared (bs, gs) = ({}, {})"
| "generations_step _ v = v"

lemma wf_aligned: "db_wf s \<Longrightarrow> aligned s k"
  by (simp add: db_wf_def)

lemma after_insert_maps:
  "buckets (after_insert k blob s) = buckets s"
  "map_of (objects (after_insert k blob s)) j = (if j = k
     then map_option (AList.update (object_key (b_name blob) (b_generation blob)) blob)
            (map_of (objects s) k) else map_of (objects s) j)"
  "map_of (live_generations (after_insert k blob s)) j = (if j = k
     then map_option (AList.update (b_name blob) (b_generation blob)) (map_of (live_generations s) k)
     else map_of (live_generations s) j)"
  by (simp_all add: after_insert_def upd_objects_def upd_live_def map_of_map_entry)

lemma after_delete_maps:
  "buckets (after_delete clk k n bk blob was s) = buckets s"
  "map_of (objects (after_delete clk k n bk blob was s)) j = (if j = k
     then map_option (AList.delete (object_key (b_name blob) (b_generation blob)))
            (map_of (objects s) k) else map_of (objects s) j)"
  "map_of (live_generations (after_delete clk k n bk blob was s)) j = (if j = k \<and> was
     then map_option (AList.delete n) (map_of (live_generations s) k)
     else map_of (live_generations s) j)"
  by (simp_all add: after_delete_def upd_objects_def upd_live_def upd_soft_def map_of_map_entry
      map_entry_id Let_def option.map_ident)

interpretation generations: observer generations_step held_generations
proof
  fix s t :: db
  assume "map_of (buckets s) = map_of (buckets t)" "objects s = objects t"
  then show "held_generations s = held_generations t" by (simp add: held_generations_def)
next
  fix s :: db and v
  assume "buckets s = []" "objects s = []"
  then show "generations_step Cleared v = held_generations s"
    by (cases v) (simp add: held_generations_def)
next
  fix s :: db and bk :: bucket
  assume "db_wf s" "map_of (buckets s) (bk_name bk) = None"
  then have "map_of (objects s) (bk_name bk) = None"
    using wf_aligned [of s "bk_name bk"] by (simp add: aligned_def)
  then show "held_generations (bucket_added bk s)
      = generations_step (Bucket_inserted (bk_name bk)) (held_generations s)"
    by (auto simp: held_generations_def bucket_added_def map_of_update_if split: if_splits)
next
  fix s k
  show "held_generations (bucket_removed k s) = generations_step (Bucket_deleted k) (held_generations s)"
    by (auto simp: held_generations_def bucket_removed_def map_of_delete_ne split: if_splits)
next
  fix s k and blob :: blob
  assume "contents s k \<noteq> None"
  then obtain os where "map_of (objects s) k = Some os"
    by (auto simp: contents_def split: option.splits)
  then show "held_generations (after_insert k blob s)
      = generations_step (Object_inserted k (b_name blob) (b_generation blob)) (held_generations s)"
    by (auto simp: held_generations_def after_insert_maps map_of_update_if object_key_inject
        split: if_splits)
next
  fix s k os ls sd n h blob was_live clk and bk :: bucket
  assume wf: "db_wf s" and c: "contents s k = Some (bk, os, ls, sd)"
    and blob: "map_of os (object_key n h) = Some blob"
  have "objs_ok os" using wf_contents [OF wf c] by (simp add: contents_ok_def)
  then have id: "b_name blob = n" "b_generation blob = h"
    using found_identity [OF _ blob] by auto
  show "held_generations (after_delete clk k n bk blob was_live s)
      = generations_step (deletion_event k bk n h) (held_generations s)"
    using contents_SomeD [OF c]
    by (cases "bk_soft_delete bk")
      (auto simp: held_generations_def after_delete_maps map_of_delete_ne deletion_event_def id
        object_key_inject split: if_splits)
next
  fix s :: db and n g k and b' :: blob
  show "held_generations (upd_objects k (AList.map_entry (object_key n g) (\<lambda>_. b')) s) = held_generations s"
    by (auto simp: held_generations_def upd_objects_def map_of_map_entry split: if_splits)
next
  fix s :: db and k and bk :: bucket
  assume "map_of (buckets s) k \<noteq> None"
  then show "held_generations (s\<lparr>buckets := AList.update k bk (buckets s)\<rparr>) = held_generations s"
    by (auto simp: held_generations_def map_of_update_if)
qed simp_all

section \<open>The generation that is live\<close>

definition live_view :: "db \<Rightarrow> string \<Rightarrow> string \<Rightarrow> int option" where
  "live_view s k n = (case map_of (live_generations s) k of None \<Rightarrow> None | Some ls \<Rightarrow> map_of ls n)"

fun live_step :: "event \<Rightarrow> (string \<Rightarrow> string \<Rightarrow> int option) \<Rightarrow> string \<Rightarrow> string \<Rightarrow> int option" where
  "live_step (Object_inserted k n g) v = v(k := (v k)(n := Some g))"
| "live_step (Object_deleted k n g) v = (if v k n = Some g then v(k := (v k)(n := None)) else v)"
| "live_step (Object_soft_deleted k n g) v =
     (if v k n = Some g then v(k := (v k)(n := None)) else v)"
| "live_step Cleared v = (\<lambda>_ _. None)"
| "live_step _ v = v"

interpretation live: observer live_step live_view
proof
  fix s t :: db
  assume "live_generations s = live_generations t"
  then show "live_view s = live_view t" by (simp add: live_view_def fun_eq_iff)
next
  fix s :: db and v
  assume "live_generations s = []"
  then show "live_step Cleared v = live_view s" by (simp add: live_view_def fun_eq_iff)
next
  fix s :: db and bk :: bucket
  assume "db_wf s" "map_of (buckets s) (bk_name bk) = None"
  then have "map_of (live_generations s) (bk_name bk) = None"
    using wf_aligned [of s "bk_name bk"] by (simp add: aligned_def)
  then show "live_view (bucket_added bk s) = live_step (Bucket_inserted (bk_name bk)) (live_view s)"
    by (auto simp: live_view_def bucket_added_def map_of_update_if fun_eq_iff)
next
  fix s k os sd and bk :: bucket
  assume "contents s k = Some (bk, os, [], sd)"
  then show "live_view (bucket_removed k s) = live_step (Bucket_deleted k) (live_view s)"
    by (auto simp: live_view_def bucket_removed_def map_of_delete_ne fun_eq_iff dest: contents_SomeD)
next
  fix s k and blob :: blob
  assume "contents s k \<noteq> None"
  then obtain ls where "map_of (live_generations s) k = Some ls"
    by (auto simp: contents_def split: option.splits)
  then show "live_view (after_insert k blob s)
      = live_step (Object_inserted k (b_name blob) (b_generation blob)) (live_view s)"
    by (auto simp: live_view_def after_insert_maps map_of_update_if fun_eq_iff)
next
  fix s k os ls sd n h blob was_live clk and bk :: bucket
  assume c: "contents s k = Some (bk, os, ls, sd)" and was: "was_live = (map_of ls n = Some h)"
  show "live_view (after_delete clk k n bk blob was_live s)
      = live_step (deletion_event k bk n h) (live_view s)"
    using contents_SomeD [OF c] was
    by (cases "bk_soft_delete bk")
      (auto simp: live_view_def after_delete_maps map_of_delete_ne deletion_event_def fun_eq_iff)
next
  fix s :: db and n g k and b' :: blob
  show "live_view (upd_objects k (AList.map_entry (object_key n g) (\<lambda>_. b')) s) = live_view s"
    by (simp add: live_view_def upd_objects_def fun_eq_iff)
qed (simp_all add: live_view_def fun_eq_iff)

end
