(* ===== verification/Database_Behaviour.thy ===== *)
theory Database_Behaviour
  imports Store_Mirror
begin

text \<open>
  What a client of the database observes: the results of inserting, reading, deleting,
  restoring and listing objects, on every branch, and the behaviours of
  \<open>src/testbench/database.py\<close> that differ from what its comments say.
\<close>

section \<open>Reading\<close>

lemma lookup_live:
  assumes "contents s (bucket_key b c) = Some (bk, os, ls, sd)"
    and "map_of ls n = Some h" and "map_of os (object_key n h) = Some blob"
    and "check_preconditions ps (Some (b_metageneration blob)) (Some h) c = Inr True"
    and "g = None \<or> g = Some (Inr 0)"
  shows "lookup_object b n c g ps req s = (Inr (Some blob, Some h), s)"
  using assms contents_SomeD [OF assms(1)]
  by (auto simp: lookup_object_def get_bucket_for_object_def bindM_def Let_def)

lemma lookup_generation:
  assumes "contents s (bucket_key b c) = Some (bk, os, ls, sd)" and "h \<noteq> 0"
    and "map_of os (object_key n h) = Some blob"
    and "check_preconditions ps (Some (b_metageneration blob)) (map_of ls n) c = Inr True"
  shows "lookup_object b n c (Some (Inr h)) ps req s = (Inr (Some blob, map_of ls n), s)"
  using assms contents_SomeD [OF assms(1)]
  by (auto simp: lookup_object_def get_bucket_for_object_def bindM_def Let_def)

lemma lookup_no_live:
  assumes "contents s (bucket_key b c) = Some (bk, os, ls, sd)" and "map_of ls n = None"
    and "g = None \<or> g = Some (Inr 0)"
  shows "lookup_object b n c g ps True s =
    (Inl (notfound (''Live version of object '' @ b @ ''/'' @ n) c), s)"
  using assms contents_SomeD [OF assms(1)]
  by (auto simp: lookup_object_def bindM_def Let_def)

lemma lookup_no_generation:
  assumes "contents s (bucket_key b c) = Some (bk, os, ls, sd)" and "h \<noteq> 0"
    and "map_of os (object_key n h) = None"
  shows "lookup_object b n c (Some (Inr h)) ps req s =
    (Inl (notfound (''Could not find object '' @ b @ ''/'' @ n @ ''#'' @ show_int h) c), s)"
  using assms contents_SomeD [OF assms(1)]
  by (auto simp: lookup_object_def get_bucket_for_object_def bindM_def Let_def)

lemma get_object_of_lookup:
  "lookup_object b n c g ps True s = (Inr (found, live), s) \<Longrightarrow>
     get_object b n c g ps False s = (Inr found, s)"
  "lookup_object b n c g ps True s = (Inl e, s) \<Longrightarrow> get_object b n c g ps False s = (Inl e, s)"
  by (simp_all add: get_object_def bindM_def)

section \<open>Inserting\<close>

lemma contents_after_insert:
  assumes "contents s k = Some (bk, os, ls, sd)"
  shows "contents (after_insert k blob s) k =
    Some (bk, AList.update (object_key (b_name blob) (b_generation blob)) blob os,
          AList.update (b_name blob) (b_generation blob) ls, sd)"
    and "j \<noteq> k \<Longrightarrow> contents (after_insert k blob s) j = contents s j"
  using assms by (simp_all add: after_insert_def contents_upd)

lemma insert_object_ok:
  assumes "insert_object b blob c ps s = (Inr (), t)" and "db_wf s" and "decisive ps"
  obtains bk os ls sd where "contents s (bucket_key b c) = Some (bk, os, ls, sd)"
    and "t = after_insert (bucket_key b c) blob s"
    and "check_preconditions ps (map_option b_metageneration (current_object os ls (b_name blob)))
           (map_of ls (b_name blob)) c = Inr True"
proof (cases "contents s (bucket_key b c)")
  case None
  then show ?thesis using assms(1,2) by (simp add: insert_object_no_bucket)
next
  case (Some x)
  then obtain bk os ls sd where c: "contents s (bucket_key b c) = Some (bk, os, ls, sd)"
    by (cases x) auto
  have "check_preconditions ps (map_option b_metageneration (current_object os ls (b_name blob)))
           (map_of ls (b_name blob)) c \<noteq> Inr False"
    using assms(3) by (rule check_decisive)
  then have "t = after_insert (bucket_key b c) blob s"
      "check_preconditions ps (map_option b_metageneration (current_object os ls (b_name blob)))
           (map_of ls (b_name blob)) c = Inr True"
    using assms(1) by (auto simp: insert_object_result [OF c] split: sum.splits)
  with c show ?thesis by (rule that)
qed

lemma insert_then_get:
  assumes "insert_object b blob c ps s = (Inr (), t)" and "db_wf s" and "decisive ps"
  shows "get_object b (b_name blob) c None [] False t = (Inr (Some blob), t)"
proof -
  obtain bk os ls sd where c: "contents s (bucket_key b c) = Some (bk, os, ls, sd)"
      "t = after_insert (bucket_key b c) blob s"
    by (rule insert_object_ok [OF assms(1) assms(2) assms(3)])
  have "lookup_object b (b_name blob) c None [] True t
      = (Inr (Some blob, Some (b_generation blob)), t)"
    using contents_after_insert(1) [OF c(1), of blob] c(2)
    by (intro lookup_live) (auto simp: map_of_update_if)
  then show ?thesis by (rule get_object_of_lookup)
qed

text \<open>The other generations, and the other objects, are left alone.\<close>

lemma insert_frame:
  assumes "insert_object b blob c ps s = (Inr (), t)" and "db_wf s" and "decisive ps"
    and "(n, g) \<noteq> (b_name blob, b_generation blob)" and "g \<noteq> 0"
  shows "fst (get_object b n c (Some (Inr g)) [] False t)
       = fst (get_object b n c (Some (Inr g)) [] False s)"
proof -
  obtain bk os ls sd where c: "contents s (bucket_key b c) = Some (bk, os, ls, sd)"
      "t = after_insert (bucket_key b c) blob s"
    by (rule insert_object_ok [OF assms(1) assms(2) assms(3)])
  note ct = contents_after_insert(1) [OF c(1), of blob, folded c(2)]
  have same: "map_of (AList.update (object_key (b_name blob) (b_generation blob)) blob os) (object_key n g)
      = map_of os (object_key n g)"
    using assms(4) by (auto simp: map_of_update_if object_key_inject)
  show ?thesis
  proof (cases "map_of os (object_key n g)")
    case None
    then show ?thesis
      using lookup_no_generation [OF c(1) assms(5) None, of "[]" True]
        lookup_no_generation [OF ct assms(5), of n "[]" True] same
      by (simp add: get_object_of_lookup(2))
  next
    case (Some x)
    then show ?thesis
      using lookup_generation [OF c(1) assms(5) Some, of "[]" True]
        lookup_generation [OF ct assms(5), of n x "[]" True] same
      by (simp add: get_object_of_lookup(1))
  qed
qed

section \<open>Deleting\<close>

lemma contents_after_delete:
  assumes "contents s k = Some (bk, os, ls, sd)"
  shows "contents (after_delete clk k n bk blob was s) k =
    Some (bk, AList.delete (object_key (b_name blob) (b_generation blob)) os,
          if was then AList.delete n ls else ls,
          case bk_soft_delete bk of None \<Rightarrow> sd
          | Some r \<Rightarrow> AList.update n (soft_list sd n @ [soft_deleted_blob clk r blob]) sd)"
  using assms contents_SomeD [OF assms]
  by (cases "bk_soft_delete bk") (simp_all add: after_delete_def contents_upd)

lemma delete_object_ok:
  assumes "delete_object clk b n c g ps s = (Inr (), t)" and "db_wf s" and "decisive ps"
  obtains bk os ls sd blob where "contents s (bucket_key b c) = Some (bk, os, ls, sd)"
    and "map_of os (object_key n (wanted ls n g)) = Some blob"
    and "b_name blob = n" and "b_generation blob = wanted ls n g"
    and "g = 0 \<Longrightarrow> map_of ls n \<noteq> None"
    and "t = after_delete clk (bucket_key b c) n bk blob (map_of ls n = Some (wanted ls n g)) s"
proof (cases rule: lookup_cases [of b n c "Some (Inr g)" ps True s])
  case (1 e)
  then show ?thesis using assms(1) by (simp add: delete_object_def bindM_def)
next
  case (2 r)
  obtain bk os ls sd where c: "contents s (bucket_key b c) = Some (bk, os, ls, sd)" "objs_ok os"
    using lookup_contents [OF 2 assms(2)] by metis
  obtain blob live where l: "lookup_object b n c (Some (Inr g)) ps True s = (Inr (Some blob, live), s)"
    using lookup_decisive [OF assms(3), of b n c _ s] 2 by (cases r) fastforce
  note f = lookup_found [OF l c(1)]
  have "(g = 0 \<or> live = Some g) = (map_of ls n = Some (wanted ls n g))"
    using f(2,4) by (auto simp: wanted_def)
  then show ?thesis
    using that [OF c(1) f(3) found_identity [OF c(2) f(3)]] f(2,4) assms(1)
      delete_object_found [OF l c(1), of clk] by simp
qed

lemma delete_then_get:
  assumes "delete_object clk b n c 0 ps s = (Inr (), t)" and "db_wf s" and "decisive ps"
  shows "fst (get_object b n c None qs False t)
       = Inl (notfound (''Live version of object '' @ b @ ''/'' @ n) c)"
proof -
  obtain bk os ls sd blob where c: "contents s (bucket_key b c) = Some (bk, os, ls, sd)"
      "map_of ls n \<noteq> None"
      "t = after_delete clk (bucket_key b c) n bk blob (map_of ls n = Some (wanted ls n 0)) s"
    using delete_object_ok [OF assms(1-3)] by metis
  have "map_of (if map_of ls n = Some (wanted ls n 0) then AList.delete n ls else ls) n = None"
    using c(2) by (auto simp: wanted_def map_of_delete_ne)
  then have "lookup_object b n c None qs True t
      = (Inl (notfound (''Live version of object '' @ b @ ''/'' @ n) c), t)"
    using contents_after_delete [OF c(1)] c(3) by (intro lookup_no_live) auto
  then show ?thesis by (simp add: get_object_of_lookup(2))
qed

lemma delete_generation_then_get:
  assumes "delete_object clk b n c g ps s = (Inr (), t)" and "db_wf s" and "decisive ps"
    and "g \<noteq> 0"
  shows "fst (get_object b n c (Some (Inr g)) qs False t)
       = Inl (notfound (''Could not find object '' @ b @ ''/'' @ n @ ''#'' @ show_int g) c)"
proof -
  obtain bk os ls sd blob where c: "contents s (bucket_key b c) = Some (bk, os, ls, sd)"
      "b_name blob = n" "b_generation blob = wanted ls n g"
      "t = after_delete clk (bucket_key b c) n bk blob (map_of ls n = Some (wanted ls n g)) s"
    using delete_object_ok [OF assms(1-3)] by metis
  have "map_of (AList.delete (object_key (b_name blob) (b_generation blob)) os) (object_key n g) = None"
    using c(2,3) assms(4) by (simp add: wanted_def map_of_delete_ne)
  then have "lookup_object b n c (Some (Inr g)) qs True t
      = (Inl (notfound (''Could not find object '' @ b @ ''/'' @ n @ ''#'' @ show_int g) c), t)"
    using contents_after_delete [OF c(1)] c(4) assms(4) by (intro lookup_no_generation) auto
  then show ?thesis by (simp add: get_object_of_lookup(2))
qed

text \<open>Deleting a generation that is not live leaves the live one in place.\<close>

lemma delete_noncurrent_keeps_live:
  assumes "delete_object clk b n c g ps s = (Inr (), t)" and "db_wf s" and "decisive ps"
    and "g \<noteq> 0" and "live_view s (bucket_key b c) n \<noteq> Some g"
  shows "live_view t (bucket_key b c) n = live_view s (bucket_key b c) n"
proof -
  obtain bk os ls sd blob where c: "contents s (bucket_key b c) = Some (bk, os, ls, sd)"
      "t = after_delete clk (bucket_key b c) n bk blob (map_of ls n = Some (wanted ls n g)) s"
    using delete_object_ok [OF assms(1-3)] by metis
  have "map_of ls n \<noteq> Some (wanted ls n g)"
    using assms(4,5) contents_SomeD [OF c(1)] by (auto simp: live_view_def wanted_def)
  then show ?thesis
    using c(2) by (simp add: live_view_def after_delete_maps)
qed

section \<open>Restoring\<close>

lemma remove_restored_result:
  assumes "contents s (bucket_key b c) = Some (bk, os, ls, sd)" and "map_of sd n = Some bs"
  shows "remove_restored_soft_deleted_object b n g c s =
    (Inr (), upd_soft (bucket_key b c) (AList.update n (filter (\<lambda>b. b_generation b = g) bs)) s)"
  using assms contents_SomeD [OF assms(1)]
  by (simp add: remove_restored_soft_deleted_object_def plain_steps)

lemma remove_expired_result:
  assumes "contents s (bucket_key b c) = Some (bk, os, ls, sd)" and "map_of sd n = Some bs"
  shows "remove_expired_objects_from_soft_delete clk b n c s =
    (Inr (), (upd_soft (bucket_key b c)
        (AList.update n (filter (\<lambda>b. now_local clk < hard_delete_time b) bs)) s)
      \<lparr>events := events s @ map (\<lambda>x. Object_purged (bucket_key b c) n (b_generation x))
         (filter (\<lambda>b. \<not> now_local clk < hard_delete_time b) bs)\<rparr>)"
  using assms contents_SomeD [OF assms(1)]
  by (simp add: remove_expired_objects_from_soft_delete_def plain_steps each_notify upd_soft_def)

lemma restored_generation: "b_generation (map_metadata (restored clk bk) b) = b_generation b + 1"
  by (simp add: b_generation_def restored_def Let_def)

text \<open>A restore whose preconditions hold makes the object live at the next generation, and
  leaves of the soft deleted generations of the name only those that still have the restored
  number; the restored one itself no longer has it.\<close>

lemma restore_found_ok:
  assumes "contents s (bucket_key b c) = Some (bk, os, ls, sd)" and "map_of sd n = Some bs"
    and "b_name old = n" and "b_generation old = g"
    and "check_preconditions ps (map_option b_metageneration (current_object os ls n))
           (map_of ls n) c = Inr True"
    and "blob = map_metadata (restored clk bk) old"
    and "bs' = update_first (\<lambda>b. b_generation b = g) (\<lambda>_. blob) bs"
  obtains t where "restore_found clk b n g ps c bk old s = (Inr blob, t)"
    and "contents t (bucket_key b c) =
      Some (bk, AList.update (object_key n (g + 1)) blob os, AList.update n (g + 1) ls,
            AList.update n (filter (\<lambda>b. b_generation b = g) bs')
              (AList.map_entry n (update_first (\<lambda>b. b_generation b = g) (\<lambda>_. blob)) sd))"
proof -
  let ?k = "bucket_key b c"
  let ?sd = "AList.map_entry n (update_first (\<lambda>b. b_generation b = g) (\<lambda>_. blob)) sd"
  let ?s1 = "upd_soft ?k (AList.map_entry n (update_first (\<lambda>b. b_generation b = g) (\<lambda>_. blob))) s"
  let ?s2 = "after_insert ?k blob ?s1"
  let ?s3 = "?s2\<lparr>events := events ?s2 @ [Object_purged ?k n g]\<rparr>"
  have blob: "b_name blob = n" "b_generation blob = g + 1"
    using assms(3,4,6) by (simp_all add: restored_generation)
  have c1: "contents ?s1 ?k = Some (bk, os, ls, ?sd)"
    using assms(1) by (simp add: contents_upd)
  have ins: "insert_object b blob c ps ?s1 = (Inr (), ?s2)"
    using insert_object_result [OF c1, of blob ps] assms(5) blob by simp
  have c3: "contents ?s3 ?k = Some (bk, AList.update (object_key n (g + 1)) blob os,
      AList.update n (g + 1) ls, ?sd)"
    using contents_after_insert(1) [OF c1, of blob] blob by simp
  have "map_of ?sd n = Some bs'"
    using assms(2,7) by (simp add: map_of_map_entry)
  note rem = remove_restored_result [OF c3 this, of g]
  have "restore_found clk b n g ps c bk old s = (Inr blob,
      upd_soft ?k (AList.update n (filter (\<lambda>b. b_generation b = g) bs')) ?s3)"
    unfolding restore_found_def Let_def assms(6) [symmetric]
    by (simp add: seqM_def bindM_def ins notify_app rem)
  then show ?thesis
    using that c3 by (simp add: contents_upd)
qed

lemma restore_object_found:
  assumes "contents s (bucket_key b c) = Some (bk, os, ls, sd)" and "bk_soft_delete bk \<noteq> None"
    and "map_of os (object_key n g) = None" and "map_of sd n = Some bs"
    and "live = filter (\<lambda>b. now_local clk < hard_delete_time b) bs"
    and "List.find (\<lambda>b. b_generation b = g) live = Some old"
  obtains s' where "restore_object clk b n g ps c s = restore_found clk b n g ps c bk old s'"
    and "contents s' (bucket_key b c) = Some (bk, os, ls, AList.update n live sd)"
proof -
  note cs = contents_SomeD [OF assms(1)]
  note exp = remove_expired_result [OF assms(1,4), of clk, folded assms(5)]
  let ?t = "snd (remove_expired_objects_from_soft_delete clk b n c s)"
  have ct: "contents ?t (bucket_key b c) = Some (bk, os, ls, AList.update n live sd)"
    using assms(1) by (simp add: exp contents_upd)
  have "get_soft_deleted_object b n g c ?t = (Inr old, ?t)"
    using contents_SomeD [OF ct] assms(6)
    by (simp add: get_soft_deleted_object_def getitem_def bindM_def soft_list_def map_of_update_if)
  then have "restore_object clk b n g ps c s = restore_found clk b n g ps c bk old ?t"
    using cs assms(2,3) exp
    by (cases "bk_soft_delete bk")
      (simp_all add: restore_object_def get_bucket_def get_bucket_for_object_def seqM_def bindM_def)
  then show ?thesis using ct by (rule that)
qed

lemma filter_key_absent: "f x \<notin> f ` set xs \<Longrightarrow> filter (\<lambda>y. f y = f x) xs = []"
  by (induction xs) auto

lemma update_first_none:
  assumes "distinct (map f xs)" and "f y \<noteq> g"
  shows "filter (\<lambda>x. f x = g) (update_first (\<lambda>x. f x = g) (\<lambda>_. y) xs) = []"
  using assms filter_key_absent [of f] by (induction xs) auto

lemma find_filter_set: "List.find P xs = Some x \<Longrightarrow> x \<in> set xs \<and> P x"
  by (auto simp: find_Some_iff)

text \<open>Restoring a soft deleted generation: the object is live again with its media, and no
  soft deleted generation of the name is left, whichever there were.\<close>

lemma restore_object_ok:
  assumes "contents s (bucket_key b c) = Some (bk, os, ls, sd)" and "bk_soft_delete bk \<noteq> None"
    and "soft_ok sd" and "map_of os (object_key n g) = None" and "map_of sd n = Some bs"
    and "distinct (map b_generation bs)"
    and "old \<in> set bs" and "b_generation old = g" and "now_local clk < hard_delete_time old"
    and "check_preconditions ps (map_option b_metageneration (current_object os ls n))
           (map_of ls n) c = Inr True"
    and "blob = map_metadata (restored clk bk) old"
  obtains t sd' where "restore_object clk b n g ps c s = (Inr blob, t)"
    and "contents t (bucket_key b c) = Some (bk, AList.update (object_key n (g + 1)) blob os,
           AList.update n (g + 1) ls, sd')"
    and "map_of sd' n = Some []" and "\<forall>m. m \<noteq> n \<longrightarrow> map_of sd' m = map_of sd m"
proof -
  let ?live = "filter (\<lambda>b. now_local clk < hard_delete_time b) bs"
  have dist: "distinct (map b_generation ?live)"
    using assms(6) by (rule distinct_map_filter)
  have old: "old \<in> set ?live" using assms(7,9) by simp
  obtain x where x: "List.find (\<lambda>b. b_generation b = g) ?live = Some x"
    using old assms(8) by (cases "List.find (\<lambda>b. b_generation b = g) ?live")
      (auto simp: find_None_iff)
  have "x = old"
    using find_filter_set [OF x] old assms(8) dist by (auto simp: distinct_map inj_on_def)
  note found = x [unfolded this]
  obtain s' where s': "restore_object clk b n g ps c s = restore_found clk b n g ps c bk old s'"
      "contents s' (bucket_key b c) = Some (bk, os, ls, AList.update n ?live sd)"
    using restore_object_found [OF assms(1,2,4,5) refl found] by metis
  have "b_name old = n" using assms(3,5,7) by (auto simp: soft_ok_def)
  then obtain t where t: "restore_found clk b n g ps c bk old s' = (Inr blob, t)"
      "contents t (bucket_key b c) = Some (bk, AList.update (object_key n (g + 1)) blob os,
        AList.update n (g + 1) ls,
        AList.update n (filter (\<lambda>b. b_generation b = g)
          (update_first (\<lambda>b. b_generation b = g) (\<lambda>_. blob) ?live))
         (AList.map_entry n (update_first (\<lambda>b. b_generation b = g) (\<lambda>_. blob))
           (AList.update n ?live sd)))"
    using restore_found_ok [OF s'(2) _ _ assms(8,10,11) refl, of ?live]
    by (metis map_of_update_if)
  have "filter (\<lambda>b. b_generation b = g)
      (update_first (\<lambda>b. b_generation b = g) (\<lambda>_. blob) ?live) = []"
    using assms(8,11) by (intro update_first_none [OF dist]) (simp add: restored_generation)
  then show ?thesis
    using that [OF s'(1) [unfolded t(1)] t(2)]
    by (simp add: map_of_update_if map_of_map_entry)
qed

lemma soft_deleted_none:
  assumes "contents t (bucket_key b c) = Some (bk, os, ls, sd)" and "map_of sd n = Some bs"
    and "List.find (\<lambda>b. b_generation b = h) bs = None"
  shows "get_soft_deleted_object b n h c t = (Inl (notfound n c), t)"
  using assms contents_SomeD [OF assms(1)]
  by (simp add: get_soft_deleted_object_def getitem_def bindM_def soft_list_def)

lemma get_live_of_contents:
  assumes "contents t (bucket_key b c) = Some (bk, os, ls, sd)"
    and "map_of ls n = Some h" and "map_of os (object_key n h) = Some blob"
  shows "get_object b n c None [] False t = (Inr (Some blob), t)"
proof -
  have "lookup_object b n c None [] True t = (Inr (Some blob, Some h), t)"
    using assms by (intro lookup_live) auto
  then show ?thesis by (rule get_object_of_lookup)
qed

lemma find_filter: "filter P xs = [x] \<Longrightarrow> List.find P xs = Some x"
  by (induction xs) (auto split: if_splits)

text \<open>Restoring changes the soft deleted object before the preconditions are checked.\<close>

lemma find_update_first:
  assumes "List.find P xs = Some x" and "\<not> P y" and "filter P xs = [x]"
  shows "List.find P (update_first P (\<lambda>_. y) xs) = None"
  using assms by (induction xs) (auto simp: find_None_iff filter_empty_conv split: if_splits)

lemma filter_unique:
  "distinct (map f xs) \<Longrightarrow> x \<in> set xs \<Longrightarrow> f x = g \<Longrightarrow> filter (\<lambda>y. f y = g) xs = [x]"
proof (induction xs)
  case (Cons a xs)
  then show ?case using filter_key_absent [of f a xs] by auto
qed simp

lemma restore_refused:
  assumes "contents s (bucket_key b c) = Some (bk, os, ls, sd)" and "bk_soft_delete bk \<noteq> None"
    and "soft_ok sd" and "map_of os (object_key n g) = None" and "map_of sd n = Some bs"
    and "distinct (map b_generation bs)"
    and "old \<in> set bs" and "b_generation old = g" and "now_local clk < hard_delete_time old"
    and "check_preconditions ps (map_option b_metageneration (current_object os ls n))
           (map_of ls n) c = Inl e"
  obtains t where "restore_object clk b n g ps c s = (Inl e, t)"
    and "get_soft_deleted_object b n g c t = (Inl (notfound n c), t)"
proof -
  let ?live = "filter (\<lambda>b. now_local clk < hard_delete_time b) bs"
  let ?P = "\<lambda>b. b_generation b = g"
  let ?blob = "map_metadata (restored clk bk) old"
  have dist: "distinct (map b_generation ?live)"
    using assms(6) by (rule distinct_map_filter)
  have only: "filter ?P ?live = [old]"
    using dist assms(7-9) by (intro filter_unique) auto
  then have found: "List.find ?P ?live = Some old"
    by (rule find_filter)
  obtain s' where s': "restore_object clk b n g ps c s = restore_found clk b n g ps c bk old s'"
      "contents s' (bucket_key b c) = Some (bk, os, ls, AList.update n ?live sd)"
    using restore_object_found [OF assms(1,2,4,5) refl found] by metis
  let ?t = "upd_soft (bucket_key b c) (AList.map_entry n (update_first ?P (\<lambda>_. ?blob))) s'"
  have ct: "contents ?t (bucket_key b c) = Some (bk, os, ls,
      AList.map_entry n (update_first ?P (\<lambda>_. ?blob)) (AList.update n ?live sd))"
    using s'(2) by (simp add: contents_upd)
  have "b_name ?blob = n" using assms(3,5,7) by (auto simp: soft_ok_def)
  then have "insert_object b ?blob c ps ?t = (Inl e, ?t)"
    using insert_object_result [OF ct, of ?blob ps] assms(10) by simp
  then have "restore_object clk b n g ps c s = (Inl e, ?t)"
    unfolding s'(1) restore_found_def Let_def by (simp add: seqM_def bindM_def)
  moreover have "List.find ?P (update_first ?P (\<lambda>_. ?blob) ?live) = None"
    using found only assms(8) by (intro find_update_first) (auto simp: restored_generation)
  then have "get_soft_deleted_object b n g c ?t = (Inl (notfound n c), ?t)"
    by (intro soft_deleted_none [OF ct]) (simp_all add: map_of_map_entry map_of_update_if)
  ultimately show ?thesis by (rule that)
qed

section \<open>Listing objects\<close>

text \<open>A listing without delimiter and glob, of the live objects.\<close>

definition in_range :: "list_args \<Rightarrow> string \<Rightarrow> bool" where
  "in_range a n \<longleftrightarrow> prefix (la_prefix a) n \<and> la_start_offset a \<le> n
     \<and> (la_end_offset a = [] \<or> n < la_end_offset a)"

definition plain_listing :: "list_args \<Rightarrow> bool" where
  "plain_listing a \<longleftrightarrow> \<not> la_soft_deleted a \<and> \<not> la_versions a \<and> la_delimiter a = []
     \<and> la_match_glob a = []"

lemma list_step_plain:
  "plain_listing a \<Longrightarrow> list_step glob a ls blob =
     (None, Some (b_generation blob) = map_of ls (b_name blob) \<and> in_range a (b_name blob))"
  by (auto simp: list_step_def plain_listing_def in_range_def find_from_0_iff not_le not_less Let_def)

lemma live_objects_distinct:
  assumes "objs_ok os"
  shows "distinct (map b_name (filter (\<lambda>x. Some (b_generation x) = map_of ls (b_name x)) (map snd os)))"
proof -
  have keys: "fst p = object_key (b_name (snd p)) (b_generation (snd p))" if "p \<in> set os" for p
    using assms that unfolding objs_ok_def by (metis map_of_is_SomeI prod.collapse)
  have "inj_on (\<lambda>p. b_name (snd p)) {p \<in> set os. Some (b_generation (snd p)) = map_of ls (b_name (snd p))}"
  proof (rule inj_onI)
    fix p q
    assume a: "p \<in> {p \<in> set os. Some (b_generation (snd p)) = map_of ls (b_name (snd p))}"
      "q \<in> {p \<in> set os. Some (b_generation (snd p)) = map_of ls (b_name (snd p))}"
      "b_name (snd p) = b_name (snd q)"
    then have "Some (b_generation (snd p)) = Some (b_generation (snd q))" by simp
    then have "fst p = fst q" using keys [of p] keys [of q] a by auto
    then show "p = q"
      using a(1,2) assms eq_key_imp_eq_value [of os "fst p" "snd p" "snd q"]
      by (cases p; cases q) (auto simp: objs_ok_def)
  qed
  moreover have "distinct os" using assms by (auto simp: objs_ok_def distinct_map)
  ultimately have "distinct (map (\<lambda>p. b_name (snd p))
      (filter (\<lambda>p. Some (b_generation (snd p)) = map_of ls (b_name (snd p))) os))"
    by (simp add: distinct_map)
  then show ?thesis by (simp add: filter_map comp_def)
qed

lemma list_object_plain:
  assumes "contents s (bucket_key b c) = Some (bk, os, ls, sd)" and "plain_listing a"
  shows "list_object glob a b c s = (Inr (sort_key om_name (map b_metadata
     (filter (\<lambda>x. Some (b_generation x) = map_of ls (b_name x) \<and> in_range a (b_name x))
        (map snd os))), []), s)"
  using contents_SomeD [OF assms(1)] assms(2) list_step_plain [OF assms(2)]
  by (simp add: list_object_def plain_steps plain_listing_def filter_map comp_def case_prod_unfold
      concat_eq_Nil_conv [THEN iffD2])

lemma live_objects_set:
  assumes "objs_ok os"
  shows "{x \<in> snd ` set os. Some (b_generation x) = map_of ls (b_name x) \<and> P (b_name x)}
    = {x. \<exists>n g. map_of ls n = Some g \<and> map_of os (object_key n g) = Some x \<and> P n}"
proof -
  have key: "map_of os (object_key (b_name (snd p)) (b_generation (snd p))) = Some (snd p)"
    if "p \<in> set os" for p
    using assms that unfolding objs_ok_def by (metis map_of_is_SomeI prod.collapse)
  show ?thesis
    using key found_identity [OF assms] by (auto dest: map_of_SomeD) (metis map_of_SomeD snd_conv image_eqI)+
qed

lemma distinct_map_sort_key: "distinct (map f (sort_key g xs)) = distinct (map f xs)"
  by (simp add: distinct_map)

lemma list_object_items:
  assumes "contents s (bucket_key b c) = Some (bk, os, ls, sd)" and "plain_listing a"
    and "objs_ok os" and "list_object glob a b c s = (Inr (items, pfs), t)"
  shows "sorted (map om_name items)" and "distinct (map om_name items)" and "pfs = []"
    and "set items = {b_metadata x | x. \<exists>n g. map_of ls n = Some g
           \<and> map_of os (object_key n g) = Some x \<and> in_range a n}"
proof -
  let ?xs = "filter (\<lambda>x. Some (b_generation x) = map_of ls (b_name x) \<and> in_range a (b_name x))
        (map snd os)"
  have items: "items = sort_key om_name (map b_metadata ?xs)" and p: "pfs = []"
    using list_object_plain [OF assms(1,2), of glob] assms(4) by simp_all
  show "sorted (map om_name items)" "pfs = []" using items p by simp_all
  have "?xs = filter (in_range a \<circ> b_name)
      (filter (\<lambda>x. Some (b_generation x) = map_of ls (b_name x)) (map snd os))"
    by (simp add: conj_commute)
  then have "distinct (map b_name ?xs)"
    using distinct_map_filter [OF live_objects_distinct [OF assms(3)]] by simp
  moreover have "map om_name (map b_metadata ?xs) = map b_name ?xs"
    by (simp add: b_name_def)
  ultimately have "distinct (map om_name (map b_metadata ?xs))"
    by (simp only:)
  then show "distinct (map om_name items)"
    unfolding items by (simp only: distinct_map_sort_key)
  show "set items = {b_metadata x | x. \<exists>n g. map_of ls n = Some g
           \<and> map_of os (object_key n g) = Some x \<and> in_range a n}"
    using live_objects_set [OF assms(3), of ls "in_range a"] unfolding items by auto
qed

text \<open>An operation that is refused changes nothing.\<close>

lemma insert_object_refused:
  "insert_object b blob c ps s = (Inl e, t) \<Longrightarrow> db_wf s \<Longrightarrow> t = s"
proof (cases "contents s (bucket_key b c)")
  case (Some x)
  obtain bk os ls sd where "contents s (bucket_key b c) = Some (bk, os, ls, sd)"
    using Some by (cases x) auto
  then show "insert_object b blob c ps s = (Inl e, t) \<Longrightarrow> t = s"
    by (auto simp: insert_object_result split: sum.splits)
qed (simp add: insert_object_no_bucket)

lemma delete_object_refused:
  assumes "delete_object clk b n c g ps s = (Inl e, t)" and "db_wf s" and "decisive ps"
  shows "t = s"
proof (cases rule: lookup_cases [of b n c "Some (Inr g)" ps True s])
  case (1 e')
  then show ?thesis using assms(1) by (simp add: delete_object_def bindM_def)
next
  case (2 r)
  obtain bk os ls sd where c: "contents s (bucket_key b c) = Some (bk, os, ls, sd)"
    using lookup_contents [OF 2 assms(2)] by metis
  obtain blob live where "lookup_object b n c (Some (Inr g)) ps True s = (Inr (Some blob, live), s)"
    using lookup_decisive [OF assms(3), of b n c _ s] 2 by (cases r) fastforce
  then show ?thesis
    using assms(1) delete_object_found [OF _ c] by simp
qed

end
