(* ===== verification/Fault_Handlers.thy ===== *)
theory Fault_Handlers
  imports Retry_Tests
begin

text \<open>
  \<open>src/testbench/common.py\<close>, lines 707 to 1144: what the servers do with the next
  instruction of a retry test.  Each handler runs on the retry tests of the database; the
  upload faults also run on the media of the upload, which is a pair of its bytes and its
  \<open>complete\<close> flag.
\<close>

section \<open>Broken and stalled downloads\<close>

text \<open>\<open>__get_streamer_response_fn\<close>: the chunks that reach the client, and whether the stream
  is broken after them (which also consumes the instruction).  The arguments are the chunk
  size, the limit and the bytes sent so far.\<close>

function streamer :: "nat \<Rightarrow> nat \<Rightarrow> nat \<Rightarrow> 'a list \<Rightarrow> 'a list list \<times> bool" where
  "streamer chunk_size limit bytes_yield d =
     (if d = [] \<or> chunk_size = 0 then ([], False)
      else if bytes_yield < limit
        then let chunk = take chunk_size d; bytes_yield = bytes_yield + length chunk
             in if limit \<le> bytes_yield then ([chunk], True)
                else let (cs, broken) = streamer chunk_size limit bytes_yield (drop chunk_size d)
                     in (chunk # cs, broken)
      else ([], True))"
  by pat_completeness auto
termination
  by (relation "measure (\<lambda>(_, _, _, d). length d)") auto

declare streamer.simps [simp del]

text \<open>\<open>__get_stream_and_stall_fn\<close>: the events of the response in order.\<close>

datatype 'a stream_event = Chunk "'a list" | Dequeue_and_sleep nat

function stall_streamer ::
    "nat \<Rightarrow> nat \<Rightarrow> nat \<Rightarrow> nat \<Rightarrow> bool \<Rightarrow> 'a list \<Rightarrow> 'a stream_event list" where
  "stall_streamer chunk_size limit stall_time bytes_yield dequeued d =
     (if d = [] \<or> chunk_size = 0 then []
      else let stall = limit \<le> bytes_yield \<and> \<not> dequeued;
               chunk = take chunk_size d
           in (if stall then [Dequeue_and_sleep stall_time] else [])
              @ Chunk chunk # stall_streamer chunk_size limit stall_time
                  (bytes_yield + length chunk) (dequeued \<or> stall) (drop chunk_size d))"
  by pat_completeness auto
termination
  by (relation "measure (\<lambda>(_, _, _, _, _, d). length d)") auto

declare stall_streamer.simps [simp del]

fun sent :: "'a stream_event list \<Rightarrow> 'a list" where
  "sent [] = []"
| "sent (Chunk c # es) = c @ sent es"
| "sent (Dequeue_and_sleep t # es) = sent es"

lemma sent_append [simp]: "sent (es @ fs) = sent es @ sent fs"
  by (induction es rule: sent.induct) auto

section \<open>The response handlers\<close>

datatype response_fn = Default_response
  | Broken_stream nat
  | Stall_stream nat nat
  | Short_response string nat

definition test_id_of :: "request \<Rightarrow> string option" where
  "test_id_of r = (case hget r ''x-retry-test-id'' of
     Some [] \<Rightarrow> None | found \<Rightarrow> found)"

definition first_group :: "regex \<Rightarrow> string option \<Rightarrow> string option" where
  "first_group expr instruction = (case instruction of
     None \<Rightarrow> None
   | Some i \<Rightarrow> (case re_match expr i of Some (g # _) \<Rightarrow> Some g | _ \<Rightarrow> None))"

definition two_groups :: "regex \<Rightarrow> string option \<Rightarrow> (nat \<times> nat) option" where
  "two_groups expr instruction = (case instruction of
     None \<Rightarrow> None
   | Some i \<Rightarrow> (case re_match expr i of
       Some [g, h] \<Rightarrow> (case (py_nat g, py_nat h) of (Some m, Some n) \<Rightarrow> Some (m, n) | _ \<Rightarrow> None)
     | _ \<Rightarrow> None))"

definition nat_group :: "regex \<Rightarrow> string option \<Rightarrow> nat option" where
  "nat_group expr instruction =
     (case first_group expr instruction of None \<Rightarrow> None | Some g \<Rightarrow> py_nat g)"

definition injected_dict :: "string \<Rightarrow> string" where
  "injected_dict msg = ''{'' @ [CHR 0x27] @ ''error'' @ [CHR 0x27] @ '': {'' @ [CHR 0x27]
     @ ''message'' @ [CHR 0x27] @ '': '' @ [CHR 0x27] @ msg @ [CHR 0x27] @ ''}}''"

definition handle_retry_test_instruction :: "request \<Rightarrow> string \<Rightarrow> response_fn retryM" where
  "handle_retry_test_instruction r m = (case test_id_of r of
     None \<Rightarrow> ret Default_response
   | Some test_id \<Rightarrow>
     bindM (has_instructions_retry_test test_id m ''HTTP'') (\<lambda>has.
     if \<not> has then ret Default_response else
     bindM (peek_next_instruction test_id m) (\<lambda>next.
     case first_group retry_return_error_code next of
       Some error_code \<Rightarrow>
         seqM (dequeue_next_instruction test_id m)
           (raise (generic (Error_dict (''Retry Test: Caused a '' @ error_code))
              (Code_text error_code) None Rest))
     | None \<Rightarrow>
     let conn = first_group retry_return_error_connection next;
         after = nat_group retry_return_broken_stream_after_bytes next;
         stall = two_groups retry_stall_after_bytes next;
         short = nat_group retry_return_short_response next
     in if conn = Some ''reset-connection'' then
          seqM (dequeue_next_instruction test_id m)
            (raise (Rest_exception
               (Text (''Injected '' @ [CHR 0x27] @ ''connection reset by peer'' @ [CHR 0x27]
                  @ '' fault'')) (Code 500)))
        else if conn = Some ''broken-stream'' then ret (Broken_stream 4)
        else if after \<noteq> None \<and> m = ''storage.objects.get''
          then ret (Broken_stream (the after * 1024))
        else if stall \<noteq> None \<and> m \<noteq> ''storage.objects.insert''
          then ret (Stall_stream (snd (the stall) * 1024) (fst (the stall)))
        else if short \<noteq> None \<and> m = ''storage.objects.insert''
          then (case aget r ''upload_id'' of
              Some (u # us) \<Rightarrow> ret (Short_response (u # us) (the short))
            | _ \<Rightarrow> ret Default_response)
        else ret Default_response)))"

definition grpc_handle_retry_test_instruction ::
    "ctx \<Rightarrow> string \<Rightarrow> unit retryM" where
  "grpc_handle_retry_test_instruction c m = (case get_retry_test_id_from_context c of
     None \<Rightarrow> ret ()
   | Some test_id \<Rightarrow>
     if test_id = [] then ret () else
     bindM (has_instructions_retry_test test_id m ''GRPC'') (\<lambda>has.
     if \<not> has then ret () else
     bindM (peek_next_instruction test_id m) (\<lambda>next.
     case first_group retry_return_error_if_dp_enforced next of
       Some rest_code \<Rightarrow>
         seqM (dequeue_next_instruction test_id m)
         (case get_context_request_params c of
            None \<Rightarrow> ret ()
          | Some params \<Rightarrow>
              if contains params ''force_direct_connectivity=ENFORCED''
              then let grpc_code = grpc_forced_failure rest_code
                   in raise (inject_error c (Code_text rest_code) grpc_code (injected_dict
                        (''DirectPath is enforced but failed to establish connection: ''
                         @ show_status grpc_code)))
              else ret ())
     | None \<Rightarrow>
     (case first_group retry_return_error_code next of
       Some rest_code \<Rightarrow>
         seqM (dequeue_next_instruction test_id m)
         (let grpc_code = grpc_forced_failure rest_code
          in raise (inject_error c (Code_text rest_code) grpc_code
               (injected_dict (''Retry Test: Caused a '' @ show_status grpc_code))))
     | None \<Rightarrow>
     if first_group retry_return_error_connection next = Some ''reset-connection'' then
       seqM (dequeue_next_instruction test_id m)
         (raise (Grpc_abort (Some UNAVAILABLE)
            (Text (''Injected '' @ [CHR 0x27] @ ''socket closed, connection reset by peer''
               @ [CHR 0x27] @ '' fault''))))
     else ret ()))))"

text \<open>\<open>_get_grpc_instruction_match\<close> and the four getters of redirection tokens.\<close>

definition get_grpc_instruction_match ::
    "ctx \<Rightarrow> string \<Rightarrow> regex \<Rightarrow> bool \<Rightarrow> string option retryM" where
  "get_grpc_instruction_match c m rexp dequeue = (case get_retry_test_id_from_context c of
     None \<Rightarrow> ret None
   | Some test_id \<Rightarrow>
     if test_id = [] then ret None else
     bindM (has_instructions_retry_test test_id m ''GRPC'') (\<lambda>has.
     if \<not> has then ret None else
     bindM (peek_next_instruction test_id m) (\<lambda>next.
     case first_group rexp next of
       None \<Rightarrow> ret None
     | Some g \<Rightarrow> seqM (if dequeue then seqM (dequeue_next_instruction test_id m) (ret ())
                        else ret ()) (ret (Some g)))))"

definition get_return_redirect_token :: "ctx \<Rightarrow> string option retryM" where
  "get_return_redirect_token c = get_grpc_instruction_match c ''storage.objects.insert''
     retry_return_redirection_token True"

definition get_return_write_handle_and_redirect_token :: "ctx \<Rightarrow> string option retryM" where
  "get_return_write_handle_and_redirect_token c =
     get_grpc_instruction_match c ''storage.objects.insert''
       retry_return_handle_and_redirection_token True"

definition get_return_read_handle_and_redirect_token :: "ctx \<Rightarrow> string option retryM" where
  "get_return_read_handle_and_redirect_token c =
     get_grpc_instruction_match c ''storage.objects.get''
       retry_return_handle_and_redirection_token True"

definition get_expect_redirect_token :: "ctx \<Rightarrow> string option retryM" where
  "get_expect_redirect_token c = get_grpc_instruction_match c ''storage.objects.insert''
     retry_expect_redirection_token False"

definition get_broken_stream_after_bytes :: "string \<Rightarrow> nat" where
  "get_broken_stream_after_bytes instruction =
     (case nat_group retry_return_broken_stream_after_bytes (Some instruction) of
        Some k \<Rightarrow> k * 1024
      | None \<Rightarrow> if first_group retry_return_error_connection (Some instruction)
                   = Some ''broken-stream'' then 4 else 0)"

section \<open>Faults of uploads\<close>

definition upload_instruction ::
    "string option \<Rightarrow> string \<Rightarrow> regex \<Rightarrow> (nat \<times> nat \<times> string) retryM" where
  "upload_instruction test_id tr expr = (case test_id of
     None \<Rightarrow> ret (0, 0, [])
   | Some i \<Rightarrow>
     if i = [] then ret (0, 0, []) else
     bindM (has_instructions_retry_test i ''storage.objects.insert'' tr) (\<lambda>has.
     if \<not> has then ret (0, 0, []) else
     bindM (peek_next_instruction i ''storage.objects.insert'') (\<lambda>next.
     case two_groups expr next of
       Some (n, k) \<Rightarrow> ret (n, k * 1024, i)
     | None \<Rightarrow> ret (0, 0, []))))"

definition get_stall_uploads_after_bytes ::
    "request \<Rightarrow> string \<Rightarrow> (nat \<times> nat \<times> string) retryM" where
  "get_stall_uploads_after_bytes r tr =
     upload_instruction (hget r ''x-retry-test-id'') tr retry_stall_after_bytes"

definition get_retry_uploads_error_after_bytes ::
    "request \<Rightarrow> ctx \<Rightarrow> string \<Rightarrow> (nat \<times> nat \<times> string) retryM" where
  "get_retry_uploads_error_after_bytes r c tr =
     upload_instruction
       (if c = Rest then hget r ''x-retry-test-id'' else get_retry_test_id_from_context c)
       tr retry_return_error_after_bytes"

type_synonym upload_media = "bytes \<times> bool"

definition on_retry :: "'a retryM \<Rightarrow> (err, retry_db \<times> upload_media, 'a) pym" where
  "on_retry step s = (case step (fst s) of (r, db) \<Rightarrow> (r, (db, snd s)))"

text \<open>Whether the request stalls is the result.\<close>

definition handle_stall_uploads_after_bytes ::
    "bytes \<Rightarrow> nat \<Rightarrow> string \<Rightarrow> (err, retry_db \<times> upload_media, bool) pym" where
  "handle_stall_uploads_after_bytes data after_bytes test_id =
     bindM (getS (\<lambda>s. length (fst (snd s)))) (\<lambda>size.
     if size \<le> after_bytes \<and> after_bytes < size + length data then
       (if test_id \<noteq> [] then
          seqM (on_retry (dequeue_next_instruction test_id ''storage.objects.insert'')) (ret True)
        else ret True)
     else ret False)"

definition handle_retry_uploads_error_after_bytes ::
    "bytes \<Rightarrow> nat \<Rightarrow> int \<Rightarrow> int \<Rightarrow> int \<Rightarrow> int \<Rightarrow> string
       \<Rightarrow> (err, retry_db \<times> upload_media, unit) pym" where
  "handle_retry_uploads_error_after_bytes data error_code after_bytes last_byte_persisted
       chunk_first_byte chunk_last_byte test_id =
     seqM
     (if last_byte_persisted < after_bytes \<and> after_bytes \<le> chunk_last_byte + 1 then
        let range_start =
              if last_byte_persisted \<noteq> 0 \<and> chunk_first_byte \<le> last_byte_persisted
              then last_byte_persisted - chunk_first_byte + 1 else 0;
            range_end =
              if after_bytes \<le> chunk_last_byte
              then int (length data) - (chunk_last_byte - after_bytes + 1)
              else int (length data);
            part = partial_media data range_end range_start
        in modS (\<lambda>(db, media, _). (db, media @ part, False))
      else ret ())
     (bindM (getS (\<lambda>s. int (length (fst (snd s))))) (\<lambda>size.
      if after_bytes \<le> size then
        seqM (if test_id \<noteq> [] then
                seqM (on_retry (dequeue_next_instruction test_id ''storage.objects.insert''))
                  (ret ())
              else ret ())
          (raise (generic (Text ''Fault injected during a resumable upload'')
             (Code (int error_code)) None Rest))
      else ret ()))"

definition handle_grpc_retry_uploads_error_after_bytes ::
    "ctx \<Rightarrow> bytes \<Rightarrow> nat \<Rightarrow> nat \<Rightarrow> string \<Rightarrow> (err, retry_db \<times> upload_media, unit) pym" where
  "handle_grpc_retry_uploads_error_after_bytes c data rest_code after_bytes test_id =
     bindM (getS (\<lambda>s. length (fst (snd s)))) (\<lambda>size.
     if size < after_bytes \<and> after_bytes \<le> size + length data then
       seqM (modS (\<lambda>(db, media, complete).
               (db, media @ partial_media data (int (after_bytes - size)) 0, complete)))
       (seqM (on_retry (dequeue_next_instruction test_id ''storage.objects.insert''))
       (let grpc_code = grpc_forced_failure (show_nat rest_code)
        in raise (inject_error c (Code (int rest_code)) grpc_code
             (injected_dict (''Retry Test: Caused a '' @ show_status grpc_code)))))
     else ret ())"

section \<open>What a faulty download delivers\<close>

lemma streamer_aux:
  assumes "0 < chunk_size" and "y < limit" and "chunk_size dvd limit - y"
  shows "concat (fst (streamer chunk_size limit y d)) = take (limit - y) d
    \<and> snd (streamer chunk_size limit y d) = (limit - y \<le> length d)"
  using assms
proof (induction chunk_size limit y d rule: streamer.induct)
  case (1 chunk_size limit y d)
  let ?y = "y + min (length d) chunk_size"
  have le: "chunk_size \<le> limit - y"
    using "1.prems" by (simp add: dvd_imp_le)
  consider (empty) "d = []" | (last) "d \<noteq> []" "limit \<le> ?y" | (more) "d \<noteq> []" "?y < limit"
    by linarith
  then show ?case
  proof cases
    case empty
    then show ?thesis using "1.prems" by (simp add: streamer.simps [of _ _ _ "[]"])
  next
    case last
    then have "limit - y = chunk_size \<and> chunk_size \<le> length d"
      using le "1.prems"(2) by (simp add: min_def split: if_splits; linarith)
    then show ?thesis
      using last "1.prems" by (auto simp: streamer.simps [of _ _ _ d])
  next
    case more
    show ?thesis
    proof (cases "length d \<le> chunk_size")
      case True
      then show ?thesis
        using more "1.prems" le by (auto simp: streamer.simps [of _ _ _ d] streamer.simps [of _ _ _ "[]"])
    next
      case False
      then have y: "?y = y + chunk_size" by simp
      have "chunk_size dvd limit - y - chunk_size"
        using "1.prems" by (metis dvd_diff_nat dvd_refl)
      moreover have "limit - ?y = limit - y - chunk_size"
        using y by simp
      ultimately have IH: "concat (fst (streamer chunk_size limit ?y (drop chunk_size d)))
            = take (limit - y - chunk_size) (drop chunk_size d)
          \<and> snd (streamer chunk_size limit ?y (drop chunk_size d))
            = (limit - y - chunk_size \<le> length (drop chunk_size d))"
        using "1.IH" [of "take chunk_size d" ?y] more "1.prems" by (simp add: min_def)
      have "take (limit - y) d = take chunk_size d @ take (limit - y - chunk_size) (drop chunk_size d)"
        using le "1.prems"(2) take_add [of chunk_size "limit - y - chunk_size" d]
        by (metis le_add_diff_inverse)
      then show ?thesis
        using more "1.prems" IH False le
        by (auto simp: streamer.simps [of _ _ _ d] Let_def min_def split: prod.splits)
    qed
  qed
qed

lemma streamer_spec:
  assumes "0 < chunk_size" and "chunk_size dvd limit"
  shows "concat (fst (streamer chunk_size limit 0 d)) = take limit d"
    and "snd (streamer chunk_size limit 0 d) \<longleftrightarrow> d \<noteq> [] \<and> limit \<le> length d"
  using assms streamer_aux [of chunk_size 0 limit d]
  by (cases "limit = 0"; auto simp: streamer.simps [of _ 0])+

lemma sent_stall_streamer:
  "0 < chunk_size \<Longrightarrow> sent (stall_streamer chunk_size limit t y dq d) = d"
proof (induction chunk_size limit t y dq d rule: stall_streamer.induct)
  case (1 chunk_size limit t y dq d)
  then show ?case
    by (subst stall_streamer.simps) (auto simp: Let_def)
qed

section \<open>How instructions are consumed\<close>

text \<open>A handler takes at most one instruction, and only from the queue it was called for.\<close>

definition consumes_at_most_one :: "string \<Rightarrow> string \<Rightarrow> retry_db \<Rightarrow> retry_db \<Rightarrow> bool" where
  "consumes_at_most_one i m db db' \<longleftrightarrow>
     (queue db' i m = queue db i m \<or> queue db' i m = tl (queue db i m))
   \<and> (\<forall>j n. (j, n) \<noteq> (i, m) \<longrightarrow> queue db' j n = queue db j n)"

lemma has_instructions_known:
  assumes "map_of (retry_tests db) i = Some rt"
  shows "has_instructions_retry_test i m tr db =
    (Inr (queue db i m \<noteq> [] \<and> py_upper (py_upper (transport rt)) = py_upper tr), db)"
  using assms
  by (simp add: has_instructions_retry_test_def bindM_result(1) [OF get_retry_test_known]
      queue_def) (simp add: to_serializeable_retry_test_def)

lemma peek_queue:
  "map_of (retry_tests db) i = Some rt \<Longrightarrow>
     peek_next_instruction i m db = (Inr (peek_list (queue db i m)), db)"
  by (simp add: rq.peek_spec known_def)

text \<open>Taking one instruction: the state after \<open>dequeue_next_instruction\<close>.\<close>

definition dequeued :: "string \<Rightarrow> string \<Rightarrow> retry_db \<Rightarrow> retry_db" where
  "dequeued i m db = snd (dequeue_next_instruction i m db)"

lemma dequeue_queue:
  "map_of (retry_tests db) i = Some rt \<Longrightarrow>
     dequeue_next_instruction i m db = (Inr (peek_list (queue db i m)), dequeued i m db)"
  by (metis dequeued_def known_def option.distinct(1) rq.deq_app)

lemma queue_dequeued:
  "map_of (retry_tests db) i = Some rt \<Longrightarrow>
     queue (dequeued i m db) j n = (if j = i \<and> n = m then tl (queue db i m) else queue db j n)"
  by (simp add: dequeued_def known_def rq.deq_queue)

lemma consumes_refl [simp]: "consumes_at_most_one i m db db"
  by (simp add: consumes_at_most_one_def)

lemma consumes_dequeued [simp]:
  "map_of (retry_tests db) i = Some rt \<Longrightarrow> consumes_at_most_one i m db (dequeued i m db)"
  by (auto simp: consumes_at_most_one_def queue_dequeued)

lemmas handler_steps = seqM_def bindM_def has_instructions_known peek_queue dequeue_queue

lemma has_unknown:
  "map_of (retry_tests db) i = None \<Longrightarrow> has_instructions_retry_test i m tr db
     = (Inl (notfound (''Retry Test '' @ i) Rest), db)"
  by (simp add: has_instructions_retry_test_def bindM_result(2) [OF get_retry_test_unknown])

lemma handle_retry_consumes:
  "test_id_of r = Some i \<Longrightarrow> consumes_at_most_one i m db (snd (handle_retry_test_instruction r m db))"
  by (cases "map_of (retry_tests db) i")
    (auto simp: handle_retry_test_instruction_def handler_steps has_unknown Let_def
      split: option.splits list.splits)

lemma grpc_handle_retry_consumes:
  assumes "get_retry_test_id_from_context c = Some i"
  shows "consumes_at_most_one i m db (snd (grpc_handle_retry_test_instruction c m db))"
  using assms
  by (cases "map_of (retry_tests db) i")
    (auto simp: grpc_handle_retry_test_instruction_def handler_steps has_unknown Let_def
      split: option.splits list.splits)

lemma grpc_match_consumes:
  assumes "get_retry_test_id_from_context c = Some i"
  shows "consumes_at_most_one i m db (snd (get_grpc_instruction_match c m rexp dq db))"
  using assms
  by (cases "map_of (retry_tests db) i")
    (auto simp: get_grpc_instruction_match_def handler_steps has_unknown
      split: option.splits list.splits)

section \<open>Injected status codes\<close>

lemma first_group_error_code:
  assumes "\<forall>c \<in> set w. is_digit c" and "w \<noteq> []"
  shows "first_group retry_return_error_code (Some (''return-'' @ w)) = Some w"
  using re_match_lit_run [OF assms, of "''return-''"]
  by (simp add: first_group_def retry_return_error_code_def)

lemma dp_enforced_no_match:
  assumes "\<forall>c \<in> set w. is_digit c"
  shows "first_group retry_return_error_if_dp_enforced (Some (''return-'' @ w)) = None"
proof -
  have "\<not> prefix ''-if-dp-enforced'' (drop k w)" for k
  proof
    assume "prefix ''-if-dp-enforced'' (drop k w)"
    then have "CHR ''-'' \<in> set (drop k w)"
      by (auto simp: prefix_def)
    then have "CHR ''-'' \<in> set w"
      by (rule in_set_dropD)
    then show False using assms by auto
  qed
  then have "rmatch retry_return_error_if_dp_enforced True (''return-'' @ w) = []"
    by (simp add: retry_return_error_if_dp_enforced_def rmatch_lit digits_def del: lit.simps)
  then show ?thesis by (simp add: first_group_def re_match_def)
qed

lemma rest_error_instruction:
  assumes "test_id_of r = Some i" and "map_of (retry_tests db) i = Some rt"
    and "transport rt = ''HTTP''" and "queue db i m = (''return-'' @ w) # rest"
    and "\<forall>c \<in> set w. is_digit c" and "w \<noteq> []"
  shows "handle_retry_test_instruction r m db =
    (Inl (Rest_exception (Error_dict (''Retry Test: Caused a '' @ w)) (Code_text w)),
     dequeued i m db)"
proof -
  have "py_upper ''HTTP'' = ''HTTP''"
    by (simp add: py_upper_def to_upper_def py_ord_def is_lower_az_def)
  then show ?thesis
    using assms first_group_error_code [OF assms(5,6)]
    by (simp add: handle_retry_test_instruction_def handler_steps generic_def)
qed

lemma grpc_error_instruction:
  assumes "get_retry_test_id_from_context (Grpc md) = Some i" and "i \<noteq> []"
    and "map_of (retry_tests db) i = Some rt" and "transport rt = ''GRPC''"
    and "queue db i m = (''return-'' @ w) # rest"
    and "\<forall>c \<in> set w. is_digit c" and "w \<noteq> []"
  shows "fst (grpc_handle_retry_test_instruction (Grpc md) m db) =
      Inl (inject_error (Grpc md) (Code_text w) (grpc_forced_failure w)
             (injected_dict (''Retry Test: Caused a '' @ show_status (grpc_forced_failure w))))"
    and "snd (grpc_handle_retry_test_instruction (Grpc md) m db) = dequeued i m db"
proof -
  have up: "py_upper ''GRPC'' = ''GRPC''"
    by (simp add: py_upper_def to_upper_def py_ord_def is_lower_az_def)
  note facts = assms up first_group_error_code [OF assms(6,7)] dp_enforced_no_match [OF assms(6)]
  show "fst (grpc_handle_retry_test_instruction (Grpc md) m db) =
      Inl (inject_error (Grpc md) (Code_text w) (grpc_forced_failure w)
             (injected_dict (''Retry Test: Caused a '' @ show_status (grpc_forced_failure w))))"
    using facts by (simp add: grpc_handle_retry_test_instruction_def handler_steps Let_def)
  show "snd (grpc_handle_retry_test_instruction (Grpc md) m db) = dequeued i m db"
    using facts by (simp add: grpc_handle_retry_test_instruction_def handler_steps Let_def)
qed

text \<open>A gRPC upload fault persists exactly the bytes before the offset of the instruction.\<close>

lemma grpc_upload_fault:
  assumes "map_of (retry_tests db) i = Some rt"
    and "length media < after_bytes" and "after_bytes \<le> length media + length data"
  shows "snd (handle_grpc_retry_uploads_error_after_bytes c data rest_code after_bytes i
            (db, media, complete)) =
      (dequeued i ''storage.objects.insert'' db, take after_bytes (media @ data), complete)"
    and "\<exists>e. fst (handle_grpc_retry_uploads_error_after_bytes c data rest_code after_bytes i
            (db, media, complete)) = Inl e"
proof -
  have "partial_media data (int (after_bytes - length media)) 0 = take (after_bytes - length media) data"
    by (simp add: partial_media_def py_slice_nonneg)
  then show "snd (handle_grpc_retry_uploads_error_after_bytes c data rest_code after_bytes i
            (db, media, complete)) =
      (dequeued i ''storage.objects.insert'' db, take after_bytes (media @ data), complete)"
    using assms
    by (simp add: handle_grpc_retry_uploads_error_after_bytes_def on_retry_def handler_steps Let_def)
  show "\<exists>e. fst (handle_grpc_retry_uploads_error_after_bytes c data rest_code after_bytes i
            (db, media, complete)) = Inl e"
    using assms
    by (simp add: handle_grpc_retry_uploads_error_after_bytes_def on_retry_def handler_steps Let_def)
qed

lemma grpc_upload_no_fault:
  assumes "after_bytes \<le> length media \<or> length media + length data < after_bytes"
  shows "handle_grpc_retry_uploads_error_after_bytes c data rest_code after_bytes i
            (db, media, complete) = (Inr (), db, media, complete)"
  using assms by (auto simp: handle_grpc_retry_uploads_error_after_bytes_def)

section \<open>Properties\<close>

text \<open>The retry test that the witnesses use: two instructions for uploads and one for downloads,
  over a transport.\<close>

definition sample_retry :: "string \<Rightarrow> string list \<Rightarrow> retry_db" where
  "sample_retry tr q = \<lparr>retry_tests = [(''id1'', \<lparr>rt_id = ''id1'',
     instructions = [(''storage.objects.get'', [''return-503'']),
       (''storage.objects.insert'', q)], completed = False, transport = tr\<rparr>)],
     supported_methods = [''storage.objects.get'', ''storage.objects.insert'']\<rparr>"

definition sample_test :: "string \<Rightarrow> string list \<Rightarrow> retry_test" where
  "sample_test tr q = the (map_of (retry_tests (sample_retry tr q)) ''id1'')"

definition sample_request :: request where
  "sample_request = \<lparr>args = [], headers = [(''x-retry-test-id'', ''id1'')], environ = [],
     verb = ''GET''\<rparr>"

text \<open>C30: The instructions of a method of a retry test are handed out once each and in the order
  in which they were given; taking k of them leaves the rest, and the queues of the other methods
  and the other tests, as they were; when they are used up, none is handed out.\<close>

theorem instructions_are_fifo:
  assumes "known db i"
  shows "\<exists>db'. repeatM k (dequeue_next_instruction i m) db =
       (Inr (map Some (take k (queue db i m)) @ replicate (k - length (queue db i m)) None), db')
     \<and> (\<forall>j n. queue db' j n = (if j = i \<and> n = m then drop k (queue db i m) else queue db j n))
     \<and> (\<forall>j. known db' j = known db j)"
  using assms by (rule rq.drain)

theorem instructions_are_fifo_witness:
  "\<exists>db'. repeatM 3 (dequeue_next_instruction ''id1'' ''storage.objects.insert'')
         (sample_retry ''HTTP'' [''return-503'', ''return-504'']) =
       (Inr [Some ''return-503'', Some ''return-504'', None], db')"
proof -
  let ?db = "sample_retry ''HTTP'' [''return-503'', ''return-504'']"
  have "known ?db ''id1''" by (simp add: known_def sample_retry_def)
  moreover have "queue ?db ''id1'' ''storage.objects.insert'' = [''return-503'', ''return-504'']"
    by (simp add: queue_def queue_of_def sample_retry_def)
  ultimately show ?thesis
    using instructions_are_fifo [of ?db "''id1''" 3 "''storage.objects.insert''"]
    by (auto simp: numeral_3_eq_3)
qed

text \<open>Handling one request takes at most one instruction, the first, of the queue of the test
  and the method of the request, and touches no other queue: over REST, over gRPC, and where gRPC
  looks for a redirection token.\<close>

theorem requests_take_one_instruction:
  assumes "test_id_of r = Some i" and "get_retry_test_id_from_context c = Some i"
  shows "consumes_at_most_one i m db (snd (handle_retry_test_instruction r m db))
    \<and> consumes_at_most_one i m db (snd (grpc_handle_retry_test_instruction c m db))
    \<and> consumes_at_most_one i m db (snd (get_grpc_instruction_match c m rexp dq db))"
  using handle_retry_consumes [OF assms(1)] grpc_handle_retry_consumes [OF assms(2)]
    grpc_match_consumes [OF assms(2)] by simp_all

theorem requests_take_one_instruction_witness:
  "consumes_at_most_one ''id1'' ''storage.objects.get'' (sample_retry ''HTTP'' [])
     (snd (handle_retry_test_instruction sample_request ''storage.objects.get''
        (sample_retry ''HTTP'' [])))"
proof (rule requests_take_one_instruction [of _ _ "Grpc [(''x-retry-test-id'', ''id1'')]", THEN conjunct1])
  show "test_id_of sample_request = Some ''id1''"
    by (simp add: test_id_of_def hget_def sample_request_def)
  show "get_retry_test_id_from_context (Grpc [(''x-retry-test-id'', ''id1'')]) = Some ''id1''"
    by (simp add: get_retry_test_id_from_context_def invocation_metadata_value_def)
qed

text \<open>C31: The instruction return-NNN answers the next REST request of its method with the status
  NNN, whatever the digits, and is then used up.\<close>

theorem rest_injects_status:
  assumes "test_id_of r = Some i" and "map_of (retry_tests db) i = Some rt"
    and "transport rt = ''HTTP''" and "queue db i m = (''return-'' @ w) # rest"
    and "\<forall>c \<in> set w. is_digit c" and "w \<noteq> []"
  shows "\<exists>e db'. handle_retry_test_instruction r m db = (Inl e, db')
    \<and> response_status (handler tb e) = Code_text w \<and> queue db' i m = rest"
  using rest_error_instruction [OF assms] queue_dequeued [OF assms(2)] assms(4)
  by (simp add: handler_status)

theorem rest_injects_status_witness:
  "\<exists>e db'. handle_retry_test_instruction sample_request ''storage.objects.get''
       (sample_retry ''HTTP'' []) = (Inl e, db')
    \<and> response_status (handler (\<lambda>_. '''') e) = Code_text ''503''
    \<and> queue db' ''id1'' ''storage.objects.get'' = []"
proof (rule rest_injects_status [of _ _ _ "sample_test ''HTTP'' []"])
  show "test_id_of sample_request = Some ''id1''"
    by (simp add: test_id_of_def hget_def sample_request_def)
qed (simp_all add: sample_test_def sample_retry_def queue_def queue_of_def is_digit_def py_ord_def)

text \<open>Over gRPC the instruction return-NNN aborts the next call of its method with the gRPC
  status that belongs to the HTTP status, and is then used up.\<close>

theorem grpc_injects_status:
  assumes "get_retry_test_id_from_context (Grpc md) = Some i" and "i \<noteq> []"
    and "map_of (retry_tests db) i = Some rt" and "transport rt = ''GRPC''"
    and "queue db i m = (''return-'' @ w) # rest"
    and "\<forall>c \<in> set w. is_digit c" and "w \<noteq> []"
  shows "\<exists>e db'. grpc_handle_retry_test_instruction (Grpc md) m db = (Inl e, db')
    \<and> grpc_status_of e = grpc_forced_failure w \<and> queue db' i m = rest"
  using grpc_error_instruction [OF assms] queue_dequeued [OF assms(3)] assms(5)
  by (cases "grpc_handle_retry_test_instruction (Grpc md) m db")
    (simp add: inject_error_def generic_def)

theorem grpc_injects_status_witness:
  "\<exists>e db'. grpc_handle_retry_test_instruction (Grpc [(''x-retry-test-id'', ''id1'')])
       ''storage.objects.get'' (sample_retry ''GRPC'' []) = (Inl e, db')
    \<and> grpc_status_of e = Some UNAVAILABLE \<and> queue db' ''id1'' ''storage.objects.get'' = []"
proof -
  have "grpc_forced_failure ''503'' = Some UNAVAILABLE"
    by (simp add: grpc_forced_failure_def)
  moreover have "\<exists>e db'. grpc_handle_retry_test_instruction (Grpc [(''x-retry-test-id'', ''id1'')])
       ''storage.objects.get'' (sample_retry ''GRPC'' []) = (Inl e, db')
    \<and> grpc_status_of e = grpc_forced_failure ''503'' \<and> queue db' ''id1'' ''storage.objects.get'' = []"
    by (rule grpc_injects_status [of _ _ _ "sample_test ''GRPC'' []"])
      (simp_all add: sample_test_def sample_retry_def queue_def queue_of_def is_digit_def py_ord_def
        get_retry_test_id_from_context_def invocation_metadata_value_def)
  ultimately show ?thesis by simp
qed

text \<open>A download that is broken after a number of bytes delivers exactly the first bytes, up to
  the limit, in chunks, and breaks exactly when the object is that long; the two limits that the
  instructions give, 4 bytes and a multiple of 1024, are multiples of the chunk size of 4.\<close>

theorem broken_stream_delivers_prefix:
  assumes "limit = 4 \<or> limit = n * 1024"
  shows "concat (fst (streamer 4 limit 0 d)) = take limit d
    \<and> (snd (streamer 4 limit 0 d) \<longleftrightarrow> d \<noteq> [] \<and> limit \<le> length d)"
proof -
  have "4 dvd limit" using assms by (auto intro: dvdI [of _ _ "n * 256"])
  then show ?thesis
    using streamer_spec [of 4 limit d] by simp_all
qed

theorem broken_stream_delivers_prefix_witness:
  "concat (fst (streamer 4 4 0 ''123456789'')) = ''1234'' \<and> snd (streamer 4 4 0 ''123456789'')"
  using broken_stream_delivers_prefix [of 4 0 "''123456789''"] by simp

text \<open>A stalled download delivers the whole object, and stalls at most once.\<close>

theorem stalled_stream_delivers_all:
  "sent (stall_streamer 4 limit t 0 False d) = d
   \<and> length (filter (\<lambda>e. e = Dequeue_and_sleep t) (stall_streamer 4 limit t 0 False d)) \<le> 1"
proof
  show "sent (stall_streamer 4 limit t 0 False d) = d"
    by (simp add: sent_stall_streamer)
  have none: "filter (\<lambda>e. e = Dequeue_and_sleep t) (stall_streamer 4 limit t y True d) = []" for y d
  proof (induction "length d" arbitrary: y d rule: less_induct)
    case less
    then show ?case by (subst stall_streamer.simps) (simp add: Let_def)
  qed
  have "length (filter (\<lambda>e. e = Dequeue_and_sleep t) (stall_streamer 4 limit t y dq d)) \<le> 1" for y dq d
  proof (induction "length d" arbitrary: y dq d rule: less_induct)
    case less
    then show ?case by (subst stall_streamer.simps) (auto simp: Let_def none)
  qed
  then show "length (filter (\<lambda>e. e = Dequeue_and_sleep t) (stall_streamer 4 limit t 0 False d)) \<le> 1" .
qed

text \<open>C32: A gRPC upload that an instruction interrupts after a number of bytes: a request that
  reaches that offset fails and keeps exactly the bytes before it, of what the upload had and what
  the request brings, and the instruction is used up; a request that does not reach it, or that
  begins at or after it, goes on with the stored bytes and all retry tests as they were, so that
  the caller stores all its bytes.\<close>

theorem upload_fault_keeps_prefix:
  assumes "map_of (retry_tests db) i = Some rt"
  shows "if length media < after_bytes \<and> after_bytes \<le> length media + length data
     then (\<exists>e db'. handle_grpc_retry_uploads_error_after_bytes c data rest_code after_bytes i
              (db, media, complete) = (Inl e, db', take after_bytes (media @ data), complete)
        \<and> db' = dequeued i ''storage.objects.insert'' db
        \<and> queue db' i ''storage.objects.insert'' = tl (queue db i ''storage.objects.insert''))
     else handle_grpc_retry_uploads_error_after_bytes c data rest_code after_bytes i
              (db, media, complete) = (Inr (), db, media, complete)"
proof (cases "length media < after_bytes \<and> after_bytes \<le> length media + length data")
  case True
  then have "length media < after_bytes" "after_bytes \<le> length media + length data" by simp_all
  note run = grpc_upload_fault [OF assms this, of c rest_code complete]
  then obtain e where "fst (handle_grpc_retry_uploads_error_after_bytes c data rest_code after_bytes i
      (db, media, complete)) = Inl e" by blast
  then have "handle_grpc_retry_uploads_error_after_bytes c data rest_code after_bytes i
      (db, media, complete)
      = (Inl e, dequeued i ''storage.objects.insert'' db, take after_bytes (media @ data), complete)"
    using run(1) by (simp only: prod_eq_iff fst_conv snd_conv)
  moreover have "queue (dequeued i ''storage.objects.insert'' db) i ''storage.objects.insert''
      = tl (queue db i ''storage.objects.insert'')"
    using queue_dequeued [OF assms] by simp
  ultimately show ?thesis by (simp only: True simp_thms if_True) blast
next
  case False
  then have "after_bytes \<le> length media \<or> length media + length data < after_bytes"
    by linarith
  then show ?thesis using False by (simp only: grpc_upload_no_fault if_False)
qed

theorem upload_fault_keeps_prefix_witness:
  "(\<exists>e db'. handle_grpc_retry_uploads_error_after_bytes (Grpc []) [4, 5, 6] 503 5 ''id1''
       (sample_retry ''GRPC'' [''return-503-after-256K''], [1, 2, 3], False)
     = (Inl e, db', [1, 2, 3, 4, 5], False)
     \<and> queue db' ''id1'' ''storage.objects.insert'' = [])
   \<and> handle_grpc_retry_uploads_error_after_bytes (Grpc []) [4] 503 5 ''id1''
       (sample_retry ''GRPC'' [''return-503-after-256K''], [1, 2, 3], False)
     = (Inr (), sample_retry ''GRPC'' [''return-503-after-256K''], [1, 2, 3], False)"
proof -
  let ?db = "sample_retry ''GRPC'' [''return-503-after-256K'']"
  have known: "map_of (retry_tests ?db) ''id1'' = Some (sample_test ''GRPC'' [''return-503-after-256K''])"
    by (simp add: sample_test_def sample_retry_def)
  moreover have "queue ?db ''id1'' ''storage.objects.insert'' = [''return-503-after-256K'']"
    by (simp add: queue_def queue_of_def sample_retry_def)
  ultimately show ?thesis
    using upload_fault_keeps_prefix [OF known, of "[1, 2, 3]" 5 "[4, 5, 6]" "Grpc []" 503 False]
      upload_fault_keeps_prefix [OF known, of "[1, 2, 3]" 5 "[4]" "Grpc []" 503 False]
    by auto
qed

end
