(* ===== verification/Service.thy ===== *)
theory Service
  imports Gcs_Object Database_Behaviour Fault_Handlers
begin

text \<open>
  What the request handlers share: the index of the database, the resumable uploads and the
  rewrites that are under way, and the generation counter of \<open>gcs/object.py\<close>.  Python shares
  messages by reference: the metadata of an upload is the message that \<open>Object.init\<close> fills in,
  and the bucket of an upload is the message in the database; the steps below write such changes
  back to every place that shares them.
\<close>

section \<open>State\<close>

text \<open>\<open>gcs.upload.Upload\<close> (\<open>src/gcs/upload.py\<close>).  \<open>up_transfer\<close> is the set of transfer encodings,
  in the order of their first occurrence; \<open>up_params\<close> are the parameters of a gRPC
  request, and \<open>up_made\<close> says that the attribute \<open>blob\<close> has been set (only over gRPC).\<close>

record upload =
  up_request :: request
  up_metadata :: obj_meta
  up_bucket :: bucket
  up_location :: string
  up_id :: string
  up_media :: bytes_media
  up_complete :: bool
  up_transfer :: "string list"
  up_preconditions :: "precondition list"
  up_params :: "csek_params option"
  up_made :: bool

text \<open>\<open>RewriteObjectRequest\<close>; \<open>rr_conditions\<close> are the preconditions that are set.\<close>

record rewrite_request =
  rr_source_bucket :: string
  rr_source_object :: string
  rr_source_generation :: int
  rr_destination_bucket :: string
  rr_destination_name :: string
  rr_destination :: "obj_meta option"
  rr_destination_predefined_acl :: string
  rr_conditions :: "(string \<times> int) list"
  rr_params :: csek_params
  rr_rewrite_token :: string
  rr_max_bytes_rewritten_per_call :: int

text \<open>\<open>gcs.rewrite.Rewrite\<close> (\<open>src/gcs/rewrite.py\<close>).  Over gRPC it keeps the first request.  Over REST
  it keeps the proxy \<open>flask.request\<close>, which is the request that is being handled, whenever it is
  read.\<close>

record rewrite =
  rw_src_bucket_name :: string
  rw_src_object_name :: string
  rw_dst_bucket_name :: string
  rw_dst_object_name :: string
  rw_token :: string
  rw_media :: bytes_media
  rw_max_bytes_rewritten_per_call :: int
  rw_request :: "rewrite_request option"

record service =
  sv_db :: db
  sv_uploads :: "(string \<times> upload) list"
  sv_rewrites :: "(string \<times> rewrite) list"
  sv_generation :: int

type_synonym 'a serviceM = "(err, service, 'a) pym"

text \<open>What the handlers use from outside: the clocks (in microseconds), the two operations of the
  library \<open>jsoncut\<close> that filter responses, the text that \<open>join\<close> makes of a set of texts (whose
  order is not specified), the constant \<open>MAX_READ_CHUNK_BYTES\<close> of the protocol, the bucket names
  that the store accepts, the test bucket (its name and what \<open>Bucket.init\<close> makes of it), 
  \<open>json.loads\<close> of a body that holds a JSON object, the dictionary of an ACL message, gzip, and the
  matching of globs.\<close>

record handler_env = object_env +
  he_now :: int
  he_now_local :: int
  he_cut_get :: "dict \<Rightarrow> string \<Rightarrow> json option"
  he_cut_del :: "dict \<Rightarrow> string \<Rightarrow> dict"
  he_join :: "string list \<Rightarrow> string"
  he_chunk :: nat
  he_validate :: "string \<Rightarrow> ctx \<Rightarrow> err + unit"
  he_test_bucket :: "(string \<times> (err + bucket)) option"
  he_loads :: "bytes \<Rightarrow> err + dict"
  he_acl_dict :: "acl_entry \<Rightarrow> dict"
  he_gunzip :: "bytes \<Rightarrow> err + bytes"
  he_glob :: "string \<Rightarrow> string \<Rightarrow> bool"

definition objects_of :: "handler_env \<Rightarrow> object_env" where
  "objects_of env = object_env.truncate env"

text \<open>An answer: status, headers, resource.\<close>

datatype answer = Answer nat "(string \<times> string) list" "dict option"

definition response_rest :: "handler_env \<Rightarrow> dict \<Rightarrow> string \<Rightarrow> string option \<Rightarrow> dict" where
  "response_rest env = filter_response_rest (he_cut_get env) (he_cut_del env)"

section \<open>Steps on parts of the state\<close>

definition on_db :: "'a dbM \<Rightarrow> 'a serviceM" where
  "on_db m s = (case m (sv_db s) of (r, d) \<Rightarrow> (r, s\<lparr>sv_db := d\<rparr>))"

definition on_tests :: "'a retryM \<Rightarrow> 'a serviceM" where
  "on_tests m = on_db (on_retry_db m)"

definition put_upload :: "upload \<Rightarrow> service \<Rightarrow> service" where
  "put_upload up s = s\<lparr>sv_uploads := AList.update (up_id up) up (sv_uploads s)\<rparr>"

definition put_rewrite :: "rewrite \<Rightarrow> service \<Rightarrow> service" where
  "put_rewrite rw s = s\<lparr>sv_rewrites := AList.update (rw_token rw) rw (sv_rewrites s)\<rparr>"

definition set_bucket :: "string \<Rightarrow> bucket \<Rightarrow> service \<Rightarrow> service" where
  "set_bucket k bk s =
     s\<lparr>sv_db := (sv_db s)\<lparr>buckets := AList.map_entry k (\<lambda>_. bk) (buckets (sv_db s))\<rparr>\<rparr>"

text \<open>\<open>Object.init\<close> and what it calls, for a bucket of the database.  The counter and the bucket
  are written back whatever the result; \<open>keep\<close> writes the metadata back, where it is shared.\<close>

definition making_object ::
    "(obj_meta \<Rightarrow> service \<Rightarrow> service) \<Rightarrow> bucket \<Rightarrow> obj_meta \<Rightarrow> 'a makeM \<Rightarrow> 'a serviceM" where
  "making_object keep bk md m s =
     (case m \<lparr>mk_generation = sv_generation s, mk_bucket = bk, mk_meta = md\<rparr> of
        (r, t) \<Rightarrow> (r, keep (mk_meta t)
          (set_bucket (bk_name bk) (mk_bucket t) (s\<lparr>sv_generation := mk_generation t\<rparr>))))"

text \<open>The metadata of an object that the database holds; \<open>None\<close> is the \<open>AttributeError\<close> of
  \<open>None.metadata\<close>.\<close>

definition require :: "'b option \<Rightarrow> 'b serviceM" where
  "require x = (case x of None \<Rightarrow> raise (Exc AttributeError) | Some y \<Rightarrow> ret y)"

text \<open>A change of an object after its insertion: the database holds the same object.\<close>

definition alter_stored :: "string \<Rightarrow> blob \<Rightarrow> blob \<Rightarrow> service \<Rightarrow> service" where
  "alter_stored k old new s = s\<lparr>sv_db := upd_objects k
     (AList.map_entry (object_key (b_name old) (b_generation old)) (\<lambda>_. new)) (sv_db s)\<rparr>"

text \<open>\<open>Database.insert_test_bucket\<close>.\<close>

definition insert_test_bucket :: "handler_env \<Rightarrow> unit serviceM" where
  "insert_test_bucket env = (case he_test_bucket env of
     None \<Rightarrow> ret ()
   | Some (name, made) \<Rightarrow>
       bindM (getS (\<lambda>s. map_of (buckets (sv_db s)) (bucket_key name Rest))) (\<lambda>found.
       if found \<noteq> None then ret ()
       else bindM (liftE made) (\<lambda>bk. on_db (insert_bucket (he_validate env)
              (bk\<lparr>bk_metageneration := 4, bk_versioning := True\<rparr>) Rest))))"

definition the_bucket :: "string \<Rightarrow> ctx \<Rightarrow> bucket serviceM" where
  "the_bucket name c = bindM (on_db (get_bucket name c [])) require"

section \<open>Lemmas\<close>

lemma on_db_app: "m (sv_db s) = (r, d) \<Longrightarrow> on_db m s = (r, s\<lparr>sv_db := d\<rparr>)"
  by (simp add: on_db_def)

lemma require_simps [simp]: "require (Some x) = ret x" "require None = raise (Exc AttributeError)"
  by (simp_all add: require_def)

lemma put_upload_simps [simp]:
  "sv_db (put_upload up s) = sv_db s"
  "map_of (sv_uploads (put_upload up s)) = (map_of (sv_uploads s))(up_id up \<mapsto> up)"
  "sv_rewrites (put_upload up s) = sv_rewrites s"
  "sv_generation (put_upload up s) = sv_generation s"
  by (simp_all add: put_upload_def update_conv')

lemma put_rewrite_simps [simp]:
  "sv_db (put_rewrite rw s) = sv_db s"
  "map_of (sv_rewrites (put_rewrite rw s)) = (map_of (sv_rewrites s))(rw_token rw \<mapsto> rw)"
  "sv_uploads (put_rewrite rw s) = sv_uploads s"
  "sv_generation (put_rewrite rw s) = sv_generation s"
  by (simp_all add: put_rewrite_def update_conv')

lemma map_entry_same: "map_of d k = Some v \<Longrightarrow> distinct (map fst d) \<Longrightarrow> AList.map_entry k (\<lambda>_. v) d = d"
  by (induction d) (auto simp: image_iff)

lemma sv_db_same: "s\<lparr>sv_db := d\<rparr> = s \<longleftrightarrow> d = sv_db s"
  by (cases s) auto

lemma set_bucket_same:
  assumes "map_of (buckets (sv_db s)) k = Some bk" and "db_wf (sv_db s)"
  shows "set_bucket k bk s = s"
  using assms by (simp add: set_bucket_def map_entry_same db_wf_def)

lemma making_object_Inr:
  assumes "making_object keep bk md m s = (Inr x, t)"
  obtains u where "m \<lparr>mk_generation = sv_generation s, mk_bucket = bk, mk_meta = md\<rparr> = (Inr x, u)"
    and "t = keep (mk_meta u) (set_bucket (bk_name bk) (mk_bucket u) (s\<lparr>sv_generation := mk_generation u\<rparr>))"
  using assms by (auto simp: making_object_def split: prod.splits)

lemma on_db_Inr:
  "on_db m s = (Inr x, t) \<longleftrightarrow> (\<exists>d. m (sv_db s) = (Inr x, d) \<and> t = s\<lparr>sv_db := d\<rparr>)"
  by (auto simp: on_db_def split: prod.splits)

lemma require_Inr: "require x s = (Inr y, t) \<longleftrightarrow> x = Some y \<and> t = s"
  by (auto simp: require_def split: option.splits)

text \<open>A bucket of the database that \<open>Object.init\<close> was given is unchanged when it succeeds.\<close>

lemma object_made:
  assumes "making_object keep bk md (object_init env now r p m d c None cs) s = (Inr (b, projection), t)"
    and "map_of (buckets (sv_db s)) (bk_name bk) = Some bk" and "db_wf (sv_db s)"
    and "extract_instruction r c \<noteq> Some ''inject-upload-data-error''"
  shows "b_media b = m \<and> b_name b = om_name md \<and> b_generation b = sv_generation s + 1
    \<and> t = keep (b_metadata b) (s\<lparr>sv_generation := sv_generation s + 1\<rparr>)
    \<and> om_checksums (b_metadata b) = Some (Some (int (bm_crc m)), bm_md5_digest (oe_md5 env) m)
    \<and> om_size (b_metadata b) = length (bm_buf m)"
proof -
  obtain u where u: "object_init env now r p m d c None cs
        \<lparr>mk_generation = sv_generation s, mk_bucket = bk, mk_meta = md\<rparr> = (Inr (b, projection), u)"
      "t = keep (mk_meta u) (set_bucket (bk_name bk) (mk_bucket u) (s\<lparr>sv_generation := mk_generation u\<rparr>))"
    using assms(1) by (rule making_object_Inr)
  note made = object_init_Inr [OF u(1) refl]
  have "set_bucket (bk_name bk) bk (s\<lparr>sv_generation := g\<rparr>) = s\<lparr>sv_generation := g\<rparr>" for g
    using assms(2,3) by (intro set_bucket_same) simp_all
  then show ?thesis
    using made u(2) assms(4)
    by (auto simp: b_name_def b_generation_def stamped_def)
qed

section \<open>A small service for the witnesses\<close>

definition sample_objects :: object_env where
  "sample_objects = sample_env\<lparr>oe_to_dict := (\<lambda>md. [(''bucket'', JStr (om_bucket md)),
     (''name'', JStr (om_name md)), (''generation'', JStr (show_int (om_generation md)))])\<rparr>"

definition sample_handler_env :: handler_env where
  "sample_handler_env = object_env.extend sample_objects
     \<lparr>he_now = 7, he_now_local = 8, he_cut_get = map_of, he_cut_del = (\<lambda>d k. AList.delete k d),
      he_join = join '':'', he_chunk = 2, he_validate = (\<lambda>_ _. Inr ()), he_test_bucket = None,
      he_loads = (\<lambda>_. Inr []), he_acl_dict = (\<lambda>a. [(''entity'', JStr (acl_entity a)), (''role'', JStr (acl_role a))]),
      he_gunzip = Inr, he_glob = (\<lambda>_ _. True)\<rparr>"

definition sample_source :: blob where
  "sample_source = \<lparr>b_metadata = new_obj_meta\<lparr>om_name := ''o'', om_generation := 7,
     om_metageneration := 1, om_acl := [sample_entry]\<rparr>,
     b_media = bytes_media_init castagnoli [1, 2, 3], b_upload = None, b_upload_gen = 0\<rparr>"

definition sample_service_db :: db where
  "sample_service_db = snd (insert_object ''b'' sample_source Rest []
     (snd (insert_bucket (\<lambda>_ _. Inr ()) (sample_bucket\<lparr>bk_ubla := False\<rparr>) Rest initial_db)))"

definition sample_service :: service where
  "sample_service = \<lparr>sv_db = sample_service_db, sv_uploads = [], sv_rewrites = [], sv_generation = 41\<rparr>"

lemma sample_service_wf: "db_wf sample_service_db"
proof -
  have "db_wf (snd (insert_bucket (\<lambda>_ _. Inr ()) (sample_bucket\<lparr>bk_ubla := False\<rparr>) Rest initial_db))"
    using keeps_insert_bucket initial_db_wf unfolding keeps_def by blast
  then show ?thesis
    using keeps_insert_object unfolding keeps_def sample_service_db_def by blast
qed

lemma objects_of_sample [simp]: "objects_of sample_handler_env = sample_objects"
  by (simp add: objects_of_def sample_handler_env_def object_env.defs)

lemma sample_handler_env_simps [simp]:
  "oe_crc32c sample_handler_env = castagnoli" "oe_sha256 sample_handler_env = (\<lambda>bs. take 32 bs)"
  "he_chunk sample_handler_env = 2" "he_test_bucket sample_handler_env = None"
  "he_now sample_handler_env = 7" "he_now_local sample_handler_env = 8"
  by (simp_all add: sample_handler_env_def sample_objects_def sample_env_def object_env.defs)

lemma sample_bucket_key: "bucket_key ''b'' Rest = ''projects/_/buckets/b''"
  by (simp add: bucket_key_def bucket_name_to_proto_def bucket_prefix_def)

lemma sample_service_contents:
  "contents sample_service_db (bucket_key ''b'' Rest) = Some (sample_bucket\<lparr>bk_ubla := False\<rparr>,
     [(object_key ''o'' 7, sample_source)], [(''o'', 7)], [])"
  by (simp add: sample_service_db_def insert_object_def insert_bucket_def plain_steps
      sample_bucket_key contents_def
      initial_db_def sample_bucket_def sample_source_def new_obj_meta_def b_name_def
      b_generation_def get_live_generation_def set_live_generation_def notify_def
      upd_objects_def upd_live_def getitem_def)

lemma sample_object_rest: "\<exists>d. object_rest sample_objects md = Inr d"
  by (simp add: object_rest_def object_as_rest_def postprocess_object_rest_def sample_objects_def
      sample_env_def object_postprocessing_def name_from_proto_def key_of_def flatten_checksums_def
      as_str_def py_str_def)

end
