(* ===== verification/Rewrites.thy ===== *)
theory Rewrites
  imports Service
begin

text \<open>
  \<open>src/gcs/rewrite.py\<close> and the handlers that copy an object in windows: \<open>objects_rewrite\<close> of
  \<open>src/testbench/rest_server.py\<close> and \<open>RewriteObject\<close> of \<open>src/testbench/grpc_server.py\<close>.  Each call
  appends the next window of the source to the media of the rewrite; the call that reaches the end of
  the source makes the destination object.
\<close>

section \<open>The state of a rewrite\<close>

definition MIN_REWRITE_BYTES :: int where
  "MIN_REWRITE_BYTES = 1024 * 1024"

text \<open>The argument is a text over REST; \<open>int\<close> may refuse it.\<close>

definition normalize_max_bytes :: "(err + int) option \<Rightarrow> err + int" where
  "normalize_max_bytes max_bytes =
     bindE (case max_bytes of None \<Rightarrow> Inr MIN_REWRITE_BYTES | Some n \<Rightarrow> n)
       (\<lambda>n. Inr (max n MIN_REWRITE_BYTES))"

definition init_rest ::
    "handler_env \<Rightarrow> string \<Rightarrow> request \<Rightarrow> string \<Rightarrow> string \<Rightarrow> string \<Rightarrow> string \<Rightarrow> err + rewrite" where
  "init_rest env token request src_bucket_name src_object_name dst_bucket_name dst_object_name =
     bindE (normalize_max_bytes (generation_of_text (aget request ''maxBytesRewrittenPerCall'')))
       (\<lambda>n. Inr \<lparr>rw_src_bucket_name = src_bucket_name, rw_src_object_name = src_object_name,
          rw_dst_bucket_name = dst_bucket_name, rw_dst_object_name = dst_object_name,
          rw_token = token, rw_media = bytes_media_init (oe_crc32c env) [],
          rw_max_bytes_rewritten_per_call = n, rw_request = None\<rparr>)"

definition the_rewrite :: "string \<Rightarrow> ctx \<Rightarrow> rewrite serviceM" where
  "the_rewrite token c = seqM (on_db (get_rewrite token c))
     (bindM (getS (\<lambda>s. map_of (sv_rewrites s) token)) require)"

definition start_rewrite :: "rewrite \<Rightarrow> string \<Rightarrow> rewrite serviceM" where
  "start_rewrite rw dst_bucket_name = seqM (modS (put_rewrite rw))
     (seqM (on_db (insert_rewrite (rw_token rw) dst_bucket_name)) (ret rw))"

section \<open>The window of a call\<close>

text \<open>The end of the window, and the rewrite with the bytes of the window.  When the source has
  become shorter than the offset, nothing is copied and the end is the end of the source.\<close>

definition total_bytes_rewritten :: "rewrite \<Rightarrow> bytes_media \<Rightarrow> int" where
  "total_bytes_rewritten rw src =
     (let offset = int (length (bm_buf (rw_media rw)))
      in offset + min (rw_max_bytes_rewritten_per_call rw) (int (length (bm_buf src)) - offset))"

definition copy_window :: "handler_env \<Rightarrow> rewrite \<Rightarrow> bytes_media \<Rightarrow> rewrite" where
  "copy_window env rw src = rw\<lparr>rw_media := fold (bm_append (oe_crc32c env))
     (bm_chunks src (length (bm_buf (rw_media rw))) (nat (total_bytes_rewritten rw src)) (he_chunk env))
     (rw_media rw)\<rparr>"

section \<open>REST\<close>

definition rewrite_response :: "rewrite \<Rightarrow> bytes_media \<Rightarrow> bool \<Rightarrow> dict" where
  "rewrite_response rw src done =
     [(''kind'', JStr ''storage#rewriteResponse''),
      (''totalBytesRewritten'', JStr (show_nat (length (bm_buf (rw_media rw))))),
      (''objectSize'', JStr (show_nat (length (bm_buf src)))),
      (''done'', JBool done)]"

text \<open>The source of a call: the preconditions and the generation come with the request.\<close>

definition rewrite_source ::
    "handler_env \<Rightarrow> request \<Rightarrow> string \<Rightarrow> string \<Rightarrow> blob serviceM" where
  "rewrite_source env request src_bucket_name src_object_name =
     bindM (on_db (get_object src_bucket_name src_object_name Rest
        (generation_of_text (aget request ''sourceGeneration''))
        (make_json_preconditions (args request) ''ifSource'') False)) (\<lambda>found.
     bindM (require found) (\<lambda>src.
     bindM (liftE (csek_validation (oe_sha256 env) request no_params
       (case om_customer_encryption (b_metadata src) of None \<Rightarrow> [] | Some (_, h) \<Rightarrow> h) True Rest))
       (\<lambda>_. ret src)))"

text \<open>The last call: the destination is made of the metadata of the source and of the bytes that
  were copied, and is changed once more after it has been inserted; the body of the request, if
  there is one, patches it.\<close>

definition patch_rewritten ::
    "handler_env \<Rightarrow> request \<Rightarrow> (err + dict) option \<Rightarrow> bucket \<Rightarrow> blob \<Rightarrow> err + blob" where
  "patch_rewritten env request data dst_bucket dst = (case data of
     None \<Rightarrow> Inr dst
   | Some d \<Rightarrow> bindE d (\<lambda>d. object_patch (objects_of env) (he_now env) (he_now_local env) request d
        dst_bucket Rest dst))"

text \<open>\<open>objects_copy\<close> ends in the same way.\<close>

definition store_copy ::
    "handler_env \<Rightarrow> request \<Rightarrow> (err + dict) option \<Rightarrow> string \<Rightarrow> bucket \<Rightarrow> obj_meta \<Rightarrow> bytes_media
       \<Rightarrow> dict serviceM" where
  "store_copy env request data dst_bucket_name dst_bucket dst_metadata dst_media =
     bindM (making_object (\<lambda>_ s. s) dst_bucket dst_metadata
        (object_init (objects_of env) (he_now env) request no_params dst_media True Rest None True))
       (\<lambda>(dst, _).
     seqM (on_db (insert_object dst_bucket_name dst Rest (make_json_preconditions (args request) ''if'')))
     (bindM (liftE (patch_rewritten env request data dst_bucket dst)) (\<lambda>patched.
     let final = map_metadata (\<lambda>md. md\<lparr>om_metageneration := 1, om_update_time := om_create_time md\<rparr>) patched in
     seqM (modS (alter_stored (bucket_key dst_bucket_name Rest) dst final))
       (liftE (object_rest (objects_of env) (b_metadata final))))))"

definition finish_rewrite_rest ::
    "handler_env \<Rightarrow> request \<Rightarrow> (err + dict) option \<Rightarrow> string \<Rightarrow> string \<Rightarrow> rewrite \<Rightarrow> blob \<Rightarrow> answer serviceM"
  where
  "finish_rewrite_rest env request data dst_bucket_name dst_object_name rw src =
     bindM (the_bucket dst_bucket_name Rest) (\<lambda>dst_bucket.
     bindM (store_copy env request data dst_bucket_name dst_bucket
        ((b_metadata src)\<lparr>om_bucket := dst_bucket_name, om_name := dst_object_name\<rparr>) (rw_media rw))
       (\<lambda>resource.
     ret (Answer 200 [] (Some (rewrite_response rw (b_media src) True @ [(''resource'', JObj resource)])))))"

definition objects_rewrite ::
    "handler_env \<Rightarrow> string \<Rightarrow> request \<Rightarrow> (err + dict) option \<Rightarrow> string \<Rightarrow> string \<Rightarrow> string \<Rightarrow> string
       \<Rightarrow> answer serviceM" where
  "objects_rewrite env uuid request data src_bucket_name src_object_name dst_bucket_name dst_object_name =
     seqM (insert_test_bucket env)
     (bindM (case aget request ''rewriteToken'' of
         None \<Rightarrow> bindM (liftE (init_rest env uuid request src_bucket_name src_object_name
                    dst_bucket_name dst_object_name)) (\<lambda>rw. start_rewrite rw dst_bucket_name)
       | Some token \<Rightarrow> the_rewrite token Rest) (\<lambda>rw.
     bindM (rewrite_source env request src_bucket_name src_object_name) (\<lambda>src.
     let total = total_bytes_rewritten rw (b_media src); rw = copy_window env rw (b_media src) in
     seqM (modS (put_rewrite rw))
     (if total = int (length (bm_buf (b_media src)))
      then finish_rewrite_rest env request data dst_bucket_name dst_object_name rw src
      else ret (Answer 200 [] (Some (rewrite_response rw (b_media src) False
             @ [(''rewriteToken'', JStr (rw_token rw))])))))))"

section \<open>gRPC\<close>

definition rewrite_init_grpc ::
    "handler_env \<Rightarrow> string \<Rightarrow> rewrite_request \<Rightarrow> ctx \<Rightarrow> err + rewrite" where
  "rewrite_init_grpc env token request c = (
     let source = ''invalid or missing source bucket name in rewrite request'';
         src_bucket_name = bucket_name_from_proto (rr_source_bucket request);
         dst_bucket_name = bucket_name_from_proto (rr_destination_bucket request);
         src_object_name = rr_source_object request; dst_object_name = rr_destination_name request
     in if \<not> startswith (rr_source_bucket request) bucket_prefix then Inl (invalid source c)
        else if src_bucket_name = [] then Inl (invalid source c)
        else if src_object_name = []
             then Inl (invalid ''invalid or missing source object name in rewrite request'' c)
        else if \<not> startswith (rr_destination_bucket request) bucket_prefix then Inl (invalid source c)
        else if dst_bucket_name = []
             then Inl (invalid ''invalid or missing destination bucket name in rewrite request'' c)
        else if dst_object_name = []
             then Inl (invalid ''invalid or missing destination object name in rewrite request'' c)
        else bindE (case rr_destination request of
            None \<Rightarrow> Inr ()
          | Some d \<Rightarrow>
              if om_bucket d \<noteq> [] \<and> om_bucket d \<noteq> dst_bucket_name
              then Inl (invalid ''inconsistent bucket name'' c)
              else if om_name d \<noteq> [] \<and> om_name d \<noteq> dst_object_name
              then Inl (invalid ''inconsistent destination object name'' c)
              else Inr ()) (\<lambda>_.
          bindE (normalize_max_bytes (Some (Inr (rr_max_bytes_rewritten_per_call request)))) (\<lambda>n.
          Inr \<lparr>rw_src_bucket_name = src_bucket_name, rw_src_object_name = src_object_name,
            rw_dst_bucket_name = dst_bucket_name, rw_dst_object_name = dst_object_name,
            rw_token = token, rw_media = bytes_media_init (oe_crc32c env) [],
            rw_max_bytes_rewritten_per_call = n, rw_request = Some request\<rparr>)))"

text \<open>\<open>RewriteResponse\<close>.\<close>

record rewrite_answer =
  ra_total_bytes_rewritten :: int
  ra_object_size :: nat
  ra_done :: bool
  ra_rewrite_token :: string
  ra_resource :: "obj_meta option"

text \<open>The fields of the message that \<open>Object.init\<close> reads.\<close>

definition rewrite_fake_request :: "rewrite_request \<Rightarrow> request" where
  "rewrite_fake_request rq =
     \<lparr>args = [(''destinationPredefinedAcl'', rr_destination_predefined_acl rq)], headers = [],
      environ = [], verb = []\<rparr>"

definition finish_rewrite_grpc ::
    "handler_env \<Rightarrow> ctx \<Rightarrow> rewrite_request \<Rightarrow> rewrite \<Rightarrow> blob \<Rightarrow> rewrite_answer \<Rightarrow> rewrite_answer serviceM" where
  "finish_rewrite_grpc env c rq rw src response =
     bindM (the_bucket (rr_destination_bucket rq) c) (\<lambda>dst_bucket.
     let dst_metadata = (case rr_destination rq of Some d \<Rightarrow> d | None \<Rightarrow> b_metadata src)
           \<lparr>om_bucket := rr_destination_bucket rq, om_name := rr_destination_name rq,
            om_metageneration := 1\<rparr>;
         dst_metadata = dst_metadata\<lparr>om_update_time := om_create_time dst_metadata\<rparr> in
     bindM (making_object (\<lambda>_ s. s) dst_bucket dst_metadata
        (object_init (objects_of env) (he_now env) (rewrite_fake_request rq) (rr_params rq) (rw_media rw)
           True c None True)) (\<lambda>(dst, _).
     seqM (on_db (insert_object (rr_destination_bucket rq) dst c
             (make_grpc_preconditions (rr_conditions rq) ''if_'')))
     (ret (response\<lparr>ra_resource := Some (b_metadata dst)\<rparr>))))"

definition RewriteObject ::
    "handler_env \<Rightarrow> string \<Rightarrow> rewrite_request \<Rightarrow> ctx \<Rightarrow> rewrite_answer serviceM" where
  "RewriteObject env uuid request c =
     bindM (if rr_rewrite_token request = []
            then bindM (liftE (rewrite_init_grpc env uuid request c))
                   (\<lambda>rw. start_rewrite rw (rr_destination_bucket request))
            else the_rewrite (rr_rewrite_token request) c) (\<lambda>rw.
     bindM (require (rw_request rw)) (\<lambda>rq.
     bindM (on_db (get_object (rr_source_bucket rq) (rr_source_object rq) c
        (generation_of_field (rr_source_generation rq))
        (make_grpc_preconditions (rr_conditions rq) ''if_source_'') False)) (\<lambda>found.
     bindM (require found) (\<lambda>src.
     bindM (liftE (csek_validation (oe_sha256 env) (rewrite_fake_request rq) (rr_params rq)
       (case om_customer_encryption (b_metadata src) of None \<Rightarrow> [] | Some (_, h) \<Rightarrow> h) True c)) (\<lambda>_.
     let total = total_bytes_rewritten rw (b_media src); rw = copy_window env rw (b_media src);
         done = total = int (length (bm_buf (b_media src)));
         response = \<lparr>ra_total_bytes_rewritten = total, ra_object_size = length (bm_buf (b_media src)),
           ra_done = done, ra_rewrite_token = [], ra_resource = None\<rparr> in
     seqM (modS (put_rewrite rw))
     (if \<not> done then ret (response\<lparr>ra_rewrite_token := rw_token rw\<rparr>)
      else finish_rewrite_grpc env c rq rw src response))))))"

section \<open>What a call copies\<close>

lemma fold_append_buf: "bm_buf (fold (bm_append crc) ds m) = bm_buf m @ concat ds"
  by (induction ds arbitrary: m) (simp_all add: bm_append_def)

lemma copy_window_buf:
  assumes "bm_buf (rw_media rw) = take off bs" and "off \<le> length bs" and "bm_buf src = bs"
    and "0 < he_chunk env" and "0 \<le> rw_max_bytes_rewritten_per_call rw"
  shows "bm_buf (rw_media (copy_window env rw src))
      = take (off + nat (rw_max_bytes_rewritten_per_call rw)) bs
    \<and> total_bytes_rewritten rw src
      = int (min (off + nat (rw_max_bytes_rewritten_per_call rw)) (length bs))"
proof -
  let ?max = "nat (rw_max_bytes_rewritten_per_call rw)"
  have len: "length (bm_buf (rw_media rw)) = off"
    using assms(1,2) by simp
  have total: "total_bytes_rewritten rw src = int (min (off + ?max) (length bs))"
    using assms(2,3,5) len by (simp add: total_bytes_rewritten_def Let_def)
  have "concat (bm_chunks src off (min (off + ?max) (length bs)) (he_chunk env))
      = py_slice bs (int off) (int (min (off + ?max) (length bs)))"
    unfolding bm_chunks_def assms(3)
    using assms(2,4) by (intro chunk_loop_concat) auto
  then have "bm_buf (rw_media (copy_window env rw src))
      = take off bs @ drop off (take (min (off + ?max) (length bs)) bs)"
    using len total assms(1) by (simp add: copy_window_def fold_append_buf py_slice_nonneg drop_take)
  also have "\<dots> = take (off + ?max) bs"
  proof -
    have "take (min (off + ?max) (length bs)) bs = take (off + ?max) bs"
      by (simp add: min_def)
    moreover have "take off bs = take off (take (off + ?max) bs)" by (simp add: min_def)
    ultimately show ?thesis by (metis append_take_drop_id)
  qed
  finally show ?thesis using total by simp
qed

lemma copy_window_simps [simp]:
  "rw_token (copy_window env rw src) = rw_token rw"
  "rw_max_bytes_rewritten_per_call (copy_window env rw src) = rw_max_bytes_rewritten_per_call rw"
  by (simp_all add: copy_window_def)

text \<open>What the source is and that the test bucket is there depend on the database only.\<close>

lemma on_db_frame: "on_db m s = (Inr x, s) \<Longrightarrow> sv_db t = sv_db s \<Longrightarrow> on_db m t = (Inr x, t)"
  by (cases "m (sv_db s)") (auto simp: on_db_def sv_db_same)

lemma get_object_on_db:
  "on_db (get_object b n c g ps soft) s = (r, t) \<Longrightarrow> t = s"
  using get_object_state [of b n c g ps soft "sv_db s"]
  by (auto simp: on_db_def split: prod.splits)

lemma rewrite_source_frame:
  assumes "rewrite_source env r b n s = (Inr src, s)" and "sv_db t = sv_db s"
  shows "rewrite_source env r b n t = (Inr src, t)"
proof -
  obtain found where f: "on_db (get_object b n Rest (generation_of_text (aget r ''sourceGeneration''))
        (make_json_preconditions (args r) ''ifSource'') False) s = (Inr found, s)"
    using assms(1) by (auto simp: rewrite_source_def bindM_Inr_iff dest: get_object_on_db)
  then show ?thesis
    using assms(1) on_db_frame [OF f assms(2)]
    by (auto simp: rewrite_source_def bindM_def liftE_def require_def ret_def raise_def
        split: option.splits sum.splits)
qed

lemma test_bucket_frame:
  assumes "insert_test_bucket env s = (Inr (), s)" and "sv_db t = sv_db s"
  shows "insert_test_bucket env t = (Inr (), t)"
  using assms(1) assms(2)
  by (auto simp: insert_test_bucket_def bindM_def liftE_def on_db_def ret_def getS_def raise_def
      sv_db_same split: option.splits sum.splits prod.splits if_splits)

text \<open>A rewrite that is under way: the calls that do not reach the end of the source, and the
  other one.\<close>

definition under_way :: "service \<Rightarrow> string \<Rightarrow> rewrite \<Rightarrow> bool" where
  "under_way s token rw \<longleftrightarrow> map_of (rewrite_table (sv_db s)) token \<noteq> None
     \<and> map_of (sv_rewrites s) token = Some rw \<and> rw_token rw = token"

lemma the_rewrite_under_way: "under_way s token rw \<Longrightarrow> the_rewrite token c s = (Inr rw, s)"
  by (auto simp: under_way_def the_rewrite_def seqM_def bindM_def on_db_def get_rewrite_def
      getS_def ret_def)

lemma objects_rewrite_call:
  assumes "insert_test_bucket env s = (Inr (), s)" and "aget r ''rewriteToken'' = Some token"
    and "under_way s token rw" and "rewrite_source env r sb so s = (Inr src, s)"
    and "rw' = copy_window env rw (b_media src)"
  shows "objects_rewrite env uuid r data sb so db do s =
    (if total_bytes_rewritten rw (b_media src) = int (length (bm_buf (b_media src)))
     then finish_rewrite_rest env r data db do rw' src (put_rewrite rw' s)
     else (Inr (Answer 200 [] (Some (rewrite_response rw' (b_media src) False
             @ [(''rewriteToken'', JStr token)]))), put_rewrite rw' s))"
  using assms the_rewrite_under_way [OF assms(3), of Rest]
  by (simp add: objects_rewrite_def seqM_def bindM_def Let_def modS_def under_way_def)

lemma object_patch_media:
  "object_patch env now nl r d bk c b = Inr b' \<Longrightarrow> b_media b' = b_media b"
  by (auto simp: object_patch_def replace_metadata_def bindE_eq_Inr split: if_splits)

lemma patch_rewritten_media: "patch_rewritten env r data bk b = Inr b' \<Longrightarrow> b_media b' = b_media b"
  by (auto simp: patch_rewritten_def bindE_eq_Inr dest!: object_patch_media split: option.splits)

lemma the_bucket_Inr:
  "the_bucket b c s = (Inr bk, t) \<Longrightarrow> t = s \<and> map_of (buckets (sv_db s)) (bucket_key b c) = Some bk"
  by (auto simp: the_bucket_def bindM_Inr_iff on_db_Inr require_Inr sv_db_same dest!: get_bucket_found)

text \<open>An object that was inserted and then altered is the one that is read.\<close>

lemma altered_is_read:
  assumes "insert_object b dst c ps d = (Inr (), d')" and "db_wf d" and "decisive ps"
    and "s = alter_stored (bucket_key b c) dst final (s0\<lparr>sv_db := d'\<rparr>)"
  shows "get_object b (b_name dst) c None [] False (sv_db s) = (Inr (Some final), sv_db s)"
proof -
  obtain bk os ls sd where ins: "contents d (bucket_key b c) = Some (bk, os, ls, sd)"
      "d' = after_insert (bucket_key b c) dst d"
    by (rule insert_object_ok [OF assms(1,2,3)])
  let ?key = "object_key (b_name dst) (b_generation dst)"
  have "contents (sv_db s) (bucket_key b c) = Some (bk,
      AList.map_entry ?key (\<lambda>_. final) (AList.update ?key dst os),
      AList.update (b_name dst) (b_generation dst) ls, sd)"
    using contents_after_insert(1) [OF ins(1), of dst] assms(4) ins(2)
    by (simp add: alter_stored_def contents_upd)
  then have "lookup_object b (b_name dst) c None [] True (sv_db s)
      = (Inr (Some final, Some (b_generation dst)), sv_db s)"
    by (rule lookup_live) (simp_all add: map_of_map_entry map_of_update_if)
  then show ?thesis by (rule get_object_of_lookup)
qed

lemma store_copy_Inr:
  assumes "store_copy env r data db bk md m s = (Inr resource, t)" and "db_wf (sv_db s)"
    and "map_of (buckets (sv_db s)) (bucket_key db Rest) = Some bk"
    and "extract_instruction r Rest \<noteq> Some ''inject-upload-data-error''"
  obtains dst final d1 where
      "insert_object db dst Rest (make_json_preconditions (args r) ''if'') (sv_db s) = (Inr (), d1)"
    and "t = alter_stored (bucket_key db Rest) dst final
          (s\<lparr>sv_generation := sv_generation s + 1, sv_db := d1\<rparr>)"
    and "b_name dst = om_name md" and "b_generation dst = sv_generation s + 1"
    and "b_media final = m" and "b_metageneration final = 1"
    and "object_rest (objects_of env) (b_metadata final) = Inr resource"
proof -
  obtain dst p s1 where dst: "making_object (\<lambda>_ s. s) bk md (object_init (objects_of env) (he_now env) r
        no_params m True Rest None True) s = (Inr (dst, p), s1)"
      "seqM (on_db (insert_object db dst Rest (make_json_preconditions (args r) ''if'')))
        (bindM (liftE (patch_rewritten env r data bk dst)) (\<lambda>patched.
        let final = map_metadata (\<lambda>md. md\<lparr>om_metageneration := 1, om_update_time := om_create_time md\<rparr>)
              patched in
        seqM (modS (alter_stored (bucket_key db Rest) dst final))
          (liftE (object_rest (objects_of env) (b_metadata final))))) s1 = (Inr resource, t)"
    using assms(1) unfolding store_copy_def bindM_Inr_iff [of "making_object _ _ _ _"] by fastforce
  obtain d1 patched final where steps:
      "insert_object db dst Rest (make_json_preconditions (args r) ''if'') (sv_db s1) = (Inr (), d1)"
      "b_media patched = b_media dst"
      "final = map_metadata (\<lambda>md. md\<lparr>om_metageneration := 1, om_update_time := om_create_time md\<rparr>) patched"
      "t = alter_stored (bucket_key db Rest) dst final (s1\<lparr>sv_db := d1\<rparr>)"
      "object_rest (objects_of env) (b_metadata final) = Inr resource"
    using dst(2)
    by (auto simp: bindM_Inr_iff seqM_Inr_iff on_db_Inr liftE_Inr_iff Let_def
        dest!: patch_rewritten_media)
  have "bk_name bk = bucket_key db Rest"
    using bucket_name_key [OF assms(2,3)] .
  then have made: "b_media dst = m" "b_name dst = om_name md" "b_generation dst = sv_generation s + 1"
      "s1 = s\<lparr>sv_generation := sv_generation s + 1\<rparr>"
    using object_made [OF dst(1) _ assms(2,4)] assms(3) by simp_all
  show ?thesis
    by (rule that [of dst d1 final]) (use steps made in \<open>simp_all add: b_metageneration_def\<close>)
qed

lemma finish_rewrite_rest_Inr:
  assumes "finish_rewrite_rest env r data db do rw src s = (Inr ans, t)" and "db_wf (sv_db s)"
    and "extract_instruction r Rest \<noteq> Some ''inject-upload-data-error''"
  shows "\<exists>blob resource. get_object db do Rest None [] False (sv_db t) = (Inr (Some blob), sv_db t)
    \<and> b_media blob = rw_media rw \<and> b_metageneration blob = 1
    \<and> ans = Answer 200 [] (Some (rewrite_response rw (b_media src) True @ [(''resource'', JObj resource)]))"
proof -
  define md where "md = (b_metadata src)\<lparr>om_bucket := db, om_name := do\<rparr>"
  obtain bk resource where bk: "the_bucket db Rest s = (Inr bk, s)"
      "store_copy env r data db bk md (rw_media rw) s = (Inr resource, t)"
      "ans = Answer 200 [] (Some (rewrite_response rw (b_media src) True @ [(''resource'', JObj resource)]))"
    using assms(1) by (auto simp: finish_rewrite_rest_def md_def bindM_Inr_iff dest: the_bucket_Inr)
  obtain dst final d1 where
      ins: "insert_object db dst Rest (make_json_preconditions (args r) ''if'') (sv_db s) = (Inr (), d1)"
        "t = alter_stored (bucket_key db Rest) dst final (s\<lparr>sv_generation := sv_generation s + 1, sv_db := d1\<rparr>)"
      and made: "b_name dst = om_name md" "b_media final = rw_media rw" "b_metageneration final = 1"
    by (rule store_copy_Inr [OF bk(2) assms(2) _ assms(3)]) (use the_bucket_Inr [OF bk(1)] in auto)
  show ?thesis
    using altered_is_read [OF ins(1) assms(2) decisive_json ins(2)] made bk(3) by (auto simp: md_def)
qed

section \<open>Properties\<close>

definition after_calls :: "'a serviceM \<Rightarrow> nat \<Rightarrow> service \<Rightarrow> service" where
  "after_calls call k = (\<lambda>s. snd (call s)) ^^ k"

lemma under_way_put: "under_way s token rw \<Longrightarrow> rw_token rw' = token \<Longrightarrow> under_way (put_rewrite rw' s) token rw'"
  by (simp add: under_way_def)

text \<open>The state after some calls that do not reach the end of the source.\<close>

lemma rewrite_calls_progress:
  assumes "insert_test_bucket env s = (Inr (), s)" and "aget r ''rewriteToken'' = Some token"
    and "under_way s token rw" and "rewrite_source env r sb so s = (Inr src, s)"
    and "0 < he_chunk env" and "0 \<le> rw_max_bytes_rewritten_per_call rw"
    and "bm_buf (rw_media rw) = take off (bm_buf (b_media src))"
    and "off + k * nat (rw_max_bytes_rewritten_per_call rw) < length (bm_buf (b_media src)) \<or> k = 0"
  shows "\<exists>rw'. under_way (after_calls (objects_rewrite env uuid r data sb so db do) k s) token rw'
    \<and> sv_db (after_calls (objects_rewrite env uuid r data sb so db do) k s) = sv_db s
    \<and> rw_max_bytes_rewritten_per_call rw' = rw_max_bytes_rewritten_per_call rw
    \<and> bm_buf (rw_media rw') = take (off + k * nat (rw_max_bytes_rewritten_per_call rw)) (bm_buf (b_media src))"
  using assms(8)
proof (induction k)
  case 0
  then show ?case using assms(3,7) by (auto simp: after_calls_def)
next
  case (Suc k)
  let ?call = "objects_rewrite env uuid r data sb so db do"
  let ?t = "after_calls ?call k s"
  obtain rw' where rw': "under_way ?t token rw'" "sv_db ?t = sv_db s"
      "rw_max_bytes_rewritten_per_call rw' = rw_max_bytes_rewritten_per_call rw"
      "bm_buf (rw_media rw') = take (off + k * nat (rw_max_bytes_rewritten_per_call rw)) (bm_buf (b_media src))"
    using Suc by auto
  have step: "off + k * nat (rw_max_bytes_rewritten_per_call rw) \<le> length (bm_buf (b_media src))"
    using Suc.prems by simp
  note w = copy_window_buf [OF rw'(4) step refl assms(5), unfolded rw'(3), OF assms(6)]
  have "?call ?t = (Inr (Answer 200 [] (Some (rewrite_response (copy_window env rw' (b_media src))
      (b_media src) False @ [(''rewriteToken'', JStr token)]))), put_rewrite (copy_window env rw' (b_media src)) ?t)"
    using objects_rewrite_call [OF test_bucket_frame [OF assms(1) rw'(2)] assms(2) rw'(1)
        rewrite_source_frame [OF assms(4) rw'(2)] refl, of uuid data db "do"] w Suc.prems
    by (simp add: algebra_simps)
  then have "after_calls ?call (Suc k) s = put_rewrite (copy_window env rw' (b_media src)) ?t"
    by (simp add: after_calls_def)
  then show ?case
    using under_way_put [OF rw'(1), of "copy_window env rw' (b_media src)"] rw' w
    by (auto simp: under_way_def algebra_simps intro!: exI [of _ "copy_window env rw' (b_media src)"])
qed

text \<open>C4: Rewrites finish: when the source stays as it is, a rewrite that has copied the first
  \<open>off\<close> bytes copies the next window in each call and answers that it is not done, until call
  number \<open>(n - off - 1) div sz\<close> (counted from 0, for \<open>n\<close> bytes and windows of \<open>sz\<close> bytes), which
  reaches the end: unless it is refused, it answers that it is done, and the object that is then
  read under the destination's name has exactly the bytes of the source, and metageneration 1.\<close>

theorem rewrite_finishes:
  assumes "db_wf (sv_db s)" and "insert_test_bucket env s = (Inr (), s)"
    and "aget r ''rewriteToken'' = Some token" and "under_way s token rw"
    and "rewrite_source env r sb so s = (Inr src, s)"
    and "extract_instruction r Rest \<noteq> Some ''inject-upload-data-error''"
    and "0 < he_chunk env" and "0 < rw_max_bytes_rewritten_per_call rw"
    and "bm_buf (rw_media rw) = take off (bm_buf (b_media src))"
    and "n = length (bm_buf (b_media src))" and "off \<le> n"
    and "sz = nat (rw_max_bytes_rewritten_per_call rw)"
    and "call = objects_rewrite env uuid r data sb so db do"
  shows "(\<forall>k < (n - off - 1) div sz. \<exists>d. fst (call (after_calls call k s)) = Inr (Answer 200 [] (Some d))
      \<and> map_of d ''done'' = Some (JBool False)
      \<and> map_of d ''totalBytesRewritten'' = Some (JStr (show_nat (off + Suc k * sz))))
    \<and> (\<forall>ans t. call (after_calls call ((n - off - 1) div sz) s) = (Inr ans, t) \<longrightarrow>
        (\<exists>d blob. ans = Answer 200 [] (Some d) \<and> map_of d ''done'' = Some (JBool True)
          \<and> get_object db do Rest None [] False (sv_db t) = (Inr (Some blob), sv_db t)
          \<and> bm_buf (b_media blob) = bm_buf (b_media src) \<and> b_metageneration blob = 1))"
proof -
  have sz: "0 < sz" using assms(8,12) by simp
  have state: "\<exists>rw'. under_way (after_calls call k s) token rw' \<and> sv_db (after_calls call k s) = sv_db s
      \<and> rw_max_bytes_rewritten_per_call rw' = rw_max_bytes_rewritten_per_call rw
      \<and> bm_buf (rw_media rw') = take (off + k * sz) (bm_buf (b_media src))"
    if "off + k * sz < n \<or> k = 0" for k
    using rewrite_calls_progress [OF assms(2-5,7) _ assms(9), of k uuid data db "do"] assms(8,10,12,13) that
    by simp
  have window: "call (after_calls call k s) =
      (if n \<le> off + Suc k * sz then finish_rewrite_rest env r data db do rw'' src (put_rewrite rw'' (after_calls call k s))
       else (Inr (Answer 200 [] (Some (rewrite_response rw'' (b_media src) False
             @ [(''rewriteToken'', JStr token)]))), put_rewrite rw'' (after_calls call k s)))
      \<and> bm_buf (rw_media rw'') = take (off + Suc k * sz) (bm_buf (b_media src))"
    if rw': "under_way (after_calls call k s) token rw'" "sv_db (after_calls call k s) = sv_db s"
      "rw_max_bytes_rewritten_per_call rw' = rw_max_bytes_rewritten_per_call rw"
      "bm_buf (rw_media rw') = take (off + k * sz) (bm_buf (b_media src))"
      and k: "off + k * sz \<le> n" and rw'': "rw'' = copy_window env rw' (b_media src)" for k rw' rw''
    using objects_rewrite_call [OF test_bucket_frame [OF assms(2) rw'(2)] assms(3) rw'(1)
        rewrite_source_frame [OF assms(5) rw'(2)] rw'', of uuid data db "do"]
      copy_window_buf [OF rw'(4) _ refl assms(7)] assms(8,10,12) k rw'(3)
    by (simp add: rw'' assms(13) algebra_simps min_def)
  have a: "\<exists>d. fst (call (after_calls call k s)) = Inr (Answer 200 [] (Some d))
      \<and> map_of d ''done'' = Some (JBool False)
      \<and> map_of d ''totalBytesRewritten'' = Some (JStr (show_nat (off + Suc k * sz)))"
    if "k < (n - off - 1) div sz" for k
  proof -
    have "Suc k * sz \<le> n - off - 1"
      using that sz by (metis Suc_leI div_le_mono less_eq_div_iff_mult_less_eq)
    then have k: "off + Suc k * sz < n" "off + k * sz < n"
      using sz assms(11) by (auto simp: algebra_simps)
    then obtain rw' where rw': "under_way (after_calls call k s) token rw'" "sv_db (after_calls call k s) = sv_db s"
        "rw_max_bytes_rewritten_per_call rw' = rw_max_bytes_rewritten_per_call rw"
        "bm_buf (rw_media rw') = take (off + k * sz) (bm_buf (b_media src))"
      using state by blast
    show ?thesis
      using window [OF rw' _ refl] k assms(10) by (simp add: rewrite_response_def)
  qed
  have b: "\<exists>d blob. ans = Answer 200 [] (Some d) \<and> map_of d ''done'' = Some (JBool True)
          \<and> get_object db do Rest None [] False (sv_db t) = (Inr (Some blob), sv_db t)
          \<and> bm_buf (b_media blob) = bm_buf (b_media src) \<and> b_metageneration blob = 1"
    if last: "call (after_calls call ((n - off - 1) div sz) s) = (Inr ans, t)" for ans t
  proof -
    let ?k = "(n - off - 1) div sz"
    have "?k * sz \<le> n - off - 1" by simp
    moreover have "n - off - 1 < Suc ?k * sz"
      using sz by (simp add: dividend_less_div_times)
    moreover have "?k = 0 \<or> 0 < ?k * sz" using sz by (cases "?k = 0") simp_all
    ultimately have k: "n \<le> off + Suc ?k * sz" "off + ?k * sz < n \<or> ?k = 0" "off + ?k * sz \<le> n"
      using assms(11) by linarith+
    obtain rw' where rw': "under_way (after_calls call ?k s) token rw'" "sv_db (after_calls call ?k s) = sv_db s"
        "rw_max_bytes_rewritten_per_call rw' = rw_max_bytes_rewritten_per_call rw"
        "bm_buf (rw_media rw') = take (off + ?k * sz) (bm_buf (b_media src))"
      using state [OF k(2)] by blast
    let ?rw = "copy_window env rw' (b_media src)"
    have fin: "finish_rewrite_rest env r data db do ?rw src (put_rewrite ?rw (after_calls call ?k s)) = (Inr ans, t)"
        and "bm_buf (rw_media ?rw) = bm_buf (b_media src)"
      using window [OF rw' k(3) refl] last k(1) assms(10) by simp_all
    then show ?thesis
      using finish_rewrite_rest_Inr [OF fin _ assms(6)] assms(1) rw'(2)
      by (auto simp: rewrite_response_def)
  qed
  show ?thesis using a b by blast
qed

section \<open>Witness\<close>

definition sample_rewrite :: rewrite where
  "sample_rewrite = \<lparr>rw_src_bucket_name = ''b'', rw_src_object_name = ''o'', rw_dst_bucket_name = ''b'',
     rw_dst_object_name = ''p'', rw_token = ''t'', rw_media = bytes_media_init castagnoli [],
     rw_max_bytes_rewritten_per_call = 2, rw_request = None\<rparr>"

definition sample_rewriting :: service where
  "sample_rewriting = snd (start_rewrite sample_rewrite ''b'' sample_service)"

definition sample_rewrite_request :: request where
  "sample_rewrite_request = \<lparr>args = [(''rewriteToken'', ''t'')], headers = [], environ = [], verb = ''POST''\<rparr>"

lemma sample_rewriting_db:
  "sv_db sample_rewriting = sample_service_db\<lparr>rewrite_table := [(''t'', ''b'')]\<rparr>"
  "sv_rewrites sample_rewriting = [(''t'', sample_rewrite)]"
  "sv_generation sample_rewriting = 41" 
  by (simp_all add: sample_rewriting_def start_rewrite_def sample_service_def seqM_def bindM_def modS_def
      put_rewrite_def on_db_def insert_rewrite_def ret_def sample_rewrite_def sample_service_db_def
      insert_object_def insert_bucket_def plain_steps initial_db_def sample_bucket_def sample_source_def
      sample_bucket_key get_live_generation_def set_live_generation_def notify_def
      upd_objects_def upd_live_def getitem_def)

lemma contents_rewrite_table [simp]: "contents (s\<lparr>rewrite_table := x\<rparr>) = contents s"
  by (simp add: contents_def fun_eq_iff)

lemma db_wf_rewrite_table [simp]: "db_wf (s\<lparr>rewrite_table := x\<rparr>) = db_wf s"
  by (simp add: db_wf_def aligned_def)

lemma sample_rewrite_source:
  "rewrite_source sample_handler_env sample_rewrite_request ''b'' ''o'' sample_rewriting
     = (Inr sample_source, sample_rewriting)"
proof -
  let ?d = "sv_db sample_rewriting"
  have "contents ?d (bucket_key ''b'' Rest) = Some (sample_bucket\<lparr>bk_ubla := False\<rparr>,
      [(object_key ''o'' 7, sample_source)], [(''o'', 7)], [])"
    by (simp add: sample_rewriting_db sample_service_contents)
  then have "lookup_object ''b'' ''o'' Rest None [] True ?d = (Inr (Some sample_source, Some 7), ?d)"
    by (rule lookup_live) simp_all
  then have "get_object ''b'' ''o'' Rest None [] False ?d = (Inr (Some sample_source), ?d)"
    by (rule get_object_of_lookup)
  then show ?thesis
    by (simp add: rewrite_source_def sample_rewrite_request_def aget_def generation_of_text_def
        make_json_preconditions_def select_def bindM_def on_db_def csek_validation_def csek_extract_def
        header_or_empty_def hget_def sample_source_def new_obj_meta_def)
qed

lemma sample_finish:
  assumes "sv_db s = sv_db sample_rewriting"
  shows "\<exists>ans t. finish_rewrite_rest sample_handler_env sample_rewrite_request None ''b'' ''p'' rw sample_source s
     = (Inr ans, t)"
proof -
  let ?bk = "sample_bucket\<lparr>bk_ubla := False\<rparr>"
  let ?md = "(b_metadata sample_source)\<lparr>om_bucket := ''b'', om_name := ''p''\<rparr>"
  have c: "contents (sv_db s) (bucket_key ''b'' Rest) = Some (?bk,
      [(object_key ''o'' 7, sample_source)], [(''o'', 7)], [])"
    by (simp add: assms sample_rewriting_db sample_service_contents)
  have bk: "the_bucket ''b'' Rest s = (Inr ?bk, s)"
    using contents_SomeD [OF c] by (simp add: the_bucket_def bindM_def on_db_def get_bucket_def)
  obtain b p u where "object_init sample_objects 7 sample_rewrite_request no_params (rw_media rw) True Rest None True
      \<lparr>mk_generation = sv_generation s, mk_bucket = ?bk, mk_meta = ?md\<rparr> = (Inr (b, p), u)"
    by (simp add: object_init_def Let_def sample_rewrite_request_def extract_instruction_def hget_def seqM_def
      bindM_def check_checksums_def sample_source_def given_text_def new_obj_meta_def init_contexts_def
      init_retention_def sample_bucket_def get_object_entity_def init_csek_def csek_extract_def sample_objects_def sample_env_def
      header_or_empty_def init_acl_def)
  then obtain t where t: "making_object (\<lambda>_ s. s) ?bk ?md (object_init sample_objects 7 sample_rewrite_request
      no_params (rw_media rw) True Rest None True) s = (Inr (b, p), t)"
    by (simp add: making_object_def)
  have name: "b_name b = ''p''" "sv_db t = sv_db s" "b_media b = rw_media rw"
    using object_made [OF t] contents_SomeD [OF c] assms sample_service_wf
    by (simp_all add: sample_bucket_key sample_rewriting_db sample_bucket_def sample_rewrite_request_def
        extract_instruction_def hget_def)
  have "insert_object ''b'' b Rest [] (sv_db t)
      = (Inr (), after_insert (bucket_key ''b'' Rest) b (sv_db t))"
    using insert_object_result [of "sv_db t" "''b''" Rest _ _ _ _ b "[]"] c name by simp
  moreover obtain d where "object_rest sample_objects
      ((b_metadata b)\<lparr>om_metageneration := 1, om_update_time := om_create_time (b_metadata b)\<rparr>) = Inr d"
    using sample_object_rest by blast
  moreover have "make_json_preconditions (args sample_rewrite_request) ''if'' = []"
    by (simp add: sample_rewrite_request_def make_json_preconditions_def select_def)
  ultimately show ?thesis
    using bk t
    by (simp add: finish_rewrite_rest_def store_copy_def bindM_def seqM_def on_db_def patch_rewritten_def modS_def Let_def)
qed

lemma sample_under_way:
  "insert_test_bucket sample_handler_env sample_rewriting = (Inr (), sample_rewriting)"
  "aget sample_rewrite_request ''rewriteToken'' = Some ''t''"
  "under_way sample_rewriting ''t'' sample_rewrite"
  "db_wf (sv_db sample_rewriting)"
  by (simp_all add: insert_test_bucket_def sample_rewrite_request_def aget_def under_way_def
      sample_rewriting_db sample_rewrite_def sample_service_wf)

abbreviation sample_call :: "answer serviceM" where
  "sample_call \<equiv> objects_rewrite sample_handler_env ''u'' sample_rewrite_request None ''b'' ''o'' ''b'' ''p''"

lemma sample_last_call: "\<exists>ans t. sample_call (after_calls sample_call 1 sample_rewriting) = (Inr ans, t)"
proof -
  obtain rw where rw: "under_way (after_calls sample_call 1 sample_rewriting) ''t'' rw"
      "sv_db (after_calls sample_call 1 sample_rewriting) = sv_db sample_rewriting"
      "rw_max_bytes_rewritten_per_call rw = 2" "bm_buf (rw_media rw) = take 2 [1, 2, 3]"
    using rewrite_calls_progress [OF sample_under_way(1,2,3) sample_rewrite_source, of 0 1 "''u''" None "''b''" "''p''"]
    by (auto simp: sample_rewrite_def sample_source_def bytes_media_init_def)
  have "total_bytes_rewritten rw (b_media sample_source) = 3"
    using rw(3,4) by (simp add: total_bytes_rewritten_def sample_source_def bytes_media_init_def)
  then show ?thesis
    using objects_rewrite_call [OF test_bucket_frame [OF sample_under_way(1) rw(2)] sample_under_way(2) rw(1)
        rewrite_source_frame [OF sample_rewrite_source rw(2)] refl, of "''u''" None "''b''" "''p''"]
      sample_finish [of "put_rewrite _ (after_calls sample_call 1 sample_rewriting)"] rw(2)
    by (simp add: sample_source_def bytes_media_init_def)
qed

lemma sample_numbers:
  "0 < he_chunk sample_handler_env" "0 < rw_max_bytes_rewritten_per_call sample_rewrite"
  "bm_buf (rw_media sample_rewrite) = take 0 (bm_buf (b_media sample_source))"
  "0 \<le> length (bm_buf (b_media sample_source))" "nat (rw_max_bytes_rewritten_per_call sample_rewrite) = 2"
  "(length (bm_buf (b_media sample_source)) - 0 - 1) div 2 = 1"
  by (simp_all add: sample_rewrite_def sample_source_def bytes_media_init_def)

theorem rewrite_finishes_witness:
  "(\<exists>d. fst (sample_call sample_rewriting) = Inr (Answer 200 [] (Some d))
      \<and> map_of d ''done'' = Some (JBool False) \<and> map_of d ''totalBytesRewritten'' = Some (JStr ''2''))
   \<and> (\<exists>ans t blob. sample_call (after_calls sample_call 1 sample_rewriting) = (Inr ans, t)
      \<and> get_object ''b'' ''p'' Rest None [] False (sv_db t) = (Inr (Some blob), sv_db t)
      \<and> bm_buf (b_media blob) = [1, 2, 3])"
proof -
  have "extract_instruction sample_rewrite_request Rest \<noteq> Some ''inject-upload-data-error''"
    by (simp add: sample_rewrite_request_def extract_instruction_def hget_def)
  then have fin: "(\<forall>k < 1. \<exists>d. fst (sample_call (after_calls sample_call k sample_rewriting)) = Inr (Answer 200 [] (Some d))
      \<and> map_of d ''done'' = Some (JBool False)
      \<and> map_of d ''totalBytesRewritten'' = Some (JStr (show_nat (0 + Suc k * 2))))
    \<and> (\<forall>ans t. sample_call (after_calls sample_call 1 sample_rewriting) = (Inr ans, t) \<longrightarrow>
        (\<exists>d blob. ans = Answer 200 [] (Some d) \<and> map_of d ''done'' = Some (JBool True)
          \<and> get_object ''b'' ''p'' Rest None [] False (sv_db t) = (Inr (Some blob), sv_db t)
          \<and> bm_buf (b_media blob) = bm_buf (b_media sample_source) \<and> b_metageneration blob = 1))"
    using rewrite_finishes [OF sample_under_way(4,1,2,3) sample_rewrite_source _ _ _ _ refl _ refl refl,
        of 0 "''u''" None "''b''" "''p''"] sample_numbers
    by (simp only: sample_numbers HOL.simp_thms)
  have "show_nat 2 = ''2''" by (code_simp)
  then have "\<exists>d. fst (sample_call sample_rewriting) = Inr (Answer 200 [] (Some d))
      \<and> map_of d ''done'' = Some (JBool False) \<and> map_of d ''totalBytesRewritten'' = Some (JStr ''2'')"
    using conjunct1 [OF fin] by (auto simp: after_calls_def numeral_2_eq_2)
  moreover have "bm_buf (b_media sample_source) = [1, 2, 3]"
    by (simp add: sample_source_def bytes_media_init_def)
  ultimately show ?thesis
    using conjunct2 [OF fin] sample_last_call by metis
qed

end
