(* ===== verification/Uploads.thy ===== *)
theory Uploads
  imports Service
begin

text \<open>
  Uploads over REST: \<open>src/gcs/upload.py\<close> (\<open>init_resumable_rest\<close>, \<open>resumable_status_rest\<close>,
  \<open>apply_final_checksums\<close>) and the handlers \<open>object_insert\<close> and \<open>resumable_upload_chunk\<close> of
  \<open>src/testbench/rest_server.py\<close>.
\<close>

section \<open>The start of a resumable upload\<close>

definition annotate_metadata :: "string \<Rightarrow> string \<Rightarrow> obj_meta \<Rightarrow> obj_meta" where
  "annotate_metadata key v md = md\<lparr>om_metadata := AList.update key v (om_metadata md)\<rparr>"

text \<open>An annotation copied from the resource: only texts can be stored.\<close>

definition annotate_from :: "dict \<Rightarrow> string \<Rightarrow> string \<Rightarrow> obj_meta \<Rightarrow> err + obj_meta" where
  "annotate_from d field key md = (case map_of d field of
     None \<Rightarrow> Inr md
   | Some JNull \<Rightarrow> Inr md
   | Some (JStr v) \<Rightarrow> Inr (annotate_metadata key v md)
   | Some _ \<Rightarrow> Inl (Exc TypeError))"

definition resumable_metadata :: "handler_env \<Rightarrow> string option \<Rightarrow> dict \<Rightarrow> err + obj_meta" where
  "resumable_metadata env query_name d = (
     let disagrees = (case (query_name, map_of d ''name'') of
           (Some q, Some v) \<Rightarrow> v \<noteq> JNull \<and> v \<noteq> JStr q | _ \<Rightarrow> False);
         show_value = py_str (oe_repr env)
     in if disagrees
        then Inl (invalid (''Value '' @ [CHR 0x27] @ show_value (the (map_of d ''name'')) @ [CHR 0x27]
               @ '' in content does not agree with value '' @ [CHR 0x27] @ the query_name @ [CHR 0x27] @ ''.'')
               Rest)
        else bindE (preprocess_object_metadata d) (\<lambda>r.
             bindE (oe_parse env r) (\<lambda>md.
             bindE (annotate_from d ''crc32c'' ''x_emulator_crc32c''
                      (annotate_metadata ''x_emulator_upload'' ''resumable'' md))
               (annotate_from d ''md5Hash'' ''x_emulator_md5''))))"

definition mark_missing :: "string \<Rightarrow> string \<Rightarrow> obj_meta \<Rightarrow> obj_meta" where
  "mark_missing key mark md =
     (if map_of (om_metadata md) key = None then annotate_metadata mark ''true'' md else md)"

text \<open>The identifier is a hash of a random text.  \<open>bucket_id\<close> is the name of the bucket without its
  resource prefix.\<close>

definition init_resumable_rest ::
    "handler_env \<Rightarrow> string \<Rightarrow> string \<Rightarrow> request \<Rightarrow> bytes \<Rightarrow> bucket \<Rightarrow> err + upload" where
  "init_resumable_rest env upload_id host_url request data bk =
     bindE (if data = [] then Inr new_obj_meta
            else bindE (he_loads env data) (resumable_metadata env (aget request ''name''))) (\<lambda>md.
     let md = mark_missing ''x_emulator_md5'' ''x_emulator_no_md5''
                (mark_missing ''x_emulator_crc32c'' ''x_emulator_no_crc32c'' md);
         md = (case aget request ''name'' of Some (c # cs) \<Rightarrow> md\<lparr>om_name := c # cs\<rparr> | _ \<Rightarrow> md)
     in if om_name md = [] then Inl (invalid ''No object name'' Rest)
        else let
          md = (if om_content_type md = [] then md\<lparr>om_content_type :=
                  (case hget request ''x-upload-content-type'' of
                     None \<Rightarrow> ''application/octet-stream'' | Some t \<Rightarrow> t)\<rparr>
                else md);
          hs = filter (\<lambda>(k, _). startswith k ''x-'') (map (\<lambda>(k, v). (py_lower k, v)) (headers request));
          fake = \<lparr>args = args request, headers = hs, environ = [], verb = []\<rparr>
        in Inr \<lparr>up_request = fake, up_metadata = md, up_bucket = bk,
             up_location = host_url @ ''upload/storage/v1/b/'' @ bucket_name_from_proto (bk_name bk)
               @ ''/o?uploadType=resumable&upload_id='' @ upload_id,
             up_id = upload_id, up_media = bytes_media_init (oe_crc32c env) [], up_complete = False,
             up_transfer = [], up_preconditions = make_json_preconditions (args fake) ''if'',
             up_params = None, up_made = False\<rparr>)"

section \<open>The state of an upload\<close>

definition resumable_status_rest :: "upload \<Rightarrow> bool \<Rightarrow> answer" where
  "resumable_status_rest up override_308 = (
     let persisted = length (bm_buf (up_media up));
         hs = (if 1 < persisted \<and> \<not> up_complete up
               then [(''Range'', ''bytes=0-'' @ show_nat (persisted - 1))] else [])
     in if override_308 then Answer 200 (hs @ [(''X-Http-Status-Code-Override'', ''308'')]) None
        else Answer 308 hs None)"

definition drop_annotation :: "string \<Rightarrow> obj_meta \<Rightarrow> obj_meta" where
  "drop_annotation key md = md\<lparr>om_metadata := AList.delete key (om_metadata md)\<rparr>"

fun final_checksums :: "string list \<Rightarrow> obj_meta \<Rightarrow> obj_meta" where
  "final_checksums [] md = md"
| "final_checksums (checksum # rest) md =
     (let md = (if startswith checksum ''md5=''
            then drop_annotation ''x_emulator_no_md5''
                   (annotate_metadata ''x_emulator_md5'' (drop 4 checksum) md) else md);
          md = (if startswith checksum ''crc32c=''
            then drop_annotation ''x_emulator_no_crc32c''
                   (annotate_metadata ''x_emulator_crc32c'' (drop 7 checksum) md) else md)
      in final_checksums rest md)"

definition apply_final_checksums :: "string option \<Rightarrow> upload \<Rightarrow> upload" where
  "apply_final_checksums hash_header up = (case hash_header of
     None \<Rightarrow> up
   | Some h \<Rightarrow> if h = [] then up
               else up\<lparr>up_metadata := final_checksums (split_on CHR '','' h) (up_metadata up)\<rparr>)"

definition the_upload :: "string \<Rightarrow> ctx \<Rightarrow> upload serviceM" where
  "the_upload upload_id c = seqM (on_db (get_upload upload_id c))
     (bindM (getS (\<lambda>s. map_of (sv_uploads s) upload_id)) require)"

definition start_upload :: "upload \<Rightarrow> unit serviceM" where
  "start_upload up = seqM (modS (put_upload up)) (on_db (insert_upload (up_id up) (bk_name (up_bucket up))))"

definition append_data :: "handler_env \<Rightarrow> bytes \<Rightarrow> upload \<Rightarrow> upload" where
  "append_data env data up = up\<lparr>up_media := bm_append (oe_crc32c env) data (up_media up)\<rparr>"

text \<open>The bucket and, once there is an object, the metadata are the messages of the database.\<close>

definition upload_bucket :: "upload \<Rightarrow> service \<Rightarrow> bucket" where
  "upload_bucket up s = (case map_of (buckets (sv_db s)) (bk_name (up_bucket up)) of
     None \<Rightarrow> up_bucket up | Some bk \<Rightarrow> bk)"

definition shared_metadata :: "upload \<Rightarrow> service \<Rightarrow> obj_meta" where
  "shared_metadata up s =
     (let md = up_metadata up in
      case contents (sv_db s) (bk_name (up_bucket up)) of
        None \<Rightarrow> md
      | Some (_, os, _, _) \<Rightarrow> (case map_of os (object_key (om_name md) (om_generation md)) of
          None \<Rightarrow> md | Some blob \<Rightarrow> b_metadata blob))"

definition keep_upload_metadata :: "string \<Rightarrow> obj_meta \<Rightarrow> service \<Rightarrow> service" where
  "keep_upload_metadata upload_id md s = (case map_of (sv_uploads s) upload_id of
     None \<Rightarrow> s | Some up \<Rightarrow> put_upload (up\<lparr>up_metadata := md\<rparr>) s)"

text \<open>The faults work on the bytes of the upload and on the retry tests.\<close>

definition on_upload_media ::
    "handler_env \<Rightarrow> string \<Rightarrow> (err, retry_db \<times> upload_media, 'a) pym \<Rightarrow> 'a serviceM" where
  "on_upload_media env upload_id m s = (case map_of (sv_uploads s) upload_id of
     None \<Rightarrow> (Inl (Exc AttributeError), s)
   | Some up \<Rightarrow>
     (let old = bm_buf (up_media up) in
      case m (retry (sv_db s), (old, up_complete up)) of
        (r, (q, (new, complete))) \<Rightarrow>
          (r, put_upload ((if new = old then up else append_data env (drop (length old) new) up)
                 \<lparr>up_complete := complete\<rparr>)
               (s\<lparr>sv_db := (sv_db s)\<lparr>retry := q\<rparr>\<rparr>))))"

section \<open>The end of an upload\<close>

text \<open>The upload is complete in the state already, whatever happens from here on.\<close>

definition finish_upload ::
    "handler_env \<Rightarrow> string \<Rightarrow> upload \<Rightarrow> (obj_meta \<Rightarrow> obj_meta) \<Rightarrow> answer serviceM" where
  "finish_upload env bucket_name up extra =
     bindM (getS (upload_bucket up)) (\<lambda>bk.
     bindM (making_object (keep_upload_metadata (up_id up)) bk (up_metadata up)
        (object_init (objects_of env) (he_now env) (up_request up) no_params (up_media up) False Rest None True))
       (\<lambda>(made, _).
     let blob = map_metadata extra made in
     seqM (modS (keep_upload_metadata (up_id up) (b_metadata blob)))
     (seqM (on_db (insert_object bucket_name blob Rest (make_json_preconditions (args (up_request up)) ''if'')))
     (bindM (liftE (object_rest (objects_of env) (b_metadata blob))) (\<lambda>resource.
      ret (Answer 200 [] (Some (response_rest env resource
             (extract_projection (up_request up) ''noAcl'' Rest) (aget (up_request up) ''fields'')))))))))"

definition transfer_annotation :: "handler_env \<Rightarrow> upload \<Rightarrow> obj_meta \<Rightarrow> obj_meta" where
  "transfer_annotation env up =
     annotate_metadata ''x_emulator_transfer_encoding'' (he_join env (up_transfer up))"

definition complete_upload ::
    "handler_env \<Rightarrow> request \<Rightarrow> string \<Rightarrow> upload \<Rightarrow> (obj_meta \<Rightarrow> obj_meta) \<Rightarrow> answer serviceM" where
  "complete_upload env request bucket_name up extra =
     (let up = apply_final_checksums (hget request ''x-goog-hash'') (up\<lparr>up_complete := True\<rparr>)
      in seqM (modS (put_upload up)) (finish_upload env bucket_name up extra))"

section \<open>A chunk of a resumable upload\<close>

definition content_range_re :: regex where
  "content_range_re = seqs [lit ''bytes '',
     Grp (Alt (lit ''*'') (Alt (seqs [digits, lit ''-'', digits]) (seqs [digits, lit ''-'', lit ''*'']))),
     lit ''/'', Grp (Alt (lit ''*'') digits)]"

definition content_range_split :: "string \<Rightarrow> err + string \<times> string" where
  "content_range_split content_range = (case re_match content_range_re content_range of
     Some [a, b] \<Rightarrow> if a = b \<and> a \<noteq> ''*'' then Inl (invalid ''content-range header'' Rest) else Inr (a, b)
   | _ \<Rightarrow> Inl (Exc AttributeError))"

text \<open>The first byte, the last byte and the size of the object, as the header gives them.\<close>

definition chunk_bounds :: "request \<Rightarrow> string \<Rightarrow> string \<Rightarrow> nat \<Rightarrow> err + int \<times> int \<times> int" where
  "chunk_bounds up_req rng object_size len = (
     case split_on CHR ''-'' rng of
       [fst_text, last_text] \<Rightarrow>
         bindE (case hget up_req ''x-upload-content-length'' of
             None \<Rightarrow> Inr 0
           | Some t \<Rightarrow> (case py_int t of None \<Rightarrow> Inl (Exc ValueError) | Some n \<Rightarrow> Inr n)) (\<lambda>n.
         let chunk_first_byte = int_of_digits fst_text;
             x_upload_content_length = (if last_text = ''*'' \<and> n = 0 then int len else n);
             chunk_last_byte = (if last_text = ''*'' then chunk_first_byte + int len - 1 else int_of_digits last_text);
             total_object_size =
               (if object_size \<noteq> ''*'' then int_of_digits object_size else x_upload_content_length)
         in if x_upload_content_length \<noteq> 0 \<and> x_upload_content_length \<noteq> total_object_size
            then Inl (mismatch_code (Code 400) FAILED_PRECONDITION ''X-Upload-Content-Length''
                   (show_int x_upload_content_length) (show_int total_object_size) Rest)
            else Inr (chunk_first_byte, chunk_last_byte, total_object_size))
     | _ \<Rightarrow> Inl (Exc ValueError))"

definition chunk_faults ::
    "handler_env \<Rightarrow> request \<Rightarrow> string \<Rightarrow> bytes \<Rightarrow> int \<Rightarrow> int \<Rightarrow> int \<Rightarrow> unit serviceM" where
  "chunk_faults env request upload_id data last_byte_persisted chunk_first_byte chunk_last_byte =
     (let forced = extract_instruction request Rest = Some ''return-503-after-256K'' in
      bindM (on_tests (get_retry_uploads_error_after_bytes request Rest ''HTTP''))
        (\<lambda>(error_code, after_bytes, test_id).
      seqM (if error_code \<noteq> 0 \<or> forced
            then on_upload_media env upload_id (handle_retry_uploads_error_after_bytes data
                   (if forced then 503 else error_code) (if forced then 262144 else int after_bytes)
                   last_byte_persisted chunk_first_byte chunk_last_byte test_id)
            else ret ())
      (bindM (on_tests (get_stall_uploads_after_bytes request ''HTTP''))
        (\<lambda>(stall_time, after_bytes, test_id).
       if stall_time \<noteq> 0
       then seqM (on_upload_media env upload_id (handle_stall_uploads_after_bytes data after_bytes test_id))
              (ret ())
       else ret ()))))"

definition store_chunk :: "handler_env \<Rightarrow> bytes \<Rightarrow> int \<Rightarrow> int \<Rightarrow> int \<Rightarrow> int \<Rightarrow> upload \<Rightarrow> upload" where
  "store_chunk env data last_byte_persisted chunk_first_byte chunk_last_byte total_object_size up =
     (let range_start = (if last_byte_persisted \<noteq> 0 \<and> chunk_first_byte \<le> last_byte_persisted
                         then last_byte_persisted - chunk_first_byte + 1 else 0);
          up = append_data env (if range_start \<noteq> 0 then partial_media data (chunk_last_byte + 1) range_start
                                else data) up
      in up\<lparr>up_complete := (total_object_size = int (length (bm_buf (up_media up)))
               \<or> chunk_last_byte + 1 = total_object_size)\<rparr>)"

text \<open>A request with the header \<open>content-range\<close>: the query of the status, the end of an upload
  whose bytes are all there, or a chunk.\<close>

definition resumable_annotations ::
    "handler_env \<Rightarrow> request \<Rightarrow> upload \<Rightarrow> obj_meta \<Rightarrow> obj_meta" where
  "resumable_annotations env request up md =
     annotate_metadata ''x_emulator_custom_header''
       (case hget request ''x-goog-emulator-custom-header'' of None \<Rightarrow> ''None'' | Some v \<Rightarrow> v)
     (annotate_metadata ''x_emulator_upload'' ''resumable'' (transfer_annotation env up md))"

definition answer_chunk :: "handler_env \<Rightarrow> request \<Rightarrow> string \<Rightarrow> string \<Rightarrow> answer serviceM" where
  "answer_chunk env request bucket_name upload_id =
     bindM (the_upload upload_id Rest) (\<lambda>up.
     if up_complete up then complete_upload env request bucket_name up (resumable_annotations env request up)
     else ret (resumable_status_rest up (hget request ''x-guploader-no-308'' = Some ''yes'')))"

definition ranged_chunk ::
    "handler_env \<Rightarrow> request \<Rightarrow> bytes \<Rightarrow> string \<Rightarrow> upload \<Rightarrow> string \<times> string \<Rightarrow> answer serviceM" where
  "ranged_chunk env request data bucket_name up items = (case items of (rng, object_size) \<Rightarrow>
     let persisted = length (bm_buf (up_media up));
         last_byte_persisted = (if persisted = 0 then 0 else int persisted - 1)
     in if rng = ''*'' then
          (if object_size \<noteq> ''*'' \<and> int_of_digits object_size = int persisted
           then complete_upload env request bucket_name up (transfer_annotation env up)
           else ret (resumable_status_rest up False))
        else bindM (liftE (chunk_bounds (up_request up) rng object_size (length data)))
          (\<lambda>(chunk_first_byte, chunk_last_byte, total_object_size).
        seqM (chunk_faults env request (up_id up) data last_byte_persisted chunk_first_byte chunk_last_byte)
        (bindM (the_upload (up_id up) Rest) (\<lambda>up.
        seqM (modS (put_upload (store_chunk env data last_byte_persisted chunk_first_byte chunk_last_byte
                total_object_size up)))
        (answer_chunk env request bucket_name (up_id up))))))"

text \<open>The encodings that the upload has seen, with the one of the request.\<close>

definition with_transfer :: "request \<Rightarrow> upload \<Rightarrow> upload" where
  "with_transfer request up =
     (let encoding = (case map_of (environ request) ''HTTP_TRANSFER_ENCODING'' of None \<Rightarrow> [] | Some e \<Rightarrow> e)
      in up\<lparr>up_transfer := (if encoding \<in> set (up_transfer up) then up_transfer up
                            else up_transfer up @ [encoding])\<rparr>)"

definition check_content_length :: "request \<Rightarrow> nat \<Rightarrow> err + unit" where
  "check_content_length request len = (case hget request ''content-length'' of
     None \<Rightarrow> Inr ()
   | Some t \<Rightarrow> (case py_int t of
       None \<Rightarrow> Inl (Exc ValueError)
     | Some n \<Rightarrow> if n \<noteq> int len then Inl (invalid ''content-length header'' Rest) else Inr ()))"

definition resumable_upload_chunk ::
    "handler_env \<Rightarrow> request \<Rightarrow> bytes \<Rightarrow> bytes \<Rightarrow> string \<Rightarrow> answer serviceM" where
  "resumable_upload_chunk env request body wsgi_input bucket_name = (case aget request ''upload_id'' of
     None \<Rightarrow> raise (missing ''upload_id in resumable_upload_chunk'' Rest)
   | Some upload_id \<Rightarrow>
     bindM (the_upload upload_id Rest) (\<lambda>up.
     if up_complete up then
       bindM (getS (shared_metadata up)) (\<lambda>md.
       bindM (liftE (object_rest (objects_of env) md)) (\<lambda>d. ret (Answer 200 [] (Some d))))
     else
     let up = with_transfer request up; data = extract_media request body wsgi_input in
     seqM (modS (put_upload up))
     (seqM (liftE (check_content_length request (length data)))
     (case hget request ''content-range'' of
        Some content_range \<Rightarrow>
          bindM (liftE (content_range_split content_range)) (ranged_chunk env request data bucket_name up)
      | None \<Rightarrow>
          seqM (modS (put_upload ((append_data env data up)\<lparr>up_complete := True\<rparr>)))
            (answer_chunk env request bucket_name upload_id)))))"

section \<open>Uploads of any type\<close>

text \<open>\<open>object_insert\<close>.  The faults of a single-shot upload only take an instruction from the queue;
  the time of a stall is not modelled.\<close>

definition single_shot_fault :: "handler_env \<Rightarrow> request \<Rightarrow> blob \<Rightarrow> unit serviceM" where
  "single_shot_fault env request blob =
     (let sz = length (bm_buf (b_media blob));
          take_instruction = (\<lambda>test_id. if test_id \<noteq> []
            then seqM (on_tests (dequeue_next_instruction test_id ''storage.objects.insert'')) (ret ())
            else ret ()) in
      bindM (on_tests (get_retry_uploads_error_after_bytes request Rest ''HTTP''))
        (\<lambda>(error_code, after_bytes, test_id).
      seqM (if error_code \<noteq> 0 \<and> after_bytes \<le> sz
            then seqM (take_instruction test_id) (raise (generic
                   (Text ''Fault injected during a single-shot upload'') (Code (int error_code)) None Rest))
            else ret ())
      (bindM (on_tests (get_stall_uploads_after_bytes request ''HTTP'')) (\<lambda>(stall_time, after_bytes, test_id).
       if stall_time \<noteq> 0 \<and> after_bytes \<le> sz then take_instruction test_id else ret ()))))"

definition insert_single_shot ::
    "handler_env \<Rightarrow> multipart_lib \<Rightarrow> request \<Rightarrow> bytes \<Rightarrow> bytes \<Rightarrow> string \<Rightarrow> bucket \<Rightarrow> string \<Rightarrow> answer serviceM" where
  "insert_single_shot env ml request body wsgi_input bucket_name bk upload_type =
     bindM (making_object (\<lambda>_ s. s) bk new_obj_meta
        (if upload_type = ''media'' then
           init_media (objects_of env) (he_now env) request (extract_media request body wsgi_input)
         else init_multipart (objects_of env) ml (he_now env) request (extract_media request body wsgi_input)))
       (\<lambda>(blob, projection).
     seqM (single_shot_fault env request blob)
     (seqM (on_db (insert_object bucket_name blob Rest (make_json_preconditions (args request) ''if'')))
     (bindM (liftE (object_rest (objects_of env) (b_metadata blob))) (\<lambda>resource.
      ret (Answer 200 [] (Some (response_rest env resource projection (aget request ''fields''))))))))"

definition object_insert ::
    "handler_env \<Rightarrow> multipart_lib \<Rightarrow> string \<Rightarrow> string \<Rightarrow> request \<Rightarrow> bytes \<Rightarrow> bytes \<Rightarrow> string \<Rightarrow> answer serviceM" where
  "object_insert env ml new_id host_url request body wsgi_input bucket_name =
     (if aget request ''upload_id'' \<noteq> None
      then resumable_upload_chunk env request body wsgi_input bucket_name
      else seqM (insert_test_bucket env)
        (bindM (the_bucket bucket_name Rest) (\<lambda>bk. case aget request ''uploadType'' of
           None \<Rightarrow> raise (missing ''uploadType'' Rest)
         | Some upload_type \<Rightarrow>
             if upload_type \<notin> {''multipart'', ''media'', ''resumable''}
             then raise (invalid (''uploadType '' @ upload_type) Rest)
             else if upload_type = ''resumable'' then
               bindM (liftE (init_resumable_rest env new_id host_url request body bk)) (\<lambda>up.
               seqM (start_upload up) (ret (Answer 200 [(''Location'', up_location up)] None)))
             else insert_single_shot env ml request body wsgi_input bucket_name bk upload_type)))"

section \<open>Reading the header\<close>

text \<open>The first match of an expression.\<close>

lemma first_Seq:
  assumes "rmatch r False s = (g, t) # xs" and "rmatch q False t = (h, u) # ys"
  shows "\<exists>zs. rmatch (Seq r q) False s = (g @ h, u) # zs"
  using assms by simp

lemma first_Grp: "rmatch r b (w @ t) = (g, t) # xs \<Longrightarrow> \<exists>ys. rmatch (Grp r) b (w @ t) = (w # g, t) # ys"
  by simp

lemma first_Alt:
  "rmatch r b s = x # xs \<Longrightarrow> \<exists>ys. rmatch (Alt r q) b s = x # ys"
  "rmatch r b s = [] \<Longrightarrow> rmatch (Alt r q) b s = rmatch q b s"
  by simp_all

lemma first_digits:
  assumes "t = [] \<or> \<not> is_digit (hd t)"
  shows "\<exists>xs. rmatch digits b (show_nat n @ t) = ([], t) # xs"
proof -
  have "1 \<le> length (show_nat n)" by (cases "show_nat n") auto
  from many_lengths_run [OF show_nat_all_digits assms this]
  obtain ns where "many_lengths is_digit (Suc 0) None (show_nat n @ t) = length (show_nat n) # ns"
    by auto
  then show ?thesis by (simp add: digits_def)
qed

lemma first_lit: "rmatch (Seq (lit p) q) b (p @ s) = rmatch q (b \<and> p = []) s"
  by (subst rmatch_Seq_lit) simp

lemma no_digits: "\<not> is_digit (CHR ''*'')" "\<not> is_digit (CHR ''-'')" "\<not> is_digit (CHR ''/'')"
  by (simp_all add: is_digit_def py_ord_def)

lemma star_no_digit: "\<not> prefix ''*'' (show_nat n @ t)"
proof -
  obtain c cs where c: "show_nat n = c # cs" by (cases "show_nat n") auto
  then have "is_digit c" using show_nat_all_digits [of n] by simp
  then show ?thesis using c no_digits(1) by auto
qed

lemma first_size:
  assumes "w = ''*'' \<or> w = show_nat n"
  shows "\<exists>xs. rmatch (Grp (Alt (lit ''*'') digits)) b w = ([w], []) # xs"
proof -
  have "\<exists>xs. rmatch (Alt (lit ''*'') digits) b w = ([], []) # xs"
    using assms
  proof
    assume "w = ''*''"
    then show ?thesis by (simp add: rmatch_lit)
  next
    assume w: "w = show_nat n"
    then have "\<not> prefix ''*'' w" using star_no_digit [of n "[]"] by (metis append_Nil2)
    then have "rmatch (lit ''*'') b w = []" by (simp only: rmatch_lit if_False)
    then have "rmatch (Alt (lit ''*'') digits) b w = rmatch digits b w" by (rule first_Alt(2))
    then show ?thesis using first_digits [of "[]" b n] w by (simp only: append_Nil2) simp
  qed
  then show ?thesis using first_Grp [of _ b w "[]"] unfolding append_Nil2 by blast
qed

lemma content_range_chunk:
  assumes "w = ''*'' \<or> w = show_nat n"
  shows "content_range_split (''bytes '' @ show_nat a @ ''-'' @ show_nat e @ ''/'' @ w)
      = Inr (show_nat a @ ''-'' @ show_nat e, w)"
proof -
  let ?range = "show_nat a @ ''-'' @ show_nat e"
  obtain xs where xs: "rmatch digits False (show_nat e @ ''/'' @ w) = ([], ''/'' @ w) # xs"
    using first_digits [of "''/'' @ w" False e] no_digits by auto
  have "rmatch (Seq (lit ''-'') digits) False (''-'' @ show_nat e @ ''/'' @ w) = ([], ''/'' @ w) # xs"
    by (subst first_lit) (simp add: xs [simplified])
  moreover obtain ys where "rmatch digits False (show_nat a @ ''-'' @ show_nat e @ ''/'' @ w)
      = ([], ''-'' @ show_nat e @ ''/'' @ w) # ys"
    using first_digits [of "''-'' @ show_nat e @ ''/'' @ w" False a] no_digits(2) by auto
  ultimately obtain zs where "rmatch (seqs [digits, lit ''-'', digits]) False (?range @ ''/'' @ w)
      = ([], ''/'' @ w) # zs"
    using rmatch_Seq_first [of digits False "?range @ ''/'' @ w"] by fastforce
  then obtain us where "rmatch (Alt (seqs [digits, lit ''-'', digits]) (seqs [digits, lit ''-'', lit ''*'']))
      False (?range @ ''/'' @ w) = ([], ''/'' @ w) # us"
    using first_Alt(1) by blast
  moreover have "rmatch (lit ''*'') False (?range @ ''/'' @ w) = []"
    using star_no_digit [of a "''-'' @ show_nat e @ ''/'' @ w"]
    by (simp only: rmatch_lit append_assoc if_False)
  ultimately have "rmatch (Alt (lit ''*'') (Alt (seqs [digits, lit ''-'', digits])
      (seqs [digits, lit ''-'', lit ''*'']))) False (?range @ ''/'' @ w) = ([], ''/'' @ w) # us"
    using first_Alt(2) by metis
  then obtain vs where v: "rmatch (Grp (Alt (lit ''*'') (Alt (seqs [digits, lit ''-'', digits])
      (seqs [digits, lit ''-'', lit ''*''])))) False (?range @ ''/'' @ w) = ([?range], ''/'' @ w) # vs"
    using first_Grp by blast
  obtain ks where "rmatch (Grp (Alt (lit ''*'') digits)) False w = ([w], []) # ks"
    using first_size [OF assms] by blast
  then have "rmatch (Seq (lit ''/'') (Grp (Alt (lit ''*'') digits))) False (''/'' @ w) = ([w], []) # ks"
    by (subst first_lit) simp
  then obtain zs where z: "rmatch (Seq (Grp (Alt (lit ''*'') (Alt (seqs [digits, lit ''-'', digits])
      (seqs [digits, lit ''-'', lit ''*''])))) (Seq (lit ''/'') (Grp (Alt (lit ''*'') digits)))) False
      (?range @ ''/'' @ w) = ([?range] @ [w], []) # zs"
    using first_Seq [OF v] by blast
  have "re_match content_range_re (''bytes '' @ ?range @ ''/'' @ w) = Some [?range, w]"
    unfolding re_match_def content_range_re_def seqs.simps
    by (subst first_lit) (use z in \<open>simp del: rmatch.simps\<close>)
  moreover have "?range \<noteq> w"
  proof
    assume "?range = w"
    then have "CHR ''-'' \<in> set w" by auto
    then show False using assms show_nat_all_digits [of n] no_digits(2) by auto
  qed
  ultimately show ?thesis by (simp add: content_range_split_def)
qed


section \<open>A request without faults\<close>

definition pending :: "service \<Rightarrow> string \<Rightarrow> upload \<Rightarrow> bool" where
  "pending s upload_id up \<longleftrightarrow> map_of (uploads (sv_db s)) upload_id \<noteq> None
     \<and> map_of (sv_uploads s) upload_id = Some up \<and> up_id up = upload_id"

definition plain_request :: "request \<Rightarrow> string \<Rightarrow> nat \<Rightarrow> bool" where
  "plain_request request upload_id len \<longleftrightarrow> aget request ''upload_id'' = Some upload_id
     \<and> hget request ''x-retry-test-id'' = None \<and> extract_instruction request Rest = None
     \<and> hget request ''content-length'' \<in> {None, Some (show_nat len)}"

lemma the_upload_pending: "pending s upload_id up \<Longrightarrow> the_upload upload_id c s = (Inr up, s)"
  by (auto simp: pending_def the_upload_def seqM_def bindM_def on_db_def get_upload_def getS_def ret_def)

lemma pending_put:
  "pending s upload_id up \<Longrightarrow> up_id up' = upload_id \<Longrightarrow> pending (put_upload up' s) upload_id up'"
  by (simp add: pending_def)

lemma put_put [simp]: "up_id up = up_id up' \<Longrightarrow> put_upload up' (put_upload up s) = put_upload up' s"
  by (simp add: put_upload_def)

lemma on_tests_ret: "on_tests (ret x) s = (Inr x, s)"
  by (simp add: on_tests_def on_db_def on_retry_db_def ret_def)

lemma chunk_faults_plain:
  "plain_request request upload_id len \<Longrightarrow> chunk_faults env request i data l a e s = (Inr (), s)"
  by (simp add: plain_request_def chunk_faults_def get_retry_uploads_error_after_bytes_def
      get_stall_uploads_after_bytes_def upload_instruction_def bindM_def seqM_def on_tests_ret)

lemma store_chunk_id [simp]: "up_id (store_chunk env data l a e n up) = up_id up"
  by (simp add: store_chunk_def append_data_def Let_def)

text \<open>The size of the object as a chunk knows it: the one of its own header, else the one that the
  first request of the upload declared, else 0; a declared size must not differ.\<close>

definition known_size :: "request \<Rightarrow> string \<Rightarrow> nat \<Rightarrow> bool" where
  "known_size up_req w tot \<longleftrightarrow> (\<exists>n.
     (hget up_req ''x-upload-content-length'' = None \<and> n = 0
       \<or> hget up_req ''x-upload-content-length'' = Some (show_nat n))
     \<and> (w = ''*'' \<and> tot = n \<or> w = show_nat tot \<and> (n = 0 \<or> n = tot)))"

lemma py_int_show_nat: "py_int (show_nat n) = Some (int n)"
  using py_int_show_int [of "int n"] by (simp add: show_int_nonneg)

lemma int_of_digits_show_nat: "int_of_digits (show_nat n) = int n"
  by (simp add: int_of_digits_def nat_of_digits_show_nat)

lemma known_size_simps:
  "hget up_req ''x-upload-content-length'' = None \<Longrightarrow> known_size up_req ''*'' 0"
  "hget up_req ''x-upload-content-length'' = None \<Longrightarrow> known_size up_req (show_nat tot) tot"
  by (auto simp: known_size_def)

lemma chunk_bounds_plain:
  assumes "known_size up_req w tot"
  shows "chunk_bounds up_req (show_nat a @ ''-'' @ show_nat e) w len = Inr (int a, int e, int tot)"
proof -
  have "CHR ''-'' \<notin> set (show_nat a)" "CHR ''-'' \<notin> set (show_nat e)"
    using show_nat_all_digits no_digits(2) by blast+
  then have "split_on CHR ''-'' (show_nat a @ ''-'' @ show_nat e) = [show_nat a, show_nat e]"
    using split_on_append_sep [of "CHR ''-''" "show_nat a" "show_nat e"] by (simp add: split_on_id)
  moreover have "show_nat k \<noteq> ''*''" for k
    using star_no_digit [of k "[]"] by auto
  ultimately show ?thesis
    using assms
    by (auto simp: chunk_bounds_def known_size_def py_int_show_nat int_of_digits_show_nat Let_def)
qed

lemma with_transfer_simps [simp]:
  "up_id (with_transfer r up) = up_id up" "up_media (with_transfer r up) = up_media up"
  "up_request (with_transfer r up) = up_request up" "up_metadata (with_transfer r up) = up_metadata up"
  "up_bucket (with_transfer r up) = up_bucket up" "up_complete (with_transfer r up) = up_complete up"
  by (simp_all add: with_transfer_def Let_def)

lemma chunk_step:
  assumes "pending s upload_id up" and "\<not> up_complete up"
    and "data = extract_media request body wsgi_input"
    and "plain_request request upload_id (length data)"
    and "hget request ''content-range'' = Some (''bytes '' @ show_nat a @ ''-'' @ show_nat e @ ''/'' @ w)"
    and "known_size (up_request up) w tot"
  shows "resumable_upload_chunk env request body wsgi_input bucket_name s =
    (let p = length (bm_buf (up_media up)) in
     answer_chunk env request bucket_name upload_id (put_upload (store_chunk env data
       (if p = 0 then 0 else int p - 1) (int a) (int e) (int tot)
       (with_transfer request up)) s))"
proof -
  have id: "up_id up = upload_id" using assms(1) by (simp add: pending_def)
  have "show_nat a @ ''-'' @ show_nat e \<noteq> ''*''" using star_no_digit [of a] by (metis prefix_order.refl)
  moreover have "pending (put_upload (with_transfer request up) s) upload_id (with_transfer request up)"
    using assms(1) id by (intro pending_put) simp_all
  moreover have "check_content_length request (length data) = Inr ()"
    using assms(4) by (auto simp: plain_request_def check_content_length_def py_int_show_nat)
  moreover have "aget request ''upload_id'' = Some upload_id" using assms(4) by (simp add: plain_request_def)
  moreover obtain h where "hget request ''content-range'' = Some h"
      "content_range_split h = Inr (show_nat a @ ''-'' @ show_nat e, w)"
    using content_range_chunk [of w tot a e] assms(5,6) by (auto simp: known_size_def)
  moreover have "chunk_bounds (up_request up) (show_nat a @ ''-'' @ show_nat e) w (length data)
      = Inr (int a, int e, int tot)"
    using chunk_bounds_plain [OF assms(6)] .
  ultimately show ?thesis
    using assms(2) the_upload_pending [OF assms(1)] id
    by (simp add: resumable_upload_chunk_def bindM_def seqM_def Let_def modS_def ranged_chunk_def
        the_upload_pending assms(3) [symmetric] chunk_faults_plain [OF assms(4)] liftE_def
        del: append.simps)
qed

section \<open>The bytes of an upload\<close>

text \<open>What an upload that has stored the first \<open>p\<close> bytes of the content \<open>c\<close> holds after a chunk with the
  bytes from \<open>a\<close> to \<open>e\<close>, where \<open>a \<le> p\<close>: the bytes up to the end of the chunk.  A single stored byte is not recognised when it is
  sent again, and is stored twice.\<close>

definition after_chunk :: "nat \<Rightarrow> nat \<Rightarrow> nat \<Rightarrow> bytes \<Rightarrow> bytes" where
  "after_chunk p a e c = (if p = 1 \<and> a = 0 then take 1 c @ take (e + 1) c else take (max p (e + 1)) c)"

lemma appended_part:
  assumes "a \<le> p" and "a \<le> e" and "data = take (e + 1 - a) (drop a c)"
  shows "take p c @ drop (p - a) data = take (max p (e + 1)) c"
proof (cases "p \<le> e + 1")
  case True
  have "drop (p - a) data = drop p (take (e + 1) c)"
    using assms True by (simp add: drop_take add.commute)
  moreover have "take p c = take p (take (e + 1) c)" using True by (simp add: min_absorb1)
  moreover have "max p (e + 1) = e + 1" using True by (rule max_absorb2)
  ultimately show ?thesis by (metis append_take_drop_id)
next
  case False
  then show ?thesis using assms by (simp add: max_def)
qed

lemma store_chunk_bytes:
  assumes "bm_buf (up_media up) = take p c" and "p \<le> length c"
    and "a \<le> p" and "a \<le> e" and "e < length c" and "data = take (e + 1 - a) (drop a c)"
    and "up' = store_chunk env data (if p = 0 then 0 else int p - 1) (int a) (int e) (int tot) up"
  shows "bm_buf (up_media up') = after_chunk p a e c"
    and "up_complete up' \<longleftrightarrow> tot = length (after_chunk p a e c) \<or> e + 1 = tot"
    and "up_metadata up' = up_metadata up" "up_request up' = up_request up" "up_bucket up' = up_bucket up"
proof -
  note appended = appended_part [OF assms(3,4,6)]
  have sliced: "partial_media data (int e + 1) (int p - 1 - int a + 1) = drop (p - a) data"
  proof -
    have "int p - 1 - int a + 1 = int (p - a)" "int e + 1 = int (e + 1)" using assms(3) by simp_all
    moreover have "py_slice data (int (p - a)) (int (e + 1)) = drop (p - a) data"
      using assms(6) by (simp only: py_slice_nonneg) simp
    ultimately show ?thesis by (simp only: partial_media_def)
  qed
  show bytes: "bm_buf (up_media up') = after_chunk p a e c"
  proof (cases "p = 1")
    case True
    have "bm_buf (up_media up') = take p c @ data"
      using assms(1,7) True by (simp add: store_chunk_def append_data_def bm_append_def Let_def)
    moreover have "data = take (e + 1) c" if "a = 0" using assms(6) that by simp
    moreover have "take p c @ data = take (max p (e + 1)) c" if "a = 1" using appended that True by simp
    moreover have "a = 0 \<or> a = 1" using assms(3) True by linarith
    ultimately show ?thesis using True by (auto simp: after_chunk_def)
  next
    case False
    then show ?thesis
      using assms(1,3,7) appended sliced unfolding after_chunk_def
      by (cases "p = 0"; cases "a = p") (auto simp: store_chunk_def append_data_def bm_append_def Let_def)
  qed
  then show "up_complete up' \<longleftrightarrow> tot = length (after_chunk p a e c) \<or> e + 1 = tot"
    using assms(7) by (auto simp: store_chunk_def Let_def)
  show "up_metadata up' = up_metadata up" "up_request up' = up_request up" "up_bucket up' = up_bucket up"
    using assms(7) by (simp_all add: store_chunk_def append_data_def Let_def)
qed


section \<open>The object of an upload\<close>

text \<open>A change of the annotations only.\<close>

definition annotates :: "(obj_meta \<Rightarrow> obj_meta) \<Rightarrow> bool" where
  "annotates f \<longleftrightarrow> (\<forall>md. om_name (f md) = om_name md \<and> om_generation (f md) = om_generation md
     \<and> om_size (f md) = om_size md \<and> om_checksums (f md) = om_checksums md \<and> om_contexts (f md) = om_contexts md)"

lemma annotates_basic [simp]:
  "annotates (annotate_metadata k v)" "annotates (drop_annotation k)" "annotates (\<lambda>md. md)"
  by (simp_all add: annotates_def annotate_metadata_def drop_annotation_def)

lemma annotates_transfer [simp]: "annotates (transfer_annotation env up)"
  by (simp add: transfer_annotation_def)

lemma annotates_resumable [simp]: "annotates (resumable_annotations env request up)"
  by (simp add: annotates_def resumable_annotations_def transfer_annotation_def annotate_metadata_def)

lemma annotates_final [simp]: "annotates (final_checksums cs)"
proof (induction cs)
  case (Cons c cs)
  then show ?case
    unfolding annotates_def final_checksums.simps Let_def
    using annotates_basic(1,2) by (simp add: annotates_def)
qed (simp add: annotates_def)

lemma apply_final_simps [simp]:
  "om_name (up_metadata (apply_final_checksums h up)) = om_name (up_metadata up)"
  "up_media (apply_final_checksums h up) = up_media up" "up_id (apply_final_checksums h up) = up_id up"
  "up_request (apply_final_checksums h up) = up_request up"
  "up_bucket (apply_final_checksums h up) = up_bucket up"
  "up_complete (apply_final_checksums h up) = up_complete up"
  using annotates_final by (auto simp: apply_final_checksums_def annotates_def split: option.splits)

lemma keep_upload_db [simp]: "sv_db (keep_upload_metadata i md s) = sv_db s"
  by (simp add: keep_upload_metadata_def split: option.splits)

lemma finish_upload_Inr:
  assumes "finish_upload env b up extra s = (Inr ans, t)" and "db_wf (sv_db s)"
    and "map_of (buckets (sv_db s)) (bk_name (up_bucket up)) = Some bk"
    and "bucket_key b Rest = bk_name (up_bucket up)"
    and "extract_instruction (up_request up) Rest \<noteq> Some ''inject-upload-data-error''" and "annotates extra"
  shows "\<exists>blob. get_object b (om_name (up_metadata up)) Rest None [] False (sv_db t) = (Inr (Some blob), sv_db t)
    \<and> b_media blob = up_media up \<and> b_generation blob = sv_generation s + 1
    \<and> om_size (b_metadata blob) = length (bm_buf (up_media up))
    \<and> om_checksums (b_metadata blob)
        = Some (Some (int (bm_crc (up_media up))), bm_md5_digest (oe_md5 (objects_of env)) (up_media up))"
proof -
  let ?made = "making_object (keep_upload_metadata (up_id up)) bk (up_metadata up)
        (object_init (objects_of env) (he_now env) (up_request up) no_params (up_media up) False Rest None True)"
  have bk: "upload_bucket up s = bk" using assms(3) by (simp add: upload_bucket_def)
  obtain made p s1 where made: "?made s = (Inr (made, p), s1)"
      "seqM (modS (keep_upload_metadata (up_id up) (b_metadata (map_metadata extra made))))
     (seqM (on_db (insert_object b (map_metadata extra made) Rest (make_json_preconditions (args (up_request up)) ''if'')))
     (bindM (liftE (object_rest (objects_of env) (b_metadata (map_metadata extra made)))) (\<lambda>resource.
      ret (Answer 200 [] (Some (response_rest env resource
             (extract_projection (up_request up) ''noAcl'' Rest) (aget (up_request up) ''fields''))))))) s1 = (Inr ans, t)"
    using assms(1) unfolding finish_upload_def bindM_getS bk bindM_Inr_iff [of ?made] Let_def by fastforce
  have name: "bk_name bk = bk_name (up_bucket up)" using bucket_name_key [OF assms(2,3)] .
  note m = object_made [OF made(1) _ assms(2,5)]
  have m: "b_media made = up_media up" "b_name made = om_name (up_metadata up)"
      "b_generation made = sv_generation s + 1" "sv_db s1 = sv_db s"
      "om_checksums (b_metadata made) = Some (Some (int (bm_crc (up_media up))), bm_md5_digest (oe_md5 (objects_of env)) (up_media up))"
      "om_size (b_metadata made) = length (bm_buf (up_media up))"
    using m assms(3) name by auto
  let ?blob = "map_metadata extra made"
  have ins: "insert_object b ?blob Rest (make_json_preconditions (args (up_request up)) ''if'') (sv_db s)
      = (Inr (), sv_db t)"
    using made(2) m(4) by (auto simp: bindM_Inr_iff seqM_Inr_iff on_db_Inr liftE_Inr_iff)
  have "b_name ?blob = om_name (up_metadata up)" "b_generation ?blob = sv_generation s + 1"
      "om_size (b_metadata ?blob) = length (bm_buf (up_media up))"
      "om_checksums (b_metadata ?blob) = Some (Some (int (bm_crc (up_media up))), bm_md5_digest (oe_md5 (objects_of env)) (up_media up))"
    using m assms(6) by (simp_all add: b_name_def b_generation_def annotates_def)
  then show ?thesis
    using insert_then_get [OF ins assms(2) decisive_json] m(1) by auto
qed

lemma complete_upload_Inr:
  assumes "complete_upload env request b up extra s = (Inr ans, t)" and "db_wf (sv_db s)"
    and "map_of (buckets (sv_db s)) (bk_name (up_bucket up)) = Some bk"
    and "bucket_key b Rest = bk_name (up_bucket up)"
    and "extract_instruction (up_request up) Rest \<noteq> Some ''inject-upload-data-error''" and "annotates extra"
  shows "\<exists>blob. get_object b (om_name (up_metadata up)) Rest None [] False (sv_db t) = (Inr (Some blob), sv_db t)
    \<and> b_media blob = up_media up \<and> b_generation blob = sv_generation s + 1
    \<and> om_size (b_metadata blob) = length (bm_buf (up_media up))
    \<and> om_checksums (b_metadata blob)
        = Some (Some (int (bm_crc (up_media up))), bm_md5_digest (oe_md5 (objects_of env)) (up_media up))"
proof -
  let ?up = "apply_final_checksums (hget request ''x-goog-hash'') (up\<lparr>up_complete := True\<rparr>)"
  have "finish_upload env b ?up extra (put_upload ?up s) = (Inr ans, t)"
    using assms(1) by (simp add: complete_upload_def Let_def)
  from finish_upload_Inr [OF this] show ?thesis
    using assms(2-6) by simp
qed

text \<open>C1: The last chunk of a resumable upload: when a chunk at any position up to the end of what is stored
  reaches the end of the content, whose size the chunk gives or the first request declared,
  and its request (without fault instructions) is not refused, the object that is then read under the name of the upload has
  the next generation and the size of what it holds, which is exactly the content, also if the chunk repeats bytes that were stored
  already; with one exception: when exactly one byte was stored and the chunk sends it again, the object begins with
  that byte twice.\<close>

theorem last_chunk_makes_object:
  assumes "resumable_upload_chunk env request body wsgi_input b s = (Inr ans, t)" and "db_wf (sv_db s)"
    and "pending s upload_id up" and "\<not> up_complete up"
    and "data = extract_media request body wsgi_input"
    and "plain_request request upload_id (length data)"
    and "hget request ''content-range'' = Some (''bytes '' @ show_nat a @ ''-'' @ show_nat e @ ''/'' @ w)"
    and "known_size (up_request up) w (e + 1)"
    and "extract_instruction (up_request up) Rest \<noteq> Some ''inject-upload-data-error''"
    and "map_of (buckets (sv_db s)) (bk_name (up_bucket up)) = Some bk"
    and "bucket_key b Rest = bk_name (up_bucket up)"
    and "bm_buf (up_media up) = take p c" and "p \<le> length c"
    and "a \<le> p" and "a \<le> e" and "e + 1 = length c" and "data = take (e + 1 - a) (drop a c)"
  shows "\<exists>blob. get_object b (om_name (up_metadata up)) Rest None [] False (sv_db t) = (Inr (Some blob), sv_db t)
    \<and> bm_buf (b_media blob) = (if p = 1 \<and> a = 0 then take 1 c @ c else c)
    \<and> om_size (b_metadata blob) = length (bm_buf (b_media blob))
    \<and> b_generation blob = sv_generation s + 1"
proof -
  let ?up = "store_chunk env data (if p = 0 then 0 else int p - 1) (int a) (int e) (int (e + 1)) (with_transfer request up)"
  have len: "length (bm_buf (up_media up)) = p" using assms(12,13) by simp
  have "bm_buf (up_media (with_transfer request up)) = take p c" and e: "e < length c"
    using assms(12,16) by simp_all
  note stored = store_chunk_bytes [OF this(1) assms(13-15) e assms(17) refl, of env "e + 1"]
  have id: "up_id up = upload_id" using assms(3) by (simp add: pending_def)
  have "after_chunk p a e c = (if p = 1 \<and> a = 0 then take 1 c @ c else c)"
    using assms(13,16) by (auto simp: after_chunk_def max_def)
  then have up: "up_complete ?up" "bm_buf (up_media ?up) = (if p = 1 \<and> a = 0 then take 1 c @ c else c)"
    unfolding stored(1) by (simp_all only: stored(2) simp_thms)
  have pend: "pending (put_upload ?up s) upload_id ?up"
    using assms(3) id by (intro pending_put) simp_all
  have "resumable_upload_chunk env request body wsgi_input b s
      = answer_chunk env request b upload_id (put_upload ?up s)"
    using chunk_step [OF assms(3-8), of env b] len by (simp add: Let_def)
  also have "\<dots> = complete_upload env request b ?up (resumable_annotations env request ?up) (put_upload ?up s)"
    by (simp only: answer_chunk_def bindM_def the_upload_pending [OF pend] up(1) prod.case sum.case if_True)
  finally have "complete_upload env request b ?up (resumable_annotations env request ?up) (put_upload ?up s)
      = (Inr ans, t)" using assms(1) by simp
  from complete_upload_Inr [OF this] obtain blob where blob:
      "get_object b (om_name (up_metadata up)) Rest None [] False (sv_db t) = (Inr (Some blob), sv_db t)"
      "b_media blob = up_media ?up" "b_generation blob = sv_generation s + 1"
      "om_size (b_metadata blob) = length (bm_buf (up_media ?up))"
    using assms(2,9-11) stored(3-5) by fastforce
  have "bm_buf (b_media blob) = (if p = 1 \<and> a = 0 then take 1 c @ c else c)"
    "om_size (b_metadata blob) = length (bm_buf (b_media blob))"
    by (simp_all only: blob(2,4) up(2))
  with blob(1,3) show ?thesis by blast
qed


section \<open>Witnesses\<close>

definition sample_upload :: upload where
  "sample_upload = \<lparr>up_request = \<lparr>args = [], headers = [], environ = [], verb = []\<rparr>,
     up_metadata = new_obj_meta\<lparr>om_name := ''q'', om_acl := [sample_entry],
       om_metadata := [(''x_emulator_crc32c'', ''AAAAAA=='')]\<rparr>,
     up_bucket = sample_bucket\<lparr>bk_ubla := False\<rparr>, up_location = [], up_id = ''u'',
     up_media = \<lparr>bm_buf = [1, 2], bm_crc = 5, bm_md5 = [1, 2]\<rparr>, up_complete = False,
     up_transfer = [], up_preconditions = [], up_params = None, up_made = False\<rparr>"

definition sample_upload_service :: "upload \<Rightarrow> service" where
  "sample_upload_service up = snd (start_upload up sample_service)"

definition sample_chunk :: "string \<Rightarrow> request" where
  "sample_chunk range_header = \<lparr>args = [(''upload_id'', ''u'')],
     headers = [(''content-range'', range_header)], environ = [], verb = ''PUT''\<rparr>"

lemma sample_upload_db:
  assumes "up_id up = ''u''"
  shows "sv_db (sample_upload_service up) = sample_service_db\<lparr>uploads := [(''u'', bk_name (up_bucket up))]\<rparr>"
    and "pending (sample_upload_service up) ''u'' up"
proof -
  have "uploads sample_service_db = []"
    by (simp add: sample_service_db_def insert_object_def insert_bucket_def plain_steps initial_db_def
      sample_bucket_def sample_source_def sample_bucket_key get_live_generation_def
      set_live_generation_def notify_def upd_objects_def upd_live_def getitem_def)
  then show "sv_db (sample_upload_service up) = sample_service_db\<lparr>uploads := [(''u'', bk_name (up_bucket up))]\<rparr>"
      "pending (sample_upload_service up) ''u'' up"
    using assms by (simp_all add: sample_upload_service_def start_upload_def sample_service_def seqM_def bindM_def
        modS_def on_db_def insert_upload_def pending_def)
qed

lemma contents_uploads [simp]: "contents (s\<lparr>uploads := x\<rparr>) = contents s"
  by (simp add: contents_def fun_eq_iff)

lemma db_wf_uploads [simp]: "db_wf (s\<lparr>uploads := x\<rparr>) = db_wf s"
  by (simp add: db_wf_def aligned_def)

lemma sample_chunk_plain: "plain_request (sample_chunk h) ''u'' n" "hget (sample_chunk h) ''content-range'' = Some h"
  "hget (sample_chunk h) ''x-guploader-no-308'' = None" "hget (sample_chunk h) ''x-goog-hash'' = None"
  "aget (sample_chunk h) ''upload_id'' = Some ''u''" "extract_media (sample_chunk h) body w = body"
  by (simp_all add: sample_chunk_def plain_request_def aget_def hget_def extract_instruction_def extract_media_def)

lemma sample_upload_simps [simp]:
  "up_id sample_upload = ''u''" "\<not> up_complete sample_upload" "bm_buf (up_media sample_upload) = [1, 2]"
  "hget (up_request sample_upload) h = None" "om_checksums (up_metadata sample_upload) = None"
  "extract_instruction (up_request sample_upload) Rest = None"
  "bk_name (up_bucket sample_upload) = bucket_key ''b'' Rest" "om_name (up_metadata sample_upload) = ''q''"
  by (simp_all add: sample_upload_def hget_def extract_instruction_def new_obj_meta_def sample_bucket_def
      sample_bucket_key)



definition sample_good_upload :: upload where
  "sample_good_upload = sample_upload\<lparr>up_metadata := new_obj_meta\<lparr>om_name := ''q'', om_acl := [sample_entry]\<rparr>\<rparr>"

lemma sample_good_simps:
  "up_id sample_good_upload = ''u''" "\<not> up_complete sample_good_upload"
  "hget (up_request sample_good_upload) h = None" "up_request sample_good_upload = up_request sample_upload"
  "extract_instruction (up_request sample_good_upload) Rest \<noteq> Some ''inject-upload-data-error''"
  "bk_name (up_bucket sample_good_upload) = bucket_key ''b'' Rest"
  "om_name (up_metadata sample_good_upload) = ''q''"
  "bm_buf (up_media sample_good_upload) = take 2 [1, 2, 3, 4]"
  using sample_upload_simps by (simp_all add: sample_good_upload_def)

lemma sample_finish_upload:
  assumes "up_request up = up_request sample_upload" and "up_metadata up = up_metadata sample_good_upload"
    and "bk_name (up_bucket up) = bucket_key ''b'' Rest" and "annotates extra"
    and "contents (sv_db s) = contents sample_service_db" and "db_wf (sv_db s)"
  shows "\<exists>ans t. finish_upload sample_handler_env ''b'' up extra s = (Inr ans, t)"
proof -
  let ?bk = "sample_bucket\<lparr>bk_ubla := False\<rparr>"
  let ?md = "new_obj_meta\<lparr>om_name := ''q'', om_acl := [sample_entry]\<rparr>"
  let ?rq = "up_request sample_upload"
  have c: "contents (sv_db s) (bucket_key ''b'' Rest) = Some (?bk,
      [(object_key ''o'' 7, sample_source)], [(''o'', 7)], [])"
    by (simp add: assms(5) sample_service_contents)
  have bk: "upload_bucket up s = ?bk"
    using contents_SomeD [OF c] assms(3) by (simp add: upload_bucket_def)
  obtain b p u where "object_init sample_objects 7 ?rq no_params (up_media up) False Rest None True
      \<lparr>mk_generation = sv_generation s, mk_bucket = ?bk, mk_meta = ?md\<rparr> = (Inr (b, p), u)"
    by (simp add: object_init_def Let_def sample_upload_def extract_instruction_def hget_def seqM_def
      bindM_def check_checksums_def given_text_def new_obj_meta_def init_contexts_def
      init_retention_def sample_bucket_def get_object_entity_def init_csek_def csek_extract_def
      sample_objects_def sample_env_def header_or_empty_def init_acl_def)
  then obtain t where t: "making_object (keep_upload_metadata (up_id up)) ?bk ?md
      (object_init sample_objects 7 ?rq no_params (up_media up) False Rest None True) s = (Inr (b, p), t)"
    by (simp add: making_object_def)
  have "map_of (buckets (sv_db s)) (bk_name ?bk) = Some ?bk"
    using contents_SomeD [OF c] by (simp add: sample_bucket_key sample_bucket_def)
  then have db: "sv_db t = sv_db s"
    using object_made [OF t _ assms(6)] by (simp add: sample_upload_simps)
  let ?blob = "map_metadata extra b"
  have "insert_object ''b'' ?blob Rest [] (sv_db t)
      = (Inr (), after_insert (bucket_key ''b'' Rest) ?blob (sv_db t))"
    using insert_object_result [of "sv_db t" "''b''" Rest _ _ _ _ ?blob "[]"] c db by simp
  moreover have "make_json_preconditions (args ?rq) ''if'' = []"
    by (simp add: sample_upload_def make_json_preconditions_def select_def)
  moreover obtain d where "object_rest sample_objects (b_metadata ?blob) = Inr d"
    using sample_object_rest by blast
  moreover have "up_metadata up = ?md" using assms(2) by (simp add: sample_good_upload_def)
  ultimately show ?thesis
    using bk t assms(1) by (simp add: finish_upload_def bindM_def seqM_def on_db_def modS_def Let_def)
qed

lemma sample_last_chunk:
  "\<exists>ans t. resumable_upload_chunk sample_handler_env
     (sample_chunk (''bytes '' @ show_nat 1 @ ''-'' @ show_nat 3 @ ''/'' @ show_nat (3 + 1))) [2, 3, 4] [] ''b''
     (sample_upload_service sample_good_upload) = (Inr ans, t)"
proof -
  let ?r = "sample_chunk (''bytes '' @ show_nat 1 @ ''-'' @ show_nat 3 @ ''/'' @ show_nat (3 + 1))"
  let ?s = "sample_upload_service sample_good_upload"
  let ?up = "store_chunk sample_handler_env [2, 3, 4] 1 1 3 4 (with_transfer ?r sample_good_upload)"
  let ?v = "?up\<lparr>up_complete := True\<rparr>"
  have pend: "pending (put_upload ?up ?s) ''u'' ?up"
    using sample_upload_db(2) [OF sample_good_simps(1)] by (intro pending_put) (simp_all add: sample_good_simps)
  have "resumable_upload_chunk sample_handler_env ?r [2, 3, 4] [] ''b'' ?s
      = answer_chunk sample_handler_env ?r ''b'' ''u'' (put_upload ?up ?s)"
    using chunk_step [OF sample_upload_db(2) [OF sample_good_simps(1)] sample_good_simps(2)
        sample_chunk_plain(6) [symmetric] sample_chunk_plain(1,2) known_size_simps(2) [OF sample_good_simps(3)]]
    by (simp add: sample_good_simps Let_def del: show_nat.simps)
  also have "\<dots> = finish_upload sample_handler_env ''b'' ?v (resumable_annotations sample_handler_env ?r ?up)
      (put_upload ?v ?s)"
    using the_upload_pending [OF pend]
    by (simp add: answer_chunk_def bindM_def complete_upload_def apply_final_checksums_def sample_chunk_plain(4)
        store_chunk_def Let_def sample_good_simps del: show_nat.simps)
  finally show ?thesis
    using sample_finish_upload [of ?v "resumable_annotations sample_handler_env ?r ?up" "put_upload ?v ?s"]
      sample_upload_db(1) [OF sample_good_simps(1)] sample_service_wf
    by (simp add: store_chunk_def append_data_def Let_def sample_good_simps del: show_nat.simps)
qed

theorem last_chunk_makes_object_witness:
  "\<exists>ans t blob. resumable_upload_chunk sample_handler_env
     (sample_chunk (''bytes '' @ show_nat 1 @ ''-'' @ show_nat 3 @ ''/'' @ show_nat (3 + 1))) [2, 3, 4] [] ''b''
     (sample_upload_service sample_good_upload) = (Inr ans, t)
    \<and> get_object ''b'' ''q'' Rest None [] False (sv_db t) = (Inr (Some blob), sv_db t)
    \<and> bm_buf (b_media blob) = [1, 2, 3, 4] \<and> om_size (b_metadata blob) = 4
    \<and> b_generation blob = sv_generation (sample_upload_service sample_good_upload) + 1"
proof -
  let ?s = "sample_upload_service sample_good_upload"
  obtain ans t where t: "resumable_upload_chunk sample_handler_env
     (sample_chunk (''bytes '' @ show_nat 1 @ ''-'' @ show_nat 3 @ ''/'' @ show_nat (3 + 1))) [2, 3, 4] [] ''b'' ?s
     = (Inr ans, t)"
    using sample_last_chunk by blast
  have wf: "db_wf (sv_db ?s)"
    using sample_upload_db(1) [OF sample_good_simps(1)] sample_service_wf by simp
  have bk: "map_of (buckets (sv_db ?s)) (bk_name (up_bucket sample_good_upload)) = Some (sample_bucket\<lparr>bk_ubla := False\<rparr>)"
    using sample_upload_db(1) [OF sample_good_simps(1)] contents_SomeD [OF sample_service_contents]
    by (simp add: sample_good_simps)
  have n: "2 \<le> length [1, 2, 3, 4 :: nat]" "(1 :: nat) \<le> 2" "(1 :: nat) \<le> 3"
      "3 + 1 = length [1, 2, 3, 4 :: nat]" "[2, 3, 4] = take (3 + 1 - 1) (drop 1 [1, 2, 3, 4 :: nat])"
    by simp_all
  note last_chunk_makes_object [OF t wf sample_upload_db(2) [OF sample_good_simps(1)] sample_good_simps(2)
      sample_chunk_plain(6) [symmetric] sample_chunk_plain(1,2) known_size_simps(2) [OF sample_good_simps(3)] sample_good_simps(5) bk
      sample_good_simps(6) [symmetric] sample_good_simps(8) n]
  then obtain blob where "get_object ''b'' (om_name (up_metadata sample_good_upload)) Rest None [] False (sv_db t)
        = (Inr (Some blob), sv_db t)" "bm_buf (b_media blob) = [1, 2, 3, 4]"
      "om_size (b_metadata blob) = length (bm_buf (b_media blob))" "b_generation blob = sv_generation ?s + 1"
    by auto
  then show ?thesis using t
    by - (rule exI [of _ ans], rule exI [of _ t], rule exI [of _ blob], simp add: sample_good_simps(7) del: show_nat.simps)
qed

end
