(* ===== verification/Object_Handlers.thy ===== *)
theory Object_Handlers
  imports Rewrites Uploads
begin

text \<open>
  The handlers of \<open>src/testbench/rest_server.py\<close> for objects: the JSON API (list, get, update,
  patch, delete, compose, copy, move, restore, access control) and the XML API (put, get).
\<close>

section \<open>What the handlers share\<close>

definition clock_of :: "handler_env \<Rightarrow> clock" where
  "clock_of env = \<lparr>now_utc = he_now env, now_local = he_now_local env\<rparr>"

text \<open>The decorator \<open>retry_test\<close>: the instruction of the request is looked at first, and may
  refuse the request; the other instructions choose how the answer is sent.\<close>

definition with_retry_test :: "request \<Rightarrow> string \<Rightarrow> 'a serviceM \<Rightarrow> (response_fn \<times> 'a) serviceM" where
  "with_retry_test request api_method func =
     bindM (on_tests (handle_retry_test_instruction request api_method)) (\<lambda>response_handler.
     bindM func (\<lambda>answer. ret (response_handler, answer)))"

text \<open>\<open>filter_response_rest\<close> with the argument \<open>fields\<close> of the request; \<open>None\<close> is no projection.\<close>

definition selected :: "handler_env \<Rightarrow> request \<Rightarrow> string \<Rightarrow> dict \<Rightarrow> dict" where
  "selected env request projection response = response_rest env response projection (aget request ''fields'')"

definition conditions :: "request \<Rightarrow> precondition list" where
  "conditions request = make_json_preconditions (args request) ''if''"

definition found_object :: "request \<Rightarrow> string \<Rightarrow> string \<Rightarrow> blob serviceM" where
  "found_object request bucket_name object_name =
     bindM (on_db (get_object bucket_name object_name Rest (generation_of_text (aget request ''generation''))
       (conditions request) False)) require"

text \<open>An update of an object with an answer.  The change is made in place, so it stays when the
  answer cannot be made.\<close>

definition updating_object ::
    "request \<Rightarrow> string \<Rightarrow> string \<Rightarrow> (bucket \<Rightarrow> blob \<Rightarrow> err + 'x \<times> blob) \<Rightarrow> ('x \<Rightarrow> blob \<Rightarrow> err + 'a) \<Rightarrow> 'a serviceM"
  where
  "updating_object request bucket_name object_name change answer =
     on_db (do_update_object bucket_name object_name (\<lambda>found _. case found of
         None \<Rightarrow> raise (Exc AttributeError)
       | Some b \<Rightarrow>
           bindM (getitem buckets (bucket_key bucket_name Rest)) (\<lambda>bk.
           bindM (liftE (change bk b)) (\<lambda>(x, b').
           seqM (modS (upd_objects (bucket_key bucket_name Rest)
                   (AList.map_entry (object_key object_name (b_generation b)) (\<lambda>_. b'))))
             (bindM (liftE (answer x b')) (\<lambda>r. ret (r, Some b'))))))
       Rest (generation_of_text (aget request ''generation'')) (conditions request) True)"

section \<open>Listing, reading, changing and deleting\<close>

definition object_list :: "handler_env \<Rightarrow> request \<Rightarrow> string \<Rightarrow> dict serviceM" where
  "object_list env request bucket_name =
     seqM (insert_test_bucket env)
     (bindM (on_db (list_object (he_glob env) (extract_list_object_request request) bucket_name Rest))
        (\<lambda>(items, found_prefixes).
      bindM (liftE (map_ok (object_rest (objects_of env)) items)) (\<lambda>resources.
      ret (selected env request [] [(''kind'', JStr ''storage#objects''),
         (''items'', JList (map JObj resources)), (''prefixes'', JList (map JStr found_prefixes))]))))"

definition metadata_answer :: "handler_env \<Rightarrow> request \<Rightarrow> string \<Rightarrow> blob \<Rightarrow> err + dict" where
  "metadata_answer env request projection b =
     bindE (object_rest (objects_of env) (b_metadata b)) (\<lambda>d. Inr (selected env request projection d))"

definition rest_object_update ::
    "handler_env \<Rightarrow> request \<Rightarrow> bytes \<Rightarrow> string \<Rightarrow> string \<Rightarrow> dict serviceM" where
  "rest_object_update env request body bucket_name object_name =
     updating_object request bucket_name object_name
       (\<lambda>bk b. bindE (he_loads env body) (\<lambda>data.
          bindE (object_update (objects_of env) (he_now env) (he_now_local env) request data bk Rest b)
            (\<lambda>b'. Inr ((), b'))))
       (\<lambda>_. metadata_answer env request (extract_projection request ''full'' Rest))"

definition rest_object_patch ::
    "handler_env \<Rightarrow> request \<Rightarrow> bytes \<Rightarrow> string \<Rightarrow> string \<Rightarrow> dict serviceM" where
  "rest_object_patch env request body bucket_name object_name =
     seqM (liftE (enforce_patch_override request))
     (updating_object request bucket_name object_name
       (\<lambda>bk b. bindE (he_loads env body) (\<lambda>data.
          bindE (object_patch (objects_of env) (he_now env) (he_now_local env) request data bk Rest b)
            (\<lambda>b'. Inr ((), b'))))
       (\<lambda>_. metadata_answer env request (extract_projection request ''full'' Rest)))"

definition int_arg :: "string option \<Rightarrow> int \<Rightarrow> err + int" where
  "int_arg v dflt = (case v of
     None \<Rightarrow> Inr dflt
   | Some t \<Rightarrow> (case py_int t of None \<Rightarrow> Inl (Exc ValueError) | Some n \<Rightarrow> Inr n))"

definition object_delete :: "handler_env \<Rightarrow> request \<Rightarrow> string \<Rightarrow> string \<Rightarrow> unit serviceM" where
  "object_delete env request bucket_name object_name =
     bindM (liftE (int_arg (aget request ''generation'') 0)) (\<lambda>generation.
     on_db (delete_object (clock_of env) bucket_name object_name Rest generation (conditions request)))"

text \<open>A text that is not empty counts as true.  The answer is a resource or a download.\<close>

definition object_get ::
    "handler_env \<Rightarrow> request \<Rightarrow> string \<Rightarrow> string \<Rightarrow> (dict + download_response) serviceM" where
  "object_get env request bucket_name object_name =
     (let soft = truthy (aget request ''softDeleted'');
          alt = aget request ''alt'';
          generation = aget request ''generation''
      in if (soft \<and> generation = None) \<or> (soft \<and> alt = Some ''media'')
         then raise (invalid ''invalid request'' Rest)
         else
         bindM (on_db (get_object bucket_name object_name Rest (generation_of_text generation)
           (conditions request) soft)) (\<lambda>found.
         bindM (require found) (\<lambda>blob.
         if alt = None \<or> alt = Some ''json'' then
           bindM (liftE (metadata_answer env request (extract_projection request ''noAcl'' Rest) blob))
             (\<lambda>d. ret (Inl d))
         else if alt \<noteq> Some ''media'' then raise (Exc TypeError)
         else
           seqM (liftE (csek_validation (oe_sha256 env) request no_params
             (case om_customer_encryption (b_metadata blob) of None \<Rightarrow> [] | Some (_, h) \<Rightarrow> h) False Rest))
           (bindM (liftE (rest_media (he_gunzip env) (oe_letter env) request blob)) (\<lambda>r. ret (Inr r))))))"

definition object_restore :: "handler_env \<Rightarrow> request \<Rightarrow> string \<Rightarrow> string \<Rightarrow> dict serviceM" where
  "object_restore env request bucket_name object_name = (case aget request ''generation'' of
     None \<Rightarrow> raise (invalid ''generation'' Rest)
   | Some t \<Rightarrow>
     bindM (liftE (int_arg (Some t) 0)) (\<lambda>generation.
     bindM (on_db (restore_object (clock_of env) bucket_name object_name generation (conditions request) Rest))
       (\<lambda>blob.
     bindM (liftE (object_rest (objects_of env) (b_metadata blob))) (\<lambda>d.
     ret (response_rest env d (extract_projection request ''noAcl'' Rest) None)))))"

section \<open>Composing, copying and moving\<close>

text \<open>What a Python loop makes of a decoded value.\<close>

definition json_items :: "json \<Rightarrow> err + json list" where
  "json_items v = (case v of
     JList xs \<Rightarrow> Inr xs
   | JObj d \<Rightarrow> Inr (map (JStr \<circ> fst) d)
   | JStr t \<Rightarrow> Inr (map (\<lambda>c. JStr [c]) t)
   | _ \<Rightarrow> Inl (Exc TypeError))"

text \<open>\<open>d.get(key)\<close>, where a null counts as absent.\<close>

definition given :: "dict \<Rightarrow> string \<Rightarrow> json option" where
  "given d key = (case map_of d key of Some JNull \<Rightarrow> None | found \<Rightarrow> found)"

text \<open>\<open>int(v)\<close>; a bool is an int.\<close>

definition int_of_json :: "json \<Rightarrow> err + int" where
  "int_of_json v = (case v of
     JNum n \<Rightarrow> Inr n
   | JBool b \<Rightarrow> Inr (if b then 1 else 0)
   | JStr t \<Rightarrow> int_arg (Some t) 0
   | _ \<Rightarrow> Inl (Exc TypeError))"

definition compose_precondition :: "handler_env \<Rightarrow> json option \<Rightarrow> precondition" where
  "compose_precondition env if_generation_match _ live_version c = (case if_generation_match of
     None \<Rightarrow> Inr True
   | Some v \<Rightarrow> bindE (int_of_json v) (\<lambda>n.
       if Some n = live_version then Inr True
       else Inl (mismatch ''compose.ifGenerationMatch'' (py_str (oe_repr env) v) (show_opt live_version) c)))"

text \<open>The name of a source is a text.\<close>

definition compose_source :: "handler_env \<Rightarrow> string \<Rightarrow> json \<Rightarrow> (string \<times> blob) serviceM" where
  "compose_source env bucket_name source =
     bindM (liftE (as_dict source)) (\<lambda>d. case given d ''name'' of
       None \<Rightarrow> raise (missing ''Name of source compose object'' Rest)
     | Some name \<Rightarrow>
       bindM (liftE (as_str name)) (\<lambda>source_name.
       bindM (liftE (case given d ''objectPreconditions'' of
           None \<Rightarrow> Inr None
         | Some ps \<Rightarrow> bindE (as_dict ps) (\<lambda>ps. Inr (given ps ''ifGenerationMatch'')))) (\<lambda>if_generation_match.
       bindM (on_db (get_object bucket_name source_name Rest
           (map_option int_of_json (given d ''generation''))
           [compose_precondition env if_generation_match] False)) (\<lambda>found.
       bindM (require found) (\<lambda>blob. ret (source_name, blob))))))"

definition append_chunks :: "handler_env \<Rightarrow> bytes_media \<Rightarrow> bytes_media \<Rightarrow> bytes_media" where
  "append_chunks env src m =
     fold (bm_append (oe_crc32c env)) (bm_chunks src 0 (length (bm_buf src)) (he_chunk env)) m"

text \<open>A source that is deleted is deleted like any other object: with the generation and the
  preconditions of the request, and with the fault of a deletion.\<close>

fun compose_sources ::
    "handler_env \<Rightarrow> request \<Rightarrow> string \<Rightarrow> json list \<Rightarrow> bytes_media \<Rightarrow> bytes_media serviceM" where
  "compose_sources env request bucket_name [] m = ret m"
| "compose_sources env request bucket_name (source # rest) m =
     bindM (compose_source env bucket_name source) (\<lambda>(source_name, blob).
     seqM (if aget request ''deleteSourceObjects'' = Some ''true''
           then seqM (with_retry_test request ''storage.objects.delete''
                  (object_delete env request bucket_name source_name)) (ret ())
           else ret ())
       (compose_sources env request bucket_name rest (append_chunks env (b_media blob) m)))"

definition compose_metadata :: "dict \<Rightarrow> string \<Rightarrow> string \<Rightarrow> err + dict" where
  "compose_metadata payload bucket_name object_name =
     (let metadata = [(''name'', JStr object_name), (''bucket'', JStr bucket_name)] in
      case map_of payload ''destination'' of
        None \<Rightarrow> Inr metadata
      | Some (JObj d) \<Rightarrow> Inr (dict_update metadata d)
      | Some _ \<Rightarrow> Inl (Exc TypeError))"

definition objects_compose ::
    "handler_env \<Rightarrow> request \<Rightarrow> bytes \<Rightarrow> string \<Rightarrow> string \<Rightarrow> dict serviceM" where
  "objects_compose env request body bucket_name object_name =
     bindM (the_bucket bucket_name Rest) (\<lambda>bk.
     bindM (liftE (he_loads env body)) (\<lambda>payload. case given payload ''sourceObjects'' of
       None \<Rightarrow> raise (missing ''source component'' Rest)
     | Some sources \<Rightarrow>
       bindM (liftE (json_items sources)) (\<lambda>source_objects.
       if 32 < length source_objects
       then raise (invalid (''The number of source components provided (''
              @ show_nat (length source_objects) @ '' > 32)'') Rest)
       else
       bindM (compose_sources env request bucket_name source_objects (bytes_media_init (oe_crc32c env) []))
         (\<lambda>composed_media.
       bindM (liftE (compose_metadata payload bucket_name object_name)) (\<lambda>metadata.
       bindM (making_object (\<lambda>_ s. s) bk new_obj_meta
           (init_dict (objects_of env) (he_now env) request metadata composed_media True)) (\<lambda>(composed, _).
       seqM (on_db (insert_object bucket_name composed Rest (conditions request)))
         (liftE (object_rest (objects_of env) (b_metadata composed)))))))))"

definition objects_copy ::
    "handler_env \<Rightarrow> request \<Rightarrow> (err + dict) option \<Rightarrow> string \<Rightarrow> string \<Rightarrow> string \<Rightarrow> string \<Rightarrow> dict serviceM" where
  "objects_copy env request data src_bucket_name src_object_name dst_bucket_name dst_object_name =
     seqM (insert_test_bucket env)
     (bindM (the_bucket dst_bucket_name Rest) (\<lambda>dst_bucket.
      bindM (on_db (get_object src_bucket_name src_object_name Rest
        (generation_of_text (aget request ''sourceGeneration''))
        (make_json_preconditions (args request) ''ifSource'') False)) (\<lambda>found.
      bindM (require found) (\<lambda>src.
      seqM (liftE (csek_validation (oe_sha256 env) request no_params
        (case om_customer_encryption (b_metadata src) of None \<Rightarrow> [] | Some (_, h) \<Rightarrow> h) False Rest))
      (store_copy env request data dst_bucket_name dst_bucket
        ((b_metadata src)\<lparr>om_acl := [], om_bucket := dst_bucket_name, om_name := dst_object_name\<rparr>)
        (append_chunks env (b_media src) (bytes_media_init (oe_crc32c env) [])))))))"

definition objects_move ::
    "handler_env \<Rightarrow> request \<Rightarrow> (err + dict) option \<Rightarrow> string \<Rightarrow> string \<Rightarrow> string \<Rightarrow> (response_fn \<times> dict) serviceM" where
  "objects_move env request data bucket_name src_object_name dst_object_name =
     bindM (with_retry_test request ''storage.objects.copy''
       (objects_copy env request data bucket_name src_object_name bucket_name dst_object_name))
       (\<lambda>moved_object_metadata.
     seqM (with_retry_test request ''storage.objects.delete'' (object_delete env request bucket_name src_object_name))
       (ret moved_object_metadata))"

section \<open>Access control\<close>

definition acl_answer :: "handler_env \<Rightarrow> string \<Rightarrow> string \<Rightarrow> blob \<Rightarrow> acl_entry \<Rightarrow> err + dict" where
  "acl_answer env bucket_name object_name b acl =
     bindE (object_access_control_as_rest (he_acl_dict env) bucket_name object_name
       (JStr (show_int (b_generation b))) acl) as_dict"

definition object_acl_list :: "handler_env \<Rightarrow> request \<Rightarrow> string \<Rightarrow> string \<Rightarrow> dict serviceM" where
  "object_acl_list env request bucket_name object_name =
     bindM (found_object request bucket_name object_name) (\<lambda>blob.
     bindM (liftE (map_ok (acl_answer env bucket_name object_name blob) (om_acl (b_metadata blob)))) (\<lambda>items.
     ret (selected env request [] [(''kind'', JStr ''storage#objectAccessControls''),
       (''items'', JList (map JObj items))])))"

definition object_acl_get :: "handler_env \<Rightarrow> request \<Rightarrow> string \<Rightarrow> string \<Rightarrow> string \<Rightarrow> dict serviceM" where
  "object_acl_get env request bucket_name object_name entity =
     bindM (found_object request bucket_name object_name) (\<lambda>blob.
     bindM (liftE (get_acl (oe_acl env) (om_acl (b_metadata blob)) entity Rest)) (\<lambda>acl.
     bindM (liftE (acl_answer env bucket_name object_name blob acl)) (\<lambda>d. ret (selected env request [] d))))"

text \<open>\<open>Object.insert_acl\<close>, \<open>update_acl\<close> and \<open>patch_acl\<close>; the last two do the same.\<close>

definition object_upsert_acl ::
    "handler_env \<Rightarrow> string \<Rightarrow> string \<Rightarrow> blob \<Rightarrow> err + acl_entry \<times> blob" where
  "object_upsert_acl env entity role b = (let md = b_metadata b in
     bindE (upsert_acl (oe_acl env)
       (\<lambda>entity role. create_object_acl (oe_acl env) (om_bucket md) (om_name md) (om_generation md)
          entity role Rest) (om_acl md) entity role) (\<lambda>(acl, acls).
     Inr (acl, map_metadata (\<lambda>md. md\<lparr>om_acl := acls\<rparr>) b)))"

definition object_insert_acl :: "handler_env \<Rightarrow> dict \<Rightarrow> blob \<Rightarrow> err + acl_entry \<times> blob" where
  "object_insert_acl env payload b =
     bindE (bindE (key_of payload ''entity'') as_str) (\<lambda>entity.
     bindE (bindE (key_of payload ''role'') as_str) (\<lambda>role. object_upsert_acl env entity role b))"

definition object_update_acl :: "handler_env \<Rightarrow> dict \<Rightarrow> string \<Rightarrow> blob \<Rightarrow> err + acl_entry \<times> blob" where
  "object_update_acl env payload entity b =
     bindE (bindE (key_of payload ''role'') as_str) (\<lambda>role. object_upsert_acl env entity role b)"

definition selected_acl ::
    "handler_env \<Rightarrow> request \<Rightarrow> string \<Rightarrow> string \<Rightarrow> acl_entry \<Rightarrow> blob \<Rightarrow> err + dict" where
  "selected_acl env request bucket_name object_name acl b =
     bindE (acl_answer env bucket_name object_name b acl) (\<lambda>d. Inr (selected env request [] d))"

definition object_acl_insert :: "handler_env \<Rightarrow> request \<Rightarrow> bytes \<Rightarrow> string \<Rightarrow> string \<Rightarrow> dict serviceM" where
  "object_acl_insert env request body bucket_name object_name =
     updating_object request bucket_name object_name
       (\<lambda>_ b. bindE (he_loads env body) (\<lambda>payload. object_insert_acl env payload b))
       (selected_acl env request bucket_name object_name)"

definition object_acl_update ::
    "handler_env \<Rightarrow> request \<Rightarrow> bytes \<Rightarrow> string \<Rightarrow> string \<Rightarrow> string \<Rightarrow> dict serviceM" where
  "object_acl_update env request body bucket_name object_name entity =
     updating_object request bucket_name object_name
       (\<lambda>_ b. bindE (he_loads env body) (\<lambda>payload. object_update_acl env payload entity b))
       (selected_acl env request bucket_name object_name)"

definition object_acl_patch ::
    "handler_env \<Rightarrow> request \<Rightarrow> bytes \<Rightarrow> string \<Rightarrow> string \<Rightarrow> string \<Rightarrow> dict serviceM" where
  "object_acl_patch env request body bucket_name object_name entity =
     seqM (liftE (enforce_patch_override request))
       (object_acl_update env request body bucket_name object_name entity)"

definition object_acl_delete :: "handler_env \<Rightarrow> request \<Rightarrow> string \<Rightarrow> string \<Rightarrow> string \<Rightarrow> unit serviceM" where
  "object_acl_delete env request bucket_name object_name entity =
     updating_object request bucket_name object_name
       (\<lambda>_ b. bindE (delete_acl (oe_acl env) (om_acl (b_metadata b)) entity Rest) (\<lambda>acls.
          Inr ((), map_metadata (\<lambda>md. md\<lparr>om_acl := acls\<rparr>) b)))
       (\<lambda>_ _. Inr ())"

section \<open>The XML API\<close>

text \<open>The answer is the header \<open>x-goog-hash\<close>.\<close>

definition xml_put_object ::
    "handler_env \<Rightarrow> request \<Rightarrow> bytes \<Rightarrow> bytes \<Rightarrow> string \<Rightarrow> string \<Rightarrow> string option serviceM" where
  "xml_put_object env request body wsgi_input bucket_name object_name =
     seqM (insert_test_bucket env)
     (bindM (the_bucket bucket_name Rest) (\<lambda>bk.
      bindM (making_object (\<lambda>_ s. s) bk new_obj_meta
        (object_init_xml (objects_of env) (he_now env) request object_name
           (extract_media request body wsgi_input))) (\<lambda>(blob, fake_request).
      seqM (on_db (insert_object bucket_name blob Rest (make_xml_preconditions (headers request))))
        (ret (hget fake_request ''x-goog-hash'')))))"

definition xml_get_object ::
    "handler_env \<Rightarrow> request \<Rightarrow> string \<Rightarrow> string \<Rightarrow> download_response serviceM" where
  "xml_get_object env request bucket_name object_name =
     (let fake_request = init_xml request in
      bindM (on_db (get_object bucket_name object_name Rest (generation_of_text (aget request ''generation''))
        (make_xml_preconditions (headers request)) False)) (\<lambda>found.
      bindM (require found) (\<lambda>blob.
      bindM (liftE (rest_media (he_gunzip env) (oe_letter env) fake_request blob)) (\<lambda>response.
      let encoding = om_content_encoding (b_metadata blob) in
      ret (response\<lparr>dr_headers := AList.update ''x-goog-stored-content-encoding''
             (HStr (if encoding = [] then ''identity'' else encoding))
            (AList.update ''x-goog-stored-content-length'' (HInt (int (length (bm_buf (b_media blob)))))
             (dr_headers response))\<rparr>)))))"

section \<open>Lemmas on the steps\<close>

lemma append_chunks_buf:
  assumes "0 < he_chunk env"
  shows "bm_buf (append_chunks env src m) = bm_buf m @ bm_buf src"
proof -
  have "concat (bm_chunks src 0 (length (bm_buf src)) (he_chunk env))
      = py_slice (bm_buf src) (int 0) (int (length (bm_buf src)))"
    unfolding bm_chunks_def using assms by (intro chunk_loop_concat) auto
  then show ?thesis
    by (simp add: append_chunks_def fold_append_buf py_slice_all)
qed

text \<open>Without a fault the decorator does nothing.\<close>

lemma with_retry_test_plain:
  "test_id_of r = None \<Longrightarrow> with_retry_test r api_method func s = bindM func (\<lambda>x. ret (Default_response, x)) s"
  by (simp add: with_retry_test_def handle_retry_test_instruction_def on_tests_ret bindM_def)

lemma get_object_Inr:
  "on_db (get_object b n c g ps soft) s = (Inr found, t)
    \<longleftrightarrow> t = s \<and> get_object b n c g ps soft (sv_db s) = (Inr found, sv_db s)"
  using get_object_state [of b n c g ps soft "sv_db s"]
  by (auto simp: on_db_def sv_db_same split: prod.splits)

lemma conditions_decisive [simp]: "decisive (conditions r)"
  by (simp add: conditions_def decisive_json)

text \<open>What a copy leaves behind.\<close>

lemma objects_copy_Inr:
  assumes "objects_copy env r data sb so db dn s = (Inr resource, t)" and "insert_test_bucket env s = (Inr (), s)"
    and "db_wf (sv_db s)" and "extract_instruction r Rest \<noteq> Some ''inject-upload-data-error''"
  obtains src dst final d1 where
      "get_object sb so Rest (generation_of_text (aget r ''sourceGeneration''))
         (make_json_preconditions (args r) ''ifSource'') False (sv_db s) = (Inr (Some src), sv_db s)"
    and "insert_object db dst Rest (conditions r) (sv_db s) = (Inr (), d1)"
    and "t = alter_stored (bucket_key db Rest) dst final (s\<lparr>sv_generation := sv_generation s + 1, sv_db := d1\<rparr>)"
    and "b_name dst = dn" and "b_generation dst = sv_generation s + 1"
    and "b_media final = append_chunks env (b_media src) (bytes_media_init (oe_crc32c env) [])"
proof -
  obtain bk src where src: "map_of (buckets (sv_db s)) (bucket_key db Rest) = Some bk"
      "get_object sb so Rest (generation_of_text (aget r ''sourceGeneration''))
         (make_json_preconditions (args r) ''ifSource'') False (sv_db s) = (Inr (Some src), sv_db s)"
      "store_copy env r data db bk ((b_metadata src)\<lparr>om_acl := [], om_bucket := db, om_name := dn\<rparr>)
        (append_chunks env (b_media src) (bytes_media_init (oe_crc32c env) [])) s = (Inr resource, t)"
    using assms(1,2)
    by (auto simp: objects_copy_def seqM_Inr_iff bindM_Inr_iff get_object_Inr require_Inr liftE_Inr_iff
        dest!: the_bucket_Inr)
  show ?thesis
    by (rule store_copy_Inr [OF src(3) assms(3) src(1) assms(4)])
      (use src(2) in \<open>auto simp: conditions_def intro!: that\<close>)
qed

text \<open>The names of the live objects after the copy.\<close>

lemma altered_contents:
  assumes "contents d k = Some (bk, os, ls, sd)" and "s = alter_stored k dst final (s0\<lparr>sv_db := after_insert k dst d\<rparr>)"
  shows "contents (sv_db s) k = Some (bk,
      AList.map_entry (object_key (b_name dst) (b_generation dst)) (\<lambda>_. final)
        (AList.update (object_key (b_name dst) (b_generation dst)) dst os),
      AList.update (b_name dst) (b_generation dst) ls, sd)"
  using contents_after_insert(1) [OF assms(1), of dst] assms(2) by (simp add: alter_stored_def contents_upd)

text \<open>A condition that asks for no live generation refuses to delete an object that has one.\<close>

lemma absent_refuses:
  assumes "aget r ''ifGenerationMatch'' = Some t" and "py_int t = Some 0" and "h \<noteq> 0"
  shows "\<exists>e. check_preconditions (conditions r) blob (Some h) Rest = Inl e"
proof -
  have "check_preconditions (conditions r) blob (Some h) Rest \<noteq> Inr True"
    using assms unfolding conditions_def json_preconditions_iff
    by (simp add: aget_def arg_ok_def held_def drop_zero_def)
  moreover have "check_preconditions (conditions r) blob (Some h) Rest \<noteq> Inr False"
    by (rule check_decisive) simp
  ultimately show ?thesis
    by (cases "check_preconditions (conditions r) blob (Some h) Rest") auto
qed

lemma live_of_get:
  assumes "get_object b n c None ps False s = (Inr (Some x), s)" and "contents s (bucket_key b c) = Some (bk, os, ls, sd)"
  obtains h where "map_of ls n = Some h" and "map_of os (object_key n h) = Some x"
  using assms contents_SomeD [OF assms(2)]
  by (auto simp: get_object_def lookup_object_def get_bucket_for_object_def bindM_def Let_def
      split: option.splits sum.splits prod.splits if_splits)

lemma delete_live_refused:
  assumes "aget r ''ifGenerationMatch'' = Some z" and "py_int z = Some 0" and "aget r ''generation'' = None"
    and "contents (sv_db s) (bucket_key b Rest) = Some (bk, os, ls, sd)" and "map_of ls n = Some h" and "h \<noteq> 0"
    and "map_of os (object_key n h) = Some x"
  shows "\<exists>e. object_delete env r b n s = (Inl e, s)"
proof -
  obtain e where e: "check_preconditions (conditions r) (Some (b_metageneration x)) (Some h) Rest = Inl e"
    using absent_refuses [OF assms(1,2,6)] by blast
  then have "lookup_object b n Rest (Some (Inr 0)) (conditions r) True (sv_db s) = (Inl e, sv_db s)"
    using assms(5,7) contents_SomeD [OF assms(4)]
    by (simp add: lookup_object_def get_bucket_for_object_def bindM_def Let_def)
  then show ?thesis
    by (simp add: object_delete_def assms(3) int_arg_def delete_object_def bindM_def on_db_def)
qed

section \<open>Properties\<close>

text \<open>C18: A move that must not overwrite (\<open>ifGenerationMatch=0\<close>): when its copy has been made, the
  same condition refuses to delete the source, which has a live generation.  The request ends with an
  error, and both objects are there with the same bytes.\<close>

theorem guarded_move_only_copies:
  assumes "objects_copy env r data b so b dn s = (Inr resource, t)"
    and "insert_test_bucket env s = (Inr (), s)" and "db_wf (sv_db s)" and "0 < he_chunk env"
    and "extract_instruction r Rest \<noteq> Some ''inject-upload-data-error''" and "test_id_of r = None"
    and "aget r ''ifGenerationMatch'' = Some z" and "py_int z = Some 0"
    and "aget r ''generation'' = None" and "aget r ''sourceGeneration'' = None" and "dn \<noteq> so"
    and "\<And>bk os ls sd. contents (sv_db s) (bucket_key b Rest) = Some (bk, os, ls, sd) \<Longrightarrow> map_of ls so \<noteq> Some 0"
  shows "\<exists>e source copy. objects_move env r data b so dn s = (Inl e, t)
    \<and> get_object b so Rest None [] False (sv_db t) = (Inr (Some source), sv_db t)
    \<and> get_object b dn Rest None [] False (sv_db t) = (Inr (Some copy), sv_db t)
    \<and> bm_buf (b_media copy) = bm_buf (b_media source)"
proof -
  have gen: "generation_of_text (aget r ''sourceGeneration'') = None"
    by (simp add: assms(10) generation_of_text_def)
  obtain src dst final d1 where src: "get_object b so Rest None
         (make_json_preconditions (args r) ''ifSource'') False (sv_db s) = (Inr (Some src), sv_db s)"
    and ins: "insert_object b dst Rest (conditions r) (sv_db s) = (Inr (), d1)"
    and t: "t = alter_stored (bucket_key b Rest) dst final
        (s\<lparr>sv_generation := sv_generation s + 1, sv_db := d1\<rparr>)"
    and dst: "b_name dst = dn"
      "b_media final = append_chunks env (b_media src) (bytes_media_init (oe_crc32c env) [])"
    by (rule objects_copy_Inr [OF assms(1,2,3,5), unfolded gen]) (rule that; assumption)
  obtain bk os ls sd where c: "contents (sv_db s) (bucket_key b Rest) = Some (bk, os, ls, sd)"
      and d1: "d1 = after_insert (bucket_key b Rest) dst (sv_db s)"
    by (rule insert_object_ok [OF ins assms(3) conditions_decisive])
  obtain h where h: "map_of ls so = Some h" "map_of os (object_key so h) = Some src"
    using live_of_get [OF src c] by blast
  note ct = altered_contents [OF c t [unfolded d1]]
  have live: "map_of (AList.update (b_name dst) (b_generation dst) ls) so = Some h"
    using h(1) dst(1) assms(11) by (simp add: map_of_update_if)
  have kept: "map_of (AList.map_entry (object_key (b_name dst) (b_generation dst)) (\<lambda>_. final)
        (AList.update (object_key (b_name dst) (b_generation dst)) dst os)) (object_key so h) = Some src"
    using h(2) dst(1) assms(11) by (auto simp: map_of_map_entry map_of_update_if object_key_inject)
  have "h \<noteq> 0" using assms(12) [OF c] h(1) by auto
  then obtain e where "object_delete env r b so t = (Inl e, t)"
    using delete_live_refused [OF assms(7,8,9) ct live _ kept] by blast
  then have "objects_move env r data b so dn s = (Inl e, t)"
    using assms(1,6) by (simp add: objects_move_def with_retry_test_plain bindM_def seqM_def)
  moreover have "get_object b so Rest None [] False (sv_db t) = (Inr (Some src), sv_db t)"
    using lookup_live [OF ct live kept] by (simp add: get_object_of_lookup)
  moreover have "get_object b dn Rest None [] False (sv_db t) = (Inr (Some final), sv_db t)"
    using altered_is_read [OF ins assms(3) conditions_decisive t] dst(1) by simp
  ultimately show ?thesis
    using dst(2) append_chunks_buf [OF assms(4)] by (auto simp: bytes_media_init_def)
qed

text \<open>The object that a JSON resource makes.\<close>

lemma making_init_dict:
  assumes "making_object keep bk md (init_dict env now r metadata m d) s = (Inr x, t)"
  obtains rest md' where "preprocess_object_metadata metadata = Inr rest" and "oe_parse env rest = Inr md'"
    and "making_object keep bk md' (object_init env now r no_params m d Rest None True) s = (Inr x, t)"
proof -
  obtain u where "init_dict env now r metadata m d
        \<lparr>mk_generation = sv_generation s, mk_bucket = bk, mk_meta = md\<rparr> = (Inr x, u)"
      "t = keep (mk_meta u) (set_bucket (bk_name bk) (mk_bucket u) (s\<lparr>sv_generation := mk_generation u\<rparr>))"
    using assms by (rule making_object_Inr)
  then show ?thesis
    by (auto simp: init_dict_def make_steps making_object_def intro: that)
qed

text \<open>The object that a value of \<open>sourceObjects\<close> names.\<close>

definition source_named :: "db \<Rightarrow> string \<Rightarrow> json \<Rightarrow> blob \<Rightarrow> bool" where
  "source_named d bucket_name source blob \<longleftrightarrow> (\<exists>fields name ps. source = JObj fields
     \<and> given fields ''name'' = Some (JStr name)
     \<and> get_object bucket_name name Rest (map_option int_of_json (given fields ''generation'')) ps False d
         = (Inr (Some blob), d))"

lemma as_dict_Inr: "as_dict v = Inr d \<longleftrightarrow> v = JObj d"
  by (cases v) (auto simp: as_dict_def)

lemma as_str_Inr: "as_str v = Inr d \<longleftrightarrow> v = JStr d"
  by (cases v) (auto simp: as_str_def)

lemma compose_source_Inr:
  assumes "compose_source env b source s = (Inr (n, blob), t)"
  shows "t = s \<and> source_named (sv_db s) b source blob"
proof -
  obtain d where d: "source = JObj d"
    using assms by (auto simp: compose_source_def bindM_Inr_iff as_dict_Inr)
  then obtain nm where nm: "given d ''name'' = Some (JStr nm)"
    using assms by (cases "given d ''name''") (auto simp: compose_source_def bindM_Inr_iff as_dict_Inr as_str_Inr)
  obtain x where "bindM (on_db (get_object b nm Rest (map_option int_of_json (given d ''generation''))
      [compose_precondition env x] False)) (\<lambda>found. bindM (require found) (\<lambda>blob. ret (nm, blob))) s
      = (Inr (n, blob), t)"
    using assms d nm by (auto simp: compose_source_def bindM_Inr_iff [of "liftE _"] as_dict_Inr as_str_Inr)
  then show ?thesis
    using d nm by (auto simp: source_named_def bindM_Inr_iff get_object_Inr require_Inr)
qed

lemma compose_sources_Inr:
  assumes "compose_sources env r b sources m s = (Inr m', t)" and "0 < he_chunk env"
    and "aget r ''deleteSourceObjects'' \<noteq> Some ''true''"
  shows "t = s \<and> (\<exists>blobs. list_all2 (source_named (sv_db s) b) sources blobs
    \<and> bm_buf m' = bm_buf m @ concat (map (\<lambda>blob. bm_buf (b_media blob)) blobs))"
  using assms(1)
proof (induction sources arbitrary: m)
  case (Cons source rest)
  obtain n blob where first: "compose_source env b source s = (Inr (n, blob), s)"
      and others: "compose_sources env r b rest (append_chunks env (b_media blob) m) s = (Inr m', t)"
    using Cons.prems assms(3) by (auto simp: bindM_Inr_iff dest: compose_source_Inr)
  obtain blobs where "t = s" "list_all2 (source_named (sv_db s) b) rest blobs"
      "bm_buf m' = bm_buf (append_chunks env (b_media blob) m) @ concat (map (\<lambda>blob. bm_buf (b_media blob)) blobs)"
    using Cons.IH [OF others] by blast
  then show ?case
    using compose_source_Inr [OF first] append_chunks_buf [OF assms(2)] by (intro conjI exI [of _ "blob # blobs"]) simp_all
qed simp

text \<open>C6: A composition of sources that stay: there are at most 32 of them, and the object that can
  be read afterwards holds the bytes of the named objects one after the other, with the size of them
  all and the next generation.\<close>

theorem compose_concatenates:
  assumes "objects_compose env r body b n s = (Inr resource, t)" and "db_wf (sv_db s)"
    and "he_loads env body = Inr payload" and "given payload ''sourceObjects'' = Some (JList sources)"
    and "aget r ''deleteSourceObjects'' \<noteq> Some ''true''" and "0 < he_chunk env"
    and "extract_instruction r Rest \<noteq> Some ''inject-upload-data-error''"
  shows "\<exists>blobs composed. length sources \<le> 32 \<and> list_all2 (source_named (sv_db s) b) sources blobs
    \<and> get_object b (b_name composed) Rest None [] False (sv_db t) = (Inr (Some composed), sv_db t)
    \<and> bm_buf (b_media composed) = concat (map (\<lambda>blob. bm_buf (b_media blob)) blobs)
    \<and> om_size (b_metadata composed) = sum_list (map (\<lambda>blob. length (bm_buf (b_media blob))) blobs)
    \<and> b_generation composed = sv_generation s + 1"
proof -
  obtain bk m metadata composed p s0 s1 where run:
      "map_of (buckets (sv_db s)) (bucket_key b Rest) = Some bk"
      "compose_sources env r b sources (bytes_media_init (oe_crc32c env) []) s = (Inr m, s0)"
      "making_object (\<lambda>_ s. s) bk new_obj_meta
         (init_dict (objects_of env) (he_now env) r metadata m True) s0 = (Inr (composed, p), s1)"
      "on_db (insert_object b composed Rest (conditions r)) s1 = (Inr (), t)" "length sources \<le> 32"
    using assms(1,3,4)
    by (auto simp: objects_compose_def bindM_Inr_iff seqM_Inr_iff liftE_Inr_iff json_items_def
        dest!: the_bucket_Inr split: if_splits)
  have s0: "s0 = s" using compose_sources_Inr [OF run(2) assms(6,5)] by simp
  obtain md where made: "making_object (\<lambda>_ s. s) bk md
      (object_init (objects_of env) (he_now env) r no_params m True Rest None True) s = (Inr (composed, p), s1)"
    by (rule making_init_dict [OF run(3) [unfolded s0]])
  have "bk_name bk = bucket_key b Rest"
    using bucket_name_key [OF assms(2) run(1)] .
  then have composed: "b_media composed = m" "b_generation composed = sv_generation s + 1"
      "om_size (b_metadata composed) = length (bm_buf m)" "sv_db s1 = sv_db s"
    using object_made [OF made _ assms(2,7)] run(1) by simp_all
  obtain d1 where "insert_object b composed Rest (conditions r) (sv_db s) = (Inr (), d1)" "sv_db t = d1"
    using run(4) composed(4) by (auto simp: on_db_Inr)
  then have "get_object b (b_name composed) Rest None [] False (sv_db t) = (Inr (Some composed), sv_db t)"
    using insert_then_get assms(2) by fastforce
  moreover obtain blobs where "list_all2 (source_named (sv_db s) b) sources blobs"
      "bm_buf m = concat (map (\<lambda>blob. bm_buf (b_media blob)) blobs)"
    using compose_sources_Inr [OF run(2) assms(6,5)] by (auto simp: bytes_media_init_def)
  ultimately show ?thesis
    using composed run(5) by (auto simp: length_concat comp_def)
qed

lemma castagnoli_bound: "castagnoli d n < 2 ^ 32"
proof -
  have "unat w < 2 ^ 32" for w :: "32 word" using unsigned_less [of w] by simp
  then show ?thesis by (simp add: castagnoli_def)
qed

text \<open>The name of a simple upload is not touched by the preprocessing.\<close>

lemma media_resource_name:
  assumes "preprocess_object_metadata [(''bucket'', JStr bn), (''name'', JStr n), (''metadata'', JObj m),
      (''contentEncoding'', ce), (''kmsKeyName'', kms)] = Inr rest"
  shows "map_of rest ''name'' = Some (JStr n)"
  using assms
  by (auto simp: preprocess_object_metadata_def object_adjustments_def crc32c_checksum_def md5_checksum_def
      rename_def Let_def split: json.splits)

lemma single_shot_plain:
  "hget r ''x-retry-test-id'' = None \<Longrightarrow> single_shot_fault env r blob s = (Inr (), s)"
  by (simp add: single_shot_fault_def get_retry_uploads_error_after_bytes_def
      get_stall_uploads_after_bytes_def upload_instruction_def on_tests_ret bindM_def seqM_def Let_def)

text \<open>The parser of messages takes the name from the resource.\<close>

definition parses_names :: "handler_env \<Rightarrow> bool" where
  "parses_names env \<longleftrightarrow> (\<forall>d md n. oe_parse env d = Inr md \<longrightarrow> map_of d ''name'' = Some (JStr n) \<longrightarrow> om_name md = n)"

text \<open>The object that a simple upload stores.\<close>

lemma simple_upload_Inr:
  assumes "object_insert env ml new_id host r body w b s = (Inr ans, t)"
    and "aget r ''upload_id'' = None" and "aget r ''uploadType'' = Some ''media''" and "aget r ''name'' = Some n"
    and "insert_test_bucket env s = (Inr (), s)" and "db_wf (sv_db s)"
    and "extract_instruction r Rest \<noteq> Some ''inject-upload-data-error''"
    and "hget r ''x-retry-test-id'' = None"
    and "parses_names env"
  obtains blob where "get_object b n Rest None [] False (sv_db t) = (Inr (Some blob), sv_db t)"
    and "b_media blob = bytes_media_init (oe_crc32c env) (extract_media r body w)"
    and "om_checksums (b_metadata blob) = Some (Some (int (bm_crc (b_media blob))),
           bm_md5_digest (oe_md5 (objects_of env)) (b_media blob))"
proof -
  obtain bk where bk: "map_of (buckets (sv_db s)) (bucket_key b Rest) = Some bk"
      "insert_single_shot env ml r body w b bk ''media'' s = (Inr ans, t)"
    using assms(1-3,5) by (auto simp: object_insert_def seqM_Inr_iff bindM_Inr_iff dest!: the_bucket_Inr)
  let ?m = "bytes_media_init (oe_crc32c env) (extract_media r body w)"
  have crc: "oe_crc32c (objects_of env) = oe_crc32c env" "oe_parse (objects_of env) = oe_parse env"
    by (simp_all add: objects_of_def object_env.defs)
  obtain blob p s1 where blob: "making_object (\<lambda>_ s. s) bk new_obj_meta
        (init_media (objects_of env) (he_now env) r (extract_media r body w)) s = (Inr (blob, p), s1)"
      "on_db (insert_object b blob Rest (conditions r)) s1 = (Inr (), t)"
    using bk(2) single_shot_plain [OF assms(8)]
    by (auto simp: insert_single_shot_def conditions_def seqM_Inr_iff bindM_Inr_iff)
  obtain metadata where init: "making_object (\<lambda>_ s. s) bk new_obj_meta
        (init_dict (objects_of env) (he_now env) r metadata ?m False) s = (Inr (blob, p), s1)"
      and named: "\<And>rest. preprocess_object_metadata metadata = Inr rest \<Longrightarrow> map_of rest ''name'' = Some (JStr n)"
    using blob(1) media_resource_name
    by (simp add: init_media_def assms(4) making_object_def crc)
  obtain md where made: "making_object (\<lambda>_ s. s) bk md
      (object_init (objects_of env) (he_now env) r no_params ?m False Rest None True) s = (Inr (blob, p), s1)"
      and name: "om_name md = n"
    by (rule making_init_dict [OF init]) (use named assms(9) crc(2) in \<open>metis parses_names_def\<close>)
  have "bk_name bk = bucket_key b Rest"
    using bucket_name_key [OF assms(6) bk(1)] .
  then have obj: "b_media blob = ?m" "b_name blob = n" "sv_db s1 = sv_db s"
      "om_checksums (b_metadata blob) = Some (Some (int (bm_crc (b_media blob))),
           bm_md5_digest (oe_md5 (objects_of env)) (b_media blob))"
    using object_made [OF made _ assms(6,7)] bk(1) name by simp_all
  obtain d1 where "insert_object b blob Rest (conditions r) (sv_db s) = (Inr (), d1)" "sv_db t = d1"
    using blob(2) obj(3) by (auto simp: on_db_Inr)
  then have "get_object b n Rest None [] False (sv_db t) = (Inr (Some blob), sv_db t)"
    using insert_then_get assms(6) obj(2) by fastforce
  then show ?thesis using that obj by blast
qed

text \<open>C5: An object that was stored with a simple upload is downloaded as it was stored: when the
  upload (of a request without retry test) succeeds, a download without range, conditions or fault instruction answers, once the customer supplied key of
  the object has been given, with the bytes of the upload; only when
  the object has the content encoding gzip and the client does not accept it, it answers with what gzip makes of the
  bytes, and fails when gzip does.\<close>

theorem simple_upload_round_trip:
  assumes "object_insert env ml new_id host r body w b s = (Inr ans, t)"
    and "aget r ''upload_id'' = None" and "aget r ''uploadType'' = Some ''media''" and "aget r ''name'' = Some n"
    and "insert_test_bucket env s = (Inr (), s)" and "db_wf (sv_db s)"
    and "extract_instruction r Rest \<noteq> Some ''inject-upload-data-error''"
    and "hget r ''x-retry-test-id'' = None" and "oe_crc32c env = castagnoli"
    and "parses_names env"
    and "aget q ''alt'' = Some ''media''" and "aget q ''softDeleted'' = None" and "aget q ''generation'' = None"
    and "conditions q = []" and "hget q ''range'' = None" and "extract_instruction q Rest = None"
  shows "\<exists>blob resp. get_object b n Rest None [] False (sv_db t) = (Inr (Some blob), sv_db t)
    \<and> object_get env q b n t = (case csek_validation (oe_sha256 env) q no_params
         (case om_customer_encryption (b_metadata blob) of None \<Rightarrow> [] | Some (_, h) \<Rightarrow> h) False Rest of
           Inl e \<Rightarrow> (Inl e, t)
         | Inr _ \<Rightarrow> if decompress_on_download q (b_metadata blob)
             then (case he_gunzip env (extract_media r body w) of
                 Inl e \<Rightarrow> (Inl e, t) | Inr _ \<Rightarrow> (Inr (Inr resp), t))
             else (Inr (Inr resp), t))
    \<and> (if decompress_on_download q (b_metadata blob)
       then \<forall>plain. he_gunzip env (extract_media r body w) = Inr plain
         \<longrightarrow> dr_status resp = 200 \<and> body_bytes (dr_body resp) = plain
       else dr_status resp = 200 \<and> body_bytes (dr_body resp) = extract_media r body w)"
proof -
  obtain blob where blob: "get_object b n Rest None [] False (sv_db t) = (Inr (Some blob), sv_db t)"
      "b_media blob = bytes_media_init (oe_crc32c env) (extract_media r body w)"
      "om_checksums (b_metadata blob) = Some (Some (int (bm_crc (b_media blob))),
           bm_md5_digest (oe_md5 (objects_of env)) (b_media blob))"
    by (rule simple_upload_Inr [OF assms(1-8,10)])
  let ?d = "decompress_on_download q (b_metadata blob)" and ?data = "extract_media r body w"
  have ok: "checksums_ok (b_metadata blob)"
    using blob(2,3) assms(9) castagnoli_bound
    by (simp add: checksums_ok_def bytes_media_init_def)
  have get: "object_get env q b n t = (case csek_validation (oe_sha256 env) q no_params
         (case om_customer_encryption (b_metadata blob) of None \<Rightarrow> [] | Some (_, h) \<Rightarrow> h) False Rest of
           Inl e \<Rightarrow> (Inl e, t)
         | Inr _ \<Rightarrow> (case rest_media (he_gunzip env) (oe_letter env) q blob of
             Inl e \<Rightarrow> (Inl e, t) | Inr resp \<Rightarrow> (Inr (Inr resp), t)))"
    using assms(11-14) blob(1)
    by (simp add: object_get_def Let_def truthy_def generation_of_text_def bindM_def on_db_def seqM_def
        split: sum.split)
  have buf: "bm_buf (b_media blob) = ?data" using blob(2) by (simp add: bytes_media_init_def)
  show ?thesis
  proof (cases "?d \<and> isl (he_gunzip env ?data)")
    case True
    then obtain err where err: "he_gunzip env ?data = Inl err" by (auto simp: isl_def)
    then have "rest_media (he_gunzip env) (oe_letter env) q blob = Inl err"
      using transcoded_download [OF assms(16) ok, of "he_gunzip env" "oe_letter env"] True buf by simp
    then show ?thesis using get blob(1) True err by (auto split: sum.split)
  next
    case False
    then obtain plain where plain: "?d \<Longrightarrow> he_gunzip env ?data = Inr plain"
      by (cases "he_gunzip env ?data") auto
    obtain resp where "rest_media (he_gunzip env) (oe_letter env) q blob = Inr resp"
        "dr_status resp = 200" "body_bytes (dr_body resp) = (if ?d then plain else ?data)"
      using full_download [OF assms(15,16) ok, of "he_gunzip env" plain "oe_letter env"] plain buf by auto
    then show ?thesis using get blob(1) plain by (intro exI [of _ blob] exI [of _ resp]) (auto split: sum.split)
  qed
qed

section \<open>Witnesses\<close>

lemma project_private_acl:
  assumes "\<not> bk_ubla bk"
  shows "\<exists>md'. insert_predefined_acl env bk ''projectPrivate'' c md = Inr md'"
proof -
  have "acl_name ''projectPrivate'' = ''project_private''" by code_simp
  then show ?thesis
    using assms by (simp add: insert_predefined_acl_def compute_predefined_object_acl_def
      compute_predefined_object_acl_with_def Let_def get_object_entity_def get_project_entity_def
      create_object_acl_def create_default_object_acl_def)
qed

text \<open>Without headers, checks or contexts the object is made.\<close>

lemma plain_object_init:
  assumes "headers r = []" and "aget r ''predefinedAcl'' = None" and "aget r ''destinationPredefinedAcl'' = None"
    and "om_metadata md = []" and "om_checksums md = None" and "om_contexts md = None" and "bk_retention bk = None"
  shows "\<exists>x. fst (object_init env now r no_params m d Rest None True
     \<lparr>mk_generation = g, mk_bucket = bk, mk_meta = md\<rparr>) = Inr x"
proof -
  have acl: "init_acl env r d Rest s \<noteq> (Inl e, t)" for s e t
  proof (cases "om_acl (mk_meta s) = []")
    case True
    obtain md' where "insert_predefined_acl env ((mk_bucket s)\<lparr>bk_ubla := False\<rparr>) ''projectPrivate'' Rest (mk_meta s)
        = Inr md'"
      using project_private_acl [of "(mk_bucket s)\<lparr>bk_ubla := False\<rparr>" env Rest "mk_meta s"] by auto
    then show ?thesis
      using True assms(2,3) by (cases d) (simp_all add: init_acl_def extract_predefined_acl_def seqM_def bindM_def)
  next
    case False
    then show ?thesis by (simp add: init_acl_def seqM_def bindM_def)
  qed
  have "hget r h = None" for h using assms(1) by (simp add: hget_def)
  then show ?thesis
    using assms acl
    by (simp add: object_init_def Let_def extract_instruction_def seqM_def bindM_def check_checksums_def
        given_text_def init_contexts_def init_retention_def get_object_entity_def init_csek_def csek_extract_def
        header_or_empty_def split: prod.splits sum.splits)
qed

abbreviation the_sample_bucket :: bucket where
  "the_sample_bucket \<equiv> sample_bucket\<lparr>bk_ubla := False\<rparr>"

definition plain_args :: "request \<Rightarrow> bool" where
  "plain_args r \<longleftrightarrow> headers r = [] \<and> aget r ''predefinedAcl'' = None \<and> aget r ''destinationPredefinedAcl'' = None"

definition plain_metadata :: "obj_meta \<Rightarrow> bool" where
  "plain_metadata md \<longleftrightarrow> om_metadata md = [] \<and> om_checksums md = None \<and> om_contexts md = None"

lemma plain_headers: "plain_args r \<Longrightarrow> hget r h = None"
  by (simp add: plain_args_def hget_def)

lemma sample_bucket_retention: "bk_retention the_sample_bucket = None"
  by (simp add: sample_bucket_def)

lemma sample_made:
  assumes "plain_args r" and "plain_metadata md" and "sv_db s = sample_service_db"
  shows "\<exists>b p t. making_object (\<lambda>_ s. s) the_sample_bucket md
      (object_init (objects_of env) now r no_params m d Rest None True) s = (Inr (b, p), t)
    \<and> sv_db t = sample_service_db \<and> b_name b = om_name md"
proof -
  have "\<exists>x. fst (object_init (objects_of env) now r no_params m d Rest None True
     \<lparr>mk_generation = sv_generation s, mk_bucket = the_sample_bucket, mk_meta = md\<rparr>) = Inr x"
    using assms by (intro plain_object_init sample_bucket_retention) (simp_all add: plain_args_def plain_metadata_def)
  then obtain x where "fst (object_init (objects_of env) now r no_params m d Rest None True
     \<lparr>mk_generation = sv_generation s, mk_bucket = the_sample_bucket, mk_meta = md\<rparr>) = Inr x" ..
  then obtain b p t where t: "making_object (\<lambda>_ s. s) the_sample_bucket md
      (object_init (objects_of env) now r no_params m d Rest None True) s = (Inr (b, p), t)"
    by (cases x; cases "object_init (objects_of env) now r no_params m d Rest None True
     \<lparr>mk_generation = sv_generation s, mk_bucket = the_sample_bucket, mk_meta = md\<rparr>")
      (auto simp: making_object_def)
  then show ?thesis
    using object_made [OF t] contents_SomeD [OF sample_service_contents] assms(1,3) sample_service_wf
    by (auto simp: sample_bucket_key sample_bucket_def extract_instruction_def plain_headers)
qed

lemma sample_the_bucket: "sv_db s = sample_service_db \<Longrightarrow> the_bucket ''b'' Rest s = (Inr the_sample_bucket, s)"
  using contents_SomeD [OF sample_service_contents]
  by (simp add: the_bucket_def bindM_def on_db_def get_bucket_def)

lemma sample_get_source:
  assumes "sv_db s = sample_service_db"
    and "check_preconditions ps (Some (b_metageneration sample_source)) (Some 7) Rest = Inr True"
  shows "on_db (get_object ''b'' ''o'' Rest None ps False) s = (Inr (Some sample_source), s)"
  using lookup_live [OF sample_service_contents, of "''o''" 7 sample_source ps None True] assms
  by (simp add: on_db_def get_object_of_lookup(1))

lemma sample_inserted:
  assumes "sv_db s = sample_service_db" and "b_name blob \<noteq> ''o''"
    and "check_preconditions ps None None Rest = Inr True"
  shows "on_db (insert_object ''b'' blob Rest ps) s
    = (Inr (), s\<lparr>sv_db := after_insert (bucket_key ''b'' Rest) blob sample_service_db\<rparr>)"
  using insert_object_result [OF sample_service_contents, of blob ps] assms
  by (simp add: on_db_def current_object_def)

lemma sample_copy:
  assumes "plain_args r" and "aget r ''sourceGeneration'' = None" and "make_json_preconditions (args r) ''ifSource'' = []"
    and "check_preconditions (conditions r) None None Rest = Inr True"
  shows "\<exists>d t. objects_copy sample_handler_env r None ''b'' ''o'' ''b'' ''p'' sample_service = (Inr d, t)"
proof -
  let ?md = "(b_metadata sample_source)\<lparr>om_acl := [], om_bucket := ''b'', om_name := ''p''\<rparr>"
  let ?m = "append_chunks sample_handler_env (b_media sample_source) (bytes_media_init castagnoli [])"
  have db: "sv_db sample_service = sample_service_db" by (simp add: sample_service_def)
  have md: "plain_metadata ?md"
    by (simp add: plain_metadata_def sample_source_def new_obj_meta_def)
  obtain b p t where t: "making_object (\<lambda>_ s. s) the_sample_bucket ?md
      (object_init sample_objects 7 r no_params ?m True Rest None True) sample_service = (Inr (b, p), t)"
      "sv_db t = sample_service_db" "b_name b = ''p''"
    using sample_made [OF assms(1) md db, where env = sample_handler_env and now = 7 and d = True]
    by fastforce
  have "csek_validation (oe_sha256 sample_handler_env) r no_params
      (case om_customer_encryption (b_metadata sample_source) of None \<Rightarrow> [] | Some (_, h) \<Rightarrow> h) False Rest = Inr None"
    by (simp add: csek_validation_def csek_extract_def header_or_empty_def plain_headers [OF assms(1)]
        sample_source_def new_obj_meta_def)
  moreover obtain d where "object_rest sample_objects
      ((b_metadata b)\<lparr>om_metageneration := 1, om_update_time := om_create_time (b_metadata b)\<rparr>) = Inr d"
    using sample_object_rest by blast
  ultimately show ?thesis
    using assms(2-4) t sample_inserted [OF t(2), of b "conditions r"] sample_the_bucket [OF db]
      sample_get_source [OF db, of "[]"]
    by (simp add: objects_copy_def store_copy_def insert_test_bucket_def generation_of_text_def bindM_def seqM_def
        patch_rewritten_def Let_def conditions_def)
qed

definition sample_move :: request where
  "sample_move = \<lparr>args = [(''ifGenerationMatch'', ''0'')], headers = [], environ = [], verb = ''POST''\<rparr>"

theorem guarded_move_only_copies_witness:
  "\<exists>e t source copy. objects_move sample_handler_env sample_move None ''b'' ''o'' ''p'' sample_service = (Inl e, t)
    \<and> get_object ''b'' ''o'' Rest None [] False (sv_db t) = (Inr (Some source), sv_db t)
    \<and> get_object ''b'' ''p'' Rest None [] False (sv_db t) = (Inr (Some copy), sv_db t)
    \<and> bm_buf (b_media copy) = bm_buf (b_media source)"
proof -
  have zero: "py_int ''0'' = Some 0" by code_simp
  have a: "aget sample_move ''ifGenerationMatch'' = Some ''0''" "aget sample_move ''generation'' = None"
      "aget sample_move ''sourceGeneration'' = None" "plain_args sample_move"
    by (simp_all add: sample_move_def aget_def plain_args_def)
  have "check_preconditions (conditions sample_move) None None Rest = Inr True"
    by (simp add: conditions_def json_preconditions_iff sample_move_def arg_ok_def zero held_def drop_zero_def)
  moreover have "make_json_preconditions (args sample_move) ''ifSource'' = []"
    by (simp add: make_json_preconditions_def select_def sample_move_def)
  ultimately obtain d t where t: "objects_copy sample_handler_env sample_move None ''b'' ''o'' ''b'' ''p'' sample_service
      = (Inr d, t)"
    using sample_copy [OF a(4,3)] by blast
  have "insert_test_bucket sample_handler_env sample_service = (Inr (), sample_service)"
    by (simp add: insert_test_bucket_def)
  moreover have "db_wf (sv_db sample_service)" by (simp add: sample_service_def sample_service_wf)
  moreover have "contents (sv_db sample_service) (bucket_key ''b'' Rest) = Some (bk, os, ls, sd) \<Longrightarrow> map_of ls ''o'' \<noteq> Some 0"
    for bk os ls sd using sample_service_contents by (auto simp: sample_service_def)
  moreover have "extract_instruction sample_move Rest \<noteq> Some ''inject-upload-data-error''" "test_id_of sample_move = None"
    by (simp_all add: extract_instruction_def test_id_of_def plain_headers [OF a(4)])
  ultimately show ?thesis
    using guarded_move_only_copies [OF t _ _ _ _ _ a(1) zero a(2,3)] by fastforce
qed

lemma making_init_dict_eq:
  assumes "preprocess_object_metadata metadata = Inr rest" and "oe_parse env rest = Inr md'"
  shows "making_object keep bk md (init_dict env now r metadata m d)
    = making_object keep bk md' (object_init env now r no_params m d Rest None True)"
  using assms by (simp add: making_object_def init_dict_def fun_eq_iff seqM_def bindM_def)

definition sample_parsing_env :: "dict \<Rightarrow> handler_env" where
  "sample_parsing_env payload = sample_handler_env\<lparr>he_loads := (\<lambda>_. Inr payload),
     oe_parse := (\<lambda>d. Inr (new_obj_meta\<lparr>om_name := (case map_of d ''name'' of Some (JStr n) \<Rightarrow> n | _ \<Rightarrow> [])\<rparr>))\<rparr>"

lemma sample_parsing_simps:
  "oe_crc32c (sample_parsing_env p) = castagnoli" "he_chunk (sample_parsing_env p) = 2"
  "he_test_bucket (sample_parsing_env p) = None" "he_loads (sample_parsing_env p) body = Inr p"
  "he_gunzip (sample_parsing_env p) = Inr" "he_now (sample_parsing_env p) = 7"
  "oe_sha256 (sample_parsing_env p) = (\<lambda>bs. take 32 bs)"
  "oe_parse (sample_parsing_env p) d
    = Inr (new_obj_meta\<lparr>om_name := (case map_of d ''name'' of Some (JStr n) \<Rightarrow> n | _ \<Rightarrow> [])\<rparr>)"
  by (simp_all add: sample_parsing_env_def sample_handler_env_def sample_objects_def sample_env_def object_env.defs)

lemma sample_parsing_objects:
  "oe_parse (objects_of (sample_parsing_env p)) = oe_parse (sample_parsing_env p)"
  "oe_crc32c (objects_of (sample_parsing_env p)) = castagnoli"
  "object_rest (objects_of (sample_parsing_env p)) = object_rest sample_objects"
proof -
  show "object_rest (objects_of (sample_parsing_env p)) = object_rest sample_objects"
    by (simp add: objects_of_def object_env.defs sample_parsing_env_def sample_handler_env_def object_rest_def fun_eq_iff)
qed (simp_all add: objects_of_def object_env.defs sample_parsing_env_def sample_handler_env_def sample_objects_def sample_env_def)

definition sample_sources :: "json list" where
  "sample_sources = [JObj [(''name'', JStr ''o'')], JObj [(''name'', JStr ''o'')]]"

definition sample_plain :: request where
  "sample_plain = \<lparr>args = [], headers = [], environ = [], verb = ''POST''\<rparr>"

lemma sample_plain_simps:
  "plain_args sample_plain" "aget sample_plain k = None" "conditions sample_plain = []" "hget sample_plain h = None"
  by (simp_all add: plain_args_def sample_plain_def aget_def hget_def conditions_def make_json_preconditions_def select_def)

lemma sample_compose_run:
  "\<exists>d t. objects_compose (sample_parsing_env [(''sourceObjects'', JList sample_sources)]) sample_plain [] ''b'' ''p''
     sample_service = (Inr d, t)"
proof -
  let ?env = "sample_parsing_env [(''sourceObjects'', JList sample_sources)]"
  have db: "sv_db sample_service = sample_service_db" by (simp add: sample_service_def)
  have src: "compose_source ?env ''b'' (JObj [(''name'', JStr ''o'')]) sample_service
      = (Inr (''o'', sample_source), sample_service)"
    using sample_get_source [OF db, of "[compose_precondition ?env None]"]
    by (simp add: compose_source_def as_dict_def as_str_def given_def bindM_def compose_precondition_def)
  obtain m where m: "compose_sources ?env sample_plain ''b'' sample_sources (bytes_media_init castagnoli []) sample_service
      = (Inr m, sample_service)"
    using src by (simp add: sample_sources_def sample_plain_simps bindM_def)
  have pre: "preprocess_object_metadata [(''name'', JStr ''p''), (''bucket'', JStr ''b'')]
      = Inr [(''name'', JStr ''p''), (''bucket'', JStr ''b'')]"
    by (simp add: preprocess_object_metadata_def object_adjustments_def crc32c_checksum_def md5_checksum_def)
  let ?md = "new_obj_meta\<lparr>om_name := ''p''\<rparr>"
  have "oe_parse (objects_of ?env) [(''name'', JStr ''p''), (''bucket'', JStr ''b'')] = Inr ?md"
    by (simp add: sample_parsing_objects sample_parsing_simps)
  note eq = making_init_dict_eq [OF pre this]
  have "plain_metadata ?md" by (simp add: plain_metadata_def new_obj_meta_def)
  then obtain b p t where t: "making_object (\<lambda>_ s. s) the_sample_bucket ?md
      (object_init (objects_of ?env) 7 sample_plain no_params m True Rest None True) sample_service = (Inr (b, p), t)"
      "sv_db t = sample_service_db" "b_name b = ''p''"
    using sample_made [OF sample_plain_simps(1) _ db, where env = ?env and now = 7 and d = True and m = m and md = ?md]
    by fastforce
  moreover obtain d where "object_rest sample_objects (b_metadata b) = Inr d"
    using sample_object_rest by blast
  moreover have "length sample_sources = 2" by (simp add: sample_sources_def)
  ultimately show ?thesis
    using m sample_the_bucket [OF db] sample_inserted [OF t(2), of b "[]"]
    by (simp add: objects_compose_def given_def json_items_def bindM_def seqM_def sample_parsing_simps
        sample_plain_simps compose_metadata_def eq sample_parsing_objects)
qed

lemma sample_source_named:
  assumes "source_named sample_service_db ''b'' (JObj [(''name'', JStr ''o'')]) blob"
  shows "blob = sample_source"
proof -
  obtain ps where "get_object ''b'' ''o'' Rest None ps False sample_service_db = (Inr (Some blob), sample_service_db)"
    using assms by (auto simp: source_named_def given_def)
  then obtain h where "map_of [(''o'', 7)] ''o'' = Some h"
      "map_of [(object_key ''o'' 7, sample_source)] (object_key ''o'' h) = Some blob"
    by (rule live_of_get [OF _ sample_service_contents])
  then show ?thesis by simp
qed

theorem compose_concatenates_witness:
  "\<exists>d t composed. objects_compose (sample_parsing_env [(''sourceObjects'', JList sample_sources)]) sample_plain []
       ''b'' ''p'' sample_service = (Inr d, t)
    \<and> get_object ''b'' (b_name composed) Rest None [] False (sv_db t) = (Inr (Some composed), sv_db t)
    \<and> bm_buf (b_media composed) = [1, 2, 3, 1, 2, 3] \<and> om_size (b_metadata composed) = 6"
proof -
  let ?env = "sample_parsing_env [(''sourceObjects'', JList sample_sources)]"
  obtain d t where t: "objects_compose ?env sample_plain [] ''b'' ''p'' sample_service = (Inr d, t)"
    using sample_compose_run by blast
  have db: "sv_db sample_service = sample_service_db" by (simp add: sample_service_def)
  have wf: "db_wf (sv_db sample_service)" by (simp add: sample_service_def sample_service_wf)
  have given: "given [(''sourceObjects'', JList sample_sources)] ''sourceObjects'' = Some (JList sample_sources)"
    by (simp add: given_def)
  have plain: "aget sample_plain ''deleteSourceObjects'' \<noteq> Some ''true''" "0 < he_chunk ?env"
      "extract_instruction sample_plain Rest \<noteq> Some ''inject-upload-data-error''"
    by (simp_all add: sample_parsing_simps sample_plain_simps extract_instruction_def)
  note all = compose_concatenates [OF t wf sample_parsing_simps(4) given plain]
  obtain blobs composed where c: "list_all2 (source_named sample_service_db ''b'') sample_sources blobs"
      "get_object ''b'' (b_name composed) Rest None [] False (sv_db t) = (Inr (Some composed), sv_db t)"
      "bm_buf (b_media composed) = concat (map (\<lambda>blob. bm_buf (b_media blob)) blobs)"
      "om_size (b_metadata composed) = sum_list (map (\<lambda>blob. length (bm_buf (b_media blob))) blobs)"
    using all unfolding db by metis
  have "blobs = [sample_source, sample_source]"
    using c(1) unfolding sample_sources_def list_all2_Cons1 list_all2_Nil
    by (blast dest: sample_source_named)
  moreover have "bm_buf (b_media sample_source) = [1, 2, 3]"
    by (simp add: sample_source_def bytes_media_init_def)
  ultimately have "bm_buf (b_media composed) = [1, 2, 3, 1, 2, 3]" "om_size (b_metadata composed) = 6"
    using c(3,4) by simp_all
  then show ?thesis using t c(2) by blast
qed

definition sample_post :: request where
  "sample_post = \<lparr>args = [(''uploadType'', ''media''), (''name'', ''p'')], headers = [], environ = [], verb = ''POST''\<rparr>"

definition sample_download :: request where
  "sample_download = \<lparr>args = [(''alt'', ''media'')], headers = [], environ = [], verb = ''GET''\<rparr>"

lemma sample_post_simps:
  "plain_args sample_post" "aget sample_post ''upload_id'' = None" "aget sample_post ''uploadType'' = Some ''media''"
  "aget sample_post ''name'' = Some ''p''" "conditions sample_post = []" "hget sample_post h = None"
  "aget sample_post ''contentEncoding'' = None" "aget sample_post ''kmsKeyName'' = None"
  "extract_media sample_post body w = body"
  by (simp_all add: plain_args_def sample_post_def aget_def hget_def conditions_def make_json_preconditions_def select_def
      extract_media_def)

lemma sample_upload_run:
  "\<exists>ans t. object_insert (sample_parsing_env []) ml [] [] sample_post [1, 2, 3] [] ''b'' sample_service = (Inr ans, t)"
proof -
  let ?env = "sample_parsing_env []"
  have db: "sv_db sample_service = sample_service_db" by (simp add: sample_service_def)
  let ?d = "[(''bucket'', JStr ''b''), (''name'', JStr ''p''), (''metadata'', JObj [(''x_emulator_upload'', JStr ''simple'')]),
      (''contentEncoding'', JNull), (''kmsKeyName'', JNull)]"
  obtain rest where pre: "preprocess_object_metadata ?d = Inr rest" "map_of rest ''name'' = Some (JStr ''p'')"
    by (simp add: preprocess_object_metadata_def object_adjustments_def crc32c_checksum_def md5_checksum_def)
  let ?md = "new_obj_meta\<lparr>om_name := ''p''\<rparr>"
  have "oe_parse (objects_of ?env) rest = Inr ?md"
    by (simp add: sample_parsing_objects sample_parsing_simps pre(2))
  note eq = making_init_dict_eq [OF pre(1) this]
  have bn: "bucket_name_from_proto (bk_name sample_bucket) = ''b''"
    by (simp add: sample_bucket_def bucket_name_from_proto_def bucket_prefix_def)
  have "plain_metadata ?md" by (simp add: plain_metadata_def new_obj_meta_def)
  then obtain b p t where t: "making_object (\<lambda>_ s. s) the_sample_bucket ?md
      (object_init (objects_of ?env) 7 sample_post no_params (bytes_media_init castagnoli [1, 2, 3]) False Rest None True)
        sample_service = (Inr (b, p), t)" "sv_db t = sample_service_db" "b_name b = ''p''"
    using sample_made [OF sample_post_simps(1) _ db, where env = ?env and now = 7 and d = False
        and m = "bytes_media_init castagnoli [1, 2, 3]" and md = ?md] by fastforce
  have "making_object (\<lambda>_ s. s) the_sample_bucket new_obj_meta
      (init_media (objects_of ?env) 7 sample_post [1, 2, 3]) sample_service
    = making_object (\<lambda>_ s. s) the_sample_bucket new_obj_meta
      (init_dict (objects_of ?env) 7 sample_post ?d (bytes_media_init castagnoli [1, 2, 3]) False) sample_service"
    by (simp add: making_object_def init_media_def sample_post_simps or_null_def bn sample_parsing_objects)
  also have "\<dots> = (Inr (b, p), t)" using t(1) eq by simp
  finally have made: "making_object (\<lambda>_ s. s) the_sample_bucket new_obj_meta
      (init_media (objects_of ?env) 7 sample_post [1, 2, 3]) sample_service = (Inr (b, p), t)" .
  moreover obtain d where "object_rest sample_objects (b_metadata b) = Inr d"
    using sample_object_rest by blast
  ultimately show ?thesis
    using sample_the_bucket [OF db] sample_inserted [OF t(2), of b "[]"] t(3) sample_post_simps(5)
    by (simp add: object_insert_def insert_single_shot_def sample_post_simps insert_test_bucket_def bindM_def seqM_def
        sample_parsing_simps sample_parsing_objects single_shot_plain conditions_def)
qed

theorem simple_upload_round_trip_witness:
  "\<exists>ans t blob resp. object_insert (sample_parsing_env []) undefined [] [] sample_post [1, 2, 3] [] ''b'' sample_service = (Inr ans, t)
    \<and> get_object ''b'' ''p'' Rest None [] False (sv_db t) = (Inr (Some blob), sv_db t)
    \<and> object_get (sample_parsing_env []) sample_download ''b'' ''p'' t
      = (case csek_validation (oe_sha256 (sample_parsing_env [])) sample_download no_params
         (case om_customer_encryption (b_metadata blob) of None \<Rightarrow> [] | Some (_, h) \<Rightarrow> h) False Rest of
           Inl e \<Rightarrow> (Inl e, t) | Inr _ \<Rightarrow> (Inr (Inr resp), t))
    \<and> dr_status resp = 200 \<and> body_bytes (dr_body resp) = [1, 2, 3]"
proof -
  let ?env = "sample_parsing_env []"
  obtain ans t where t: "object_insert ?env undefined [] [] sample_post [1, 2, 3] [] ''b'' sample_service = (Inr ans, t)"
    using sample_upload_run by blast
  have q: "aget sample_download ''alt'' = Some ''media''" "aget sample_download ''softDeleted'' = None"
      "aget sample_download ''generation'' = None" "conditions sample_download = []"
      "hget sample_download ''range'' = None" "extract_instruction sample_download Rest = None"
    by (simp_all add: sample_download_def aget_def hget_def conditions_def make_json_preconditions_def select_def
        extract_instruction_def)
  have wf: "db_wf (sv_db sample_service)" by (simp add: sample_service_def sample_service_wf)
  have test: "insert_test_bucket ?env sample_service = (Inr (), sample_service)"
    by (simp add: insert_test_bucket_def sample_parsing_simps)
  have plain: "extract_instruction sample_post Rest \<noteq> Some ''inject-upload-data-error''"
      "hget sample_post ''x-retry-test-id'' = None"
    by (simp_all add: sample_post_simps extract_instruction_def)
  have parsed: "parses_names ?env"
    by (auto simp: parses_names_def sample_parsing_simps)
  have gunzip: "he_gunzip ?env [1, 2, 3] = Inr [1, 2, 3]"
      "extract_media sample_post [1, 2, 3] [] = [1, 2, 3]"
    by (simp_all add: sample_parsing_simps sample_post_simps)
  show ?thesis
    using simple_upload_round_trip [OF t sample_post_simps(2-4) test wf plain sample_parsing_simps(1) parsed q] t
    unfolding gunzip by (auto simp: gunzip(1) simp del: One_nat_def cong: sum.case_cong split: if_splits)
qed

end
