(* ===== verification/Grpc_Uploads.thy ===== *)
theory Grpc_Uploads
  imports Object_Handlers
begin

text \<open>
  Uploads over gRPC: the part of \<open>src/gcs/upload.py\<close> that reads the messages of a stream
  (\<open>init_resumable_grpc\<close>, \<open>init_write_object_grpc\<close>) and the handlers \<open>WriteObject\<close>,
  \<open>StartResumableWrite\<close>, \<open>QueryWriteStatus\<close> and \<open>CancelResumableWrite\<close> of
  \<open>src/testbench/grpc_server.py\<close>.
\<close>

section \<open>A message as a request\<close>

text \<open>The fields of a message that \<open>FakeRequest.update_protobuf\<close> looks at: the wrappers that are set,
  and the fields that the type of the message has.\<close>

record proto_fields =
  pf_wrappers :: "(string \<times> int) list"
  pf_generation :: "int option"
  pf_predefined_acl :: "string option"
  pf_params :: "csek_params option"

definition no_request :: request where
  "no_request = \<lparr>args = [], headers = [], environ = [], verb = []\<rparr>"

definition protobuf_wrapper_to_json_args :: "(string \<times> string) list" where
  "protobuf_wrapper_to_json_args =
    [(''if_generation_match'', ''ifGenerationMatch''),
     (''if_generation_not_match'', ''ifGenerationNotMatch''),
     (''if_metageneration_match'', ''ifMetagenerationMatch''),
     (''if_metageneration_not_match'', ''ifMetagenerationNotMatch'')]"

text \<open>The arguments hold numbers; here they are the texts of the numbers, which \<open>int\<close> reads in the
  same way.  The argument \<open>userProject\<close> is never set, because the code looks for a text among the
  pairs of the metadata.\<close>

definition protobuf_args :: "proto_fields \<Rightarrow> (string \<times> string) list" where
  "protobuf_args pf =
     concat (map (\<lambda>(proto_field, args_field). case map_of (pf_wrappers pf) proto_field of
         None \<Rightarrow> [] | Some n \<Rightarrow> [(args_field, show_int n)]) protobuf_wrapper_to_json_args)
     @ (case pf_generation pf of None \<Rightarrow> [] | Some g \<Rightarrow> [(''generation'', show_int g)])
     @ (case pf_predefined_acl pf of None \<Rightarrow> [] | Some a \<Rightarrow> [(''predefinedAcl'', a)])"

definition update_protobuf :: "proto_fields \<Rightarrow> ctx \<Rightarrow> request \<times> csek_params \<Rightarrow> request \<times> csek_params" where
  "update_protobuf pf c = (\<lambda>(request, _).
     let request = request\<lparr>args := dict_update (args request) (protobuf_args pf)\<rparr> in
     case pf_params pf of
       None \<Rightarrow> (request, no_params)
     | Some params \<Rightarrow>
       (let (algorithm, key_b64, key_sha256_b64) = csek_extract request params False c
        in (request\<lparr>headers := dict_update (headers request)
              [(''x-goog-encryption-algorithm'', algorithm), (''x-goog-encryption-key'', key_b64),
               (''x-goog-encryption-key-sha256'', key_sha256_b64)]\<rparr>, params)))"

definition init_protobuf :: "proto_fields \<Rightarrow> ctx \<Rightarrow> request \<times> csek_params" where
  "init_protobuf pf c = update_protobuf pf c (no_request, no_params)"

section \<open>The messages\<close>

text \<open>\<open>WriteObjectSpec\<close>: \<open>wspec_conditions\<close> are the preconditions that are set.\<close>

record write_spec =
  wspec_resource :: obj_meta
  wspec_predefined_acl :: string
  wspec_conditions :: "(string \<times> int) list"

text \<open>\<open>WriteObjectRequest\<close>: the data is a content with or without its checksum, the checksums of the
  object are the CRC32C, if it is set, and the MD5.\<close>

datatype first_message = Upload_id string | Write_spec write_spec | No_first

record write_message =
  wm_first :: first_message
  wm_write_offset :: int
  wm_data :: "(bytes \<times> int option) option"
  wm_checksums :: "(int option \<times> bytes) option"
  wm_finish :: bool
  wm_params :: csek_params

definition spec_fields :: "write_spec \<Rightarrow> proto_fields" where
  "spec_fields spec = \<lparr>pf_wrappers = wspec_conditions spec, pf_generation = None,
     pf_predefined_acl = Some (wspec_predefined_acl spec), pf_params = None\<rparr>"

definition message_fields :: "write_message \<Rightarrow> proto_fields" where
  "message_fields m = \<lparr>pf_wrappers = [], pf_generation = None, pf_predefined_acl = None,
     pf_params = Some (wm_params m)\<rparr>"

section \<open>The start of an upload\<close>

definition grpc_upload ::
    "handler_env \<Rightarrow> string \<Rightarrow> string \<Rightarrow> write_spec \<Rightarrow> bucket \<Rightarrow> request \<times> csek_params \<Rightarrow> upload" where
  "grpc_upload env kind upload_id spec bk fake =
     \<lparr>up_request = fst fake,
      up_metadata = annotate_metadata ''x_emulator_upload'' kind (wspec_resource spec),
      up_bucket = bk, up_location = [], up_id = upload_id,
      up_media = bytes_media_init (oe_crc32c env) [], up_complete = False, up_transfer = [],
      up_preconditions = make_grpc_preconditions (wspec_conditions spec) ''if_'',
      up_params = Some (snd fake), up_made = False\<rparr>"

definition init_resumable_grpc ::
    "handler_env \<Rightarrow> string \<Rightarrow> write_spec \<Rightarrow> bucket \<Rightarrow> ctx \<Rightarrow> upload" where
  "init_resumable_grpc env upload_id spec bk c =
     grpc_upload env ''resumable'' upload_id spec bk
       (update_protobuf (spec_fields spec) c (init_protobuf (spec_fields spec) c))"

definition init_first_write_grpc ::
    "handler_env \<Rightarrow> string \<Rightarrow> write_message \<Rightarrow> write_spec \<Rightarrow> bucket \<Rightarrow> ctx \<Rightarrow> upload" where
  "init_first_write_grpc env upload_id m spec bk c =
     grpc_upload env ''grpc'' upload_id spec bk
       (update_protobuf (spec_fields spec) c (init_protobuf (message_fields m) c))"

section \<open>The messages of a stream\<close>

text \<open>The variables of the loop: the upload, the checksums of the object, and whether the upload is
  resumable.  Every upload is kept under its identifier.\<close>

record write_stream =
  ws_upload :: "string option"
  ws_checksums :: "(int option \<times> bytes) option"
  ws_resumable :: bool

definition alter_upload :: "string \<Rightarrow> (upload \<Rightarrow> upload) \<Rightarrow> service \<Rightarrow> service" where
  "alter_upload upload_id f s = (case map_of (sv_uploads s) upload_id of
     None \<Rightarrow> s | Some up \<Rightarrow> put_upload (f up) s)"

definition current_upload :: "string \<Rightarrow> upload serviceM" where
  "current_upload upload_id = bindM (getS (\<lambda>s. map_of (sv_uploads s) upload_id)) require"

definition write_first ::
    "handler_env \<Rightarrow> ctx \<Rightarrow> string \<Rightarrow> write_message \<Rightarrow> write_stream \<Rightarrow> write_stream serviceM" where
  "write_first env c fresh m w = (case wm_first m of
     Upload_id upload_id \<Rightarrow>
       bindM (the_upload upload_id c) (\<lambda>up.
       if up_complete up then raise (invalid (''Uploading to a completed upload '' @ up_id up) c)
       else ret (w\<lparr>ws_upload := Some upload_id, ws_resumable := True\<rparr>))
   | Write_spec spec \<Rightarrow>
       bindM (the_bucket (om_bucket (wspec_resource spec)) c) (\<lambda>bk.
       seqM (modS (put_upload (init_first_write_grpc env fresh m spec bk c)))
         (ret (w\<lparr>ws_upload := Some fresh\<rparr>)))
   | No_first \<Rightarrow>
       if ws_upload w = None then raise (invalid ''Upload missing a first_message field'' c) else ret w)"

definition write_checksums :: "ctx \<Rightarrow> write_message \<Rightarrow> write_stream \<Rightarrow> err + write_stream" where
  "write_checksums c m w = (case wm_checksums m of
     None \<Rightarrow> Inr w
   | Some sums \<Rightarrow>
       if wm_first m = No_first \<and> \<not> wm_finish m
       then Inl (invalid ''Object checksums can be included only in the first or last message'' c)
       else if ws_checksums w \<noteq> None then Inl (invalid ''Duplicate object checksums in upload'' c)
       else Inr (w\<lparr>ws_checksums := Some sums\<rparr>))"

definition check_content :: "handler_env \<Rightarrow> ctx \<Rightarrow> bytes \<Rightarrow> int option \<Rightarrow> err + unit" where
  "check_content env c content crc32c_hash = (case crc32c_hash of
     None \<Rightarrow> Inr ()
   | Some n \<Rightarrow> (let actual_crc32c = int (oe_crc32c env content 0) in
       if actual_crc32c \<noteq> n
       then Inl (mismatch ''crc32c in checksummed data'' (show_int n) (show_int actual_crc32c) c)
       else Inr ()))"

text \<open>The bytes that are stored already are ignored.\<close>

definition unstored :: "int \<Rightarrow> nat \<Rightarrow> bytes \<Rightarrow> bytes" where
  "unstored write_offset persisted content =
     (if write_offset < int persisted
      then partial_media content (int (length content)) (int persisted - write_offset) else content)"

definition write_faults :: "handler_env \<Rightarrow> ctx \<Rightarrow> string \<Rightarrow> bytes \<Rightarrow> unit serviceM" where
  "write_faults env c upload_id content =
     bindM (on_tests (get_retry_uploads_error_after_bytes no_request c ''GRPC''))
       (\<lambda>(rest_code, after_bytes, test_id).
     if rest_code \<noteq> 0
     then on_upload_media env upload_id
            (handle_grpc_retry_uploads_error_after_bytes c content rest_code after_bytes test_id)
     else ret ())"

definition write_data :: "handler_env \<Rightarrow> ctx \<Rightarrow> write_message \<Rightarrow> string \<Rightarrow> unit serviceM" where
  "write_data env c m upload_id = (case wm_data m of
     None \<Rightarrow>
       if wm_finish m then modS (alter_upload upload_id (\<lambda>up. up\<lparr>up_complete := True\<rparr>))
       else raise (invalid ''Invalid data field in upload'' c)
   | Some (content, crc32c_hash) \<Rightarrow>
       seqM (liftE (check_content env c content crc32c_hash))
       (bindM (current_upload upload_id) (\<lambda>up.
        let persisted = length (bm_buf (up_media up));
            content = unstored (wm_write_offset m) persisted content
        in if int persisted < wm_write_offset m
           then raise (Grpc_abort (Some OUT_OF_RANGE) (Text (''Write offset '' @ show_int (wm_write_offset m)
                  @ '' does not match expected '' @ show_nat persisted)))
           else
           seqM (write_faults env c upload_id content)
             (modS (alter_upload upload_id (\<lambda>up.
                (append_data env content up)\<lparr>up_complete := up_complete up \<or> wm_finish m\<rparr>))))))"

definition write_step ::
    "handler_env \<Rightarrow> ctx \<Rightarrow> string \<times> write_message \<Rightarrow> write_stream \<Rightarrow> write_stream serviceM" where
  "write_step env c = (\<lambda>(fresh, m) w.
     bindM (write_first env c fresh m w) (\<lambda>w.
     bindM (liftE (write_checksums c m w)) (\<lambda>w. case ws_upload w of
       None \<Rightarrow> raise (Exc AttributeError)
     | Some upload_id \<Rightarrow> seqM (write_data env c m upload_id) (ret w))))"

text \<open>Each message comes with the identifier that an upload gets which it starts; the code hashes the
  time, the name of the object and a random number.\<close>

fun write_messages ::
    "handler_env \<Rightarrow> ctx \<Rightarrow> (string \<times> write_message) list \<Rightarrow> write_stream \<Rightarrow> write_stream serviceM" where
  "write_messages env c [] w = ret w"
| "write_messages env c (m # ms) w = bindM (write_step env c m w) (write_messages env c ms)"

section \<open>The end of a stream\<close>

definition annotate_crc32c :: "int option \<Rightarrow> obj_meta \<Rightarrow> err + obj_meta" where
  "annotate_crc32c crc32c md = (case crc32c of
     None \<Rightarrow> Inr (annotate_metadata ''x_emulator_no_crc32c'' ''true'' md)
   | Some n \<Rightarrow> bindE (rest_crc32c_from_proto n) (\<lambda>t. Inr (annotate_metadata ''x_emulator_crc32c'' t md)))"

definition annotate_md5 :: "bytes \<Rightarrow> obj_meta \<Rightarrow> obj_meta" where
  "annotate_md5 md5_hash md =
     (if md5_hash \<noteq> [] then annotate_metadata ''x_emulator_md5'' (rest_md5_from_proto md5_hash) md
      else annotate_metadata ''x_emulator_no_md5'' ''true'' md)"

definition annotate_checksums :: "(int option \<times> bytes) option \<Rightarrow> obj_meta \<Rightarrow> err + obj_meta" where
  "annotate_checksums sums md = (case sums of
     None \<Rightarrow> Inr (annotate_md5 [] (annotate_metadata ''x_emulator_no_crc32c'' ''true'' md))
   | Some (crc32c, md5_hash) \<Rightarrow> bindE (annotate_crc32c crc32c md) (\<lambda>md. Inr (annotate_md5 md5_hash md)))"

definition init_write_object_grpc ::
    "handler_env \<Rightarrow> ctx \<Rightarrow> (string \<times> write_message) list \<Rightarrow> (string \<times> bool) serviceM" where
  "init_write_object_grpc env c ms =
     bindM (write_messages env c ms \<lparr>ws_upload = None, ws_checksums = None, ws_resumable = False\<rparr>) (\<lambda>w.
     case ws_upload w of
       None \<Rightarrow> raise (invalid ''Upload missing a first_message field'' c)
     | Some upload_id \<Rightarrow>
       bindM (current_upload upload_id) (\<lambda>up.
       bindM (liftE (annotate_checksums (ws_checksums w) (up_metadata up))) (\<lambda>md.
       seqM (modS (put_upload (up\<lparr>up_metadata := md\<rparr>))) (ret (upload_id, ws_resumable w)))))"

section \<open>The handlers\<close>

text \<open>The decorator \<open>retry_test\<close> of the gRPC server.\<close>

definition grpc_retry_test :: "ctx \<Rightarrow> string \<Rightarrow> 'a serviceM \<Rightarrow> 'a serviceM" where
  "grpc_retry_test c m func = seqM (on_tests (grpc_handle_retry_test_instruction c m)) func"

datatype write_answer = Persisted_size nat | Resource obj_meta

text \<open>An upload that was started over REST has a request without the parameters of a message, which
  \<open>Object.init\<close> asks for over gRPC.\<close>

definition insert_written :: "handler_env \<Rightarrow> ctx \<Rightarrow> upload \<Rightarrow> write_answer serviceM" where
  "insert_written env c up = (case up_params up of
     None \<Rightarrow> raise (Exc AttributeError)
   | Some params \<Rightarrow>
     bindM (getS (upload_bucket up)) (\<lambda>bk.
     bindM (making_object (keep_upload_metadata (up_id up)) bk (up_metadata up)
        (object_init (objects_of env) (he_now env) (up_request up) params (up_media up) False c None True))
       (\<lambda>(blob, _).
     seqM (modS (alter_upload (up_id up) (\<lambda>up. up\<lparr>up_made := True\<rparr>)))
     (seqM (on_db (insert_object (bk_name bk) blob c (up_preconditions up)))
        (ret (Resource (b_metadata blob)))))))"

definition WriteObject ::
    "handler_env \<Rightarrow> ctx \<Rightarrow> (string \<times> write_message) list \<Rightarrow> write_answer serviceM" where
  "WriteObject env c ms = grpc_retry_test c ''storage.objects.insert''
     (bindM (init_write_object_grpc env c ms) (\<lambda>(upload_id, is_resumable).
      bindM (current_upload upload_id) (\<lambda>up.
      if \<not> up_complete up then
        (if \<not> is_resumable then raise (missing ''finish_write in request'' c)
         else ret (Persisted_size (length (bm_buf (up_media up)))))
      else insert_written env c up)))"

definition StartResumableWrite :: "handler_env \<Rightarrow> ctx \<Rightarrow> string \<Rightarrow> write_spec \<Rightarrow> string serviceM" where
  "StartResumableWrite env c fresh spec = grpc_retry_test c ''storage.objects.insert''
     (bindM (the_bucket (om_bucket (wspec_resource spec)) c) (\<lambda>bk.
      seqM (start_upload (init_resumable_grpc env fresh spec bk c)) (ret fresh)))"

definition QueryWriteStatus :: "ctx \<Rightarrow> string \<Rightarrow> write_answer serviceM" where
  "QueryWriteStatus c upload_id =
     bindM (the_upload upload_id c) (\<lambda>up.
     if up_complete up then
       (if up_made up then bindM (getS (shared_metadata up)) (\<lambda>md. ret (Resource md))
        else raise (Exc AttributeError))
     else ret (Persisted_size (length (bm_buf (up_media up)))))"

definition CancelResumableWrite :: "ctx \<Rightarrow> string \<Rightarrow> unit serviceM" where
  "CancelResumableWrite c upload_id = on_db (delete_upload upload_id c)"

section \<open>What a stream stores\<close>

lemma put_upload_same: "map_of (sv_uploads s) (up_id up) = Some up \<Longrightarrow> put_upload up s = s"
  by (simp add: put_upload_def update_same)

lemma put_upload_twice:
  "up_id up' = up_id up \<Longrightarrow> put_upload up' (put_upload up s) = put_upload up' s"
  by (simp add: put_upload_def)

lemma alter_upload_known: "map_of (sv_uploads s) i = Some up \<Longrightarrow> alter_upload i f s = put_upload (f up) s"
  by (simp add: alter_upload_def)

lemma current_upload_known: "map_of (sv_uploads s) i = Some up \<Longrightarrow> current_upload i s = (Inr up, s)"
  by (simp add: current_upload_def)

text \<open>A message that carries bytes of the content, at an offset up to the end of the \<open>p\<close> bytes that
  are stored; and how many bytes are stored after it.\<close>

definition piece_of :: "bytes \<Rightarrow> nat \<Rightarrow> write_message \<Rightarrow> bool" where
  "piece_of content p m \<longleftrightarrow> (case wm_data m of
     None \<Rightarrow> True
   | Some (data, _) \<Rightarrow> 0 \<le> wm_write_offset m \<and> wm_write_offset m \<le> int p
       \<and> data = take (length data) (drop (nat (wm_write_offset m)) content))"

definition stored_after :: "nat \<Rightarrow> write_message \<Rightarrow> nat" where
  "stored_after p m = (case wm_data m of
     None \<Rightarrow> p | Some (data, _) \<Rightarrow> max p (nat (wm_write_offset m) + length data))"

fun pieces_of :: "bytes \<Rightarrow> nat \<Rightarrow> write_message list \<Rightarrow> bool" where
  "pieces_of content p [] \<longleftrightarrow> True"
| "pieces_of content p (m # ms) \<longleftrightarrow> piece_of content p m \<and> pieces_of content (stored_after p m) ms"

definition stored :: "nat \<Rightarrow> write_message list \<Rightarrow> nat" where
  "stored p ms = foldl stored_after p ms"

lemma stored_simps [simp]: "stored p [] = p" "stored p (m # ms) = stored (stored_after p m) ms"
  by (simp_all add: stored_def)

text \<open>The upload that differs in its bytes and in being complete only.\<close>

definition progressed :: "bytes_media \<Rightarrow> bool \<Rightarrow> upload \<Rightarrow> upload" where
  "progressed bytes complete up = up\<lparr>up_media := bytes, up_complete := complete\<rparr>"

lemma progressed_simps [simp]:
  "up_id (progressed m b up) = up_id up" "up_media (progressed m b up) = m"
  "up_complete (progressed m b up) = b" "up_metadata (progressed m b up) = up_metadata up"
  "up_request (progressed m b up) = up_request up" "up_bucket (progressed m b up) = up_bucket up"
  "up_params (progressed m b up) = up_params up" "up_preconditions (progressed m b up) = up_preconditions up"
  "progressed m' b' (progressed m b up) = progressed m' b' up"
  by (simp_all add: progressed_def)

lemma progressed_same: "up_media up = m \<Longrightarrow> up_complete up = b \<Longrightarrow> progressed m b up = up"
  by (cases up) (auto simp: progressed_def)

lemma write_faults_plain:
  "get_retry_test_id_from_context c = None \<Longrightarrow> c \<noteq> Rest \<Longrightarrow> write_faults env c i content s = (Inr (), s)"
  by (simp add: write_faults_def get_retry_uploads_error_after_bytes_def upload_instruction_def
      bindM_def on_tests_ret)

lemma unstored_piece:
  assumes "0 \<le> off" and "off \<le> int p" and "p \<le> length content"
    and "data = take (length data) (drop (nat off) content)"
  shows "take p content @ unstored off p data = take (max p (nat off + length data)) content"
proof -
  obtain a where a: "off = int a" "a \<le> p" using assms(1,2) by (metis nat_0_le nat_le_iff)
  have "unstored off p data = drop (p - a) data"
  proof (cases "a < p")
    case True
    then have "int p - int a = int (p - a)" by simp
    then show ?thesis using True a(1) by (simp add: unstored_def partial_media_def py_slice_nonneg nat_diff_distrib)
  next
    case False
    then show ?thesis using a by (simp add: unstored_def)
  qed
  moreover have data: "data = take (length data) (drop a content)" using assms(4) a(1) by simp
  moreover have "take p content @ drop (p - a) data = take (max p (a + length data)) content"
  proof (cases "p \<le> a + length data")
    case True
    have "drop (p - a) data = drop p (take (a + length data) content)"
      by (subst data) (use a(2) in \<open>simp add: drop_take add.commute\<close>)
    moreover have "take p content = take p (take (a + length data) content)" using True by (simp add: min_absorb1)
    ultimately show ?thesis using True by (metis append_take_drop_id max_absorb2)
  next
    case False
    then show ?thesis by simp
  qed
  ultimately show ?thesis using a(1) by simp
qed

lemma stored_after_le:
  assumes "piece_of content p m" and "p \<le> length content"
  shows "p \<le> stored_after p m" and "stored_after p m \<le> length content"
proof -
  show "p \<le> stored_after p m" by (auto simp: stored_after_def split: option.splits)
  show "stored_after p m \<le> length content"
  proof (cases "wm_data m")
    case (Some x)
    obtain data h where x: "x = (data, h)" by (cases x)
    have "length data \<le> length content - nat (wm_write_offset m)"
      using assms(1) Some x by (auto simp: piece_of_def dest!: arg_cong [of data _ length])
    moreover have "nat (wm_write_offset m) \<le> length content"
      using assms Some x by (auto simp: piece_of_def)
    ultimately show ?thesis using assms(2) Some x by (simp add: stored_after_def)
  qed (simp add: stored_after_def assms(2))
qed


lemma write_data_stores:
  assumes "write_data env c m i s = (Inr x, t)" and "get_retry_test_id_from_context c = None" and "c \<noteq> Rest"
    and "map_of (sv_uploads s) i = Some up" and "up_id up = i" and "bm_buf (up_media up) = take p content"
    and "p \<le> length content" and "piece_of content p m"
  shows "\<exists>got. t = put_upload (progressed got (up_complete up \<or> wm_finish m) up) s
    \<and> bm_buf got = take (stored_after p m) content"
proof (cases "wm_data m")
  case None
  then have "wm_finish m" "t = put_upload (up\<lparr>up_complete := True\<rparr>) s"
    using assms(1,4) by (auto simp: write_data_def alter_upload_known split: if_splits)
  then show ?thesis
    using None assms(6) by (intro exI [of _ "up_media up"]) (simp add: progressed_def stored_after_def)
next
  case (Some y)
  obtain data h where y: "y = (data, h)" by (cases y)
  let ?new = "unstored (wm_write_offset m) p data"
  have len: "length (bm_buf (up_media up)) = p" using assms(6,7) by simp
  have "t = put_upload (progressed (bm_append (oe_crc32c env) ?new (up_media up)) (up_complete up \<or> wm_finish m) up) s"
    using assms(1,4) Some y len
    by (auto simp: write_data_def seqM_Inr_iff bindM_Inr_iff liftE_Inr_iff current_upload_known Let_def
        write_faults_plain [OF assms(2,3)] alter_upload_known progressed_def append_data_def split: if_splits)
  moreover have "take p content @ ?new = take (max p (nat (wm_write_offset m) + length data)) content"
    using assms(7,8) Some y by (intro unstored_piece) (auto simp: piece_of_def)
  ultimately show ?thesis
    using Some y assms(6) by (auto simp: stored_after_def bm_append_def)
qed

lemma write_step_stores:
  assumes "write_step env c (fresh, m) w s = (Inr w', t)" and "get_retry_test_id_from_context c = None" and "c \<noteq> Rest"
    and "write_first env c fresh m w s = (Inr w1, s1)" and "ws_upload w1 = Some i"
    and "map_of (sv_uploads s1) i = Some up" and "up_id up = i" and "bm_buf (up_media up) = take p content"
    and "p \<le> length content" and "piece_of content p m"
  shows "\<exists>got. t = put_upload (progressed got (up_complete up \<or> wm_finish m) up) s1
    \<and> bm_buf got = take (stored_after p m) content
    \<and> ws_upload w' = Some i \<and> ws_resumable w' = ws_resumable w1"
proof -
  have w': "ws_upload w' = Some i \<and> ws_resumable w' = ws_resumable w1"
    and "\<exists>x. write_data env c m i s1 = (Inr x, t)"
    using assms(1,4,5)
    by (auto simp: write_step_def bindM_Inr_iff seqM_Inr_iff write_checksums_def
        split: option.splits if_splits)
  then show ?thesis
    using write_data_stores [OF _ assms(2,3,6,7,8,9,10)] by blast
qed

lemma write_messages_store:
  assumes "write_messages env c ms w s = (Inr w', t)" and "get_retry_test_id_from_context c = None" and "c \<noteq> Rest"
    and "\<forall>m \<in> set ms. wm_first (snd m) = No_first" and "ws_upload w = Some i"
    and "map_of (sv_uploads s) i = Some up" and "up_id up = i" and "bm_buf (up_media up) = take p content"
    and "p \<le> length content" and "pieces_of content p (map snd ms)"
  shows "\<exists>got. t = put_upload (progressed got (up_complete up \<or> (\<exists>m \<in> set ms. wm_finish (snd m))) up) s
    \<and> bm_buf got = take (stored p (map snd ms)) content
    \<and> ws_upload w' = Some i \<and> ws_resumable w' = ws_resumable w"
  using assms(1,4-10)
proof (induction ms arbitrary: w s up p)
  case Nil
  then show ?case
    by (intro exI [of _ "up_media up"]) (simp add: progressed_same put_upload_same)
next
  case (Cons fm ms)
  obtain fresh m where fm: "fm = (fresh, m)" by (cases fm)
  obtain w2 s2 where run: "write_step env c (fresh, m) w s = (Inr w2, s2)" "write_messages env c ms w2 s2 = (Inr w', t)"
    using Cons.prems(1) fm by (auto simp: bindM_Inr_iff)
  have first: "write_first env c fresh m w s = (Inr w, s)"
    using Cons.prems(2,3) fm by (simp add: write_first_def)
  have piece: "piece_of content p m" and later: "pieces_of content (stored_after p m) (map snd ms)"
    using Cons.prems(8) fm by simp_all
  obtain got where m: "s2 = put_upload (progressed got (up_complete up \<or> wm_finish m) up) s"
      "bm_buf got = take (stored_after p m) content" "ws_upload w2 = Some i" "ws_resumable w2 = ws_resumable w"
    using write_step_stores [OF run(1) assms(2,3) first Cons.prems(3-7) piece] by blast
  let ?up = "progressed got (up_complete up \<or> wm_finish m) up"
  have known: "map_of (sv_uploads s2) i = Some ?up" "up_id ?up = i" "bm_buf (up_media ?up) = take (stored_after p m) content"
    using m(1,2) Cons.prems(5) by simp_all
  have no_first: "\<forall>m \<in> set ms. wm_first (snd m) = No_first" using Cons.prems(2) by simp
  obtain got' where "t = put_upload (progressed got' (up_complete ?up \<or> (\<exists>m \<in> set ms. wm_finish (snd m))) ?up) s2"
      "bm_buf got' = take (stored (stored_after p m) (map snd ms)) content"
      "ws_upload w' = Some i" "ws_resumable w' = ws_resumable w2"
    using Cons.IH [OF run(2) no_first m(3) known stored_after_le(2) [OF piece Cons.prems(7)] later] by blast
  then show ?case
    using m fm by (intro exI [of _ got']) (simp add: put_upload_twice disj_assoc)
qed

section \<open>Streams that are accepted\<close>

definition accepted :: "handler_env \<Rightarrow> write_message \<Rightarrow> bool" where
  "accepted env m \<longleftrightarrow> wm_checksums m = None \<and> (case wm_data m of
     None \<Rightarrow> wm_finish m
   | Some (data, h) \<Rightarrow> h = None \<or> h = Some (int (oe_crc32c env data 0)))"

lemma write_data_succeeds:
  assumes "accepted env m" and "piece_of content p m" and "get_retry_test_id_from_context c = None" and "c \<noteq> Rest"
    and "map_of (sv_uploads s) i = Some up" and "length (bm_buf (up_media up)) = p"
  shows "\<exists>t. write_data env c m i s = (Inr (), t)"
  using assms
  by (auto simp: accepted_def piece_of_def write_data_def check_content_def seqM_def bindM_def Let_def
      current_upload_known write_faults_plain split: option.splits)

lemma write_step_succeeds:
  assumes "accepted env m" and "piece_of content p m" and "get_retry_test_id_from_context c = None" and "c \<noteq> Rest"
    and "write_first env c fresh m w s = (Inr w1, s1)" and "ws_upload w1 = Some i"
    and "map_of (sv_uploads s1) i = Some up" and "length (bm_buf (up_media up)) = p"
  shows "\<exists>t. write_step env c (fresh, m) w s = (Inr w1, t)"
proof -
  obtain t where "write_data env c m i s1 = (Inr (), t)"
    using write_data_succeeds [OF assms(1-4,7,8)] by blast
  moreover have "write_checksums c m w1 = Inr w1"
    using assms(1) by (simp add: accepted_def write_checksums_def)
  ultimately show ?thesis
    using assms(5,6) by (simp add: write_step_def seqM_def bindM_def)
qed

lemma write_messages_succeed:
  assumes "get_retry_test_id_from_context c = None" and "c \<noteq> Rest"
    and "\<forall>m \<in> set ms. wm_first (snd m) = No_first \<and> accepted env (snd m)" and "ws_upload w = Some i"
    and "map_of (sv_uploads s) i = Some up" and "up_id up = i" and "bm_buf (up_media up) = take p content"
    and "p \<le> length content" and "pieces_of content p (map snd ms)"
  shows "\<exists>t. write_messages env c ms w s = (Inr w, t)"
  using assms(3-9)
proof (induction ms arbitrary: w s up p)
  case (Cons fm ms)
  obtain fresh m where fm: "fm = (fresh, m)" by (cases fm)
  have first: "write_first env c fresh m w s = (Inr w, s)" and ok: "accepted env m"
    using Cons.prems(1,2) fm by (simp_all add: write_first_def)
  have piece: "piece_of content p m" and later: "pieces_of content (stored_after p m) (map snd ms)"
    using Cons.prems(7) fm by simp_all
  have len: "length (bm_buf (up_media up)) = p" using Cons.prems(5,6) by simp
  obtain t where t: "write_step env c (fresh, m) w s = (Inr w, t)"
    using write_step_succeeds [OF ok piece assms(1,2) first Cons.prems(2,3) len] by blast
  then obtain got where got: "t = put_upload (progressed got (up_complete up \<or> wm_finish m) up) s"
      "bm_buf got = take (stored_after p m) content"
    using write_step_stores [OF t assms(1,2) first Cons.prems(2-6) piece] by blast
  have "\<exists>t'. write_messages env c ms w t = (Inr w, t')"
    by (rule Cons.IH [where up = "progressed got (up_complete up \<or> wm_finish m) up" and p = "stored_after p m"])
      (use Cons.prems got later stored_after_le(2) [OF piece] in auto)
  then show ?case using t fm by (auto simp: bindM_def)
qed simp

section \<open>The whole stream\<close>

text \<open>Metadata that differ in the annotations only.\<close>

definition annotated :: "obj_meta \<Rightarrow> obj_meta \<Rightarrow> bool" where
  "annotated md md' \<longleftrightarrow> md' = md\<lparr>om_metadata := om_metadata md'\<rparr>"

lemma annotated_step: "annotated md (annotate_metadata k v md)"
  by (simp add: annotated_def annotate_metadata_def)

lemma annotated_md5: "annotated md (annotate_md5 h md)"
  by (simp add: annotate_md5_def annotated_step)

lemma annotated_trans: "annotated a b \<Longrightarrow> annotated b c \<Longrightarrow> annotated a c"
  unfolding annotated_def by (cases a, cases b, cases c) simp

lemma annotated_crc32c: "annotate_crc32c crc md = Inr md' \<Longrightarrow> annotated md md'"
  by (cases crc) (auto simp: annotate_crc32c_def bindE_eq_Inr annotated_step)

lemma annotate_checksums_Inr:
  assumes "annotate_checksums sums md = Inr md'"
  shows "\<exists>x. md' = md\<lparr>om_metadata := x\<rparr>"
proof -
  have "annotated md md'"
  proof (cases sums)
    case None
    then show ?thesis
      using assms annotated_trans [OF annotated_step annotated_md5] by (auto simp: annotate_checksums_def)
  next
    case (Some y)
    then obtain h m where m: "annotate_crc32c (fst y) md = Inr m" "md' = annotate_md5 h m"
      using assms by (cases y) (auto simp: annotate_checksums_def bindE_eq_Inr)
    show ?thesis
      unfolding m(2) by (rule annotated_trans [OF annotated_crc32c [OF m(1)] annotated_md5])
  qed
  then show ?thesis unfolding annotated_def by blast
qed

lemma grpc_retry_test_plain:
  "get_retry_test_id_from_context c = None \<Longrightarrow> grpc_retry_test c m func s = func s"
  by (simp add: grpc_retry_test_def grpc_handle_retry_test_instruction_def seqM_def bindM_def on_tests_ret)

lemma stream_stores:
  assumes "init_write_object_grpc env c ((fresh, m) # ms) s = (Inr (j, resumable), t)"
    and "get_retry_test_id_from_context c = None" and "c \<noteq> Rest"
    and "write_first env c fresh m \<lparr>ws_upload = None, ws_checksums = None, ws_resumable = False\<rparr> s = (Inr w1, s1)"
    and "ws_upload w1 = Some i" and "map_of (sv_uploads s1) i = Some up" and "up_id up = i"
    and "bm_buf (up_media up) = take p content" and "p \<le> length content"
    and "\<forall>m \<in> set ms. wm_first (snd m) = No_first" and "pieces_of content p (m # map snd ms)"
  shows "\<exists>got x. j = i \<and> resumable = ws_resumable w1
    \<and> t = put_upload ((progressed got (up_complete up \<or> wm_finish m \<or> (\<exists>m \<in> set ms. wm_finish (snd m))) up)
            \<lparr>up_metadata := (up_metadata up)\<lparr>om_metadata := x\<rparr>\<rparr>) s1
    \<and> bm_buf got = take (stored p (m # map snd ms)) content"
proof -
  let ?w = "\<lparr>ws_upload = None, ws_checksums = None, ws_resumable = False\<rparr>"
  obtain w3 s3 where run: "write_messages env c ((fresh, m) # ms) ?w s = (Inr w3, s3)"
      "(case ws_upload w3 of None \<Rightarrow> raise (invalid ''Upload missing a first_message field'' c)
     | Some upload_id \<Rightarrow>
       bindM (current_upload upload_id) (\<lambda>up.
       bindM (liftE (annotate_checksums (ws_checksums w3) (up_metadata up))) (\<lambda>md.
       seqM (modS (put_upload (up\<lparr>up_metadata := md\<rparr>))) (ret (upload_id, ws_resumable w3))))) s3
       = (Inr (j, resumable), t)"
    using assms(1) unfolding init_write_object_grpc_def bindM_Inr_iff by blast
  obtain w2 s2 where step: "write_step env c (fresh, m) ?w s = (Inr w2, s2)" "write_messages env c ms w2 s2 = (Inr w3, s3)"
    using run(1) by (auto simp: bindM_Inr_iff)
  have piece: "piece_of content p m" and later: "pieces_of content (stored_after p m) (map snd ms)"
    using assms(11) by simp_all
  obtain got where got: "s2 = put_upload (progressed got (up_complete up \<or> wm_finish m) up) s1"
      "bm_buf got = take (stored_after p m) content" "ws_upload w2 = Some i" "ws_resumable w2 = ws_resumable w1"
    using write_step_stores [OF step(1) assms(2-9) piece] by blast
  let ?up = "progressed got (up_complete up \<or> wm_finish m) up"
  have known: "map_of (sv_uploads s2) i = Some ?up" "up_id ?up = i" "bm_buf (up_media ?up) = take (stored_after p m) content"
    using got(1,2) assms(7) by simp_all
  obtain got' where got': "s3 = put_upload (progressed got' (up_complete ?up \<or> (\<exists>m \<in> set ms. wm_finish (snd m))) ?up) s2"
      "bm_buf got' = take (stored (stored_after p m) (map snd ms)) content"
      "ws_upload w3 = Some i" "ws_resumable w3 = ws_resumable w2"
    using write_messages_store [OF step(2) assms(2,3,10) got(3) known stored_after_le(2) [OF piece assms(9)] later]
    by blast
  let ?up' = "progressed got' (up_complete up \<or> wm_finish m \<or> (\<exists>m \<in> set ms. wm_finish (snd m))) up"
  have s3: "s3 = put_upload ?up' s1" using got(1) got'(1) by (simp add: put_upload_twice disj_assoc)
  then have known': "map_of (sv_uploads s3) i = Some ?up'" using assms(7) by simp
  obtain md where md: "annotate_checksums (ws_checksums w3) (up_metadata up) = Inr md" "j = i" "resumable = ws_resumable w3"
      "t = put_upload (?up'\<lparr>up_metadata := md\<rparr>) s3"
    using run(2) got'(3) current_upload_known [OF known'] by (auto simp: bindM_Inr_iff liftE_Inr_iff seqM_def)
  obtain x where "md = (up_metadata up)\<lparr>om_metadata := x\<rparr>"
    using annotate_checksums_Inr [OF md(1)] by blast
  then show ?thesis
    using md(2-4) got got' s3 by (intro exI [of _ got'] exI [of _ x]) (simp add: put_upload_twice)
qed

section \<open>Properties\<close>

lemma no_params_extract: "csek_extract r no_params False (Grpc imd) = ([], [], [])"
  by (simp add: csek_extract_def no_params_def)

lemma init_csek_no_params: "init_csek env r no_params use (Grpc imd) = ret ()"
  by (simp add: init_csek_def no_params_extract)

text \<open>Without parameters, no part of \<open>Object.init\<close> changes the encryption of the metadata.\<close>

definition same_encryption :: "'a makeM \<Rightarrow> bool" where
  "same_encryption m \<longleftrightarrow> (\<forall>s x s'. m s = (Inr x, s') \<longrightarrow>
     om_customer_encryption (mk_meta s') = om_customer_encryption (mk_meta s))"

lemma same_encryption_bindM: "same_encryption m \<Longrightarrow> (\<And>x. same_encryption (f x)) \<Longrightarrow> same_encryption (bindM m f)"
  unfolding same_encryption_def bindM_Inr_iff by metis

lemma same_encryption_basic:
  "same_encryption (ret y)" "same_encryption (getS g)" "same_encryption (liftE r)"
  "same_encryption make_generation"
  "(\<And>md. om_customer_encryption (f md) = om_customer_encryption md) \<Longrightarrow> same_encryption (upd_meta f)"
  by (auto simp: same_encryption_def make_generation_def upd_meta_def)

lemma same_encryption_seqM: "same_encryption m \<Longrightarrow> same_encryption n \<Longrightarrow> same_encryption (seqM m n)"
  by (simp add: seqM_def same_encryption_bindM)

lemma same_encryption_parts:
  "same_encryption (init_contexts now)" "same_encryption (init_retention now)"
  "same_encryption (init_acl env r d c)"
  unfolding same_encryption_def
  by (auto dest!: init_contexts_Inr init_retention_Inr init_acl_Inr arg_cong [of _ _ mk_meta]
      arg_cong [of _ _ om_customer_encryption])

lemma object_init_encryption:
  "same_encryption (object_init env now r no_params initial d (Grpc imd) up use)"
  unfolding object_init_def init_csek_no_params Let_def
  by (auto intro!: same_encryption_bindM same_encryption_seqM same_encryption_basic same_encryption_parts)

lemma insert_written_Inr:
  assumes "insert_written env c up s = (Inr ans, t)" and "up_params up = Some params" and "db_wf (sv_db s)"
    and "map_of (buckets (sv_db s)) (bk_name (up_bucket up)) = Some bk"
    and "extract_instruction (up_request up) c \<noteq> Some ''inject-upload-data-error''"
    and "decisive (up_preconditions up)" and "c = Grpc imd"
  shows "\<exists>blob. ans = Resource (b_metadata blob)
    \<and> get_object (bk_name (up_bucket up)) (om_name (up_metadata up)) c None [] False (sv_db t) = (Inr (Some blob), sv_db t)
    \<and> b_media blob = up_media up \<and> b_generation blob = sv_generation s + 1
    \<and> om_size (b_metadata blob) = length (bm_buf (up_media up))
    \<and> (params = no_params \<longrightarrow>
         om_customer_encryption (b_metadata blob) = om_customer_encryption (up_metadata up))"
proof -
  let ?init = "object_init (objects_of env) (he_now env) (up_request up) params (up_media up) False c None True"
  let ?made = "making_object (keep_upload_metadata (up_id up)) bk (up_metadata up) ?init"
  have bk: "upload_bucket up s = bk" using assms(4) by (simp add: upload_bucket_def)
  have name: "bk_name bk = bk_name (up_bucket up)" using bucket_name_key [OF assms(3,4)] .
  obtain b p s1 where made: "?made s = (Inr (b, p), s1)"
      "seqM (modS (alter_upload (up_id up) (\<lambda>up. up\<lparr>up_made := True\<rparr>)))
     (seqM (on_db (insert_object (bk_name bk) b c (up_preconditions up))) (ret (Resource (b_metadata b)))) s1 = (Inr ans, t)"
    using assms(1,2) unfolding insert_written_def bindM_Inr_iff [of ?made]
    by (auto simp: bk bindM_Inr_iff [of ?made])
  have "map_of (buckets (sv_db s)) (bk_name bk) = Some bk" using assms(4) name by simp
  note m = object_made [OF made(1) this assms(3,5)]
  have alter: "sv_db (alter_upload i f s') = sv_db s'" for i f s'
    by (simp add: alter_upload_def split: option.splits)
  have "sv_db s1 = sv_db s" using m by simp
  then have ins: "insert_object (bk_name bk) b c (up_preconditions up) (sv_db s) = (Inr (), sv_db t)"
      and ans: "ans = Resource (b_metadata b)"
    using made(2) by (auto simp: seqM_Inr_iff on_db_Inr alter)
  have "om_customer_encryption (b_metadata b) = om_customer_encryption (up_metadata up)" if "params = no_params"
  proof -
    obtain u where u: "?init \<lparr>mk_generation = sv_generation s, mk_bucket = bk, mk_meta = up_metadata up\<rparr> = (Inr (b, p), u)"
      using made(1) by (rule making_object_Inr)
    have "b_metadata b = mk_meta u"
      using object_init_Inr [OF u refl] by blast
    then show ?thesis
      using u that assms(7) object_init_encryption unfolding same_encryption_def by fastforce
  qed
  then show ?thesis
    using insert_then_get [OF ins assms(3,6)] m ans name by auto
qed

text \<open>Streams that start a new upload.\<close>

lemma write_first_spec:
  assumes "wm_first m = Write_spec spec" and "write_first env c fresh m w s = (Inr w1, s1)"
  obtains bk where "map_of (buckets (sv_db s)) (bucket_key (om_bucket (wspec_resource spec)) c) = Some bk"
    and "s1 = put_upload (init_first_write_grpc env fresh m spec bk c) s" and "w1 = w\<lparr>ws_upload := Some fresh\<rparr>"
  using assms the_bucket_Inr by (fastforce simp: write_first_def bindM_Inr_iff seqM_def)

lemma first_write_simps [simp]:
  "up_id (init_first_write_grpc env i m spec bk c) = i"
  "bm_buf (up_media (init_first_write_grpc env i m spec bk c)) = []"
  "up_bucket (init_first_write_grpc env i m spec bk c) = bk"
  "up_complete (init_first_write_grpc env i m spec bk c) = False"
  "up_params (init_first_write_grpc env i m spec bk c) = Some no_params"
  "up_preconditions (init_first_write_grpc env i m spec bk c) = make_grpc_preconditions (wspec_conditions spec) ''if_''"
  "om_name (up_metadata (init_first_write_grpc env i m spec bk c)) = om_name (wspec_resource spec)"
  "om_customer_encryption (up_metadata (init_first_write_grpc env i m spec bk c))
     = om_customer_encryption (wspec_resource spec)"
  by (simp_all add: init_first_write_grpc_def grpc_upload_def bytes_media_init_def annotate_metadata_def
      update_protobuf_def spec_fields_def Let_def split: prod.splits)

definition plain_call :: "ctx \<Rightarrow> bool" where
  "plain_call c \<longleftrightarrow> c \<noteq> Rest \<and> get_retry_test_id_from_context c = None
     \<and> extract_instruction no_request c = None"

lemma plain_call_instruction: "plain_call c \<Longrightarrow> extract_instruction r c = None"
  by (auto simp: plain_call_def extract_instruction_def split: ctx.splits)

lemma written_object:
  assumes "WriteObject env c ((fresh, m) # ms) s = (Inr (Resource md), t)" and "db_wf (sv_db s)" and "plain_call c"
    and "wm_first m = Write_spec spec" and "\<forall>m \<in> set ms. wm_first (snd m) = No_first"
    and "pieces_of content 0 (m # map snd ms)"
  shows "\<exists>blob. md = b_metadata blob
    \<and> get_object (om_bucket (wspec_resource spec)) (om_name (wspec_resource spec)) c None [] False (sv_db t)
        = (Inr (Some blob), sv_db t)
    \<and> bm_buf (b_media blob) = take (stored 0 (m # map snd ms)) content
    \<and> om_size (b_metadata blob) = length (bm_buf (b_media blob))
    \<and> b_generation blob = sv_generation s + 1
    \<and> om_customer_encryption md = om_customer_encryption (wspec_resource spec)"
proof -
  obtain imd where c: "c = Grpc imd" using assms(3) by (cases c) (auto simp: plain_call_def)
  have no_id: "get_retry_test_id_from_context c = None" "c \<noteq> Rest" using assms(3) by (simp_all add: plain_call_def)
  let ?w = "\<lparr>ws_upload = None, ws_checksums = None, ws_resumable = False\<rparr>"
  obtain j resumable s3 where run: "init_write_object_grpc env c ((fresh, m) # ms) s = (Inr (j, resumable), s3)"
      "bindM (current_upload j) (\<lambda>up.
      if \<not> up_complete up then
        (if \<not> resumable then raise (missing ''finish_write in request'' c)
         else ret (Persisted_size (length (bm_buf (up_media up)))))
      else insert_written env c up) s3 = (Inr (Resource md), t)"
    using assms(1) unfolding WriteObject_def grpc_retry_test_plain [OF no_id(1)]
      bindM_Inr_iff [of "init_write_object_grpc env c ((fresh, m) # ms)"] by auto
  obtain w1 s1 where first: "write_first env c fresh m ?w s = (Inr w1, s1)"
    using run(1) by (auto simp: init_write_object_grpc_def bindM_Inr_iff write_step_def)
  then obtain bk where bk: "map_of (buckets (sv_db s)) (bucket_key (om_bucket (wspec_resource spec)) c) = Some bk"
    "s1 = put_upload (init_first_write_grpc env fresh m spec bk c) s" "w1 = ?w\<lparr>ws_upload := Some fresh\<rparr>"
    by (rule write_first_spec [OF assms(4)])
  let ?up = "init_first_write_grpc env fresh m spec bk c"
  have known: "map_of (sv_uploads s1) fresh = Some ?up" "up_id ?up = fresh" "bm_buf (up_media ?up) = take 0 content"
      "ws_upload w1 = Some fresh"
    using bk(2,3) by simp_all
  obtain got x complete where j: "j = fresh"
      "s3 = put_upload ((progressed got complete ?up)\<lparr>up_metadata := (up_metadata ?up)\<lparr>om_metadata := x\<rparr>\<rparr>) s1"
      "bm_buf got = take (stored 0 (m # map snd ms)) content"
    using stream_stores [OF run(1) no_id first known(4,1-3) le0 assms(5,6)] by blast
  let ?v = "(progressed got complete ?up)\<lparr>up_metadata := (up_metadata ?up)\<lparr>om_metadata := x\<rparr>\<rparr>"
  have "map_of (sv_uploads s3) j = Some ?v" using j(1,2) by simp
  from current_upload_known [OF this] have ins: "insert_written env c ?v s3 = (Inr (Resource md), t)"
    using run(2) by (auto simp: bindM_Inr_iff split: if_splits)
  have db: "sv_db s3 = sv_db s" "sv_generation s3 = sv_generation s" using j(2) bk(2) by simp_all
  have name: "bk_name bk = om_bucket (wspec_resource spec)"
    using bucket_name_key [OF assms(2) bk(1)] c by (simp add: bucket_key_def)
  have "map_of (buckets (sv_db s3)) (bk_name (up_bucket ?v)) = Some bk"
    using bk(1) db name c by (simp add: bucket_key_def)
  from insert_written_Inr [OF ins _ _ this _ _ c, of no_params] show ?thesis
    using db assms(2) j(3) name plain_call_instruction [OF assms(3)] by (auto simp: decisive_grpc)
qed

definition without_checksums :: "obj_meta \<Rightarrow> obj_meta" where
  "without_checksums md = annotate_md5 [] (annotate_metadata ''x_emulator_no_crc32c'' ''true'' md)"

lemma stream_succeeds:
  assumes "plain_call c" and "accepted env m"
    and "write_first env c fresh m \<lparr>ws_upload = None, ws_checksums = None, ws_resumable = False\<rparr> s = (Inr w1, s1)"
    and "ws_upload w1 = Some i" and "ws_checksums w1 = None"
    and "map_of (sv_uploads s1) i = Some up" and "up_id up = i"
    and "bm_buf (up_media up) = take p content" and "p \<le> length content"
    and "\<forall>m \<in> set ms. wm_first (snd m) = No_first \<and> accepted env (snd m)"
    and "pieces_of content p (m # map snd ms)"
  shows "\<exists>got. init_write_object_grpc env c ((fresh, m) # ms) s = (Inr (i, ws_resumable w1),
      put_upload ((progressed got (up_complete up \<or> wm_finish m \<or> (\<exists>m \<in> set ms. wm_finish (snd m))) up)
            \<lparr>up_metadata := without_checksums (up_metadata up)\<rparr>) s1)
    \<and> bm_buf got = take (stored p (m # map snd ms)) content"
proof -
  have no_id: "get_retry_test_id_from_context c = None" "c \<noteq> Rest" using assms(1) by (simp_all add: plain_call_def)
  have piece: "piece_of content p m" and later: "pieces_of content (stored_after p m) (map snd ms)"
    using assms(11) by simp_all
  have len: "length (bm_buf (up_media up)) = p" using assms(8,9) by simp
  obtain s2 where step: "write_step env c (fresh, m) \<lparr>ws_upload = None, ws_checksums = None, ws_resumable = False\<rparr> s
      = (Inr w1, s2)"
    using write_step_succeeds [OF assms(2) piece no_id assms(3,4,6) len] by blast
  then obtain got where got: "s2 = put_upload (progressed got (up_complete up \<or> wm_finish m) up) s1"
      "bm_buf got = take (stored_after p m) content"
    using write_step_stores [OF step no_id assms(3,4,6,7,8,9) piece] by blast
  let ?up = "progressed got (up_complete up \<or> wm_finish m) up"
  have known: "map_of (sv_uploads s2) i = Some ?up" "up_id ?up = i" "bm_buf (up_media ?up) = take (stored_after p m) content"
    using got(1,2) assms(7) by simp_all
  note le = stored_after_le(2) [OF piece assms(9)]
  obtain s3 where others: "write_messages env c ms w1 s2 = (Inr w1, s3)"
    using write_messages_succeed [OF no_id assms(10,4) known le later] by blast
  have no_first: "\<forall>m \<in> set ms. wm_first (snd m) = No_first" using assms(10) by simp
  obtain got' where got': "s3 = put_upload (progressed got' (up_complete ?up \<or> (\<exists>m \<in> set ms. wm_finish (snd m))) ?up) s2"
      "bm_buf got' = take (stored (stored_after p m) (map snd ms)) content"
    using write_messages_store [OF others no_id no_first assms(4) known le later] by blast
  let ?v = "progressed got' (up_complete up \<or> wm_finish m \<or> (\<exists>m \<in> set ms. wm_finish (snd m))) up"
  have s3: "s3 = put_upload ?v s1" using got(1) got'(1) by (simp add: put_upload_twice disj_assoc)
  then have "current_upload i s3 = (Inr ?v, s3)" using assms(7) by (simp add: current_upload_known)
  then have "init_write_object_grpc env c ((fresh, m) # ms) s = (Inr (i, ws_resumable w1),
      put_upload (?v\<lparr>up_metadata := without_checksums (up_metadata up)\<rparr>) s3)"
    using step others assms(4,5)
    by (simp add: init_write_object_grpc_def bindM_def seqM_def annotate_checksums_def without_checksums_def)
  then show ?thesis
    using s3 got'(2) by (intro exI [of _ got']) (simp add: put_upload_twice)
qed


text \<open>A stream that writes a new object, in pieces that may overlap and that reach the end of the
  content: the object that can be read afterwards under its name has exactly the content and its size,
  with the next generation, and is the resource of the answer.\<close>

theorem written_stream_is_read:
  assumes "WriteObject env c ((fresh, m) # ms) s = (Inr (Resource md), t)" and "db_wf (sv_db s)" and "plain_call c"
    and "wm_first m = Write_spec spec" and "\<forall>m \<in> set ms. wm_first (snd m) = No_first"
    and "pieces_of content 0 (m # map snd ms)" and "stored 0 (m # map snd ms) = length content"
  shows "\<exists>blob. get_object (om_bucket (wspec_resource spec)) (om_name (wspec_resource spec)) c None [] False (sv_db t)
        = (Inr (Some blob), sv_db t)
    \<and> b_metadata blob = md \<and> bm_buf (b_media blob) = content \<and> om_size md = length content
    \<and> om_generation md = sv_generation s + 1"
  using written_object [OF assms(1-6)] assms(7) by (auto simp: b_generation_def)

text \<open>The customer key of a request to write is lost: whatever key the messages carry, the object
  that is stored has the encryption of the resource, so it can be read without the key.\<close>

theorem write_drops_customer_key:
  assumes "WriteObject env c ((fresh, m) # ms) s = (Inr (Resource md), t)" and "db_wf (sv_db s)" and "plain_call c"
    and "wm_first m = Write_spec spec" and "\<forall>m \<in> set ms. wm_first (snd m) = No_first"
    and "pieces_of content 0 (m # map snd ms)" and "om_customer_encryption (wspec_resource spec) = None"
  shows "om_customer_encryption md = None"
  using written_object [OF assms(1-6)] assms(7) by auto

section \<open>Witnesses\<close>

definition sample_key :: csek_params where
  "sample_key = no_params\<lparr>encryption_algorithm := ''AES256'', encryption_key_bytes := replicate 32 7\<rparr>"

definition sample_write :: "first_message \<Rightarrow> int \<Rightarrow> bytes \<Rightarrow> bool \<Rightarrow> write_message" where
  "sample_write start off data finish = \<lparr>wm_first = start, wm_write_offset = off, wm_data = Some (data, None),
     wm_checksums = None, wm_finish = finish, wm_params = sample_key\<rparr>"

definition sample_spec :: write_spec where
  "sample_spec = \<lparr>wspec_resource = new_obj_meta\<lparr>om_name := ''q'', om_bucket := bucket_key ''b'' Rest,
     om_acl := [sample_entry]\<rparr>, wspec_predefined_acl = [], wspec_conditions = []\<rparr>"

abbreviation sample_stream :: "(string \<times> write_message) list" where
  "sample_stream \<equiv> [(''w'', sample_write (Write_spec sample_spec) 0 [1, 2] False),
     (''x'', sample_write No_first 1 [2, 3] True)]"

lemma sample_write_simps:
  "wm_first (sample_write st off data fin) = st" "wm_finish (sample_write st off data fin) = fin"
  "accepted env (sample_write st off data fin)" "plain_call (Grpc [])"
  "piece_of content p (sample_write st off data fin)
     \<longleftrightarrow> 0 \<le> off \<and> off \<le> int p \<and> data = take (length data) (drop (nat off) content)"
  "stored_after p (sample_write st off data fin) = max p (nat off + length data)"
  by (simp_all add: sample_write_def accepted_def plain_call_def get_retry_test_id_from_context_def
      invocation_metadata_value_def extract_instruction_def piece_of_def stored_after_def)

lemma sample_written:
  "\<exists>md t. WriteObject sample_handler_env (Grpc []) sample_stream sample_service = (Inr (Resource md), t)"
proof -
  let ?bk = "sample_bucket\<lparr>bk_ubla := False\<rparr>" and ?c = "Grpc []" and ?s = sample_service
  let ?m = "sample_write (Write_spec sample_spec) 0 [1, 2] False" and ?n = "sample_write No_first 1 [2, 3] True"
  let ?up = "init_first_write_grpc sample_handler_env ''w'' ?m sample_spec ?bk ?c"
  let ?w = "\<lparr>ws_upload = None, ws_checksums = None, ws_resumable = False\<rparr>"
  have c: "contents (sv_db ?s) (bucket_key ''b'' Rest) = Some (?bk, [(object_key ''o'' 7, sample_source)], [(''o'', 7)], [])"
    by (simp add: sample_service_def sample_service_contents)
  note found = contents_SomeD [OF c]
  have bucket: "the_bucket (om_bucket (wspec_resource sample_spec)) ?c ?s = (Inr ?bk, ?s)"
    using found by (simp add: the_bucket_def get_bucket_def bindM_def on_db_def sample_spec_def bucket_key_def)
  have first: "write_first sample_handler_env ?c ''w'' ?m ?w ?s = (Inr (?w\<lparr>ws_upload := Some ''w''\<rparr>), put_upload ?up ?s)"
    using bucket by (simp add: write_first_def sample_write_simps bindM_def)
  have "\<forall>m \<in> set [(''x'', ?n)]. wm_first (snd m) = No_first \<and> accepted sample_handler_env (snd m)"
    "pieces_of [1, 2, 3] 0 (?m # map snd [(''x'', ?n)])"
    by (simp_all add: sample_write_simps)
  with stream_succeeds [OF sample_write_simps(4,3) first, of "''w''" ?up 0 "[1, 2, 3]" "[(''x'', ?n)]"]
  obtain got where got: "init_write_object_grpc sample_handler_env ?c sample_stream ?s = (Inr (''w'', False),
      put_upload ((progressed got True ?up)\<lparr>up_metadata := without_checksums (up_metadata ?up)\<rparr>) ?s)"
    by (auto simp: sample_write_simps put_upload_twice)
  let ?v = "(progressed got True ?up)\<lparr>up_metadata := without_checksums (up_metadata ?up)\<rparr>"
  let ?t = "put_upload ?v ?s"
  have bk: "upload_bucket ?v ?t = ?bk" by (simp add: upload_bucket_def sample_service_def sample_bucket_key)
      (use found in \<open>simp add: sample_service_def sample_bucket_key sample_bucket_def\<close>)
  have up: "up_request ?v = \<lparr>args = [(''predefinedAcl'', [])], headers = headers (up_request ?v), environ = [], verb = []\<rparr>"
    "up_preconditions ?v = []" "up_params ?v = Some no_params" "up_id ?v = ''w''"
    by (simp_all add: init_first_write_grpc_def grpc_upload_def sample_spec_def make_grpc_preconditions_def select_def
        update_protobuf_def spec_fields_def message_fields_def protobuf_args_def init_protobuf_def dict_update_def
        protobuf_wrapper_to_json_args_def no_request_def Let_def split: prod.splits)
  have md: "om_acl (up_metadata ?v) = [sample_entry]" "om_name (up_metadata ?v) = ''q''"
      "om_checksums (up_metadata ?v) = None" "om_contexts (up_metadata ?v) = None"
      "given_text (up_metadata ?v) ''x_emulator_crc32c'' = None" "given_text (up_metadata ?v) ''x_emulator_md5'' = None"
    by (simp_all add: without_checksums_def init_first_write_grpc_def grpc_upload_def sample_spec_def annotate_metadata_def
        annotate_md5_def new_obj_meta_def given_text_def)
  obtain b p u where "object_init sample_objects 7 (up_request ?v) no_params (up_media ?v) False ?c None True
      \<lparr>mk_generation = sv_generation ?t, mk_bucket = ?bk, mk_meta = up_metadata ?v\<rparr> = (Inr (b, p), u)"
    using md by (simp add: object_init_def Let_def extract_instruction_def seqM_def
      bindM_def check_checksums_def given_text_def init_contexts_def upd_meta_def
      init_retention_def sample_bucket_def get_object_entity_def init_csek_no_params
      sample_objects_def sample_env_def init_acl_def)
  then obtain t where t: "making_object (keep_upload_metadata (up_id ?v)) ?bk (up_metadata ?v)
      (object_init sample_objects 7 (up_request ?v) no_params (up_media ?v) False ?c None True) ?t = (Inr (b, p), t)"
    by (simp add: making_object_def)
  have "map_of (buckets (sv_db ?t)) (bk_name ?bk) = Some ?bk"
    using found by (simp add: sample_bucket_key sample_bucket_def)
  then have db: "sv_db t = sv_db ?s"
    using object_made [OF t] sample_service_wf by (simp add: sample_service_def extract_instruction_def)
  have "insert_object (bk_name ?bk) b ?c [] (sv_db t)
      = (Inr (), after_insert (bucket_key ''b'' Rest) b (sv_db t))"
    using insert_object_result [of "sv_db t" "bucket_key ''b'' Rest" ?c _ _ _ _ b "[]"] c db
    by (simp add: bucket_key_def bucket_name_to_proto_def bucket_prefix_def sample_bucket_def)
  moreover have "sv_db (alter_upload i f t) = sv_db t" for i f
    by (simp add: alter_upload_def split: option.splits)
  ultimately have "\<exists>t'. insert_written sample_handler_env ?c ?v ?t = (Inr (Resource (b_metadata b)), t')"
    using t bk up by (simp add: insert_written_def bindM_def seqM_def on_db_def)
  moreover have "current_upload ''w'' ?t = (Inr ?v, ?t)" by (simp add: current_upload_known)
  moreover have "up_complete ?v" by simp
  ultimately show ?thesis
    using got by (auto simp: WriteObject_def grpc_retry_test_plain bindM_def
      sample_write_simps(4) [unfolded plain_call_def])
qed

lemma sample_stream_pieces:
  "wm_first (sample_write (Write_spec sample_spec) 0 [1, 2] False) = Write_spec sample_spec"
  "\<forall>m \<in> set [(''x'', sample_write No_first 1 [2, 3] True)]. wm_first (snd m) = No_first"
  "pieces_of [1, 2, 3] 0 (sample_write (Write_spec sample_spec) 0 [1, 2] False
     # map snd [(''x'', sample_write No_first 1 [2, 3] True)])"
  "stored 0 (sample_write (Write_spec sample_spec) 0 [1, 2] False
     # map snd [(''x'', sample_write No_first 1 [2, 3] True)]) = length [1, 2, 3 :: nat]"
  "db_wf (sv_db sample_service)"
  by (simp_all add: sample_write_simps sample_service_def sample_service_wf)

theorem written_stream_is_read_witness:
  "\<exists>md t blob. WriteObject sample_handler_env (Grpc []) sample_stream sample_service = (Inr (Resource md), t)
    \<and> get_object (om_bucket (wspec_resource sample_spec)) (om_name (wspec_resource sample_spec)) (Grpc []) None []
        False (sv_db t) = (Inr (Some blob), sv_db t)
    \<and> bm_buf (b_media blob) = [1, 2, 3]"
proof -
  obtain md t where t: "WriteObject sample_handler_env (Grpc []) sample_stream sample_service = (Inr (Resource md), t)"
    using sample_written by blast
  from written_stream_is_read [OF t sample_stream_pieces(5) sample_write_simps(4) sample_stream_pieces(1-4)] t
  show ?thesis by blast
qed

theorem write_drops_customer_key_witness:
  "\<exists>md t. WriteObject sample_handler_env (Grpc []) sample_stream sample_service = (Inr (Resource md), t)
    \<and> om_customer_encryption md = None
    \<and> (\<forall>(i, m) \<in> set sample_stream. encryption_algorithm (wm_params m) = ''AES256'')"
proof -
  obtain md t where t: "WriteObject sample_handler_env (Grpc []) sample_stream sample_service = (Inr (Resource md), t)"
    using sample_written by blast
  have "om_customer_encryption (wspec_resource sample_spec) = None"
    by (simp add: sample_spec_def new_obj_meta_def)
  from write_drops_customer_key [OF t sample_stream_pieces(5) sample_write_simps(4) sample_stream_pieces(1-3) this] t
  show ?thesis by (auto simp: sample_write_def sample_key_def)
qed


end
