(* ===== verification/Grpc_Reads.thy ===== *)
theory Grpc_Reads
  imports Grpc_Uploads
begin

text \<open>
  Reading objects over gRPC: \<open>GetObject\<close>, \<open>ReadObject\<close> and \<open>BidiReadObject\<close> of
  \<open>src/testbench/grpc_server.py\<close>.  A stream of responses is a list; how the stream ends is part of
  the result, because the responses before an error have reached the client.
\<close>

section \<open>Requests\<close>

text \<open>The fields that the requests for one object share.\<close>

record object_request =
  or_bucket :: string
  or_object :: string
  or_generation :: int
  or_conditions :: "(string \<times> int) list"

definition grpc_conditions :: "object_request \<Rightarrow> precondition list" where
  "grpc_conditions rq = make_grpc_preconditions (or_conditions rq) ''if_''"

definition grpc_object :: "ctx \<Rightarrow> object_request \<Rightarrow> bool \<Rightarrow> blob serviceM" where
  "grpc_object c rq soft =
     bindM (on_db (get_object (or_bucket rq) (or_object rq) c (generation_of_field (or_generation rq))
       (grpc_conditions rq) soft)) require"

definition GetObject :: "ctx \<Rightarrow> object_request \<Rightarrow> bool \<Rightarrow> obj_meta serviceM" where
  "GetObject c rq soft = grpc_retry_test c ''storage.objects.get''
     (bindM (grpc_object c rq soft) (\<lambda>blob. ret (b_metadata blob)))"

section \<open>Faults\<close>

text \<open>After how many bytes the stream breaks; 0 is never.\<close>

definition broken_stream_after :: "ctx \<Rightarrow> nat serviceM" where
  "broken_stream_after c = (case get_retry_test_id_from_context c of
     None \<Rightarrow> ret 0
   | Some test_id \<Rightarrow>
     if test_id = [] then ret 0 else
     bindM (on_tests (has_instructions_retry_test test_id ''storage.objects.get'' ''GRPC'')) (\<lambda>has.
     if \<not> has then ret 0 else
     bindM (on_tests (peek_next_instruction test_id ''storage.objects.get'')) (\<lambda>next. case next of
       None \<Rightarrow> raise (Exc TypeError)
     | Some instruction \<Rightarrow> ret (get_broken_stream_after_bytes instruction))))"

definition broken_stream_error :: err where
  "broken_stream_error = Grpc_abort (Some UNAVAILABLE)
     (Text (''Injected '' @ [CHR 0x27] @ ''broken stream'' @ [CHR 0x27] @ '' fault''))"

text \<open>The end of a broken stream takes the instruction from its queue.\<close>

definition break_stream :: "ctx \<Rightarrow> err serviceM" where
  "break_stream c = (case get_retry_test_id_from_context c of
     None \<Rightarrow> ret broken_stream_error
   | Some test_id \<Rightarrow>
       seqM (on_tests (dequeue_next_instruction test_id ''storage.objects.get'')) (ret broken_stream_error))"

section \<open>ReadObject\<close>

record read_response =
  rs_content :: bytes
  rs_crc32c :: nat
  rs_metadata :: "obj_meta option"
  rs_content_range :: "(int \<times> int \<times> nat) option"

definition read_response_of ::
    "handler_env \<Rightarrow> bytes \<Rightarrow> obj_meta option \<Rightarrow> (int \<times> int \<times> nat) option \<Rightarrow> read_response" where
  "read_response_of env chunk md rng =
     \<lparr>rs_content = chunk, rs_crc32c = oe_crc32c env chunk 0, rs_metadata = md, rs_content_range = rng\<rparr>"

text \<open>The loop over the chunks: the responses, and whether the stream is broken.\<close>

fun read_chunks ::
    "handler_env \<Rightarrow> bytes_media \<Rightarrow> nat \<Rightarrow> nat \<Rightarrow> obj_meta option \<Rightarrow> (int \<times> int \<times> nat) option \<Rightarrow> bytes list
       \<Rightarrow> read_response list \<times> bool" where
  "read_chunks env m broken pos md rng [] = ([], False)"
| "read_chunks env m broken pos md rng (chunk # chunks) =
     (let end = pos + length chunk in
      if broken \<noteq> 0 \<and> broken \<le> end
      then ([read_response_of env (bm_slice m (int pos) (int broken)) md rng], True)
      else let (responses, cut_off) = read_chunks env m broken end None None chunks
           in (read_response_of env chunk md rng # responses, cut_off))"

text \<open>A range whose length is a multiple of the chunk size ends with an empty response, which is the
  only one of an empty range.\<close>

definition read_responses ::
    "handler_env \<Rightarrow> bytes_media \<Rightarrow> nat \<Rightarrow> nat \<Rightarrow> nat \<Rightarrow> obj_meta \<Rightarrow> (int \<times> int \<times> nat) option
       \<Rightarrow> read_response list \<times> bool" where
  "read_responses env m broken start read_end meta content_range =
     (let chunks = bm_chunks m start read_end (he_chunk env);
          (responses, cut_off) = read_chunks env m broken start (Some meta) content_range chunks;
          md = (if chunks = [] then Some meta else None);
          rng = (if chunks = [] then content_range else None)
      in if cut_off then (responses, True)
         else if (read_end - start) mod he_chunk env = 0 then
           (if broken \<noteq> 0 \<and> broken \<le> read_end
            then (responses @ [read_response_of env (bm_slice m (int read_end) (int broken)) md rng], True)
            else (responses @ [read_response_of env [] md rng], False))
         else (responses, False))"

text \<open>The start, the end and the content range of a request.\<close>

definition read_bounds :: "int \<Rightarrow> int \<Rightarrow> nat \<Rightarrow> (int \<times> int \<times> (int \<times> int \<times> nat) option) option" where
  "read_bounds read_offset read_limit len =
     (let start = (if read_offset < 0 then max 0 (int len + read_offset) else read_offset);
          read_end = (if 0 < read_limit then min (int len) (start + read_limit) else int len)
      in if int len < start then None
         else Some (start, read_end,
           if 0 < read_offset \<or> 0 < read_limit then Some (start, read_end, len) else None))"

definition ReadObject ::
    "handler_env \<Rightarrow> ctx \<Rightarrow> object_request \<Rightarrow> int \<Rightarrow> int \<Rightarrow> (read_response list \<times> err option) serviceM" where
  "ReadObject env c rq read_offset read_limit = grpc_retry_test c ''storage.objects.get''
     (bindM (grpc_object c rq False) (\<lambda>blob.
      case read_bounds read_offset read_limit (length (bm_buf (b_media blob))) of
        None \<Rightarrow> raise (range_not_satisfiable c)
      | Some (start, read_end, content_range) \<Rightarrow>
        bindM (broken_stream_after c) (\<lambda>broken.
        let (responses, cut_off) = read_responses env (b_media blob) broken (nat start) (nat read_end)
              (b_metadata blob) content_range
        in if cut_off then bindM (break_stream c) (\<lambda>e. ret (responses, Some e))
           else ret (responses, None))))"

section \<open>BidiReadObject\<close>

record read_range =
  rd_offset :: int
  rd_length :: int
  rd_id :: int

text \<open>What a range yields: the bytes, whether they end the range, and the range that they are.\<close>

type_synonym range_piece = "bytes \<times> bool \<times> read_range"

fun range_chunks :: "int \<Rightarrow> int \<Rightarrow> int \<Rightarrow> bytes list \<Rightarrow> range_piece list" where
  "range_chunks read_id read_end pos [] =
     [([], True, \<lparr>rd_offset = read_end, rd_length = 0, rd_id = read_id\<rparr>)]"
| "range_chunks read_id read_end pos (chunk # chunks) =
     (let end = pos + int (length chunk) in
      (chunk, end = read_end, \<lparr>rd_offset = pos, rd_length = end - pos, rd_id = read_id\<rparr>)
      # range_chunks read_id read_end end chunks)"

text \<open>\<open>None\<close> is the error that the range is not in the object.\<close>

definition process_read_range :: "handler_env \<Rightarrow> bytes_media \<Rightarrow> read_range \<Rightarrow> range_piece list option" where
  "process_read_range env m rng =
     (let len = int (length (bm_buf m));
          start = (if rd_offset rng < 0 then max 0 (len + rd_offset rng) else rd_offset rng)
      in if len < start \<or> rd_length rng < 0 then None
         else let read_end = (if 0 < rd_length rng then min len (start + rd_length rng) else len)
              in Some (range_chunks (rd_id rng) read_end start
                   (bm_chunks m (nat start) (nat read_end) (he_chunk env))))"

text \<open>One response of each range at a time, as \<open>itertools.zip_longest\<close> orders them.\<close>

function round_robin :: "'a list list \<Rightarrow> 'a list" where
  "round_robin iters =
     (let left = filter (\<lambda>xs. xs \<noteq> []) iters
      in if left = [] then [] else map hd left @ round_robin (map tl left))"
  by pat_completeness auto
termination
proof (relation "measure (\<lambda>xss. sum_list (map length xss))")
  have less: "sum_list (map length (map tl xss)) < sum_list (map length xss)"
    if "xss \<noteq> []" "\<forall>xs \<in> set xss. xs \<noteq> []" for xss :: "'a list list"
    using that by (induction xss rule: list_nonempty_induct) (auto intro!: add_less_le_mono add_less_mono)
  have le: "sum_list (map length (filter P xss)) \<le> sum_list (map length xss)" for P and xss :: "'a list list"
    by (induction xss) auto
  fix iters left :: "'a list list"
  assume left: "left = filter (\<lambda>xs. xs \<noteq> []) iters" "left \<noteq> []"
  then have "sum_list (map length (map tl left)) < sum_list (map length left)" by (intro less) auto
  also have "\<dots> \<le> sum_list (map length iters)" unfolding left(1) by (rule le)
  finally show "(map tl left, iters) \<in> measure (\<lambda>xss. sum_list (map length xss))" by simp
qed simp

declare round_robin.simps [simp del]

text \<open>The first response of every range of a batch is asked for before any response is sent: a range
  that is not in the object stops the whole batch.\<close>

definition range_batch :: "handler_env \<Rightarrow> bytes_media \<Rightarrow> read_range list \<Rightarrow> int + range_piece list" where
  "range_batch env m rngs =
     (case List.find (\<lambda>rng. process_read_range env m rng = None) rngs of
        Some rng \<Rightarrow> Inl (rd_id rng)
      | None \<Rightarrow> Inr (round_robin (map (the \<circ> process_read_range env m) rngs)))"

text \<open>The pieces of all batches, up to the range error, if there is one.\<close>

fun read_results :: "handler_env \<Rightarrow> bytes_media \<Rightarrow> read_range list list \<Rightarrow> range_piece list \<times> int option" where
  "read_results env m [] = ([], None)"
| "read_results env m (batch # batches) = (case range_batch env m batch of
     Inl read_id \<Rightarrow> ([], Some read_id)
   | Inr pieces \<Rightarrow> (let (others, e) = read_results env m batches in (pieces @ others, e)))"

text \<open>The sizes that still may be sent; a piece that is too long is cut.\<close>

fun send_pieces :: "nat \<Rightarrow> int \<Rightarrow> range_piece list \<Rightarrow> range_piece list \<times> bool" where
  "send_pieces broken returnable [] = ([], False)"
| "send_pieces broken returnable ((chunk, range_end, rng) # pieces) =
     (let count = int (length chunk); excess = count - returnable;
          piece = (if 0 < excess
            then (py_slice chunk 0 returnable, False, rng\<lparr>rd_length := rd_length rng - excess\<rparr>)
            else (chunk, range_end, rng));
          returnable = returnable - count
      in if 0 < broken \<and> returnable \<le> 0 then ([piece], True)
         else let (sent_pieces, cut_off) = send_pieces broken returnable pieces in (piece # sent_pieces, cut_off))"

text \<open>\<open>BidiReadObjectResponse\<close>: the first one carries the metadata and the handle.\<close>

record bidi_read_response =
  br_data :: "(range_piece \<times> nat) option"
  br_metadata :: "obj_meta option"
  br_handle :: string

definition bidi_data :: "handler_env \<Rightarrow> range_piece \<Rightarrow> bidi_read_response" where
  "bidi_data env piece = \<lparr>br_data = Some (piece, oe_crc32c env (fst piece) 0), br_metadata = None, br_handle = []\<rparr>"

fun first_response :: "obj_meta \<Rightarrow> bidi_read_response list \<Rightarrow> bidi_read_response list" where
  "first_response meta [] = []"
| "first_response meta (r # rs) = r\<lparr>br_metadata := Some meta, br_handle := ''an-opaque-handle''\<rparr> # rs"

text \<open>The details of a status: \<open>BidiReadObjectRedirectedError\<close> with its routing token,
  \<open>BidiReadObjectError\<close> with the identifier of the range and the status of the error, or
  \<open>BidiWriteObjectRedirectedError\<close> with its handle, generation and routing token.\<close>

datatype status_detail = Redirected_error string
  | Read_range_errors "(int \<times> nat \<times> string) list"
  | Write_redirected_error "string option" "int option" string

record status_proto =
  sp_code :: nat
  sp_message :: string
  sp_details :: "status_detail list"

definition to_read_range_error_proto :: "int \<Rightarrow> nat \<times> string \<Rightarrow> int \<times> nat \<times> string" where
  "to_read_range_error_proto read_id status_code = (read_id, status_code)"

definition pack_bidiread_error_details :: "int \<Rightarrow> nat \<times> string \<Rightarrow> status_proto" where
  "pack_bidiread_error_details read_id status_code =
     \<lparr>sp_code = fst status_code, sp_message = snd status_code,
      sp_details = [Read_range_errors [to_read_range_error_proto read_id status_code]]\<rparr>"

definition out_of_range_status :: "nat \<times> string" where
  "out_of_range_status = (11, ''out of range'')"

definition aborted_status :: "nat \<times> string" where
  "aborted_status = (10, ''aborted'')"

datatype stream_end = Completed | Aborted_with status_proto | Failed err

definition read_redirect :: "string \<Rightarrow> status_proto" where
  "read_redirect token = \<lparr>sp_code = fst aborted_status, sp_message = snd aborted_status,
     sp_details = [Redirected_error token]\<rparr>"

text \<open>The stream is cancelled after ten seconds, which is not modelled.\<close>

definition serve_ranges ::
    "handler_env \<Rightarrow> ctx \<Rightarrow> blob \<Rightarrow> nat \<Rightarrow> read_range list list \<Rightarrow> (bidi_read_response list \<times> stream_end) serviceM"
  where
  "serve_ranges env c blob broken batches =
     (let (pieces, range_error) = read_results env (b_media blob) batches;
          (sent_pieces, cut_off) =
            send_pieces broken (if broken \<noteq> 0 then int broken else 9223372036854775807) pieces;
          empty_response = (case batches of
            [] # _ \<Rightarrow> [\<lparr>br_data = None, br_metadata = None, br_handle = []\<rparr>] | _ \<Rightarrow> []);
          responses = first_response (b_metadata blob) (empty_response @ map (bidi_data env) sent_pieces)
      in if cut_off then bindM (break_stream c) (\<lambda>e. ret (responses, Failed e))
         else ret (responses, case range_error of
            None \<Rightarrow> Completed
          | Some read_id \<Rightarrow> Aborted_with (pack_bidiread_error_details read_id out_of_range_status)))"

definition BidiReadObject ::
    "handler_env \<Rightarrow> ctx \<Rightarrow> object_request \<Rightarrow> read_range list list \<Rightarrow> (bidi_read_response list \<times> stream_end) serviceM"
  where
  "BidiReadObject env c obj_spec batches = grpc_retry_test c ''storage.objects.get''
     (if batches = [] then ret ([], Completed)
      else bindM (grpc_object c obj_spec False) (\<lambda>blob.
           bindM (broken_stream_after c) (\<lambda>broken.
           bindM (on_tests (get_return_read_handle_and_redirect_token c)) (\<lambda>return_redirect_token.
           case return_redirect_token of
             Some (t # ts) \<Rightarrow> ret ([], Aborted_with (read_redirect (t # ts)))
           | _ \<Rightarrow> serve_ranges env c blob broken batches))))"

section \<open>What ReadObject delivers\<close>

text \<open>For the inductions below, the responses as one recursion over the offsets, with one round for
  every offset up to the end of the range, the end included; \<open>read_tail_loop\<close> shows that it gives the
  responses of the code.\<close>

function responses_from ::
    "handler_env \<Rightarrow> bytes_media \<Rightarrow> nat \<Rightarrow> nat \<Rightarrow> nat \<Rightarrow> obj_meta option \<Rightarrow> (int \<times> int \<times> nat) option
       \<Rightarrow> read_response list \<times> bool" where
  "responses_from env m broken read_end pos md rng =
     (if read_end < pos \<or> he_chunk env = 0 then ([], False)
      else let end = min (pos + he_chunk env) read_end
           in if broken \<noteq> 0 \<and> broken \<le> end
              then ([read_response_of env (bm_slice m (int pos) (int broken)) md rng], True)
              else let (responses, cut_off) = responses_from env m broken read_end (pos + he_chunk env) None None
                   in (read_response_of env (bm_slice m (int pos) (int end)) md rng # responses, cut_off))"
  by pat_completeness auto
termination
  by (relation "measure (\<lambda>(env, m, broken, read_end, pos, md, rng). Suc read_end - pos)") auto

declare responses_from.simps [simp del]

lemma chunks_step:
  assumes "pos < e" and "0 < n" and "e \<le> length (bm_buf m)"
  shows "bm_chunks m pos e n = bm_slice m (int pos) (int (min (pos + n) e)) # bm_chunks m (min (pos + n) e) e n"
    and "length (bm_slice m (int pos) (int (min (pos + n) e))) = min (pos + n) e - pos"
  using assms by (simp_all add: bm_chunks_def bm_slice_def chunk_loop.simps [of _ pos] Let_def py_slice_nonneg)

lemma chunks_none: "e \<le> pos \<Longrightarrow> bm_chunks m pos e n = []"
  by (simp add: bm_chunks_def chunk_loop.simps)

definition read_tail ::
    "handler_env \<Rightarrow> bytes_media \<Rightarrow> nat \<Rightarrow> nat \<Rightarrow> nat \<Rightarrow> obj_meta option \<Rightarrow> (int \<times> int \<times> nat) option
       \<Rightarrow> read_response list \<times> bool" where
  "read_tail env m broken pos read_end md rng =
     (let chunks = bm_chunks m pos read_end (he_chunk env);
          (responses, cut_off) = read_chunks env m broken pos md rng chunks;
          md = (if chunks = [] then md else None); rng = (if chunks = [] then rng else None)
      in if cut_off then (responses, True)
         else if (read_end - pos) mod he_chunk env = 0 then
           (if broken \<noteq> 0 \<and> broken \<le> read_end
            then (responses @ [read_response_of env (bm_slice m (int read_end) (int broken)) md rng], True)
            else (responses @ [read_response_of env [] md rng], False))
         else (responses, False))"

lemma read_responses_tail: "read_responses env m broken start read_end meta rng = read_tail env m broken start read_end (Some meta) rng"
  by (simp add: read_responses_def read_tail_def Let_def)

lemma read_tail_empty:
  "read_tail env m broken e e md rng =
     (if broken \<noteq> 0 \<and> broken \<le> e then ([read_response_of env (bm_slice m (int e) (int broken)) md rng], True)
      else ([read_response_of env [] md rng], False))"
  by (simp add: read_tail_def chunks_none)

lemma read_tail_step:
  assumes "pos < e" and "0 < he_chunk env" and "e \<le> length (bm_buf m)" and "stop = min (pos + he_chunk env) e"
  shows "read_tail env m broken pos e md rng =
     (if broken \<noteq> 0 \<and> broken \<le> stop
      then ([read_response_of env (bm_slice m (int pos) (int broken)) md rng], True)
      else let (responses, cut_off) =
             (if stop = e \<and> (e - pos) mod he_chunk env \<noteq> 0 then ([], False)
              else read_tail env m broken stop e None None)
           in (read_response_of env (bm_slice m (int pos) (int stop)) md rng # responses, cut_off))"
proof -
  let ?n = "he_chunk env"
  note c = chunks_step [OF assms(1-3), folded assms(4)]
  have stop: "pos + (stop - pos) = stop" using assms(1,4) by simp
  show ?thesis
  proof (cases "stop = e")
    case True
    then have "e - pos \<le> ?n" using assms(1,4) by (simp add: min_def split: if_splits)
    then have "(e - pos) mod ?n = 0 \<longleftrightarrow> e - pos = ?n" using assms(1,2) by (auto simp: le_less)
    then show ?thesis
      using c True stop assms(2) by (auto simp: read_tail_def chunks_none Let_def)
  next
    case False
    then have s: "stop = pos + ?n" "pos + ?n < e" using assms(4) by (auto simp: min_def split: if_splits)
    then have "e - pos = (e - stop) + ?n" by simp
    then have mod: "(e - pos) mod ?n = (e - stop) mod ?n" by simp
    have "bm_chunks m stop e ?n \<noteq> []" using chunks_step(1) [of stop e ?n m] s assms(2,3) by simp
    then show ?thesis
      using c False stop mod by (auto simp: read_tail_def Let_def split: prod.splits)
  qed
qed

lemma read_tail_loop:
  assumes "pos \<le> e" and "0 < he_chunk env" and "e \<le> length (bm_buf m)"
  shows "read_tail env m broken pos e md rng = responses_from env m broken e pos md rng"
  using assms(1)
proof (induction "e - pos" arbitrary: pos md rng rule: less_induct)
  case less
  let ?n = "he_chunk env"
  have sl: "bm_slice m (int e) (int e) = []" by (simp add: bm_slice_def py_slice_nonneg)
  show ?case
  proof (cases "pos = e")
    case True
    then show ?thesis
      using assms(2) sl by (simp add: read_tail_empty responses_from.simps [of _ _ _ _ e] responses_from.simps [of _ _ _ _ "e + ?n"])
  next
    case False
    then have lt: "pos < e" using less.prems by simp
    note step = read_tail_step [OF lt assms(2,3) refl, of broken md rng]
    show ?thesis
    proof (cases "pos + ?n \<le> e")
      case True
      have "read_tail env m broken (pos + ?n) e None None = responses_from env m broken e (pos + ?n) None None"
        using True assms(2) by (intro less.hyps) auto
      moreover have "(e - pos) mod ?n = 0" if "pos + ?n = e" using that by auto
      ultimately show ?thesis
        using step True lt assms(2) by (auto simp: responses_from.simps [of _ _ _ _ pos] min_absorb1)
    next
      case False
      then have "(e - pos) mod ?n = e - pos" using lt by simp
      then show ?thesis
        using step False lt assms(2)
        by (auto simp: responses_from.simps [of _ _ _ _ pos] responses_from.simps [of _ _ _ _ "pos + ?n"] min_absorb2)
    qed
  qed
qed

definition contents_of :: "read_response list \<Rightarrow> bytes" where
  "contents_of responses = concat (map rs_content responses)"

lemma contents_of_simps [simp]:
  "contents_of [] = []" "contents_of (r # rs) = rs_content r @ contents_of rs"
  "rs_content (read_response_of env c md rng) = c" "rs_metadata (read_response_of env c md rng) = md"
  "rs_content_range (read_response_of env c md rng) = rng"
  by (simp_all add: contents_of_def read_response_of_def)

lemma responses_from_contents:
  assumes "0 < he_chunk env" and "e \<le> length (bm_buf m)" and "pos \<le> e"
    and "responses_from env m broken e pos md rng = (responses, cut_off)"
  shows "contents_of responses = bm_slice m (int pos) (int (if cut_off then broken else e))
    \<and> (cut_off \<longleftrightarrow> broken \<noteq> 0 \<and> broken \<le> e) \<and> responses \<noteq> []
    \<and> rs_metadata (hd responses) = md \<and> rs_content_range (hd responses) = rng
    \<and> (\<forall>r \<in> set (tl responses). rs_metadata r = None \<and> rs_content_range r = None)
    \<and> (\<not> cut_off \<longrightarrow> length responses = (e - pos) div he_chunk env + 1)"
  using assms(3,4)
proof (induction "e - pos" arbitrary: pos md rng responses cut_off rule: less_induct)
  case less
  let ?n = "he_chunk env" and ?stop = "min (pos + he_chunk env) e"
  have bound: "pos \<le> ?stop" "?stop \<le> e" using less.prems(1) by simp_all
  show ?case
  proof (cases "broken \<noteq> 0 \<and> broken \<le> ?stop")
    case True
    then have "responses = [read_response_of env (bm_slice m (int pos) (int broken)) md rng]" "cut_off"
      using less.prems assms(1) by (auto simp: responses_from.simps [of _ _ _ _ pos])
    then show ?thesis using True bound by auto
  next
    case False
    obtain rs b where rs: "responses_from env m broken e (pos + ?n) None None = (rs, b)"
        "responses = read_response_of env (bm_slice m (int pos) (int ?stop)) md rng # rs" "cut_off = b"
      using False less.prems assms(1)
      by (auto simp: responses_from.simps [of _ _ _ _ pos] Let_def split: prod.splits)
    show ?thesis
    proof (cases "pos + ?n \<le> e")
      case True
      have IH: "contents_of rs = bm_slice m (int (pos + ?n)) (int (if b then broken else e))
          \<and> (b \<longleftrightarrow> broken \<noteq> 0 \<and> broken \<le> e) \<and> rs \<noteq> [] \<and> rs_metadata (hd rs) = None \<and> rs_content_range (hd rs) = None
          \<and> (\<forall>r \<in> set (tl rs). rs_metadata r = None \<and> rs_content_range r = None)
          \<and> (\<not> b \<longrightarrow> length rs = (e - (pos + ?n)) div ?n + 1)"
        using assms(1) True by (intro less.hyps [OF _ True rs(1)]) simp
      have "bm_slice m (int pos) (int (pos + ?n)) @ bm_slice m (int (pos + ?n)) (int (if b then broken else e))
          = bm_slice m (int pos) (int (if b then broken else e))"
        unfolding bm_slice_def using False True IH by (intro py_slice_append) auto
      moreover have "(e - pos) div ?n = (e - (pos + ?n)) div ?n + 1"
      proof -
        have "e - pos = (e - (pos + ?n)) + ?n" using True by simp
        then show ?thesis using assms(1) by (metis Suc_eq_plus1 div_add_self2 less_numeral_extra(3))
      qed
      ultimately show ?thesis
        using IH rs True by (cases rs) (auto simp: min_absorb1)
    next
      case False2: False
      then have "rs = []" "\<not> b" using rs(1) by (auto simp: responses_from.simps [of _ _ _ _ "pos + ?n"])
      moreover have "(e - pos) div ?n = 0" using False2 less.prems(1) by (intro div_less) linarith
      ultimately show ?thesis
        using rs False False2 by (auto simp: min_absorb2)
    qed
  qed
qed

text \<open>C12: What a stream of \<open>ReadObject\<close> carries: the bytes of the range, or those up to the point where
  a fault breaks it, which happens exactly when that point is not beyond the end; only the first
  response has the metadata and the content range; an unbroken stream has one response for every full
  chunk and one more.\<close>

theorem read_delivers_range:
  assumes "start \<le> read_end" and "0 < he_chunk env" and "read_end \<le> length (bm_buf m)"
    and "read_responses env m broken start read_end meta content_range = (responses, cut_off)"
  shows "contents_of responses = bm_slice m (int start) (int (if cut_off then broken else read_end))
    \<and> (cut_off \<longleftrightarrow> broken \<noteq> 0 \<and> broken \<le> read_end)
    \<and> rs_metadata (hd responses) = Some meta \<and> rs_content_range (hd responses) = content_range
    \<and> (\<forall>r \<in> set (tl responses). rs_metadata r = None \<and> rs_content_range r = None)
    \<and> (\<not> cut_off \<longrightarrow> length responses = (read_end - start) div he_chunk env + 1)"
  using responses_from_contents [OF assms(2,3,1)] assms(4) read_tail_loop [OF assms(1-3)]
  by (simp add: read_responses_tail)

text \<open>A whole object.\<close>

lemma get_object_zero: "get_object b n c (Some (Inr 0)) ps False s = get_object b n c None ps False s"
  by (simp add: get_object_def lookup_object_def bindM_def liftE_def split: option.splits)

lemma read_whole:
  assumes "grpc_object c rq False s = (Inr blob, s)" and "get_retry_test_id_from_context c = None"
    and "0 < he_chunk env"
  shows "\<exists>responses. ReadObject env c rq 0 0 s = (Inr (responses, None), s)
    \<and> contents_of responses = bm_buf (b_media blob) \<and> rs_metadata (hd responses) = Some (b_metadata blob)"
proof -
  let ?n = "length (bm_buf (b_media blob))"
  obtain rs b where rs: "read_responses env (b_media blob) 0 0 ?n (b_metadata blob) None = (rs, b)" by fastforce
  have "contents_of rs = bm_buf (b_media blob)" "\<not> b" "rs_metadata (hd rs) = Some (b_metadata blob)"
    using responses_from_contents [OF assms(3) order_refl le0, of "b_media blob" 0 "Some (b_metadata blob)" None rs b]
      rs read_tail_loop [OF le0 assms(3) order_refl, of "b_media blob" 0 "Some (b_metadata blob)" None]
    by (simp_all add: read_responses_tail bm_slice_def py_slice_all)
  then show ?thesis
    using assms rs
    by (simp add: ReadObject_def grpc_retry_test_plain bindM_def read_bounds_def broken_stream_after_def Let_def)
qed

definition whole_object :: "write_spec \<Rightarrow> object_request" where
  "whole_object spec = \<lparr>or_bucket = om_bucket (wspec_resource spec), or_object = om_name (wspec_resource spec),
     or_generation = 0, or_conditions = []\<rparr>"

text \<open>C3: The round trip over gRPC: when a stream of pieces (which may overlap) has been written, the
  responses to a read of the object carry exactly the content, and the metadata of the answer to the
  write.\<close>

theorem written_stream_round_trip:
  assumes "WriteObject env c ((fresh, m) # ms) s = (Inr (Resource md), t)" and "db_wf (sv_db s)" and "plain_call c"
    and "wm_first m = Write_spec spec" and "\<forall>m \<in> set ms. wm_first (snd m) = No_first"
    and "pieces_of content 0 (m # map snd ms)" and "stored 0 (m # map snd ms) = length content"
    and "0 < he_chunk env"
  shows "\<exists>responses. ReadObject env c (whole_object spec) 0 0 t = (Inr (responses, None), t)
    \<and> contents_of responses = content \<and> rs_metadata (hd responses) = Some md"
proof -
  obtain blob where blob: "get_object (om_bucket (wspec_resource spec)) (om_name (wspec_resource spec)) c None [] False (sv_db t)
      = (Inr (Some blob), sv_db t)" "b_metadata blob = md" "bm_buf (b_media blob) = content"
    using written_object [OF assms(1-6)] assms(7) by auto
  have "grpc_object c (whole_object spec) False t = (Inr blob, t)"
    using blob(1)
    by (simp add: grpc_object_def whole_object_def bindM_def on_db_def generation_of_field_def get_object_zero
        grpc_conditions_def make_grpc_preconditions_def select_def)
  from read_whole [OF this _ assms(8)] show ?thesis
    using blob(2,3) assms(3) by (simp add: plain_call_def)
qed

section \<open>What BidiReadObject delivers\<close>

abbreviation piece_id :: "range_piece \<Rightarrow> int" where
  "piece_id p \<equiv> rd_id (snd (snd p))"

lemma range_chunks_props:
  "concat (map fst (range_chunks i e pos chunks)) = concat chunks"
  "p \<in> set (range_chunks i e pos chunks) \<Longrightarrow> piece_id p = i"
  by (induction chunks arbitrary: pos) (auto simp: Let_def)

text \<open>The part of the object that a range asks for.\<close>

definition range_bytes :: "bytes_media \<Rightarrow> read_range \<Rightarrow> bytes" where
  "range_bytes m rng =
     (let len = int (length (bm_buf m));
          start = (if rd_offset rng < 0 then max 0 (len + rd_offset rng) else rd_offset rng)
      in bm_slice m start (if 0 < rd_length rng then min len (start + rd_length rng) else len))"

lemma process_read_range_Some:
  assumes "process_read_range env m rng = Some pieces" and "0 < he_chunk env"
  shows "concat (map fst pieces) = range_bytes m rng" and "\<forall>p \<in> set pieces. piece_id p = rd_id rng"
proof -
  define start where "start = (if rd_offset rng < 0 then max 0 (int (length (bm_buf m)) + rd_offset rng) else rd_offset rng)"
  define e where "e = (if 0 < rd_length rng then min (int (length (bm_buf m))) (start + rd_length rng) else int (length (bm_buf m)))"
  have ok: "start \<le> int (length (bm_buf m))" "0 \<le> start"
      and pieces: "pieces = range_chunks (rd_id rng) e start (bm_chunks m (nat start) (nat e) (he_chunk env))"
    using assms(1) by (auto simp: process_read_range_def Let_def start_def e_def split: if_splits)
  have "nat start \<le> nat e" "nat e \<le> length (bm_buf m)" "0 \<le> e" using ok by (auto simp: e_def)
  then have "concat (bm_chunks m (nat start) (nat e) (he_chunk env)) = bm_slice m start e"
    unfolding bm_chunks_def bm_slice_def using assms(2) ok chunk_loop_concat [of "bm_buf m" _ "he_chunk env" "nat start" "nat e"]
    by simp
  then show "concat (map fst pieces) = range_bytes m rng"
    unfolding pieces range_chunks_props(1) by (simp add: range_bytes_def Let_def start_def e_def)
  show "\<forall>p \<in> set pieces. piece_id p = rd_id rng"
    unfolding pieces using range_chunks_props(2) by blast
qed

lemma in_tl: "x \<in> set (tl xs) \<Longrightarrow> x \<in> set xs"
  by (cases xs) auto

text \<open>The pieces of each range stay in order, and none is lost.\<close>

lemma round_robin_filter:
  assumes "\<forall>xs \<in> set xss. (\<forall>x \<in> set xs. P x) \<or> (\<forall>x \<in> set xs. \<not> P x)"
    and "length (filter (\<lambda>xs. \<exists>x \<in> set xs. P x) xss) \<le> 1"
  shows "filter P (round_robin xss) = concat (map (filter P) xss)"
  using assms
proof (induction xss rule: round_robin.induct)
  case (1 xss)
  let ?left = "filter (\<lambda>xs. xs \<noteq> []) xss"
  have left: "concat (map (filter P) xss) = concat (map (filter P) ?left)" by (induction xss) auto
  show ?case
  proof (cases "?left = []")
    case True
    then show ?thesis using left by (simp add: round_robin.simps [of xss])
  next
    case False
    have uniform: "\<forall>xs \<in> set ?left. (\<forall>x \<in> set xs. P x) \<or> (\<forall>x \<in> set xs. \<not> P x)" using "1.prems"(1) by simp
    have few: "length (filter (\<lambda>xs. \<exists>x \<in> set xs. P x) ?left) \<le> 1"
    proof -
      have "filter (\<lambda>xs. \<exists>x \<in> set xs. P x) ?left = filter (\<lambda>xs. \<exists>x \<in> set xs. P x) xss" by (induction xss) auto
      then show ?thesis using "1.prems"(2) by simp
    qed
    have tails: "length (filter (\<lambda>xs. \<exists>x \<in> set xs. P x) (map tl xss)) \<le> length (filter (\<lambda>xs. \<exists>x \<in> set xs. P x) xss)"
      for xss by (induction xss) (auto dest: in_tl)
    have "\<forall>xs \<in> set (map tl ?left). (\<forall>x \<in> set xs. P x) \<or> (\<forall>x \<in> set xs. \<not> P x)"
      using uniform by (auto 4 4 dest: in_tl)
    then have IH: "filter P (round_robin (map tl ?left)) = concat (map (filter P) (map tl ?left))"
      using "1.IH" [OF refl False] le_trans [OF tails few] by blast
    have "filter P (map hd ?left) @ concat (map (filter P) (map tl ?left)) = concat (map (filter P) ?left)"
    proof (cases "\<exists>ys \<in> set ?left. \<exists>x \<in> set ys. P x")
      case False
      then have "\<forall>xs \<in> set ?left. filter P xs = [] \<and> \<not> P (hd xs) \<and> filter P (tl xs) = []"
        by (auto simp: filter_empty_conv dest: in_tl)
      then have "filter P (map hd ?left) = []" "concat (map (filter P) (map tl ?left)) = []"
          "concat (map (filter P) ?left) = []"
        by (auto simp: filter_empty_conv)
      then show ?thesis by (simp only: append_Nil)
    next
      case True
      then obtain ys as bs where ys: "?left = as @ ys # bs" "\<exists>x \<in> set ys. P x" by (metis split_list)
      have others: "\<forall>xs \<in> set as \<union> set bs. \<not> (\<exists>x \<in> set xs. P x)"
        using few ys by (auto simp: filter_empty_conv)
      have "ys \<noteq> []" "\<forall>x \<in> set ys. P x" using ys uniform by auto
      then have y: "filter P (hd ys # map hd []) @ filter P (tl ys) = filter P ys" by (cases ys) auto
      have ne: "\<forall>xs \<in> set as \<union> set bs. xs \<noteq> []"
      proof -
        have "set as \<union> set bs \<subseteq> set ?left" unfolding ys(1) by auto
        then show ?thesis by auto
      qed
      have "filter P xs = [] \<and> \<not> P (hd xs) \<and> filter P (tl xs) = []" if "xs \<in> set as \<union> set bs" for xs
        using others ne that by (auto simp: filter_empty_conv dest: in_tl)
      then have "filter P (map hd as) = []" "filter P (map hd bs) = []"
          "concat (map (filter P) (map tl as)) = []" "concat (map (filter P) (map tl bs)) = []"
          "concat (map (filter P) as) = []" "concat (map (filter P) bs) = []"
        by (auto simp: filter_empty_conv)
      moreover have "filter P (hd ys # map hd bs) = filter P (hd ys # map hd []) @ filter P (map hd bs)" by simp
      ultimately show ?thesis
        by (simp only: ys(1) map_append list.map(2) filter_append concat_append concat.simps append_Nil append_Nil2 y)
    qed
    then show ?thesis using IH left False by (simp add: round_robin.simps [of xss] Let_def)
  qed
qed

lemma round_robin_sum: "sum_list (map f (round_robin xss)) = (sum_list (map f (concat xss)) :: nat)"
proof (induction xss rule: round_robin.induct)
  case (1 xss)
  let ?left = "filter (\<lambda>xs. xs \<noteq> []) xss"
  have left: "concat xss = concat ?left" by (induction xss) auto
  have "sum_list (map f (map hd yss)) + sum_list (map f (concat (map tl yss))) = sum_list (map f (concat yss))"
    if "\<forall>ys \<in> set yss. ys \<noteq> []" for yss
    using that
  proof (induction yss)
    case (Cons ys yss)
    then show ?case by (cases ys) auto
  qed simp
  from this [of ?left] show ?case
    using "1.IH" [OF refl] left by (cases "?left = []") (auto simp: round_robin.simps [of xss] Let_def)
qed

definition data_of :: "bidi_read_response list \<Rightarrow> range_piece list" where
  "data_of responses = concat (map (\<lambda>r. case br_data r of None \<Rightarrow> [] | Some (p, _) \<Rightarrow> [p]) responses)"

text \<open>The bytes that the responses carry for one identifier.\<close>

definition delivered :: "int \<Rightarrow> bidi_read_response list \<Rightarrow> bytes" where
  "delivered i responses = concat (map fst (filter (\<lambda>p. piece_id p = i) (data_of responses)))"

lemma data_of_first_response: "data_of (first_response meta rs) = data_of rs"
  by (cases rs) (simp_all add: data_of_def)

lemma data_of_serve: "data_of ([] @ map (bidi_data env) ps) = ps"
  "data_of ([\<lparr>br_data = None, br_metadata = None, br_handle = []\<rparr>] @ map (bidi_data env) ps) = ps"
  by (induction ps) (auto simp: data_of_def bidi_data_def)

lemma data_of_responses:
  "data_of (first_response meta ((case batches of [] # _ \<Rightarrow> [\<lparr>br_data = None, br_metadata = None, br_handle = []\<rparr>] | _ \<Rightarrow> [])
     @ map (bidi_data env) ps)) = ps"
  using data_of_serve by (auto simp: data_of_first_response split: list.splits)

lemma send_pieces_all:
  "int (sum_list (map (length \<circ> fst) ps)) \<le> returnable \<Longrightarrow> send_pieces 0 returnable ps = (ps, False)"
  by (induction "0 :: nat" returnable ps rule: send_pieces.induct) (auto simp: Let_def)

lemma send_pieces_broken:
  "0 < broken \<Longrightarrow> 0 < returnable \<Longrightarrow> send_pieces broken returnable ps = (out, cut_off) \<Longrightarrow>
     concat (map fst out) = take (nat returnable) (concat (map fst ps))
   \<and> (cut_off \<longleftrightarrow> nat returnable \<le> length (concat (map fst ps)))"
proof (induction broken returnable ps arbitrary: out cut_off rule: send_pieces.induct)
  case (2 broken returnable chunk range_end rng pieces)
  show ?case
  proof (cases "returnable - int (length chunk) \<le> 0")
    case True
    then show ?thesis
      using "2.prems" by (auto simp: Let_def py_slice_nonneg split: if_splits)
  next
    case False
    obtain o2 b2 where rec: "send_pieces broken (returnable - int (length chunk)) pieces = (o2, b2)" by fastforce
    then have o: "out = (chunk, range_end, rng) # o2" "cut_off = b2"
      using "2.prems" False by (auto simp: Let_def split: if_splits)
    have "concat (map fst o2) = take (nat (returnable - int (length chunk))) (concat (map fst pieces))
       \<and> (b2 \<longleftrightarrow> nat (returnable - int (length chunk)) \<le> length (concat (map fst pieces)))"
      using "2.IH" [OF refl refl refl refl] "2.prems"(1) False rec by simp
    moreover have "nat (returnable - int (length chunk)) = nat returnable - length chunk" by (simp add: nat_diff_distrib')
    ultimately show ?thesis using o False by (auto simp: le_diff_conv)
  qed
qed simp

lemma few_keyed:
  assumes "distinct (map k xs)" and "\<And>x. x \<in> set xs \<Longrightarrow> Q x \<Longrightarrow> k x = i"
  shows "length (filter Q xs) \<le> 1"
  using assms
proof (induction xs)
  case (Cons x xs)
  have "filter Q xs = []" if "Q x" using Cons.prems that by (force simp: filter_empty_conv)
  then show ?case using Cons by auto
qed simp

lemma filter_keyed:
  assumes "distinct (map k xs)" and "x \<in> set xs" and "\<And>y p. y \<in> set xs \<Longrightarrow> p \<in> set (f y) \<Longrightarrow> g p = k y"
  shows "concat (map (filter (\<lambda>p. g p = k x)) (map f xs)) = f x"
proof -
  obtain as bs where xs: "xs = as @ x # bs" using assms(2) by (metis split_list)
  have "filter (\<lambda>p. g p = k x) (f y) = []" if "y \<in> set as \<union> set bs" for y
  proof -
    have "k y \<noteq> k x" "y \<in> set xs" using that assms(1) unfolding xs by (auto simp: image_iff)
    then show ?thesis using assms(3) by (auto simp: filter_empty_conv)
  qed
  then have "concat (map (filter (\<lambda>p. g p = k x)) (map f as)) = []" "concat (map (filter (\<lambda>p. g p = k x)) (map f bs)) = []"
    by simp_all
  moreover have "filter (\<lambda>p. g p = k x) (f x) = f x" using assms(2,3) by simp
  ultimately show ?thesis
    by (simp only: xs map_append list.map(2) concat_append concat.simps append_Nil append_Nil2)
qed

text \<open>C10: A batch of ranges with different identifiers, all of them in the object: the responses carry
  for each identifier exactly the bytes of its range, in order, however the responses of the ranges are
  interleaved, and the stream is completed.\<close>

theorem ranges_are_delivered:
  assumes "distinct (map rd_id batch)" and "\<forall>rng \<in> set batch. process_read_range env (b_media blob) rng \<noteq> None"
    and "0 < he_chunk env"
    and "sum_list (map (\<lambda>rng. length (range_bytes (b_media blob) rng)) batch) < 2 ^ 63"
  shows "\<exists>responses. serve_ranges env c blob 0 [batch] s = (Inr (responses, Completed), s)
    \<and> (\<forall>rng \<in> set batch. delivered (rd_id rng) responses = range_bytes (b_media blob) rng)"
proof -
  let ?pieces = "\<lambda>rng. the (process_read_range env (b_media blob) rng)"
  let ?all = "round_robin (map ?pieces batch)"
  have some: "process_read_range env (b_media blob) rng = Some (?pieces rng)" if "rng \<in> set batch" for rng
    using assms(2) that by auto
  note of_range = process_read_range_Some [OF some assms(3)]
  have "range_batch env (b_media blob) batch = Inr ?all"
    using assms(2) by (auto simp: range_batch_def comp_def find_None_iff find_Some_iff split: option.splits)
  then have results: "read_results env (b_media blob) [batch] = (?all, None)" by simp
  have "sum_list (map (length \<circ> fst) (concat (map ?pieces rngs)))
      = sum_list (map (\<lambda>rng. length (range_bytes (b_media blob) rng)) rngs)" if "set rngs \<subseteq> set batch" for rngs
    using that
  proof (induction rngs)
    case (Cons rng rngs)
    then have "length (range_bytes (b_media blob) rng) = sum_list (map (length \<circ> fst) (?pieces rng))"
      using of_range(1) [of rng] by (simp add: length_concat comp_def flip: of_range(1))
    then show ?case using Cons by (simp add: comp_def)
  qed simp
  from this [OF subset_refl] have "int (sum_list (map (length \<circ> fst) ?all)) \<le> 9223372036854775807"
    using assms(4) unfolding round_robin_sum by simp
  from send_pieces_all [OF this] obtain responses where
      r: "serve_ranges env c blob 0 [batch] s = (Inr (responses, Completed), s)" "data_of responses = ?all"
    using results data_of_responses [of "b_metadata blob" "[batch]" env ?all] by (auto simp: serve_ranges_def Let_def)
  moreover have "delivered (rd_id rng) responses = range_bytes (b_media blob) rng" if rng: "rng \<in> set batch" for rng
  proof -
    let ?P = "\<lambda>p. piece_id p = rd_id rng"
    have same: "rng' = rng" if "rng' \<in> set batch" "rd_id rng' = rd_id rng" for rng'
      using assms(1) that rng by (metis distinct_map inj_onD)
    have uniform: "\<forall>xs \<in> set (map ?pieces batch). (\<forall>x \<in> set xs. ?P x) \<or> (\<forall>x \<in> set xs. \<not> ?P x)"
      using of_range(2) by auto
    have "filter (\<lambda>xs. \<exists>x \<in> set xs. ?P x) (map ?pieces batch) = map ?pieces (filter (\<lambda>r. \<exists>x \<in> set (?pieces r). ?P x) batch)"
      by (simp add: filter_map comp_def)
    moreover have "length (filter (\<lambda>r. \<exists>x \<in> set (?pieces r). ?P x) batch) \<le> 1"
      using of_range(2) by (intro few_keyed [OF assms(1), of _ "rd_id rng"]) metis
    ultimately have few: "length (filter (\<lambda>xs. \<exists>x \<in> set xs. ?P x) (map ?pieces batch)) \<le> 1" by simp
    have "concat (map (filter ?P) (map ?pieces batch)) = ?pieces rng"
      using of_range(2) by (intro filter_keyed [OF assms(1) rng]) blast
    then show ?thesis
      using round_robin_filter [OF uniform few] of_range(1) [OF rng] r(2) by (simp add: delivered_def)
  qed
  ultimately show ?thesis by blast
qed

text \<open>C11: A bidirectional read that is to break after some bytes: whatever the ranges are and however
  their responses are interleaved, the bytes that are sent altogether are the first ones of the
  unbroken stream, as many as the instruction says.\<close>

theorem broken_ranges_are_cut:
  assumes "serve_ranges env c blob broken batches s = (Inr (responses, e), t)" and "0 < broken"
  shows "concat (map fst (data_of responses))
    = take broken (concat (map fst (fst (read_results env (b_media blob) batches))))"
proof -
  obtain pieces range_error out cut_off where run: "read_results env (b_media blob) batches = (pieces, range_error)"
      "send_pieces broken (int broken) pieces = (out, cut_off)"
    by fastforce
  then have "data_of responses = out"
    using assms data_of_responses [of "b_metadata blob" batches env out]
    by (auto simp: serve_ranges_def Let_def bindM_Inr_iff split: if_splits)
  then show ?thesis
    using send_pieces_broken [OF assms(2) _ run(2)] assms(2) run(1) by simp
qed

section \<open>Witnesses\<close>

definition sample_media :: bytes_media where
  "sample_media = bytes_media_init castagnoli [1, 2, 3, 4, 5]"

lemma sample_media_buf: "bm_buf sample_media = [1, 2, 3, 4, 5]"
  by (simp add: sample_media_def bytes_media_init_def)

theorem read_delivers_range_witness:
  "\<exists>responses. read_responses sample_handler_env sample_media 3 1 5 new_obj_meta None = (responses, True)
    \<and> contents_of responses = [2, 3]"
proof -
  obtain responses cut_off where r:
      "read_responses sample_handler_env sample_media 3 1 5 new_obj_meta None = (responses, cut_off)"
    by fastforce
  have "(1 :: nat) \<le> 5" "0 < he_chunk sample_handler_env" "5 \<le> length (bm_buf sample_media)"
    by (simp_all add: sample_media_buf)
  from read_delivers_range [OF this r] r show ?thesis
    by (simp add: bm_slice_def sample_media_buf py_slice_nonneg)
qed

theorem written_stream_round_trip_witness:
  "\<exists>md t responses. WriteObject sample_handler_env (Grpc []) sample_stream sample_service = (Inr (Resource md), t)
    \<and> ReadObject sample_handler_env (Grpc []) (whole_object sample_spec) 0 0 t = (Inr (responses, None), t)
    \<and> contents_of responses = [1, 2, 3]"
proof -
  obtain md t where t: "WriteObject sample_handler_env (Grpc []) sample_stream sample_service = (Inr (Resource md), t)"
    using sample_written by blast
  have "0 < he_chunk sample_handler_env" by simp
  from written_stream_round_trip [OF t sample_stream_pieces(5) sample_write_simps(4) sample_stream_pieces(1-4) this] t
  show ?thesis by blast
qed

definition sample_batch :: "read_range list" where
  "sample_batch = [\<lparr>rd_offset = 1, rd_length = 3, rd_id = 7\<rparr>, \<lparr>rd_offset = - 2, rd_length = 0, rd_id = 8\<rparr>]"

definition sample_blob :: blob where
  "sample_blob = \<lparr>b_metadata = new_obj_meta, b_media = sample_media, b_upload = None, b_upload_gen = 0\<rparr>"

theorem ranges_are_delivered_witness:
  "\<exists>responses. serve_ranges sample_handler_env (Grpc []) sample_blob 0 [sample_batch] sample_service
      = (Inr (responses, Completed), sample_service)
    \<and> delivered 7 responses = [2, 3, 4] \<and> delivered 8 responses = [4, 5]"
proof -
  have "distinct (map rd_id sample_batch)"
      "\<forall>rng \<in> set sample_batch. process_read_range sample_handler_env (b_media sample_blob) rng \<noteq> None"
      "0 < he_chunk sample_handler_env"
      "sum_list (map (\<lambda>rng. length (range_bytes (b_media sample_blob) rng)) sample_batch) < 2 ^ 63"
    by (simp_all add: sample_batch_def sample_blob_def process_read_range_def range_bytes_def bm_slice_def
        sample_media_buf py_slice_nonneg)
  from ranges_are_delivered [OF this, of "Grpc []" sample_service] show ?thesis
    by (simp add: sample_batch_def sample_blob_def range_bytes_def bm_slice_def sample_media_buf py_slice_nonneg
        numeral_2_eq_2 numeral_3_eq_3)
qed

theorem broken_ranges_are_cut_witness:
  "\<exists>responses e t. serve_ranges sample_handler_env (Grpc []) sample_blob 2 [sample_batch] sample_service
      = (Inr (responses, e), t) \<and> length (concat (map fst (data_of responses))) \<le> 2"
proof -
  have "get_retry_test_id_from_context (Grpc []) = None"
    by (simp add: get_retry_test_id_from_context_def invocation_metadata_value_def)
  then obtain responses e where r: "serve_ranges sample_handler_env (Grpc []) sample_blob 2 [sample_batch] sample_service
      = (Inr (responses, e), sample_service)"
    by (cases "read_results sample_handler_env (b_media sample_blob) [sample_batch]",
        cases "send_pieces 2 2 (fst (read_results sample_handler_env (b_media sample_blob) [sample_batch]))",
        cases "snd (send_pieces 2 2 (fst (read_results sample_handler_env (b_media sample_blob) [sample_batch])))")
      (auto simp: serve_ranges_def break_stream_def Let_def simp del: read_results.simps)
  from broken_ranges_are_cut [OF this] r show ?thesis by auto
qed

end
