(* ===== verification/Grpc_Objects.thy ===== *)
theory Grpc_Objects
  imports Grpc_Reads
begin

text \<open>
  The handlers of \<open>src/testbench/grpc_server.py\<close> that list, compose, change, restore, move and delete
  objects.  The masks of the updates belong to the library \<open>protobuf\<close>: the intersection of two masks
  and whether a mask is valid for a message are arguments.
\<close>

section \<open>Listing and deleting\<close>

definition ListObjects ::
    "handler_env \<Rightarrow> ctx \<Rightarrow> string \<Rightarrow> list_args \<Rightarrow> (obj_meta list \<times> string list) serviceM" where
  "ListObjects env c parent request = grpc_retry_test c ''storage.objects.list''
     (on_db (list_object (he_glob env) request parent c))"

definition delete_now ::
    "handler_env \<Rightarrow> ctx \<Rightarrow> string \<Rightarrow> string \<Rightarrow> int \<Rightarrow> precondition list \<Rightarrow> unit serviceM" where
  "delete_now env c bucket_name object_name generation ps =
     on_db (delete_object (clock_of env) bucket_name object_name c generation ps)"

definition DeleteObject :: "handler_env \<Rightarrow> ctx \<Rightarrow> object_request \<Rightarrow> unit serviceM" where
  "DeleteObject env c rq = grpc_retry_test c ''storage.objects.delete''
     (delete_now env c (or_bucket rq) (or_object rq) (or_generation rq) (grpc_conditions rq))"

definition RestoreObject :: "handler_env \<Rightarrow> ctx \<Rightarrow> object_request \<Rightarrow> obj_meta serviceM" where
  "RestoreObject env c rq = grpc_retry_test c ''storage.objects.restore''
     (bindM (on_db (restore_object (clock_of env) (or_bucket rq) (or_object rq) (or_generation rq)
        (grpc_conditions rq) c)) (\<lambda>blob. ret (b_metadata blob)))"

section \<open>Composing\<close>

record grpc_source =
  gs_name :: string
  gs_generation :: int
  gs_if_generation_match :: "int option"

record compose_request =
  cq_destination :: obj_meta
  cq_sources :: "grpc_source list"
  cq_delete_sources :: bool
  cq_predefined_acl :: string
  cq_conditions :: "(string \<times> int) list"
  cq_params :: csek_params

definition grpc_source_precondition :: "int option \<Rightarrow> precondition" where
  "grpc_source_precondition if_generation_match _ live_version c = (case if_generation_match of
     None \<Rightarrow> Inr True
   | Some n \<Rightarrow>
       if Some n = live_version then Inr True
       else Inl (mismatch ''compose.ifGenerationMatch'' (show_int n) (show_opt live_version) c))"

text \<open>The precondition never answers \<open>False\<close>, so the object is always found.\<close>

definition grpc_compose_step ::
    "handler_env \<Rightarrow> ctx \<Rightarrow> string \<Rightarrow> bool \<Rightarrow> grpc_source \<Rightarrow> bytes_media \<Rightarrow> bytes_media serviceM" where
  "grpc_compose_step env c bucket_name delete_sources source m =
     (if gs_name source = [] then raise (missing ''Name of source compose object'' c)
      else let ps = [grpc_source_precondition (gs_if_generation_match source)] in
        bindM (on_db (get_object bucket_name (gs_name source) c (generation_of_field (gs_generation source)) ps False))
          (\<lambda>found.
        bindM (require found) (\<lambda>source_blob.
        seqM (if delete_sources then delete_now env c bucket_name (gs_name source) (gs_generation source) ps else ret ())
          (ret (append_chunks env (b_media source_blob) m)))))"

fun grpc_compose_sources ::
    "handler_env \<Rightarrow> ctx \<Rightarrow> string \<Rightarrow> bool \<Rightarrow> grpc_source list \<Rightarrow> bytes_media \<Rightarrow> bytes_media serviceM" where
  "grpc_compose_sources env c bucket_name delete_sources [] m = ret m"
| "grpc_compose_sources env c bucket_name delete_sources (source # rest) m =
     bindM (grpc_compose_step env c bucket_name delete_sources source m)
       (grpc_compose_sources env c bucket_name delete_sources rest)"

definition check_compose_request :: "ctx \<Rightarrow> compose_request \<Rightarrow> err + unit" where
  "check_compose_request c rq =
     (if cq_sources rq = [] then Inl (missing ''missing or empty source_objects attribute'' c)
      else if om_name (cq_destination rq) = [] then Inl (missing ''missing or empty destination object name'' c)
      else if om_bucket (cq_destination rq) = [] then Inl (missing ''missing or empty destination bucket name'' c)
      else if 32 < length (cq_sources rq)
        then Inl (invalid (''The number of source components provided ('' @ show_nat (length (cq_sources rq))
               @ '' > 32)'') c)
      else Inr ())"

definition ComposeObject :: "handler_env \<Rightarrow> ctx \<Rightarrow> compose_request \<Rightarrow> obj_meta serviceM" where
  "ComposeObject env c rq = grpc_retry_test c ''storage.objects.compose''
     (let bucket_name = om_bucket (cq_destination rq) in
      seqM (liftE (check_compose_request c rq))
      (bindM (grpc_compose_sources env c bucket_name (cq_delete_sources rq) (cq_sources rq)
          (bytes_media_init (oe_crc32c env) [])) (\<lambda>composed_media.
       bindM (the_bucket bucket_name c) (\<lambda>bk.
       bindM (making_object (\<lambda>_ s. s) bk (cq_destination rq)
          (object_init (objects_of env) (he_now env)
             (no_request\<lparr>args := [(''destinationPredefinedAcl'', cq_predefined_acl rq)]\<rparr>)
             (cq_params rq) composed_media True c None True)) (\<lambda>(blob, _).
       seqM (on_db (insert_object bucket_name blob c (make_grpc_preconditions (cq_conditions rq) ''if_'')))
         (ret (b_metadata blob)))))))"

section \<open>Moving\<close>

record move_request =
  mq_bucket :: string
  mq_source :: string
  mq_destination :: string
  mq_conditions :: "(string \<times> int) list"

text \<open>The request has no predefined ACL and no encryption parameters; the same preconditions guard the
  source, the destination and the deletion.\<close>

definition MoveObject :: "handler_env \<Rightarrow> ctx \<Rightarrow> move_request \<Rightarrow> obj_meta serviceM" where
  "MoveObject env c rq =
     (let ps = make_grpc_preconditions (mq_conditions rq) ''if_'' in
      bindM (the_bucket (mq_bucket rq) c) (\<lambda>bk.
      bindM (on_db (get_object (mq_bucket rq) (mq_source rq) c None ps False)) (\<lambda>found.
      bindM (require found) (\<lambda>src.
      bindM (making_object (\<lambda>_ s. s) bk
          ((b_metadata src)\<lparr>om_bucket := mq_bucket rq, om_name := mq_destination rq\<rparr>)
          (object_init (objects_of env) (he_now env) no_request no_params
             (append_chunks env (b_media src) (bytes_media_init (oe_crc32c env) [])) False c None False)) (\<lambda>(dst, _).
      seqM (on_db (insert_object (mq_bucket rq) dst c ps))
      (seqM (delete_now env c (mq_bucket rq) (mq_source rq) 0 ps)
        (ret (b_metadata dst))))))))"

section \<open>Updating\<close>

record mask_lib =
  ml_intersect :: "string list \<Rightarrow> string list \<Rightarrow> string list"
  ml_valid :: "string list \<Rightarrow> bool"

record update_request =
  uq_object :: obj_meta
  uq_paths :: "string list"
  uq_predefined_acl :: string
  uq_conditions :: "(string \<times> int) list"

definition immutable_object_fields :: "string list" where
  "immutable_object_fields =
     [''name'', ''bucket'', ''generation'', ''metageneration'', ''storage_class'', ''size'',
      ''delete_time'', ''create_time'', ''component_count'', ''checksums'', ''update_time'', ''kms_key'',
      ''update_storage_class_time'', ''owner'', ''customer_encryption'']"

text \<open>What the paths of the mask ask for; sets are lists without duplicates.\<close>

record update_plan =
  pl_safe :: "string list"
  pl_metadata :: "(string \<times> string) list"
  pl_removed_metadata :: "string list"
  pl_replace_metadata :: bool
  pl_contexts :: "(string \<times> context_payload) list"
  pl_removed_contexts :: "string list"
  pl_replace_contexts :: bool
  pl_reset_contexts :: bool

definition add_new :: "'a \<Rightarrow> 'a list \<Rightarrow> 'a list" where
  "add_new x xs = (if x \<in> set xs then xs else xs @ [x])"

definition contexts_of :: "obj_meta \<Rightarrow> (string \<times> context_payload) list" where
  "contexts_of md = (case om_contexts md of None \<Rightarrow> [] | Some custom \<Rightarrow> custom)"

definition plan_path :: "obj_meta \<Rightarrow> string \<Rightarrow> update_plan \<Rightarrow> update_plan" where
  "plan_path object path plan =
     (if path = ''metadata'' then plan\<lparr>pl_replace_metadata := True\<rparr>
      else if startswith path ''metadata.'' then
        (let key = drop 9 path in case map_of (om_metadata object) key of
           None \<Rightarrow> plan\<lparr>pl_removed_metadata := add_new key (pl_removed_metadata plan)\<rparr>
         | Some v \<Rightarrow> plan\<lparr>pl_metadata := AList.update key v (pl_metadata plan)\<rparr>)
      else if path = ''contexts'' then plan\<lparr>pl_replace_contexts := True\<rparr>
      else if path = ''contexts.custom'' then plan\<lparr>pl_reset_contexts := True\<rparr>
      else if startswith path ''contexts.custom.'' then
        (let key = drop 16 path in case map_of (contexts_of object) key of
           None \<Rightarrow> plan\<lparr>pl_removed_contexts := add_new key (pl_removed_contexts plan)\<rparr>
         | Some v \<Rightarrow> plan\<lparr>pl_contexts := AList.update key v (pl_contexts plan)\<rparr>)
      else if path = ''acl'' then plan
      else plan\<lparr>pl_safe := add_new path (pl_safe plan)\<rparr>)"

definition plan_update :: "update_request \<Rightarrow> update_plan" where
  "plan_update rq = fold (plan_path (uq_object rq)) (uq_paths rq)
     \<lparr>pl_safe = [], pl_metadata = [], pl_removed_metadata = [], pl_replace_metadata = False,
      pl_contexts = [], pl_removed_contexts = [], pl_replace_contexts = False, pl_reset_contexts = False\<rparr>"

text \<open>One context of the update: a new one gets both times, one with another value keeps its creation
  time; one with the value that is there already is copied as the request has it.\<close>

definition put_context ::
    "int \<Rightarrow> string \<times> context_payload \<Rightarrow> (string \<times> context_payload) list \<Rightarrow> (string \<times> context_payload) list" where
  "put_context now entry custom = (case entry of (k, v) \<Rightarrow>
     AList.update k (case map_of custom k of
         None \<Rightarrow> v\<lparr>cp_create_time := now, cp_update_time := now\<rparr>
       | Some old \<Rightarrow>
           if cp_value v \<noteq> cp_value old then v\<lparr>cp_create_time := cp_create_time old, cp_update_time := now\<rparr>
           else v) custom)"

definition update_contexts :: "int \<Rightarrow> update_plan \<Rightarrow> obj_meta \<Rightarrow> obj_meta \<Rightarrow> obj_meta" where
  "update_contexts now plan object md =
     (if pl_reset_contexts plan then md\<lparr>om_contexts := None\<rparr>
      else if pl_replace_contexts plan then md\<lparr>om_contexts := Some (stamp_contexts now (contexts_of object))\<rparr>
      else if pl_contexts plan = [] \<and> pl_removed_contexts plan = [] then md
      else md\<lparr>om_contexts := Some (fold AList.delete (pl_removed_contexts plan)
             (fold (put_context now) (pl_contexts plan) (contexts_of md)))\<rparr>)"

definition update_annotations :: "update_plan \<Rightarrow> obj_meta \<Rightarrow> obj_meta \<Rightarrow> obj_meta" where
  "update_annotations plan object md =
     md\<lparr>om_metadata :=
       (if pl_replace_metadata plan then om_metadata object
        else fold AList.delete (pl_removed_metadata plan) (dict_update (om_metadata md) (pl_metadata plan)))\<rparr>"

text \<open>The change of the metadata, which is made in place before the contexts are checked.\<close>

definition change_object ::
    "handler_env \<Rightarrow> update_request \<Rightarrow> acl_entry list option \<Rightarrow> obj_meta \<Rightarrow> obj_meta" where
  "change_object env rq acls md =
     (let plan = plan_update rq; object = uq_object rq;
          md = oe_merge (objects_of env) (pl_safe plan) object md;
          md = (if ''acl'' \<in> set (uq_paths rq) then md\<lparr>om_acl := om_acl object\<rparr> else md);
          md = (case acls of None \<Rightarrow> md | Some acls \<Rightarrow> md\<lparr>om_acl := acls\<rparr>)
      in update_contexts (he_now_local env) plan object (update_annotations plan object md))"

text \<open>\<open>_validate_object_contexts\<close> of the server.\<close>

definition grpc_context_item :: "ctx \<Rightarrow> string \<Rightarrow> string \<Rightarrow> err + nat" where
  "grpc_context_item c item_type item =
     (let quoted = item_type @ '' '' @ [CHR 0x27] @ item @ [CHR 0x27] in
      if item = [] \<or> \<not> is_alnum (hd item)
      then Inl (invalid (quoted @ '' must begin with an alphanumeric character.'') c)
      else if \<exists>ch \<in> set item. restricted_char ch
      then Inl (invalid (quoted @ '' contains restricted characters ('' @ [CHR 0x27] @ '', '' @ [CHR 0x22]
             @ '', '' @ [CHR 0x5C] @ '', /).'') c)
      else let item_length = length (utf8 item)
           in if \<not> (1 \<le> item_length \<and> item_length \<le> 256)
              then Inl (invalid (quoted @ '' must be between 1 and 256 UTF-8 code units.'') c)
              else Inr item_length)"

fun grpc_context_items :: "ctx \<Rightarrow> (string \<times> context_payload) list \<Rightarrow> nat \<Rightarrow> err + nat" where
  "grpc_context_items c [] acc = Inr acc"
| "grpc_context_items c ((key, payload) # items) acc =
     (if startswith key ''goog''
      then Inl (invalid (''Key '' @ [CHR 0x27] @ key @ [CHR 0x27] @ '' is invalid. Keys cannot begin with ''
             @ [CHR 0x27] @ ''goog'' @ [CHR 0x27] @ ''.'') c)
      else bindE (grpc_context_item c ''Key'' key) (\<lambda>m.
           bindE (grpc_context_item c ''Value'' (cp_value payload)) (\<lambda>n.
           grpc_context_items c items (acc + m + n))))"

definition grpc_validate_object_contexts :: "ctx \<Rightarrow> (string \<times> context_payload) list \<Rightarrow> err + unit" where
  "grpc_validate_object_contexts c custom_contexts =
     (if custom_contexts = [] then Inr ()
      else if 50 < length custom_contexts
      then Inl (invalid ''The count of object context entries cannot exceed 50.'' c)
      else bindE (grpc_context_items c custom_contexts 0) (\<lambda>total_size_bytes.
        if 25 * 1024 < total_size_bytes
        then Inl (invalid (''Aggregate size of keys and values ('' @ show_nat total_size_bytes
               @ '' bytes) exceeds the 25 KiB limit.'') c)
        else Inr ()))"

definition update_impl ::
    "handler_env \<Rightarrow> ctx \<Rightarrow> update_request \<Rightarrow> acl_entry list option \<Rightarrow> blob \<Rightarrow> (obj_meta \<times> blob option) dbM" where
  "update_impl env c rq acls b =
     (let k = bucket_key (om_bucket (uq_object rq)) c;
          keep = (\<lambda>b'. upd_objects k (AList.map_entry (object_key (om_name (uq_object rq)) (b_generation b)) (\<lambda>_. b')));
          changed = map_metadata (change_object env rq acls) b;
          final = map_metadata (\<lambda>md. md\<lparr>om_metageneration := om_metageneration md + 1,
            om_update_time := he_now_local env\<rparr>) changed
      in seqM (modS (keep changed))
         (seqM (liftE (case om_contexts (b_metadata changed) of
              None \<Rightarrow> Inr () | Some custom \<Rightarrow> grpc_validate_object_contexts c custom))
           (ret (b_metadata final, Some final))))"

definition UpdateObject :: "handler_env \<Rightarrow> mask_lib \<Rightarrow> ctx \<Rightarrow> update_request \<Rightarrow> obj_meta serviceM" where
  "UpdateObject env lib c rq = grpc_retry_test c ''storage.objects.patch''
     (let immutable = ml_intersect lib immutable_object_fields (uq_paths rq);
          safe_paths = pl_safe (plan_update rq); object = uq_object rq in
      if immutable \<noteq> []
      then raise (invalid (''UpdateObject() cannot modify immutable Object fields ['' @ join '','' immutable @ '']'') c)
      else if \<not> ml_valid lib safe_paths
      then raise (invalid (''UpdateObject() invalid field for Object ['' @ he_join env safe_paths @ '']'') c)
      else
      bindM (liftE (if uq_predefined_acl rq = [] then Inr None
          else bindE (compute_predefined_object_acl (oe_acl env) (om_bucket object) (om_name object)
                 (om_generation object) (Some (uq_predefined_acl rq)) c) (\<lambda>acls. Inr (Some acls)))) (\<lambda>acls.
      seqM (insert_test_bucket env)
        (on_db (do_update_object (om_bucket object) (om_name object)
           (\<lambda>found _. case found of None \<Rightarrow> raise (Exc AttributeError) | Some b \<Rightarrow> update_impl env c rq acls b)
           c (generation_of_field (om_generation object)) (make_grpc_preconditions (uq_conditions rq) ''if_'') True))))"

section \<open>Properties\<close>

lemma set_bucket_tables:
  "objects (sv_db (set_bucket k bk s)) = objects (sv_db s)"
  "live_generations (sv_db (set_bucket k bk s)) = live_generations (sv_db s)"
  by (simp_all add: set_bucket_def)

lemma making_tables:
  assumes "making_object (\<lambda>_ s. s) bk md m s = (r, t)"
  shows "objects (sv_db t) = objects (sv_db s) \<and> live_generations (sv_db t) = live_generations (sv_db s)"
  using assms by (auto simp: making_object_def set_bucket_tables split: prod.splits)

lemma held_unique: "held m x \<Longrightarrow> held m y \<Longrightarrow> x = y"
  by (auto simp: held_def split: if_splits)

text \<open>A move that asks for a generation, for which source and destination do not agree: the code
  checks the condition on both of them (and on the source once more), so the move is refused, whatever
  generation it asks for, and no object changes.\<close>

theorem guarded_grpc_move_is_refused:
  assumes "contents (sv_db s) (bucket_key (mq_bucket rq) c) = Some (bk, os, ls, sd)" and "db_wf (sv_db s)"
    and "map_of (mq_conditions rq) ''if_generation_match'' = Some m"
    and "map_of ls (mq_destination rq) \<noteq> map_of ls (mq_source rq)" and "plain_call c"
  shows "\<exists>e t. MoveObject env c rq s = (Inl e, t) \<and> objects (sv_db t) = objects (sv_db s)
    \<and> live_generations (sv_db t) = live_generations (sv_db s)"
proof -
  let ?ps = "make_grpc_preconditions (mq_conditions rq) ''if_''"
  note found = contents_SomeD [OF assms(1)]
  have bk: "the_bucket (mq_bucket rq) c s = (Inr bk, s)"
    using found by (simp add: the_bucket_def get_bucket_def bindM_def on_db_def)
  show ?thesis
  proof (cases "get_object (mq_bucket rq) (mq_source rq) c None ?ps False (sv_db s)")
    case (Pair r d)
    have d: "d = sv_db s" using get_object_state [of "mq_bucket rq" "mq_source rq" c None ?ps False "sv_db s"] Pair by simp
    show ?thesis
    proof (cases r)
      case (Inl e)
      then show ?thesis using bk Pair d by (simp add: MoveObject_def bindM_def on_db_def Let_def)
    next
      case (Inr res)
      have "get_object (mq_bucket rq) (mq_source rq) c (Some (Inr 0)) ?ps False (sv_db s) = (Inr res, sv_db s)"
        using Pair Inr d by (simp add: get_object_zero)
      then obtain live where look: "lookup_object (mq_bucket rq) (mq_source rq) c (Some (Inr 0)) ?ps True (sv_db s)
          = (Inr (res, live), sv_db s)"
        using lookup_state [of "mq_bucket rq" "mq_source rq" c "Some (Inr 0)" ?ps True "sv_db s"]
        by (auto simp: get_object_def bindM_Inr_iff)
      then obtain src where src: "res = Some src"
        using lookup_decisive [OF decisive_grpc look] by blast
      note l = lookup_found [OF look [unfolded src] assms(1)]
      then have "held m (map_of ls (mq_source rq))"
        using assms(3) by (auto simp: grpc_preconditions_iff)
      then have "\<not> held m (map_of ls (mq_destination rq))"
        using held_unique assms(4) by metis
      then have refused: "check_preconditions ?ps blob (map_of ls (mq_destination rq)) c \<noteq> Inr True" for blob
        using assms(3) by (simp add: grpc_preconditions_iff)
      let ?made = "making_object (\<lambda>_ s. s) bk ((b_metadata src)\<lparr>om_bucket := mq_bucket rq, om_name := mq_destination rq\<rparr>)
          (object_init (objects_of env) (he_now env) no_request no_params
             (append_chunks env (b_media src) (bytes_media_init (oe_crc32c env) [])) False c None False)"
      obtain r1 t1 where made: "?made s = (r1, t1)" by fastforce
      have run: "MoveObject env c rq s = bindM ?made (\<lambda>(dst, _).
          seqM (on_db (insert_object (mq_bucket rq) dst c ?ps))
          (seqM (delete_now env c (mq_bucket rq) (mq_source rq) 0 ?ps) (ret (b_metadata dst)))) s"
        using bk Pair Inr d src by (simp add: MoveObject_def bindM_def on_db_def Let_def)
      show ?thesis
      proof (cases r1)
        case (Inl e)
        then show ?thesis using run made making_tables [OF made] by (simp add: bindM_def)
      next
        case (Inr y)
        obtain b p where y: "y = (b, p)" by (cases y)
        have "bk_name bk = bucket_key (mq_bucket rq) c"
          using found bucket_name_key [OF assms(2)] by blast
        then have "map_of (buckets (sv_db s)) (bk_name bk) = Some bk" using found by simp
        then have b: "b_name b = mq_destination rq" "sv_db t1 = sv_db s"
          using object_made [OF made [unfolded Inr y]] assms(2) plain_call_instruction [OF assms(5)] by auto
        let ?check = "check_preconditions ?ps (map_option b_metageneration (current_object os ls (b_name b)))
            (map_of ls (b_name b)) c"
        have "?check \<noteq> Inr True" "?check \<noteq> Inr False"
          using refused b(1) check_decisive [OF decisive_grpc] by simp_all
        then obtain e where "?check = Inl e" by (cases ?check) auto
        then have "insert_object (mq_bucket rq) b c ?ps (sv_db t1) = (Inl e, sv_db t1)"
          by (simp add: b(2) insert_object_result [OF assms(1)])
        then show ?thesis
          using run made Inr y b by (simp add: bindM_def seqM_def on_db_def)
      qed
    qed
  qed
qed

text \<open>C39: An update whose contexts are refused has changed the object already: the request ends with the
  error of the check, and the object that is read afterwards has the new metadata, with the old
  metageneration.\<close>

theorem refused_update_changes_object:
  assumes "contents (sv_db s) (bucket_key (om_bucket (uq_object rq)) c) = Some (bk, os, ls, sd)"
    and "map_of ls (om_name (uq_object rq)) = Some h" and "map_of os (object_key (om_name (uq_object rq)) h) = Some b"
    and "b_generation b = h"
    and "om_generation (uq_object rq) = 0" and "uq_conditions rq = []" and "uq_predefined_acl rq = []"
    and "ml_intersect lib immutable_object_fields (uq_paths rq) = []" and "ml_valid lib (pl_safe (plan_update rq))"
    and "om_contexts (change_object env rq None (b_metadata b)) = Some custom"
    and "grpc_validate_object_contexts c custom = Inl e"
    and "insert_test_bucket env s = (Inr (), s)" and "plain_call c"
  shows "\<exists>t. UpdateObject env lib c rq s = (Inl e, t)
    \<and> get_object (om_bucket (uq_object rq)) (om_name (uq_object rq)) c None [] False (sv_db t)
        = (Inr (Some (map_metadata (change_object env rq None) b)), sv_db t)"
proof -
  let ?b = "om_bucket (uq_object rq)" and ?n = "om_name (uq_object rq)"
  let ?k = "bucket_key ?b c" and ?new = "map_metadata (change_object env rq None) b"
  let ?d = "upd_objects ?k (AList.map_entry (object_key ?n h) (\<lambda>_. ?new)) (sv_db s)"
  have no_id: "get_retry_test_id_from_context c = None" using assms(13) by (simp add: plain_call_def)
  have look: "lookup_object ?b ?n c (Some (Inr 0)) [] True (sv_db s) = (Inr (Some b, Some h), sv_db s)"
    by (rule lookup_live [OF assms(1-3)]) simp_all
  have "update_impl env c rq None b (sv_db s) = (Inl e, ?d)"
    using assms(4,10,11) by (simp add: update_impl_def Let_def seqM_def bindM_def)
  then have "UpdateObject env lib c rq s = (Inl e, s\<lparr>sv_db := ?d\<rparr>)"
    using assms(5-9,12) look
    by (simp add: UpdateObject_def grpc_retry_test_plain [OF no_id] Let_def bindM_def seqM_def on_db_def
        do_update_object_def generation_of_field_def make_grpc_preconditions_def select_def)
  moreover have altered: "contents ?d ?k = Some (bk, AList.map_entry (object_key ?n h) (\<lambda>_. ?new) os, ls, sd)"
    using assms(1) by (simp add: contents_upd)
  have "map_of (AList.map_entry (object_key ?n h) (\<lambda>_. ?new) os) (object_key ?n h) = Some ?new"
    using assms(3) by (simp add: map_of_map_entry)
  then have "lookup_object ?b ?n c None [] True ?d = (Inr (Some ?new, Some h), ?d)"
    by (intro lookup_live [OF altered assms(2)]) simp_all
  then have "get_object ?b ?n c None [] False ?d = (Inr (Some ?new), ?d)"
    by (rule get_object_of_lookup(1))
  ultimately show ?thesis by auto
qed

text \<open>A context of an update that has the value that is there already replaces the stored context as the
  request has it: the times of the stored context are lost.\<close>

lemma put_context_same_value:
  assumes "map_of custom k = Some old" and "cp_value v = cp_value old"
  shows "map_of (put_context now (k, v) custom) k = Some v"
  using assms by (simp add: put_context_def update_conv')

section \<open>Witnesses\<close>

lemma sample_grpc_contents:
  "contents (sv_db sample_service) (bucket_key (bucket_key ''b'' Rest) (Grpc [])) = Some (sample_bucket\<lparr>bk_ubla := False\<rparr>,
     [(object_key ''o'' 7, sample_source)], [(''o'', 7)], [])"
proof -
  have "bucket_key (bucket_key ''b'' Rest) (Grpc []) = bucket_key ''b'' Rest" by (simp add: bucket_key_def)
  then show ?thesis by (simp only: sample_service_contents) (simp add: sample_service_def sample_service_contents)
qed

definition sample_move :: move_request where
  "sample_move = \<lparr>mq_bucket = bucket_key ''b'' Rest, mq_source = ''o'', mq_destination = ''p'',
     mq_conditions = [(''if_generation_match'', 7)]\<rparr>"

theorem guarded_grpc_move_is_refused_witness:
  "\<exists>e t. MoveObject sample_handler_env (Grpc []) sample_move sample_service = (Inl e, t)
    \<and> objects (sv_db t) = objects (sv_db sample_service)"
proof -
  have "contents (sv_db sample_service) (bucket_key (mq_bucket sample_move) (Grpc [])) = Some (sample_bucket\<lparr>bk_ubla := False\<rparr>,
      [(object_key ''o'' 7, sample_source)], [(''o'', 7)], [])"
    "map_of (mq_conditions sample_move) ''if_generation_match'' = Some 7"
    "map_of [(''o'', 7 :: int)] (mq_destination sample_move) \<noteq> map_of [(''o'', 7)] (mq_source sample_move)"
    using sample_grpc_contents by (simp_all add: sample_move_def)
  from guarded_grpc_move_is_refused [OF this(1) sample_stream_pieces(5) this(2,3) sample_write_simps(4), of sample_handler_env]
  show ?thesis by blast
qed

definition sample_masks :: mask_lib where
  "sample_masks = \<lparr>ml_intersect = (\<lambda>xs ys. filter (\<lambda>x. x \<in> set ys) xs), ml_valid = (\<lambda>_. True)\<rparr>"

definition sample_update :: update_request where
  "sample_update = \<lparr>uq_object = new_obj_meta\<lparr>om_bucket := bucket_key ''b'' Rest, om_name := ''o'',
       om_metadata := [(''k'', ''v'')],
       om_contexts := Some [(''!'', \<lparr>cp_value = ''v'', cp_create_time = 0, cp_update_time = 0\<rparr>)]\<rparr>,
     uq_paths = [''metadata'', ''contexts''], uq_predefined_acl = [], uq_conditions = []\<rparr>"

theorem refused_update_changes_object_witness:
  "\<exists>e t b. UpdateObject sample_handler_env sample_masks (Grpc []) sample_update sample_service = (Inl e, t)
    \<and> get_object (bucket_key ''b'' Rest) ''o'' (Grpc []) None [] False (sv_db t) = (Inr (Some b), sv_db t)
    \<and> om_metadata (b_metadata b) = [(''k'', ''v'')]
    \<and> om_metageneration (b_metadata b) = om_metageneration (b_metadata sample_source)"
proof -
  let ?new = "change_object sample_handler_env sample_update None (b_metadata sample_source)"
  have c: "contents (sv_db sample_service) (bucket_key (om_bucket (uq_object sample_update)) (Grpc []))
      = Some (sample_bucket\<lparr>bk_ubla := False\<rparr>, [(object_key ''o'' 7, sample_source)], [(''o'', 7)], [])"
    using sample_grpc_contents by (simp add: sample_update_def)
  have rq: "map_of [(''o'', 7 :: int)] (om_name (uq_object sample_update)) = Some 7"
      "map_of [(object_key ''o'' 7, sample_source)] (object_key (om_name (uq_object sample_update)) 7) = Some sample_source"
      "b_generation sample_source = 7" "om_generation (uq_object sample_update) = 0" "uq_conditions sample_update = []"
      "uq_predefined_acl sample_update = []"
      "ml_intersect sample_masks immutable_object_fields (uq_paths sample_update) = []"
      "ml_valid sample_masks (pl_safe (plan_update sample_update))"
    by (simp_all add: sample_update_def new_obj_meta_def sample_source_def b_generation_def sample_masks_def
        immutable_object_fields_def)
  have plan: "pl_replace_contexts (plan_update sample_update)" "\<not> pl_reset_contexts (plan_update sample_update)"
      "pl_replace_metadata (plan_update sample_update)" "pl_safe (plan_update sample_update) = []"
    by (simp_all add: plan_update_def sample_update_def plan_path_def)
  have new: "om_metadata ?new = [(''k'', ''v'')]" "om_metageneration ?new = om_metageneration (b_metadata sample_source)"
      "om_contexts ?new = Some (stamp_contexts 8 [(''!'', \<lparr>cp_value = ''v'', cp_create_time = 0, cp_update_time = 0\<rparr>)])"
    using plan
    by (simp_all add: change_object_def Let_def update_contexts_def update_annotations_def contexts_of_def
        sample_update_def sample_objects_def sample_env_def merge_fields_def)
  moreover have "\<exists>e. grpc_validate_object_contexts (Grpc [])
      (stamp_contexts 8 [(''!'', \<lparr>cp_value = ''v'', cp_create_time = 0, cp_update_time = 0\<rparr>)]) = Inl e"
    by (simp add: grpc_validate_object_contexts_def stamp_contexts_def grpc_context_item_def is_alnum_def is_digit_def
        is_lower_az_def is_upper_az_def py_ord_def)
  ultimately obtain custom e where "om_contexts ?new = Some custom" "grpc_validate_object_contexts (Grpc []) custom = Inl e"
    by blast
  moreover have "insert_test_bucket sample_handler_env sample_service = (Inr (), sample_service)"
    by (simp add: insert_test_bucket_def)
  ultimately obtain t where "UpdateObject sample_handler_env sample_masks (Grpc []) sample_update sample_service = (Inl e, t)"
      "get_object (om_bucket (uq_object sample_update)) (om_name (uq_object sample_update)) (Grpc []) None [] False (sv_db t)
        = (Inr (Some (map_metadata (change_object sample_handler_env sample_update None) sample_source)), sv_db t)"
    using refused_update_changes_object [OF c rq(1-8) _ _ _ sample_write_simps(4)] by blast
  then show ?thesis using new(1,2) by (auto simp: sample_update_def)
qed

end
