(* ===== verification/Bucket_Handlers.thy ===== *)
theory Bucket_Handlers
  imports Gcs_Bucket Grpc_Objects
begin

text \<open>
  The handlers of buckets: over REST their resource, their two ACLs, their notifications and
  their IAM policy (\<open>src/testbench/rest_server.py\<close>), over gRPC the nine calls of
  \<open>src/testbench/grpc_server.py\<close>.
\<close>

section \<open>State\<close>

text \<open>In the code the index holds the \<open>Bucket\<close> objects themselves.  Here the index of the database holds
  the fields that the database and the object handlers read, and \<open>hs_messages\<close> holds the rest:
  a bucket is found by laying the fields of the index over its message, so that there is one value of
  each.\<close>

record bucket_service =
  hs_service :: service
  hs_messages :: "(string \<times> gcs_bucket) list"

type_synonym 'a bucketM = "(err, bucket_service, 'a) pym"

text \<open>What comes from outside: the parts of \<open>bucket_env\<close>, the dictionary of an entry of the
  ACL of a bucket, field masks (intersection, validity, \<open>MergeMessage\<close>), the text of an entity tag, the
  conversions of IAM policies, the orders in which Python iterates the two sets of keys of a
  notification, and what \<open>Bucket.init\<close> makes of the test bucket.\<close>

record bucket_lib =
  bl_env :: bucket_env
  bl_acl_dict :: "acl_entry \<Rightarrow> dict"
  bl_intersect :: "string list \<Rightarrow> string list \<Rightarrow> string list"
  bl_valid :: "string list \<Rightarrow> bool"
  bl_merge :: "string list \<Rightarrow> bucket_message \<Rightarrow> bucket_message \<Rightarrow> bucket_message"
  bl_show_bytes :: "bytes \<Rightarrow> string"
  bl_parse_policy :: "dict \<Rightarrow> err + iam_policy"
  bl_policy_dict :: "iam_policy \<Rightarrow> dict"
  bl_required :: "string list"
  bl_optional :: "string list"
  bl_test_bucket :: gcs_bucket

definition index_part :: "gcs_bucket \<Rightarrow> bucket" where
  "index_part b = bucket.truncate (gb_metadata b)"

definition overlay :: "bucket \<Rightarrow> gcs_bucket \<Rightarrow> gcs_bucket" where
  "overlay bk b = b\<lparr>gb_metadata := bucket.extend bk (bucket.more (gb_metadata b))\<rparr>"

definition in_service :: "'a serviceM \<Rightarrow> 'a bucketM" where
  "in_service m s = (case m (hs_service s) of (r, t) \<Rightarrow> (r, s\<lparr>hs_service := t\<rparr>))"

definition put_message :: "string \<Rightarrow> gcs_bucket \<Rightarrow> bucket_service \<Rightarrow> bucket_service" where
  "put_message k b s = s\<lparr>hs_messages := AList.update k b (hs_messages s)\<rparr>"

section \<open>The operations of the database, on whole buckets\<close>

text \<open>A precondition that does not hold raises an error, so \<open>get_bucket\<close> never returns \<open>None\<close>; its
  \<open>AttributeError\<close> here is what \<open>None.metadata\<close> would raise.\<close>

definition find_bucket :: "string \<Rightarrow> ctx \<Rightarrow> bucket_precondition list \<Rightarrow> gcs_bucket bucketM" where
  "find_bucket bucket_name c preconditions =
     bindM (in_service (on_db (get_bucket bucket_name c preconditions))) (\<lambda>found. case found of
       None \<Rightarrow> raise (Exc AttributeError)
     | Some bk \<Rightarrow>
       bindM (getS (\<lambda>s. map_of (hs_messages s) (bucket_key bucket_name c))) (\<lambda>message. case message of
         None \<Rightarrow> raise (Exc KeyError)
       | Some b \<Rightarrow> ret (overlay bk b)))"

definition create_bucket :: "handler_env \<Rightarrow> gcs_bucket \<Rightarrow> ctx \<Rightarrow> unit bucketM" where
  "create_bucket env b c =
     seqM (in_service (on_db (insert_bucket (he_validate env) (index_part b) c)))
       (modS (put_message (bk_name (gb_metadata b)) b))"

definition drop_bucket :: "string \<Rightarrow> ctx \<Rightarrow> bucket_precondition list \<Rightarrow> unit bucketM" where
  "drop_bucket bucket_name c preconditions =
     seqM (in_service (on_db (delete_bucket bucket_name c preconditions)))
       (modS (\<lambda>s. s\<lparr>hs_messages := AList.delete (bucket_key bucket_name c) (hs_messages s)\<rparr>))"

text \<open>\<open>do_update_bucket\<close>: a function that raises an error may have changed the bucket before, which it
  changes in place; the observers are told only when it returns.\<close>

definition write_bucket_back :: "string \<Rightarrow> gcs_bucket \<Rightarrow> bucket_service \<Rightarrow> bucket_service" where
  "write_bucket_back k b s =
     put_message k b (s\<lparr>hs_service := set_bucket k (index_part b) (hs_service s)\<rparr>)"

definition change_bucket ::
    "string \<Rightarrow> ctx \<Rightarrow> bucket_precondition list \<Rightarrow> (gcs_bucket \<Rightarrow> (err + 'a) \<times> gcs_bucket)
      \<Rightarrow> ('a \<times> gcs_bucket) bucketM" where
  "change_bucket bucket_name c preconditions update_fn =
     bindM (find_bucket bucket_name c preconditions) (\<lambda>b. case update_fn b of
       (Inl e, b') \<Rightarrow> seqM (modS (write_bucket_back (bucket_key bucket_name c) b')) (raise e)
     | (Inr x, b') \<Rightarrow>
         seqM (in_service (on_db (do_update_bucket bucket_name
             (\<lambda>bk. Inr (index_part (snd (update_fn (overlay bk b))))) c preconditions)))
         (seqM (modS (put_message (bucket_key bucket_name c) b')) (ret (x, b'))))"

text \<open>A change that happens as a whole or not at all.\<close>

definition attempt :: "(gcs_bucket \<Rightarrow> err + 'a \<times> gcs_bucket) \<Rightarrow> gcs_bucket \<Rightarrow> (err + 'a) \<times> gcs_bucket" where
  "attempt f b = (case f b of Inl e \<Rightarrow> (Inl e, b) | Inr (x, b') \<Rightarrow> (Inr x, b'))"

definition ensure_test_bucket :: "handler_env \<Rightarrow> bucket_lib \<Rightarrow> unit bucketM" where
  "ensure_test_bucket env lib =
     seqM (in_service (insert_test_bucket env))
       (modS (\<lambda>s. case he_test_bucket env of
           None \<Rightarrow> s
         | Some (name, _) \<Rightarrow> (let k = bucket_key name Rest in
             if map_of (hs_messages s) k = None \<and> map_of (buckets (sv_db (hs_service s))) k \<noteq> None
             then put_message k (bl_test_bucket lib) s else s)))"

definition rest_conditions :: "request \<Rightarrow> bucket_precondition list" where
  "rest_conditions request = make_json_bucket_preconditions (args request)"

section \<open>The resource over REST\<close>

definition whole_buckets :: "bucket list \<Rightarrow> gcs_bucket list bucketM" where
  "whole_buckets items = bindM (getS hs_messages) (\<lambda>messages.
     liftE (map_ok (\<lambda>bk. case map_of messages (bk_name bk) of
       None \<Rightarrow> Inl (Exc KeyError) | Some b \<Rightarrow> Inr (overlay bk b)) items))"

definition bucket_answer ::
    "handler_env \<Rightarrow> bucket_lib \<Rightarrow> request \<Rightarrow> string \<Rightarrow> gcs_bucket \<Rightarrow> dict bucketM" where
  "bucket_answer env lib request projection b =
     bindM (liftE (bucket_rest (bl_env lib) b)) (\<lambda>rest. ret (selected env request projection rest))"

definition bucket_list :: "handler_env \<Rightarrow> bucket_lib \<Rightarrow> request \<Rightarrow> dict bucketM" where
  "bucket_list env lib request =
     seqM (ensure_test_bucket env lib)
     (let arg_or = (\<lambda>k d. case aget request k of None \<Rightarrow> d | Some v \<Rightarrow> v);
          partial = (py_lower (arg_or ''returnPartialSuccess'' ''false'') = ''true'')
      in bindM (in_service (on_db (list_bucket (aget request ''project'') (arg_or ''prefix'' [])
            (if partial then Some request else None) Rest))) (\<lambda>(items, unreachable).
         bindM (whole_buckets items) (\<lambda>bs.
         bindM (liftE (map_ok (bucket_rest (bl_env lib)) bs)) (\<lambda>rests.
         ret (selected env request (arg_or ''projection'' ''noAcl'')
           ([(''kind'', JStr ''storage#buckets''), (''items'', JList (map JObj rests))]
            @ (if unreachable = [] then [] else [(''unreachable'', JList (map JStr unreachable))])))))))"

definition bucket_insert ::
    "handler_env \<Rightarrow> bucket_lib \<Rightarrow> request \<Rightarrow> bytes \<Rightarrow> string \<Rightarrow> dict bucketM" where
  "bucket_insert env lib request body fresh =
     seqM (ensure_test_bucket env lib)
     (bindM (liftE (he_loads env body)) (\<lambda>data.
      bindM (liftE (bucket_init (bl_env lib) (he_now_local env) fresh request data Rest)) (\<lambda>(b, projection).
      seqM (create_bucket env b Rest) (bucket_answer env lib request projection b))))"

definition bucket_get :: "handler_env \<Rightarrow> bucket_lib \<Rightarrow> request \<Rightarrow> string \<Rightarrow> dict bucketM" where
  "bucket_get env lib request bucket_name =
     seqM (ensure_test_bucket env lib)
     (seqM (ensure_test_bucket env lib)
     (bindM (find_bucket bucket_name Rest (rest_conditions request))
        (bucket_answer env lib request (extract_projection request ''noAcl'' Rest))))"

definition rest_bucket_update ::
    "handler_env \<Rightarrow> bucket_lib \<Rightarrow> request \<Rightarrow> bytes \<Rightarrow> string \<Rightarrow> dict bucketM" where
  "rest_bucket_update env lib request body bucket_name =
     seqM (ensure_test_bucket env lib)
     (bindM (change_bucket bucket_name Rest (rest_conditions request) (\<lambda>b. case he_loads env body of
          Inl e \<Rightarrow> (Inl e, b)
        | Inr data \<Rightarrow> bucket_update (bl_env lib) (he_now_local env) request data Rest b))
        (\<lambda>(_, b). bucket_answer env lib request (extract_projection request ''full'' Rest) b))"

definition rest_bucket_patch ::
    "handler_env \<Rightarrow> bucket_lib \<Rightarrow> request \<Rightarrow> bytes \<Rightarrow> string \<Rightarrow> dict bucketM" where
  "rest_bucket_patch env lib request body bucket_name =
     seqM (liftE (enforce_patch_override request))
     (bindM (change_bucket bucket_name Rest (rest_conditions request) (\<lambda>b. case he_loads env body of
          Inl e \<Rightarrow> (Inl e, b)
        | Inr data \<Rightarrow> bucket_patch (bl_env lib) (he_now_local env) request data Rest b))
        (\<lambda>(_, b). bucket_answer env lib request (extract_projection request ''full'' Rest) b))"

definition bucket_delete :: "request \<Rightarrow> string \<Rightarrow> unit bucketM" where
  "bucket_delete request bucket_name = drop_bucket bucket_name Rest (rest_conditions request)"

section \<open>The two ACLs over REST\<close>

definition bucket_acl_answer :: "bucket_lib \<Rightarrow> string \<Rightarrow> acl_entry \<Rightarrow> err + dict" where
  "bucket_acl_answer lib bucket_name acl =
     bindE (bucket_access_control_as_rest (bl_acl_dict lib) bucket_name acl) as_dict"

definition default_acl_answer :: "handler_env \<Rightarrow> string \<Rightarrow> acl_entry \<Rightarrow> err + dict" where
  "default_acl_answer env bucket_name acl =
     bindE (default_object_access_control_as_rest (he_acl_dict env) bucket_name acl) as_dict"

text \<open>A change of an ACL whose answer is the entry; \<open>read\<close> makes the resource of it.\<close>

definition change_acl ::
    "handler_env \<Rightarrow> request \<Rightarrow> bytes \<Rightarrow> string \<Rightarrow> (dict \<Rightarrow> gcs_bucket \<Rightarrow> err + acl_entry \<times> gcs_bucket)
      \<Rightarrow> (acl_entry \<Rightarrow> err + dict) \<Rightarrow> dict bucketM" where
  "change_acl env request body bucket_name change read =
     bindM (change_bucket bucket_name Rest []
        (attempt (\<lambda>b. bindE (he_loads env body) (\<lambda>payload. change payload b)))) (\<lambda>(acl, _).
     bindM (liftE (read acl)) (\<lambda>rest. ret (selected env request [] rest)))"

definition bucket_acl_list :: "handler_env \<Rightarrow> bucket_lib \<Rightarrow> request \<Rightarrow> string \<Rightarrow> dict bucketM" where
  "bucket_acl_list env lib request bucket_name =
     bindM (find_bucket bucket_name Rest []) (\<lambda>b.
     bindM (liftE (map_ok (bucket_acl_answer lib bucket_name) (bk_acl (gb_metadata b)))) (\<lambda>items.
     ret (selected env request [] [(''kind'', JStr ''storage#bucketAccessControls''),
       (''items'', JList (map JObj items))])))"

definition bucket_acl_insert ::
    "handler_env \<Rightarrow> bucket_lib \<Rightarrow> request \<Rightarrow> bytes \<Rightarrow> string \<Rightarrow> dict bucketM" where
  "bucket_acl_insert env lib request body bucket_name =
     change_acl env request body bucket_name (\<lambda>payload. bucket_insert_acl (bl_env lib) payload Rest)
       (bucket_acl_answer lib bucket_name)"

definition bucket_acl_get ::
    "handler_env \<Rightarrow> bucket_lib \<Rightarrow> request \<Rightarrow> string \<Rightarrow> string \<Rightarrow> dict bucketM" where
  "bucket_acl_get env lib request bucket_name entity =
     bindM (find_bucket bucket_name Rest []) (\<lambda>b.
     bindM (liftE (bindE (bucket_get_acl (bl_env lib) entity Rest b) (bucket_acl_answer lib bucket_name)))
       (\<lambda>rest. ret (selected env request [] rest)))"

definition bucket_acl_update ::
    "handler_env \<Rightarrow> bucket_lib \<Rightarrow> request \<Rightarrow> bytes \<Rightarrow> string \<Rightarrow> string \<Rightarrow> dict bucketM" where
  "bucket_acl_update env lib request body bucket_name entity =
     change_acl env request body bucket_name (\<lambda>payload. bucket_update_acl (bl_env lib) payload entity Rest)
       (bucket_acl_answer lib bucket_name)"

text \<open>\<open>patch_acl\<close> does the same as \<open>update_acl\<close>.\<close>

definition bucket_acl_patch ::
    "handler_env \<Rightarrow> bucket_lib \<Rightarrow> request \<Rightarrow> bytes \<Rightarrow> string \<Rightarrow> string \<Rightarrow> dict bucketM" where
  "bucket_acl_patch env lib request body bucket_name entity =
     seqM (liftE (enforce_patch_override request))
       (change_acl env request body bucket_name
          (\<lambda>payload. bucket_update_acl (bl_env lib) payload entity Rest) (bucket_acl_answer lib bucket_name))"

definition bucket_acl_delete :: "bucket_lib \<Rightarrow> string \<Rightarrow> string \<Rightarrow> unit bucketM" where
  "bucket_acl_delete lib bucket_name entity =
     seqM (change_bucket bucket_name Rest []
        (attempt (\<lambda>b. bindE (bucket_delete_acl (bl_env lib) entity Rest b) (\<lambda>b. Inr ((), b))))) (ret ())"

definition bucket_default_object_acl_list :: "handler_env \<Rightarrow> request \<Rightarrow> string \<Rightarrow> dict bucketM" where
  "bucket_default_object_acl_list env request bucket_name =
     bindM (find_bucket bucket_name Rest []) (\<lambda>b.
     bindM (liftE (map_ok (default_acl_answer env bucket_name) (bk_default_object_acl (gb_metadata b))))
       (\<lambda>items.
     ret (selected env request [] [(''kind'', JStr ''storage#objectAccessControls''),
       (''items'', JList (map JObj items))])))"

definition bucket_default_object_acl_insert ::
    "handler_env \<Rightarrow> bucket_lib \<Rightarrow> request \<Rightarrow> bytes \<Rightarrow> string \<Rightarrow> dict bucketM" where
  "bucket_default_object_acl_insert env lib request body bucket_name =
     change_acl env request body bucket_name
       (\<lambda>payload. insert_default_object_acl (bl_env lib) payload Rest) (default_acl_answer env bucket_name)"

definition bucket_default_object_acl_get ::
    "handler_env \<Rightarrow> bucket_lib \<Rightarrow> request \<Rightarrow> string \<Rightarrow> string \<Rightarrow> dict bucketM" where
  "bucket_default_object_acl_get env lib request bucket_name entity =
     bindM (find_bucket bucket_name Rest []) (\<lambda>b.
     bindM (liftE (bindE (get_default_object_acl (bl_env lib) entity Rest b)
         (default_acl_answer env bucket_name)))
       (\<lambda>rest. ret (selected env request [] rest)))"

definition bucket_default_object_acl_update ::
    "handler_env \<Rightarrow> bucket_lib \<Rightarrow> request \<Rightarrow> bytes \<Rightarrow> string \<Rightarrow> string \<Rightarrow> dict bucketM" where
  "bucket_default_object_acl_update env lib request body bucket_name entity =
     change_acl env request body bucket_name
       (\<lambda>payload. update_default_object_acl (bl_env lib) payload entity Rest)
       (default_acl_answer env bucket_name)"

definition bucket_default_object_acl_patch ::
    "handler_env \<Rightarrow> bucket_lib \<Rightarrow> request \<Rightarrow> bytes \<Rightarrow> string \<Rightarrow> string \<Rightarrow> dict bucketM" where
  "bucket_default_object_acl_patch env lib request body bucket_name entity =
     seqM (liftE (enforce_patch_override request))
       (change_acl env request body bucket_name
          (\<lambda>payload. update_default_object_acl (bl_env lib) payload entity Rest)
          (default_acl_answer env bucket_name))"

definition bucket_default_object_acl_delete :: "bucket_lib \<Rightarrow> string \<Rightarrow> string \<Rightarrow> unit bucketM" where
  "bucket_default_object_acl_delete lib bucket_name entity =
     seqM (change_bucket bucket_name Rest []
        (attempt (\<lambda>b. bindE (delete_default_object_acl (bl_env lib) entity Rest b) (\<lambda>b. Inr ((), b)))))
       (ret ())"

section \<open>Notifications and policies over REST\<close>

text \<open>The notifications are changed in the bucket itself; the observers are not told.\<close>

definition bucket_notification_list :: "string \<Rightarrow> dict bucketM" where
  "bucket_notification_list bucket_name =
     bindM (find_bucket bucket_name Rest []) (\<lambda>b. ret (list_notifications b))"

definition bucket_notification_insert ::
    "handler_env \<Rightarrow> bucket_lib \<Rightarrow> bytes \<Rightarrow> string \<Rightarrow> string \<Rightarrow> dict bucketM" where
  "bucket_notification_insert env lib body fresh bucket_name =
     bindM (find_bucket bucket_name Rest []) (\<lambda>b.
     bindM (liftE (he_loads env body)) (\<lambda>data.
     bindM (liftE (insert_notification fresh (bl_required lib) (bl_optional lib) data Rest b))
       (\<lambda>(notification, b').
     seqM (modS (put_message (bucket_key bucket_name Rest) b')) (ret notification))))"

definition bucket_notification_get :: "string \<Rightarrow> string \<Rightarrow> dict bucketM" where
  "bucket_notification_get bucket_name notification_id =
     bindM (find_bucket bucket_name Rest []) (\<lambda>b. liftE (get_notification notification_id Rest b))"

definition bucket_notification_delete :: "string \<Rightarrow> string \<Rightarrow> unit bucketM" where
  "bucket_notification_delete bucket_name notification_id =
     bindM (find_bucket bucket_name Rest []) (\<lambda>b.
     bindM (liftE (delete_notification notification_id Rest b)) (\<lambda>b'.
     modS (put_message (bucket_key bucket_name Rest) b')))"

definition policy_answer :: "bucket_lib \<Rightarrow> gcs_bucket \<Rightarrow> dict" where
  "policy_answer lib b =
     AList.update ''kind'' (JStr ''storage#policy'') (bl_policy_dict lib (gb_iam_policy b))"

definition bucket_get_iam_policy :: "handler_env \<Rightarrow> bucket_lib \<Rightarrow> string \<Rightarrow> dict bucketM" where
  "bucket_get_iam_policy env lib bucket_name =
     seqM (ensure_test_bucket env lib)
       (bindM (find_bucket bucket_name Rest []) (\<lambda>b. ret (policy_answer lib b)))"

definition bucket_set_iam_policy ::
    "handler_env \<Rightarrow> bucket_lib \<Rightarrow> bytes \<Rightarrow> string \<Rightarrow> string \<Rightarrow> dict bucketM" where
  "bucket_set_iam_policy env lib body fresh bucket_name =
     seqM (ensure_test_bucket env lib)
     (bindM (change_bucket bucket_name Rest [] (attempt (\<lambda>b. bindE (he_loads env body)
         (\<lambda>data. set_iam_policy_rest fresh (bl_parse_policy lib) data b))))
       (\<lambda>(_, b). ret (policy_answer lib b)))"

definition bucket_test_iam_permissions :: "request \<Rightarrow> string \<Rightarrow> dict bucketM" where
  "bucket_test_iam_permissions request bucket_name =
     seqM (in_service (on_db (get_bucket bucket_name Rest [])))
       (ret [(''kind'', JStr ''storage#testIamPermissionsResponse''),
         (''permissions'', JList (map (JStr \<circ> snd) (filter (\<lambda>(k, _). k = ''permissions'') (args request))))])"

text \<open>Locking sets two fields of the retention policy, which makes one when there is none.\<close>

definition lock_policy :: "int \<Rightarrow> gcs_bucket \<Rightarrow> (err + unit) \<times> gcs_bucket" where
  "lock_policy now b = (let m = gb_metadata b in
     (Inr (), b\<lparr>gb_metadata := m\<lparr>bk_retention := Some (case bk_retention m of None \<Rightarrow> 0 | Some n \<Rightarrow> n),
        bk_retention_locked := True, bk_retention_effective_time := Some now\<rparr>\<rparr>))"

definition bucket_lock_retention_policy ::
    "handler_env \<Rightarrow> bucket_lib \<Rightarrow> request \<Rightarrow> string \<Rightarrow> dict bucketM" where
  "bucket_lock_retention_policy env lib request bucket_name =
     bindM (change_bucket bucket_name Rest (rest_conditions request) (lock_policy (he_now_local env)))
       (\<lambda>(_, b). liftE (bucket_rest (bl_env lib) b))"

section \<open>The calls over gRPC\<close>

text \<open>The decorator \<open>retry_test\<close> of the gRPC server.\<close>

definition grpc_call :: "ctx \<Rightarrow> string \<Rightarrow> 'a bucketM \<Rightarrow> 'a bucketM" where
  "grpc_call c m func = seqM (in_service (on_tests (grpc_handle_retry_test_instruction c m))) func"

definition DeleteBucket :: "ctx \<Rightarrow> string \<Rightarrow> (string \<times> int) list \<Rightarrow> unit bucketM" where
  "DeleteBucket c name conds = grpc_call c ''storage.buckets.delete''
     (drop_bucket name c (make_grpc_bucket_preconditions conds))"

definition GetBucket :: "ctx \<Rightarrow> string \<Rightarrow> (string \<times> int) list \<Rightarrow> bucket_message bucketM" where
  "GetBucket c name conds = grpc_call c ''storage.buckets.get''
     (bindM (find_bucket name c (make_grpc_bucket_preconditions conds)) (\<lambda>b. ret (gb_metadata b)))"

definition CreateBucket ::
    "handler_env \<Rightarrow> bucket_lib \<Rightarrow> ctx \<Rightarrow> string \<Rightarrow> create_bucket_request \<Rightarrow> bucket_message bucketM" where
  "CreateBucket env lib c fresh rq = grpc_call c ''storage.buckets.insert''
     (bindM (liftE (init_grpc (bl_env lib) (he_now_local env) fresh rq c)) (\<lambda>(b, _).
     seqM (create_bucket env b c) (ret (gb_metadata b))))"

text \<open>\<open>ListBucketsRequest\<close>.\<close>

record list_buckets_request =
  lb_parent :: string
  lb_prefix :: string
  lb_return_partial_success :: bool
  lb_read_mask :: "string list"

definition instructed_unreachable :: "ctx \<Rightarrow> string list serviceM" where
  "instructed_unreachable c = (let m = ''storage.buckets.list'' in
     case get_retry_test_id_from_context c of
       None \<Rightarrow> ret []
     | Some test_id \<Rightarrow>
       if test_id = [] then ret [] else
       bindM (on_tests (has_instructions_retry_test test_id m ''GRPC'')) (\<lambda>has.
       if \<not> has then ret [] else
       bindM (on_tests (peek_next_instruction test_id m)) (\<lambda>next. case next of
         None \<Rightarrow> raise (Exc TypeError)
       | Some instruction \<Rightarrow> (case re_match retry_return_unreachable_buckets instruction of
           Some (g # _) \<Rightarrow>
             seqM (on_tests (dequeue_next_instruction test_id m)) (ret (split_on CHR '','' g))
         | _ \<Rightarrow> ret []))))"

definition masked_bucket :: "bucket_lib \<Rightarrow> string list \<Rightarrow> bucket_message \<Rightarrow> bucket_message \<Rightarrow> bucket_message" where
  "masked_bucket lib paths blank b =
     (if paths = [] then b\<lparr>bk_acl := [], bk_default_object_acl := [],
        bk_owner_entity := [], bk_owner_entity_id := []\<rparr>
      else if paths = [''*''] then b else bl_merge lib paths b blank)"

text \<open>The buckets that are reachable, with the fields that the mask selects, and the names of the others.\<close>

definition split_listing ::
    "bucket_lib \<Rightarrow> bucket_message \<Rightarrow> list_buckets_request \<Rightarrow> gcs_bucket list \<Rightarrow> string list
      \<Rightarrow> bucket_message list \<times> string list" where
  "split_listing lib blank rq bs instructed =
     (let name_of = (\<lambda>b. bk_name (gb_metadata b));
          unreachable_names = (if instructed = [] \<and> lb_return_partial_success rq
            then filter (\<lambda>name. contains name ''unreachable'') (map name_of bs) else instructed)
      in (map (masked_bucket lib (lb_read_mask rq) blank \<circ> gb_metadata)
            (filter (\<lambda>b. name_of b \<notin> set unreachable_names) bs),
          filter (\<lambda>name. name \<in> set unreachable_names) (map name_of bs)))"

definition ListBuckets ::
    "bucket_lib \<Rightarrow> bucket_message \<Rightarrow> ctx \<Rightarrow> list_buckets_request \<Rightarrow> (bucket_message list \<times> string list) bucketM" where
  "ListBuckets lib blank c rq = grpc_call c ''storage.buckets.list''
     (if \<not> startswith (lb_parent rq) ''projects/''
      then raise (invalid (''invalid format for parent='' @ lb_parent rq) c)
      else
      bindM (in_service (on_db (list_bucket (Some (drop 9 (lb_parent rq))) (lb_prefix rq) None c)))
        (\<lambda>all. bindM (whole_buckets (fst all)) (\<lambda>bs.
      bindM (if lb_return_partial_success rq then in_service (instructed_unreachable c) else ret [])
        (\<lambda>instructed. ret (split_listing lib blank rq bs instructed)))))"

definition LockBucketRetentionPolicy ::
    "handler_env \<Rightarrow> ctx \<Rightarrow> string \<Rightarrow> int \<Rightarrow> bucket_message bucketM" where
  "LockBucketRetentionPolicy env c name if_metageneration_match = grpc_call c ''storage.buckets.lockRetentionPolicy''
     ((if if_metageneration_match \<le> 0
      then raise (invalid (''invalid metageneration precondition='' @ show_int if_metageneration_match) c)
      else bindM (change_bucket name c
          [\<lambda>metageneration c. let actual = (case metageneration of None \<Rightarrow> 0 | Some n \<Rightarrow> n) in
             if if_metageneration_match = actual then Inr True
             else Inl (mismatch ''if_metageneration_match'' (show_int if_metageneration_match)
                         (show_int actual) c)]
          (lock_policy (he_now_local env))) (\<lambda>(_, b). ret (gb_metadata b))))"

definition GetIamPolicy :: "ctx \<Rightarrow> string \<Rightarrow> iam_policy bucketM" where
  "GetIamPolicy c name = grpc_call c ''storage.buckets.getIamPolicy''
     (bindM (find_bucket name c []) (\<lambda>b. ret (gb_iam_policy b)))"

definition SetIamPolicy :: "bucket_lib \<Rightarrow> ctx \<Rightarrow> string \<Rightarrow> string \<Rightarrow> iam_policy \<Rightarrow> iam_policy bucketM" where
  "SetIamPolicy lib c fresh name policy = grpc_call c ''storage.buckets.setIamPolicy''
     (bindM (change_bucket name c [] (attempt (set_iam_policy_grpc fresh (bl_show_bytes lib) policy c)))
       (\<lambda>(_, b). ret (gb_iam_policy b)))"

definition TestIamPermissions :: "ctx \<Rightarrow> string \<Rightarrow> string list \<Rightarrow> string list bucketM" where
  "TestIamPermissions c name permissions = grpc_call c ''storage.buckets.testIamPermissions''
     (seqM (in_service (on_db (get_bucket name c []))) (ret permissions))"

text \<open>\<open>UpdateBucketRequest\<close>; \<open>labels\<close> are handled by hand, key by key or all at once.\<close>

record update_bucket_request =
  bu_bucket :: bucket_message
  bu_paths :: "string list"
  bu_conditions :: "(string \<times> int) list"

definition immutable_bucket_fields :: "string list" where
  "immutable_bucket_fields = [''name'', ''bucket_id'', ''project'', ''metageneration'', ''location'',
     ''location_type'', ''create_time'', ''update_time'', ''owner'']"

record bucket_plan =
  bp_safe :: "string list"
  bp_labels :: "(string \<times> string) list"
  bp_removed_labels :: "string list"
  bp_replace_labels :: bool

definition plan_bucket_path :: "bucket_message \<Rightarrow> string \<Rightarrow> bucket_plan \<Rightarrow> bucket_plan" where
  "plan_bucket_path bucket path plan =
     (if path = ''labels'' then plan\<lparr>bp_replace_labels := True\<rparr>
      else if startswith path ''labels.'' then
        (let key = drop 7 path in case map_of (bk_labels bucket) key of
           None \<Rightarrow> plan\<lparr>bp_removed_labels := add_new key (bp_removed_labels plan)\<rparr>
         | Some v \<Rightarrow> plan\<lparr>bp_labels := AList.update key v (bp_labels plan)\<rparr>)
      else if path = ''acl'' \<or> path = ''default_object_acl'' then plan
      else plan\<lparr>bp_safe := add_new path (bp_safe plan)\<rparr>)"

definition plan_bucket_update :: "update_bucket_request \<Rightarrow> bucket_plan" where
  "plan_bucket_update rq = fold (plan_bucket_path (bu_bucket rq)) (bu_paths rq)
     \<lparr>bp_safe = [], bp_labels = [], bp_removed_labels = [], bp_replace_labels = False\<rparr>"

definition updated_labels :: "bucket_message \<Rightarrow> bucket_plan \<Rightarrow> (string \<times> string) list \<Rightarrow> (string \<times> string) list" where
  "updated_labels source plan labels =
     (if bp_replace_labels plan then dict_update [] (bk_labels source)
      else fold AList.delete (bp_removed_labels plan) (dict_update labels (bp_labels plan)))"

text \<open>The fields that the mask names, before the check of the soft delete policy.\<close>

definition merged_bucket :: "bucket_lib \<Rightarrow> int \<Rightarrow> update_bucket_request \<Rightarrow> bucket_message \<Rightarrow> bucket_message" where
  "merged_bucket lib now rq m =
     (let source = bu_bucket rq; paths = bu_paths rq; plan = plan_bucket_update rq;
          m = bl_merge lib (bp_safe plan) source m;
          m = (if ''acl'' \<in> set paths then m\<lparr>bk_acl := bk_acl source\<rparr> else m);
          m = (if ''autoclass'' \<in> set paths then m\<lparr>bk_toggle_time := Some now\<rparr> else m);
          m = (if ''default_object_acl'' \<in> set paths
               then m\<lparr>bk_default_object_acl := bk_default_object_acl source\<rparr> else m)
      in m\<lparr>bk_labels := updated_labels source plan (bk_labels m)\<rparr>)"

definition apply_bucket_update ::
    "bucket_lib \<Rightarrow> int \<Rightarrow> ctx \<Rightarrow> update_bucket_request \<Rightarrow> gcs_bucket \<Rightarrow> (err + unit) \<times> gcs_bucket" where
  "apply_bucket_update lib now c rq b =
     (let m = merged_bucket lib now rq (gb_metadata b);
          stamp = (\<lambda>m. m\<lparr>bk_metageneration := bk_metageneration m + 1, bk_update_time := now\<rparr>)
      in if ''soft_delete_policy'' \<notin> set (bu_paths rq) then (Inr (), b\<lparr>gb_metadata := stamp m\<rparr>)
         else case validate_soft_delete_policy c m of
           Inl e \<Rightarrow> (Inl e, b\<lparr>gb_metadata := m\<rparr>)
         | Inr _ \<Rightarrow> (Inr (), b\<lparr>gb_metadata := stamp (m\<lparr>
             bk_soft_delete := Some (case bk_soft_delete m of None \<Rightarrow> 0 | Some n \<Rightarrow> n),
             bk_soft_delete_effective_time := Some now\<rparr>)\<rparr>))"

definition UpdateBucket ::
    "handler_env \<Rightarrow> bucket_lib \<Rightarrow> ctx \<Rightarrow> update_bucket_request \<Rightarrow> bucket_message bucketM" where
  "UpdateBucket env lib c rq = grpc_call c ''storage.buckets.patch''
     (let fixed = bl_intersect lib immutable_bucket_fields (bu_paths rq);
          plan = plan_bucket_update rq
      in if fixed \<noteq> [] then raise (invalid
             (''UpdateBucket() cannot modify immutable Bucket fields ['' @ join '','' fixed @ '']'') c)
         else if \<not> bl_valid lib (bp_safe plan) then raise (invalid
             (''UpdateBucket() invalid field for Bucket ['' @ join '','' (bp_safe plan) @ '']'') c)
         else bindM (change_bucket (bk_name (bu_bucket rq)) c
             (make_grpc_bucket_preconditions (bu_conditions rq))
             (apply_bucket_update lib (he_now_local env) c rq)) (\<lambda>(_, b). ret (gb_metadata b)))"

section \<open>Every call\<close>

text \<open>The calls as data, so that a client is a list of them.  Over REST each runs under the decorator
  \<open>retry_test\<close> with its method.\<close>

datatype bucket_call =
    List_buckets | Insert_bucket bytes string | Get_bucket string | Update_bucket bytes string
  | Patch_bucket bytes string | Delete_bucket string
  | List_acl string | Insert_acl bytes string | Get_acl string string | Update_acl bytes string string
  | Patch_acl bytes string string | Delete_acl string string
  | List_default_acl string | Insert_default_acl bytes string | Get_default_acl string string
  | Update_default_acl bytes string string | Patch_default_acl bytes string string
  | Delete_default_acl string string
  | List_notifications string | Insert_notification bytes string string
  | Get_notification string string | Delete_notification string string
  | Get_policy string | Set_policy bytes string string | Test_permissions string | Lock_retention string

datatype bucket_rpc =
    Delete_rpc string "(string \<times> int) list" | Get_rpc string "(string \<times> int) list"
  | Create_rpc string create_bucket_request | List_rpc bucket_message list_buckets_request
  | Lock_rpc string int | Get_policy_rpc string | Set_policy_rpc string string iam_policy
  | Test_rpc string "string list" | Update_rpc update_bucket_request

definition no_body :: "unit bucketM \<Rightarrow> dict bucketM" where
  "no_body m = seqM m (ret [])"

fun call_method :: "bucket_call \<Rightarrow> string" where
  "call_method List_buckets = ''storage.buckets.list''"
| "call_method (Insert_bucket _ _) = ''storage.buckets.insert''"
| "call_method (Get_bucket _) = ''storage.buckets.get''"
| "call_method (Update_bucket _ _) = ''storage.buckets.update''"
| "call_method (Patch_bucket _ _) = ''storage.buckets.patch''"
| "call_method (Delete_bucket _) = ''storage.buckets.delete''"
| "call_method (List_acl _) = ''storage.bucket_acl.list''"
| "call_method (Insert_acl _ _) = ''storage.bucket_acl.insert''"
| "call_method (Get_acl _ _) = ''storage.bucket_acl.get''"
| "call_method (Update_acl _ _ _) = ''storage.bucket_acl.update''"
| "call_method (Patch_acl _ _ _) = ''storage.bucket_acl.patch''"
| "call_method (Delete_acl _ _) = ''storage.bucket_acl.delete''"
| "call_method (List_default_acl _) = ''storage.default_object_acl.list''"
| "call_method (Insert_default_acl _ _) = ''storage.default_object_acl.insert''"
| "call_method (Get_default_acl _ _) = ''storage.default_object_acl.get''"
| "call_method (Update_default_acl _ _ _) = ''storage.default_object_acl.update''"
| "call_method (Patch_default_acl _ _ _) = ''storage.default_object_acl.patch''"
| "call_method (Delete_default_acl _ _) = ''storage.default_object_acl.delete''"
| "call_method (List_notifications _) = ''storage.notifications.list''"
| "call_method (Insert_notification _ _ _) = ''storage.notifications.insert''"
| "call_method (Get_notification _ _) = ''storage.notifications.get''"
| "call_method (Delete_notification _ _) = ''storage.notifications.delete''"
| "call_method (Get_policy _) = ''storage.buckets.getIamPolicy''"
| "call_method (Set_policy _ _ _) = ''storage.buckets.setIamPolicy''"
| "call_method (Test_permissions _) = ''storage.buckets.testIamPermissions''"
| "call_method (Lock_retention _) = ''storage.buckets.lockRetentionPolicy''"

fun handle_call :: "handler_env \<Rightarrow> bucket_lib \<Rightarrow> request \<Rightarrow> bucket_call \<Rightarrow> dict bucketM" where
  "handle_call env lib r List_buckets = bucket_list env lib r"
| "handle_call env lib r (Insert_bucket body fresh) = bucket_insert env lib r body fresh"
| "handle_call env lib r (Get_bucket b) = bucket_get env lib r b"
| "handle_call env lib r (Update_bucket body b) = rest_bucket_update env lib r body b"
| "handle_call env lib r (Patch_bucket body b) = rest_bucket_patch env lib r body b"
| "handle_call env lib r (Delete_bucket b) = no_body (bucket_delete r b)"
| "handle_call env lib r (List_acl b) = bucket_acl_list env lib r b"
| "handle_call env lib r (Insert_acl body b) = bucket_acl_insert env lib r body b"
| "handle_call env lib r (Get_acl b e) = bucket_acl_get env lib r b e"
| "handle_call env lib r (Update_acl body b e) = bucket_acl_update env lib r body b e"
| "handle_call env lib r (Patch_acl body b e) = bucket_acl_patch env lib r body b e"
| "handle_call env lib r (Delete_acl b e) = no_body (bucket_acl_delete lib b e)"
| "handle_call env lib r (List_default_acl b) = bucket_default_object_acl_list env r b"
| "handle_call env lib r (Insert_default_acl body b) = bucket_default_object_acl_insert env lib r body b"
| "handle_call env lib r (Get_default_acl b e) = bucket_default_object_acl_get env lib r b e"
| "handle_call env lib r (Update_default_acl body b e) =
     bucket_default_object_acl_update env lib r body b e"
| "handle_call env lib r (Patch_default_acl body b e) =
     bucket_default_object_acl_patch env lib r body b e"
| "handle_call env lib r (Delete_default_acl b e) = no_body (bucket_default_object_acl_delete lib b e)"
| "handle_call env lib r (List_notifications b) = bucket_notification_list b"
| "handle_call env lib r (Insert_notification body fresh b) =
     bucket_notification_insert env lib body fresh b"
| "handle_call env lib r (Get_notification b i) = bucket_notification_get b i"
| "handle_call env lib r (Delete_notification b i) = no_body (bucket_notification_delete b i)"
| "handle_call env lib r (Get_policy b) = bucket_get_iam_policy env lib b"
| "handle_call env lib r (Set_policy body fresh b) = bucket_set_iam_policy env lib body fresh b"
| "handle_call env lib r (Test_permissions b) = bucket_test_iam_permissions r b"
| "handle_call env lib r (Lock_retention b) = bucket_lock_retention_policy env lib r b"

definition serve_call ::
    "handler_env \<Rightarrow> bucket_lib \<Rightarrow> request \<Rightarrow> bucket_call \<Rightarrow> (response_fn \<times> dict) bucketM" where
  "serve_call env lib request call =
     bindM (in_service (on_tests (handle_retry_test_instruction request (call_method call)))) (\<lambda>response_handler.
     bindM (handle_call env lib request call) (\<lambda>answer. ret (response_handler, answer)))"

fun serve_rpc :: "handler_env \<Rightarrow> bucket_lib \<Rightarrow> ctx \<Rightarrow> bucket_rpc \<Rightarrow> unit bucketM" where
  "serve_rpc env lib c (Delete_rpc b ps) = DeleteBucket c b ps"
| "serve_rpc env lib c (Get_rpc b ps) = seqM (GetBucket c b ps) (ret ())"
| "serve_rpc env lib c (Create_rpc fresh rq) = seqM (CreateBucket env lib c fresh rq) (ret ())"
| "serve_rpc env lib c (List_rpc blank rq) = seqM (ListBuckets lib blank c rq) (ret ())"
| "serve_rpc env lib c (Lock_rpc b m) = seqM (LockBucketRetentionPolicy env c b m) (ret ())"
| "serve_rpc env lib c (Get_policy_rpc b) = seqM (GetIamPolicy c b) (ret ())"
| "serve_rpc env lib c (Set_policy_rpc fresh b p) = seqM (SetIamPolicy lib c fresh b p) (ret ())"
| "serve_rpc env lib c (Test_rpc b ps) = seqM (TestIamPermissions c b ps) (ret ())"
| "serve_rpc env lib c (Update_rpc rq) = seqM (UpdateBucket env lib c rq) (ret ())"

end
