(* ===== verification/Database_Steps.thy ===== *)
theory Database_Steps
  imports Database_Behaviour
begin

text \<open>
  The database as a state machine: one step for every public method of
  \<open>src/testbench/database.py\<close> that changes state, with whatever arguments and whether it
  returns or raises.  In every state that is reached from the empty database the invariant
  holds, and a store that follows the notifications knows which generations exist and which
  are live.

  The callback of \<open>do_update_object\<close> may call the database itself, as the one that inserts the empty
  object of an appendable upload does, and keeps
  the name and the generation of the object that it is handed; the callback of \<open>do_update_bucket\<close> keeps the name of the
  bucket.  The preconditions of a deletion are like those of the builders, which never answer \<open>False\<close>
  (\<open>decisive\<close>), and the instructions of a retry test come as a dictionary, without a repeated method.
\<close>

inductive db_step :: "db \<Rightarrow> db \<Rightarrow> bool" where
  step_clear: "db_step s (snd (clear s))"
| step_insert_bucket: "db_step s (snd (insert_bucket validate bk c s))"
| step_seed_buckets: "db_step s (snd (seed_buckets validate mk names s))"
| step_delete_bucket: "db_step s (snd (delete_bucket b c bps s))"
| step_update_bucket: "(\<And>bk bk'. bf bk = Inr bk' \<Longrightarrow> bk_name bk' = bk_name bk) \<Longrightarrow>
    db_step s (snd (do_update_bucket b bf c bps s))"
| step_list_bucket: "db_step s (snd (list_bucket p pre request c s))"
| step_insert_object: "db_step s (snd (insert_object b blob c ps s))"
| step_delete_object: "decisive ps \<Longrightarrow> db_step s (snd (delete_object clk b n c g ps s))"
| step_update_object: "(\<And>blob live t. db_step\<^sup>*\<^sup>* t (snd ((f :: blob option \<Rightarrow> int option \<Rightarrow> (unit \<times> blob option) dbM) blob live t))) \<Longrightarrow>
    keeps_identity n f \<Longrightarrow> db_step s (snd (do_update_object b n f c ga ps req s))"
| step_restore_object: "db_step s (snd (restore_object clk b n g ps c s))"
| step_insert_upload: "db_step s (snd (insert_upload i b s))"
| step_delete_upload: "db_step s (snd (delete_upload i c s))"
| step_insert_rewrite: "db_step s (snd (insert_rewrite i b s))"
| step_delete_rewrite: "db_step s (snd (delete_rewrite i c s))"
| step_insert_folder: "db_step s (snd (insert_folder i v c s))"
| step_delete_folder: "db_step s (snd (delete_folder i c s))"
| step_rename_folder: "db_step s (snd (rename_folder i j c s))"
| step_insert_supported_methods: "db_step s (snd (on_retry_db (insert_supported_methods ms) s))"
| step_insert_retry_test: "distinct (map fst instrs) \<Longrightarrow>
    db_step s (snd (on_retry_db (insert_retry_test new_id instrs tr) s))"
| step_dequeue: "db_step s (snd (on_retry_db (dequeue_next_instruction i m) s))"
| step_delete_retry_test: "db_step s (snd (on_retry_db (delete_retry_test i) s))"

text \<open>The callback that inserts another object, unless it does not like the one it is handed.\<close>

lemma nested_insertion_step:
  "db_step s (snd (do_update_object b n (\<lambda>latest live. if refused latest then raise e
     else seqM (insert_object b' blob c' ps') (ret ((), latest))) c ga ps req s))"
proof (rule step_update_object)
  fix latest :: "blob option" and live :: "int option" and t
  have "db_step t (snd (insert_object b' blob c' ps' t))" by (rule step_insert_object)
  then show "db_step\<^sup>*\<^sup>* t (snd ((if refused latest then raise e
     else seqM (insert_object b' blob c' ps') (ret ((), latest))) t))"
    by (auto simp: seqM_def bindM_def split: prod.split sum.split)
qed (auto simp: keeps_identity_def seqM_Inr_iff split: if_splits)

abbreviation reachable :: "db \<Rightarrow> bool" where
  "reachable \<equiv> db_step\<^sup>*\<^sup>* initial_db"

section \<open>Steps beside the index\<close>

text \<open>What a step may do that touches neither buckets nor objects: the notifications of
  uploads, rewrites and folders say nothing about them.\<close>

fun aside_event :: "event \<Rightarrow> bool" where
  "aside_event (Upload_deleted _ _) = True"
| "aside_event (Rewrite_deleted _ _) = True"
| "aside_event (Folder_inserted _) = True"
| "aside_event (Folder_deleted _) = True"
| "aside_event (Folder_renamed _ _) = True"
| "aside_event _ = False"

definition aside :: "db \<Rightarrow> db \<Rightarrow> bool" where
  "aside s t \<longleftrightarrow> buckets t = buckets s \<and> objects t = objects s
     \<and> live_generations t = live_generations s \<and> soft_deleted t = soft_deleted s
     \<and> (retry_wf (retry s) \<longrightarrow> retry_wf (retry t))
     \<and> (\<exists>es. events t = events s @ es \<and> (\<forall>e \<in> set es. aside_event e))"

lemma aside_wf: "aside s t \<Longrightarrow> db_wf s \<Longrightarrow> db_wf t"
  by (simp add: db_wf_def aside_def aligned_def contents_def)

lemma aside_same:
  assumes "buckets t = buckets s" and "objects t = objects s" and "soft_deleted t = soft_deleted s"
    and "live_generations t = live_generations s" and "retry t = retry s"
    and "events t = events s \<or> (\<exists>e. events t = events s @ [e] \<and> aside_event e)"
  shows "aside s t"
  using assms by (auto simp: aside_def)

lemma aside_on_retry:
  assumes "keeps retry_wf m"
  shows "aside s (snd (on_retry_db m s))"
  using keepsD [OF assms, of "retry s"] by (auto simp: aside_def on_retry_db_def split: prod.splits)

lemmas aside_steps = insert_upload_def delete_upload_def get_upload_def insert_rewrite_def
  delete_rewrite_def get_rewrite_def insert_folder_def delete_folder_def get_folder_def
  rename_folder_def bindM_def seqM_def notify_app

lemma aside_ops:
  "aside s (snd (insert_upload i b s))"
  "aside s (snd (delete_upload i c s))"
  "aside s (snd (insert_rewrite i b s))"
  "aside s (snd (delete_rewrite i c s))"
  "aside s (snd (insert_folder i v c s))"
  "aside s (snd (delete_folder i c s))"
  "aside s (snd (rename_folder i j c s))"
  by (rule aside_same; auto simp: aside_steps split: option.splits)+

lemma aside_retry_ops:
  "aside s (snd (on_retry_db (insert_supported_methods ms) s))"
  "aside s (snd (on_retry_db (dequeue_next_instruction i m) s))"
  "aside s (snd (on_retry_db (delete_retry_test i) s))"
  by (intro aside_on_retry keeps_insert_supported_methods keeps_dequeue keeps_delete_retry_test)+

text \<open>Listing buckets may consume an instruction of a retry test.\<close>

lemma aside_refl: "aside s s"
  by (simp add: aside_def)

lemma aside_trans: "aside s t \<Longrightarrow> aside t u \<Longrightarrow> aside s u"
  unfolding aside_def by (metis append.assoc set_append Un_iff)

lemma aside_bindM:
  assumes "\<And>s. aside s (snd (m s))" and "\<And>x s. aside s (snd (f x s))"
  shows "aside s (snd (bindM m f s))"
proof (cases "m s")
  case (Pair r t)
  then have "aside s t" using assms(1) [of s] by simp
  then show ?thesis
    using Pair assms(2) aside_trans by (cases r) (auto simp: bindM_def)
qed

lemma aside_seqM:
  "(\<And>s. aside s (snd (m s))) \<Longrightarrow> (\<And>s. aside s (snd (n s))) \<Longrightarrow> aside s (snd (seqM m n s))"
  by (simp add: seqM_def aside_bindM)

lemma aside_found:
  "aside s (snd ((case i of None \<Rightarrow> raise (Exc TypeError)
     | Some i \<Rightarrow> (case re_match rexp i of
         Some (g # _) \<Rightarrow> seqM (on_retry_db (dequeue_next_instruction test_id m)) (ret (split_on d g))
       | _ \<Rightarrow> ret [])) s))"
  by (auto split: option.split list.split intro!: aside_seqM aside_retry_ops simp: aside_refl)

lemma aside_unreachable: "aside s (snd (unreachable_instruction r s))"
  unfolding unreachable_instruction_def Let_def
  by (cases "hget r ''x-retry-test-id''")
    (auto simp: aside_refl intro!: aside_bindM aside_on_retry keeps_has keeps_peek aside_found)

lemma aside_list_bucket: "aside s (snd (list_bucket p pre request c s))"
proof -
  have "aside s (snd ((case request of None \<Rightarrow> ret [] | Some r \<Rightarrow> unreachable_instruction r) s))" for s
    by (auto simp: aside_refl aside_unreachable split: option.split)
  then show ?thesis
    unfolding list_bucket_def Let_def
    by (auto simp: aside_refl intro!: aside_bindM)
qed

section \<open>Reachable states\<close>

context observer
begin

lemma synced_of_aside:
  assumes "synced s" and "aside s t"
  shows "synced t"
proof -
  obtain es where "events t = events s @ es" "\<forall>e \<in> set es. aside_event e"
    using assms(2) by (auto simp: aside_def)
  moreover have "step e v = v" if "aside_event e" for e v
    using that by (cases e) (simp_all add: silent)
  ultimately show ?thesis
    using assms aside_wf [OF assms(2) synced_wf [OF assms(1)]]
    by (intro synced_aside [of s t es]) (auto simp: aside_def)
qed

lemma follows_seed: "keeps synced (seed_buckets validate mk names)"
  unfolding seed_buckets_def
  by (intro keeps_each keeps_bindM keeps_if follows_insert_bucket) auto

lemma synced_step: "db_step s t \<Longrightarrow> synced s \<Longrightarrow> synced t"
proof (induction rule: db_step.induct)
  case (step_update_object f n s b c ga ps req)
  have "keeps synced (f blob live)" for blob live
  proof (rule keepsI)
    fix u assume "synced u"
    with step_update_object.IH [of u blob live] show "synced (snd (f blob live u))"
      by (induction rule: rtranclp_induct) auto
  qed
  then show ?case
    using keepsD [OF follows_do_update_object [OF _ step_update_object.hyps] step_update_object.prems] by blast
qed (blast intro: synced_of_aside aside_ops aside_retry_ops aside_list_bucket aside_on_retry
       keeps_insert_retry_test
       keepsD [OF follows_clear] keepsD [OF follows_insert_bucket] keepsD [OF follows_seed]
       keepsD [OF follows_delete_bucket] keepsD [OF follows_do_update_bucket]
       keepsD [OF follows_insert_object] keepsD [OF follows_delete_object]
       keepsD [OF follows_restore_object])+

lemma synced_reachable: "reachable s \<Longrightarrow> synced s"
  by (induction rule: rtranclp_induct) (auto simp: synced_initial intro: synced_step)

end

section \<open>Properties of the index\<close>

text \<open>A small history that the witnesses use: a bucket with a soft delete policy of one hour,
  and an object in it.\<close>

definition sample_bucket :: bucket where
  "sample_bucket = \<lparr>bk_name = ''projects/_/buckets/b'', bk_metageneration = 1, bk_project = [],
     bk_storage_class = [], bk_acl = [], bk_default_object_acl = [], bk_versioning = False,
     bk_ubla = False, bk_retention = None, bk_retention_locked = False,
     bk_soft_delete = Some 3600, bk_autoclass = False\<rparr>"

definition sample_blob :: "string \<Rightarrow> int \<Rightarrow> blob" where
  "sample_blob n g = \<lparr>b_metadata = new_obj_meta\<lparr>om_name := n, om_generation := g,
     om_metageneration := 1\<rparr>, b_media = \<lparr>bm_buf = [1, 2], bm_crc = 0, bm_md5 = [1, 2]\<rparr>,
     b_upload = None, b_upload_gen = 0\<rparr>"

definition sample_db :: db where
  "sample_db = snd (insert_object ''b'' (sample_blob ''o'' 7) Rest []
     (snd (insert_bucket (\<lambda>_ _. Inr ()) sample_bucket Rest initial_db)))"

lemma sample_reachable: "reachable sample_db"
proof -
  have "reachable (snd (insert_bucket (\<lambda>_ _. Inr ()) sample_bucket Rest initial_db))"
    by (rule r_into_rtranclp) (rule step_insert_bucket)
  then show ?thesis
    unfolding sample_db_def by (rule rtranclp.rtrancl_into_rtrancl) (rule step_insert_object)
qed

lemma sample_wf: "db_wf sample_db"
  using generations.synced_reachable [OF sample_reachable] by (rule generations.synced_wf)

lemmas sample_defs = sample_db_def sample_bucket_def sample_blob_def initial_db_def
  new_obj_meta_def

text \<open>C19: In every state that the public methods of the database reach from the empty one, whether they return or raise,
  with any arguments such that the callbacks of updates keep the name of the bucket, or the name and the
  generation of the object, the conditions of deletions do not answer \<open>False\<close>, and the
  instructions of a retry test name each method once, the index is well-formed: the dictionaries of
  buckets, objects, live generations and soft deleted objects have the same buckets, every object
  is filed under its name and generation, every live generation is that of an object that is
  held, and the retry tests hold only valid instructions for supported methods.\<close>

theorem reachable_index_wf:
  assumes "reachable s"
  shows "db_wf s"
  using generations.synced_reachable [OF assms] by (rule generations.synced_wf)

theorem reachable_index_wf_witness: "db_wf sample_db"
  using sample_reachable by (rule reachable_index_wf)

text \<open>C20: A store that only follows the notifications of the database knows exactly which buckets
  and which generations of which objects the index holds, in every reachable state.\<close>

theorem notifications_determine_generations:
  assumes "reachable s"
  shows "fold generations_step (events s) (held_generations initial_db) = held_generations s"
  using generations.synced_reachable [OF assms]
  by (simp add: generations.synced_def generations.replay_def)

theorem notifications_determine_generations_witness:
  "fold generations_step (events sample_db) (held_generations initial_db)
     = held_generations sample_db"
  using sample_reachable by (rule notifications_determine_generations)

text \<open>A store that only follows the notifications of the database knows, in every reachable
  state, which generation of every object is live.\<close>

theorem notifications_determine_live:
  assumes "reachable s"
  shows "fold live_step (events s) (live_view initial_db) = live_view s"
  using live.synced_reachable [OF assms] by (simp add: live.synced_def live.replay_def)

theorem notifications_determine_live_witness:
  "fold live_step (events sample_db) (live_view initial_db) = live_view sample_db"
  using sample_reachable by (rule notifications_determine_live)

section \<open>Properties of single operations\<close>

text \<open>C21: An object that has been inserted is what the next read of its name returns, media and
  metadata, whatever was there before.\<close>

theorem inserted_object_is_read:
  assumes "reachable s" and "decisive ps" and "insert_object b blob c ps s = (Inr (), t)"
  shows "get_object b (b_name blob) c None [] False t = (Inr (Some blob), t)"
  using assms(3) generations.synced_wf [OF generations.synced_reachable [OF assms(1)]] assms(2)
  by (rule insert_then_get)

theorem inserted_object_is_read_witness:
  "get_object ''b'' ''o'' Rest None [] False
      (snd (insert_object ''b'' (sample_blob ''o'' 9) Rest [] sample_db))
    = (Inr (Some (sample_blob ''o'' 9)),
       snd (insert_object ''b'' (sample_blob ''o'' 9) Rest [] sample_db))"
proof -
  have "insert_object ''b'' (sample_blob ''o'' 9) Rest [] sample_db
      = (Inr (), snd (insert_object ''b'' (sample_blob ''o'' 9) Rest [] sample_db))"
    by code_simp
  from inserted_object_is_read [OF sample_reachable _ this] show ?thesis
    by (simp add: sample_blob_def b_name_def new_obj_meta_def)
qed

text \<open>C22: Inserting an object leaves every other generation, of the same name and of other names,
  exactly as it was for a reader that asks for it.\<close>

theorem insert_leaves_other_generations:
  assumes "reachable s" and "decisive ps" and "insert_object b blob c ps s = (Inr (), t)"
    and "(n, g) \<noteq> (b_name blob, b_generation blob)" and "g \<noteq> 0"
  shows "fst (get_object b n c (Some (Inr g)) [] False t)
       = fst (get_object b n c (Some (Inr g)) [] False s)"
  using assms(3) generations.synced_wf [OF generations.synced_reachable [OF assms(1)]] assms(2,4,5)
  by (rule insert_frame)

theorem insert_leaves_other_generations_witness:
  "fst (get_object ''b'' ''o'' Rest (Some (Inr 7)) [] False
        (snd (insert_object ''b'' (sample_blob ''o'' 9) Rest [] sample_db)))
    = fst (get_object ''b'' ''o'' Rest (Some (Inr 7)) [] False sample_db)"
proof -
  have "insert_object ''b'' (sample_blob ''o'' 9) Rest [] sample_db
      = (Inr (), snd (insert_object ''b'' (sample_blob ''o'' 9) Rest [] sample_db))"
    by code_simp
  then show ?thesis
    by (rule insert_leaves_other_generations [OF sample_reachable decisive_Nil])
      (simp_all add: sample_blob_def b_generation_def)
qed

text \<open>C23: After the live object of a name has been deleted, reading the name is a 404: there is no
  live version, also when the bucket keeps the object as soft deleted.\<close>

theorem deleted_object_is_gone:
  assumes "reachable s" and "decisive ps" and "delete_object clk b n c 0 ps s = (Inr (), t)"
  shows "fst (get_object b n c None qs False t)
       = Inl (notfound (''Live version of object '' @ b @ ''/'' @ n) c)"
  using assms(3) generations.synced_wf [OF generations.synced_reachable [OF assms(1)]] assms(2)
  by (rule delete_then_get)

definition sample_clock :: "int \<Rightarrow> clock" where
  "sample_clock x = \<lparr>now_utc = x, now_local = x\<rparr>"

theorem deleted_object_is_gone_witness:
  "fst (get_object ''b'' ''o'' Rest None [] False
        (snd (delete_object (sample_clock 0) ''b'' ''o'' Rest 0 [] sample_db)))
    = Inl (notfound (''Live version of object b/o'') Rest)"
proof -
  have "delete_object (sample_clock 0) ''b'' ''o'' Rest 0 [] sample_db
      = (Inr (), snd (delete_object (sample_clock 0) ''b'' ''o'' Rest 0 [] sample_db))"
    by code_simp
  from deleted_object_is_gone [OF sample_reachable decisive_Nil this, of "[]"] show ?thesis
    by simp
qed

text \<open>Deleting a generation that is not the live one leaves the live one live, and the deleted
  one cannot be read any more.\<close>

theorem delete_noncurrent_generation:
  assumes "reachable s" and "decisive ps" and "delete_object clk b n c g ps s = (Inr (), t)"
    and "g \<noteq> 0" and "live_view s (bucket_key b c) n \<noteq> Some g"
  shows "live_view t (bucket_key b c) n = live_view s (bucket_key b c) n
    \<and> fst (get_object b n c (Some (Inr g)) qs False t)
       = Inl (notfound (''Could not find object '' @ b @ ''/'' @ n @ ''#'' @ show_int g) c)"
proof
  note wf = generations.synced_wf [OF generations.synced_reachable [OF assms(1)]]
  show "live_view t (bucket_key b c) n = live_view s (bucket_key b c) n"
    using assms(3) wf assms(2,4,5) by (rule delete_noncurrent_keeps_live)
  show "fst (get_object b n c (Some (Inr g)) qs False t)
       = Inl (notfound (''Could not find object '' @ b @ ''/'' @ n @ ''#'' @ show_int g) c)"
    using assms(3) wf assms(2,4) by (rule delete_generation_then_get)
qed

definition sample_two :: db where
  "sample_two = snd (insert_object ''b'' (sample_blob ''o'' 9) Rest [] sample_db)"

lemma sample_two_reachable: "reachable sample_two"
  unfolding sample_two_def
  using sample_reachable by (rule rtranclp.rtrancl_into_rtrancl) (rule step_insert_object)

theorem delete_noncurrent_generation_witness:
  "live_view (snd (delete_object (sample_clock 0) ''b'' ''o'' Rest 7 [] sample_two))
     (bucket_key ''b'' Rest) ''o'' = live_view sample_two (bucket_key ''b'' Rest) ''o''
   \<and> fst (get_object ''b'' ''o'' Rest (Some (Inr 7)) [] False
        (snd (delete_object (sample_clock 0) ''b'' ''o'' Rest 7 [] sample_two)))
    = Inl (notfound (''Could not find object b/o#7'') Rest)"
proof -
  have del: "delete_object (sample_clock 0) ''b'' ''o'' Rest 7 [] sample_two
      = (Inr (), snd (delete_object (sample_clock 0) ''b'' ''o'' Rest 7 [] sample_two))"
    by code_simp
  have live: "live_view sample_two (bucket_key ''b'' Rest) ''o'' \<noteq> Some 7"
    by code_simp
  have message: "''b'' @ ''/'' @ ''o'' @ ''#'' @ show_int 7 = ''b/o#7''"
    by code_simp
  show ?thesis
    using delete_noncurrent_generation [OF sample_two_reachable decisive_Nil del _ live, of "[]"]
    unfolding message by simp
qed

text \<open>C24: Restoring a soft deleted generation that has not expired makes the object live again with
  its media, at the next generation number.  It also forgets every other soft deleted generation
  of the name, because the filter that should drop the restored one keeps only that number.\<close>

theorem restore_brings_back_and_forgets:
  assumes "reachable s" and "contents s (bucket_key b c) = Some (bk, os, ls, sd)"
    and "bk_soft_delete bk \<noteq> None" and "map_of os (object_key n g) = None"
    and "map_of sd n = Some bs" and "distinct (map b_generation bs)" and "old \<in> set bs"
    and "b_generation old = g" and "now_local clk < hard_delete_time old"
  shows "\<exists>t blob. restore_object clk b n g [] c s = (Inr blob, t)
    \<and> get_object b n c None [] False t = (Inr (Some blob), t)
    \<and> b_media blob = b_media old \<and> b_generation blob = g + 1
    \<and> (\<forall>h. get_soft_deleted_object b n h c t = (Inl (notfound n c), t))"
proof -
  let ?blob = "map_metadata (restored clk bk) old"
  have wf: "db_wf s"
    using generations.synced_wf [OF generations.synced_reachable [OF assms(1)]] .
  have soft: "soft_ok sd"
    using wf_contents [OF wf assms(2)] by (simp add: contents_ok_def)
  have pre: "check_preconditions [] (map_option b_metageneration (current_object os ls n))
      (map_of ls n) c = Inr True"
    by simp
  obtain t sd' where t: "restore_object clk b n g [] c s = (Inr ?blob, t)"
      "contents t (bucket_key b c) = Some (bk, AList.update (object_key n (g + 1)) ?blob os,
         AList.update n (g + 1) ls, sd')" "map_of sd' n = Some []"
      "\<forall>m. m \<noteq> n \<longrightarrow> map_of sd' m = map_of sd m"
    by (rule restore_object_ok [OF assms(2,3) soft assms(4-9) pre refl])
  have "get_object b n c None [] False t = (Inr (Some ?blob), t)"
    using get_live_of_contents [OF t(2), of n "g + 1" ?blob] by (simp add: map_of_update_if)
  moreover have "get_soft_deleted_object b n h c t = (Inl (notfound n c), t)" for h
    using soft_deleted_none [OF t(2,3)] by simp
  ultimately show ?thesis
    using t(1) assms(8) restored_generation [of clk bk old] by auto
qed

definition sample_deleted :: db where
  "sample_deleted = snd (delete_object (sample_clock 0) ''b'' ''o'' Rest 7 []
     (snd (delete_object (sample_clock 0) ''b'' ''o'' Rest 9 [] sample_two)))"

lemma sample_deleted_reachable: "reachable sample_deleted"
proof -
  have "reachable (snd (delete_object (sample_clock 0) ''b'' ''o'' Rest 9 [] sample_two))"
    using sample_two_reachable
    by (rule rtranclp.rtrancl_into_rtrancl) (rule step_delete_object [OF decisive_Nil])
  then show ?thesis
    unfolding sample_deleted_def
    by (rule rtranclp.rtrancl_into_rtrancl) (rule step_delete_object [OF decisive_Nil])
qed

definition sample_soft :: "int \<Rightarrow> blob" where
  "sample_soft g = soft_deleted_blob (sample_clock 0) 3600 (sample_blob ''o'' g)"

lemma sample_deleted_contents:
  "contents sample_deleted (bucket_key ''b'' Rest)
     = Some (sample_bucket, [], [], [(''o'', [sample_soft 9, sample_soft 7])])"
  by code_simp

theorem restore_brings_back_and_forgets_witness:
  "\<exists>t blob. restore_object (sample_clock 1000) ''b'' ''o'' 7 [] Rest sample_deleted = (Inr blob, t)
    \<and> get_object ''b'' ''o'' Rest None [] False t = (Inr (Some blob), t)
    \<and> b_media blob = b_media (sample_soft 7) \<and> b_generation blob = 7 + 1
    \<and> (\<forall>h. get_soft_deleted_object ''b'' ''o'' h Rest t = (Inl (notfound ''o'' Rest), t))"
  by (rule restore_brings_back_and_forgets [OF sample_deleted_reachable sample_deleted_contents,
        of _ _ "[sample_soft 9, sample_soft 7]" "sample_soft 7"])
    (simp_all add: sample_bucket_def sample_soft_def sample_blob_def soft_deleted_blob_def
      b_generation_def hard_delete_time_def sample_clock_def)

text \<open>When the preconditions of a restore fail, the soft deleted object has already been changed:
  the request is answered with the error, and the generation can no longer be restored.\<close>

theorem refused_restore_loses_generation:
  assumes "reachable s" and "contents s (bucket_key b c) = Some (bk, os, ls, sd)"
    and "bk_soft_delete bk \<noteq> None" and "map_of os (object_key n g) = None"
    and "map_of sd n = Some bs" and "distinct (map b_generation bs)" and "old \<in> set bs"
    and "b_generation old = g" and "now_local clk < hard_delete_time old"
    and "check_preconditions ps (map_option b_metageneration (current_object os ls n))
           (map_of ls n) c = Inl e"
  shows "\<exists>t. restore_object clk b n g ps c s = (Inl e, t)
    \<and> get_soft_deleted_object b n g c t = (Inl (notfound n c), t)"
proof -
  have "db_wf s"
    using generations.synced_wf [OF generations.synced_reachable [OF assms(1)]] .
  then have soft: "soft_ok sd"
    using wf_contents assms(2) by (auto simp: contents_ok_def)
  show ?thesis
    using restore_refused [OF assms(2,3) soft assms(4-10)] by metis
qed

theorem refused_restore_loses_generation_witness:
  "\<exists>t. restore_object (sample_clock 1000) ''b'' ''o'' 7
        (make_json_preconditions [(''ifGenerationMatch'', ''5'')] ''if'') Rest sample_deleted
      = (Inl (mismatch ''ifGenerationMatch'' ''5'' ''None'' Rest), t)
    \<and> get_soft_deleted_object ''b'' ''o'' 7 Rest t = (Inl (notfound ''o'' Rest), t)"
proof -
  have refused: "check_preconditions (make_json_preconditions [(''ifGenerationMatch'', ''5'')] ''if'')
      (map_option b_metageneration (current_object [] [] ''o'')) (map_of [] ''o'') Rest
    = Inl (mismatch ''ifGenerationMatch'' ''5'' ''None'' Rest)"
    by code_simp
  show ?thesis
    by (rule refused_restore_loses_generation [OF sample_deleted_reachable
          sample_deleted_contents, of _ _ "[sample_soft 9, sample_soft 7]" "sample_soft 7", OF _ _ _ _ _ _ _ refused])
      (simp_all add: sample_bucket_def sample_soft_def sample_blob_def soft_deleted_blob_def
        b_generation_def hard_delete_time_def sample_clock_def)
qed

text \<open>C25: Listing a bucket without delimiter and glob, neither with versions nor the soft deleted objects, returns the metadata of exactly the
  live objects whose names have the prefix and lie between the offsets, each once, in the order
  of their names, and no prefixes.\<close>

theorem listing_is_exact:
  assumes "reachable s" and "contents s (bucket_key b c) = Some (bk, os, ls, sd)"
    and "plain_listing a"
  shows "\<exists>items. list_object glob a b c s = (Inr (items, []), s)
    \<and> sorted (map om_name items) \<and> distinct (map om_name items)
    \<and> set items = {b_metadata x | x. \<exists>n g. map_of ls n = Some g
         \<and> map_of os (object_key n g) = Some x
         \<and> prefix (la_prefix a) n \<and> la_start_offset a \<le> n
         \<and> (la_end_offset a = [] \<or> n < la_end_offset a)}"
proof -
  have "db_wf s"
    using generations.synced_wf [OF generations.synced_reachable [OF assms(1)]] .
  then have ok: "objs_ok os"
    using wf_contents assms(2) by (auto simp: contents_ok_def)
  obtain items where items: "list_object glob a b c s = (Inr (items, []), s)"
    using list_object_plain [OF assms(2,3), of glob] by blast
  show ?thesis
    using list_object_items [OF assms(2,3) ok items] items unfolding in_range_def by blast
qed

theorem listing_is_exact_witness:
  "\<exists>items. list_object (\<lambda>_ _. True) (extract_list_object_request
        \<lparr>args = [(''prefix'', ''o'')], headers = [], environ = [], verb = ''GET''\<rparr>)
        ''b'' Rest sample_two = (Inr (items, []), sample_two)
    \<and> sorted (map om_name items) \<and> distinct (map om_name items)
    \<and> set items = {b_metadata x | x. \<exists>n g. map_of [(''o'', 9)] n = Some g
         \<and> map_of [(''o#7'', sample_blob ''o'' 7), (''o#9'', sample_blob ''o'' 9)]
             (object_key n g) = Some x
         \<and> prefix ''o'' n \<and> [] \<le> n \<and> ([] = ([] :: string) \<or> n < [])}"
proof -
  have c: "contents sample_two (bucket_key ''b'' Rest) = Some (sample_bucket,
      [(''o#7'', sample_blob ''o'' 7), (''o#9'', sample_blob ''o'' 9)], [(''o'', 9)], [])"
    by code_simp
  show ?thesis
    using listing_is_exact [OF sample_two_reachable c, of "extract_list_object_request
        \<lparr>args = [(''prefix'', ''o'')], headers = [], environ = [], verb = ''GET''\<rparr>"]
    by (simp add: extract_list_object_request_def plain_listing_def aget_def text_arg_def truthy_def)
qed

text \<open>An insert or a delete that is refused, by a precondition or because the bucket or the
  object does not exist, changes nothing and notifies nobody.\<close>

theorem refused_operations_change_nothing:
  assumes "reachable s" and "decisive ps"
    and "insert_object b blob c ps s = (Inl e, t) \<or> delete_object clk b n c g ps s = (Inl e, t)"
  shows "t = s"
proof -
  have "db_wf s"
    using generations.synced_wf [OF generations.synced_reachable [OF assms(1)]] .
  then show ?thesis
    using assms(2,3) insert_object_refused delete_object_refused by metis
qed

theorem refused_operations_change_nothing_witness:
  "snd (insert_object ''b'' (sample_blob ''o'' 9) (Grpc [])
      (make_grpc_preconditions [(''if_generation_match'', 0)] ''if_'') sample_db) = sample_db"
proof -
  have "insert_object ''b'' (sample_blob ''o'' 9) (Grpc [])
      (make_grpc_preconditions [(''if_generation_match'', 0)] ''if_'') sample_db
    = (Inl (notfound ''Bucket b'' (Grpc [])), snd (insert_object ''b'' (sample_blob ''o'' 9)
        (Grpc []) (make_grpc_preconditions [(''if_generation_match'', 0)] ''if_'') sample_db))"
    by code_simp
  then show ?thesis
    by (intro refused_operations_change_nothing [OF sample_reachable decisive_grpc]) (rule disjI1)
qed

end
