(* ===== verification/Bucket_Safety.thy ===== *)
theory Bucket_Safety
  imports Bucket_Handlers Database_Steps "HOL-Library.Multiset"
begin

text \<open>
  What the handlers of buckets keep: the index and the messages describe the same buckets, each under
  its own name, after every call over REST and gRPC, the refused ones included.
\<close>

section \<open>Whole buckets\<close>

lemma extend_parts [simp]:
  "bucket.truncate (bucket.extend bk (bucket.more m)) = bk"
  "bucket.more (bucket.extend bk (bucket.more m)) = bucket.more m"
  "bk_name (bucket.extend bk (bucket.more m)) = bk_name bk"
  "bucket.extend (bucket.truncate m) (bucket.more m) = m"
  by (cases m, simp add: bucket.defs)+

lemma bk_name_truncate [simp]: "bk_name (bucket.truncate m) = bk_name m"
  by (simp add: bucket.defs)

lemma overlay_simps [simp]:
  "index_part (overlay bk b) = bk" "bk_name (gb_metadata (overlay bk b)) = bk_name bk"
  "overlay (index_part b) b = b" "overlay bk (overlay bk' b) = overlay bk b"
  "bk_name (index_part b) = bk_name (gb_metadata b)"
  by (simp_all add: overlay_def index_part_def)

section \<open>Steps that leave the buckets alone\<close>

text \<open>A step of the service that changes nothing that the index of buckets and objects consists of.\<close>

definition beside :: "'a serviceM \<Rightarrow> bool" where
  "beside m \<longleftrightarrow> (\<forall>s. aside (sv_db s) (sv_db (snd (m s))))"

lemma keeps_handle_retry: "keeps retry_wf (handle_retry_test_instruction r m)"
  unfolding handle_retry_test_instruction_def Let_def
  by (auto split: option.split list.split intro!: keeps_bindM keeps_seqM keeps_if keeps_has keeps_peek keeps_dequeue)

lemma keeps_grpc_handle_retry: "keeps retry_wf (grpc_handle_retry_test_instruction c m)"
  unfolding grpc_handle_retry_test_instruction_def Let_def
  by (auto split: option.split intro!: keeps_bindM keeps_seqM keeps_if keeps_has keeps_peek keeps_dequeue)

lemma beside_on_tests: "keeps retry_wf m \<Longrightarrow> beside (on_tests m)"
  unfolding beside_def on_tests_def on_db_def
  using aside_on_retry [of m] by (auto split: prod.split) (metis snd_conv)

lemma beside_on_db: "(\<And>d. aside d (snd (m d))) \<Longrightarrow> beside (on_db m)"
  unfolding beside_def on_db_def by (auto split: prod.split) (metis snd_conv)

lemma beside_ret: "beside (ret x)" "beside (raise e)"
  by (simp_all add: beside_def aside_refl)

lemma beside_bindM: "beside m \<Longrightarrow> (\<And>x. beside (f x)) \<Longrightarrow> beside (bindM m f)"
  unfolding beside_def bindM_def by (auto split: prod.split sum.split) (metis aside_trans snd_conv)+

lemma beside_instructed: "beside (instructed_unreachable c)"
  unfolding instructed_unreachable_def Let_def seqM_def
  by (auto split: option.split list.split
      intro!: beside_bindM beside_ret beside_on_tests keeps_has keeps_peek keeps_dequeue)

section \<open>The invariant\<close>

definition bucket_service_ok :: "bucket_service \<Rightarrow> bool" where
  "bucket_service_ok s \<longleftrightarrow> db_wf (sv_db (hs_service s))
     \<and> (\<forall>k. map_of (hs_messages s) k = None \<longleftrightarrow> map_of (buckets (sv_db (hs_service s))) k = None)"

abbreviation safe :: "'a bucketM \<Rightarrow> bool" where
  "safe m \<equiv> keeps bucket_service_ok m"

text \<open>What is known about field masks, and about what \<open>Bucket.init\<close> makes of the test bucket: a merge
  changes the fields that it names, and the intersection with the immutable fields finds the name.\<close>

definition masks_ok :: "bucket_lib \<Rightarrow> bool" where
  "masks_ok lib \<longleftrightarrow> (\<forall>paths source m. ''name'' \<notin> set paths \<longrightarrow>
       bk_name (be_merge (bl_env lib) paths source m) = bk_name m \<and> bk_name (bl_merge lib paths source m) = bk_name m)
     \<and> (\<forall>paths. ''name'' \<in> set paths \<longrightarrow> bl_intersect lib immutable_bucket_fields paths \<noteq> [])"

definition test_bucket_ok :: "handler_env \<Rightarrow> bool" where
  "test_bucket_ok env \<longleftrightarrow> (\<forall>name bk. he_test_bucket env = Some (name, Inr bk) \<longrightarrow> bk_name bk = bucket_key name Rest)"

lemma in_service_app: "m (hs_service s) = (r, t) \<Longrightarrow> in_service m s = (r, s\<lparr>hs_service := t\<rparr>)"
  by (simp add: in_service_def)

lemma aside_ok:
  "bucket_service_ok s \<Longrightarrow> aside (sv_db (hs_service s)) (sv_db t) \<Longrightarrow> bucket_service_ok (s\<lparr>hs_service := t\<rparr>)"
  using aside_wf by (auto simp: bucket_service_ok_def aside_def)

lemma safe_beside: "beside m \<Longrightarrow> safe (in_service m)"
  unfolding beside_def in_service_def keeps_def by (auto split: prod.split intro!: aside_ok) (metis snd_conv)

lemma safe_read: "(\<And>s. snd (m s) = s) \<Longrightarrow> safe m"
  by (simp add: keeps_def)

lemma get_bucket_reads: "snd (get_bucket b c ps d) = d"
  using get_bucket_state [of b c ps] by simp

lemma safe_get_bucket: "safe (in_service (on_db (get_bucket b c ps)))"
  by (intro safe_beside beside_on_db) (simp add: get_bucket_reads aside_refl)

lemma find_bucket_reads: "snd (find_bucket b c ps s) = s"
  using get_bucket_reads [of b c ps "sv_db (hs_service s)"]
  by (auto simp: find_bucket_def bindM_def in_service_def on_db_def split: prod.splits sum.splits option.splits)

lemma find_bucket_Inr:
  assumes "find_bucket b c ps s = (Inr x, t)"
  obtains bk m where "t = s" and "get_bucket b c ps (sv_db (hs_service s)) = (Inr (Some bk), sv_db (hs_service s))"
    and "map_of (buckets (sv_db (hs_service s))) (bucket_key b c) = Some bk"
    and "map_of (hs_messages s) (bucket_key b c) = Some m" and "x = overlay bk m"
  using assms get_bucket_reads [of b c ps "sv_db (hs_service s)"]
  by (auto simp: find_bucket_def bindM_def in_service_def on_db_def split: prod.splits sum.splits option.splits
      dest: get_bucket_found)

lemma safe_find: "safe (find_bucket b c ps)"
  by (rule safe_read) (rule find_bucket_reads)

section \<open>The operations of the database keep it\<close>

lemma insert_bucket_cases:
  "(\<exists>e. insert_bucket v bk c d = (Inl e, d)) \<or>
   (\<exists>d'. insert_bucket v bk c d = (Inr (), d') \<and> buckets d' = AList.update (bk_name bk) bk (buckets d))"
  by (cases "v (bk_name bk) c"; cases "map_of (buckets d) (bk_name bk)")
    (simp_all add: insert_bucket_def plain_steps notify_def)

lemma wf_insert_bucket: "insert_bucket v bk c d = (r, d') \<Longrightarrow> db_wf d \<Longrightarrow> db_wf d'"
  using keepsD [OF keeps_insert_bucket, of d v bk c] by simp

lemma safe_create: "safe (create_bucket env b c)"
proof (rule keepsI)
  fix s
  assume ok: "bucket_service_ok s"
  then have wf: "db_wf (sv_db (hs_service s))" by (simp add: bucket_service_ok_def)
  consider e where "insert_bucket (he_validate env) (index_part b) c (sv_db (hs_service s)) = (Inl e, sv_db (hs_service s))"
    | d where "insert_bucket (he_validate env) (index_part b) c (sv_db (hs_service s)) = (Inr (), d)"
      "buckets d = AList.update (bk_name (gb_metadata b)) (index_part b) (buckets (sv_db (hs_service s)))"
    using insert_bucket_cases [of "he_validate env" "index_part b" c "sv_db (hs_service s)"] by auto
  then show "bucket_service_ok (snd (create_bucket env b c s))"
  proof cases
    case 1
    then show ?thesis
      using ok by (simp add: create_bucket_def seqM_def bindM_def in_service_def on_db_def bucket_service_ok_def)
  next
    case 2
    then show ?thesis
      using ok wf_insert_bucket [OF 2(1) wf]
      by (auto simp: create_bucket_def seqM_def bindM_def in_service_def on_db_def bucket_service_ok_def
          put_message_def update_conv')
  qed
qed

lemma delete_bucket_cases:
  assumes "db_wf d"
  shows "(\<exists>e. delete_bucket b c ps d = (Inl e, d)) \<or>
   (\<exists>d'. delete_bucket b c ps d = (Inr (), d') \<and> buckets d' = AList.delete (bucket_key b c) (buckets d))"
proof (cases "get_bucket b c ps d")
  case (Pair r d')
  then have d': "d' = d" using get_bucket_reads [of b c ps d] by simp
  consider e where "r = Inl e" | "r = Inr None" | bk where "r = Inr (Some bk)"
    by (cases r; cases "projr r") auto
  then show ?thesis
  proof cases
    case 3
    then have "bk_name bk = bucket_key b c"
      using Pair d' get_bucket_found [of b c ps d bk d] bucket_name_key [OF assms] by simp
    then show ?thesis
      using Pair d' 3
      by (cases "map_of (live_generations d) (bk_name bk)")
        (simp_all add: delete_bucket_def bindM_def seqM_def getitem_def notify_def)
  qed (use Pair d' in \<open>simp_all add: delete_bucket_def bindM_def\<close>)
qed

lemma safe_drop: "safe (drop_bucket b c ps)"
proof (rule keepsI)
  fix s
  assume ok: "bucket_service_ok s"
  then have wf: "db_wf (sv_db (hs_service s))" by (simp add: bucket_service_ok_def)
  have kept: "db_wf (snd (delete_bucket b c ps (sv_db (hs_service s))))"
    using keepsD [OF keeps_delete_bucket wf] .
  show "bucket_service_ok (snd (drop_bucket b c ps s))"
    using delete_bucket_cases [OF wf, of b c ps] ok kept
    by (auto simp: drop_bucket_def seqM_def bindM_def in_service_def on_db_def bucket_service_ok_def map_of_delete_ne)
qed

text \<open>A change of a bucket that keeps its name.\<close>

definition keeps_name :: "(gcs_bucket \<Rightarrow> (err + 'a) \<times> gcs_bucket) \<Rightarrow> bool" where
  "keeps_name f \<longleftrightarrow> (\<forall>b. bk_name (gb_metadata (snd (f b))) = bk_name (gb_metadata b))"

lemma do_update_bucket_cases:
  "(\<exists>e. do_update_bucket b (\<lambda>bk. Inr (f bk)) c ps d = (Inl e, d)) \<or>
   do_update_bucket b (\<lambda>bk. Inr (f bk)) c ps d = (Inr None, d) \<or>
   (\<exists>bk d'. map_of (buckets d) (bucket_key b c) = Some bk
     \<and> do_update_bucket b (\<lambda>bk. Inr (f bk)) c ps d = (Inr (Some (f bk)), d')
     \<and> buckets d' = AList.update (bucket_key b c) (f bk) (buckets d))"
proof (cases "get_bucket b c ps d")
  case (Pair r d')
  then have d': "d' = d" using get_bucket_reads [of b c ps d] by simp
  consider e where "r = Inl e" | "r = Inr None" | bk where "r = Inr (Some bk)"
    by (cases r; cases "projr r") auto
  then show ?thesis
    using Pair d' get_bucket_found [of b c ps d _ d]
    by cases (simp_all add: do_update_bucket_def bindM_def seqM_def notify_def)
qed

lemma ok_message:
  assumes "bucket_service_ok s" and "map_of (buckets (sv_db (hs_service s))) k \<noteq> None"
  shows "bucket_service_ok (put_message k b s)"
  using assms by (auto simp: bucket_service_ok_def put_message_def update_conv')

lemma map_entry_update: "map_of d k \<noteq> None \<Longrightarrow> AList.map_entry k (\<lambda>_. v) d = AList.update k v d"
  by (induction d) auto

lemma ok_write_back:
  assumes "bucket_service_ok s" and "map_of (buckets (sv_db (hs_service s))) k \<noteq> None" and "bk_name (gb_metadata b) = k"
  shows "bucket_service_ok (write_bucket_back k b s)"
proof -
  have same: "AList.map_entry k (\<lambda>_. index_part b) (buckets (sv_db (hs_service s)))
      = AList.update k (index_part b) (buckets (sv_db (hs_service s)))"
    using assms(2) by (rule map_entry_update)
  show ?thesis
    using wf_update_bucket [OF _ assms(2), of "index_part b"] assms
    by (auto simp: write_bucket_back_def put_message_def set_bucket_def same bucket_service_ok_def update_conv')
qed

lemma safe_change:
  assumes "keeps_name f"
  shows "safe (change_bucket b c ps f)"
proof (rule keepsI)
  fix s
  assume ok: "bucket_service_ok s"
  let ?d = "sv_db (hs_service s)" and ?k = "bucket_key b c"
  have wf: "db_wf ?d" using ok by (simp add: bucket_service_ok_def)
  show "bucket_service_ok (snd (change_bucket b c ps f s))"
  proof (cases "find_bucket b c ps s")
    case (Pair r t)
    then have t: "t = s" using find_bucket_reads [of b c ps s] by simp
    show ?thesis
    proof (cases r)
      case (Inl e)
      then show ?thesis using Pair t ok by (simp add: change_bucket_def bindM_def)
    next
      case (Inr x)
      obtain bk m where here: "map_of (buckets ?d) ?k = Some bk" and x: "x = overlay bk m"
        using Pair t Inr by (auto elim: find_bucket_Inr)
      have name: "bk_name (gb_metadata (snd (f (overlay bk' x)))) = bk_name bk'" for bk'
        using assms by (simp add: keeps_name_def)
      have named: "bk_name (gb_metadata (snd (f x))) = ?k"
        using assms bucket_name_key [OF wf here] by (simp add: keeps_name_def x)
      show ?thesis
      proof (cases "f x")
        case fx: (Pair r' b')
        show ?thesis
        proof (cases r')
          case (Inl e)
          then show ?thesis
            using Pair t Inr fx named ok_write_back [OF ok, of ?k b'] here
            by (simp add: change_bucket_def bindM_def)
        next
          case r': (Inr y)
          let ?up = "do_update_bucket b (\<lambda>bk. Inr (index_part (snd (f (overlay bk x))))) c ps"
          have kept: "db_wf (snd (?up ?d))"
            using keepsD [OF keeps_do_update_bucket wf, of "\<lambda>bk. Inr (index_part (snd (f (overlay bk x))))"] name
            by simp
          have ok': "bucket_service_ok (s\<lparr>hs_service := (hs_service s)\<lparr>sv_db := snd (?up ?d)\<rparr>\<rparr>)"
              "map_of (buckets (snd (?up ?d))) ?k \<noteq> None"
            using do_update_bucket_cases [of b "\<lambda>bk. index_part (snd (f (overlay bk x)))" c ps ?d] ok kept here
            by (auto simp: bucket_service_ok_def update_conv' split: if_splits)
          show ?thesis
            using Pair t Inr fx r' ok' ok_message [OF ok'(1), of ?k b']
            by (cases "?up ?d"; cases "fst (?up ?d)")
              (simp_all add: change_bucket_def bindM_def seqM_def in_service_def on_db_def)
        qed
      qed
    qed
  qed
qed

section \<open>Every call keeps it\<close>

lemma safe_seqM: "safe m \<Longrightarrow> safe n \<Longrightarrow> safe (seqM m n)"
  by (rule keeps_seqM)

lemma safe_case_prod: "(\<And>x y. p = (x, y) \<Longrightarrow> safe (f x y)) \<Longrightarrow> safe (case p of (x, y) \<Rightarrow> f x y)"
  by (cases p) simp

lemma insert_test_bucket_cases:
  "(\<exists>r. insert_test_bucket env s = (r, s)) \<or>
   (\<exists>name bk d r. he_test_bucket env = Some (name, Inr bk)
     \<and> insert_bucket (he_validate env) (bk\<lparr>bk_metageneration := 4, bk_versioning := True\<rparr>) Rest (sv_db s) = (r, d)
     \<and> insert_test_bucket env s = (r, s\<lparr>sv_db := d\<rparr>))"
  by (auto simp: insert_test_bucket_def bindM_def on_db_def getS_def liftE_def split: option.split sum.split prod.split)

lemma safe_test_bucket:
  assumes "test_bucket_ok env"
  shows "safe (ensure_test_bucket env lib)"
proof (rule keepsI)
  fix s
  assume ok: "bucket_service_ok s"
  then have wf: "db_wf (sv_db (hs_service s))" by (simp add: bucket_service_ok_def)
  consider r where "insert_test_bucket env (hs_service s) = (r, hs_service s)"
    | name bk d r where "he_test_bucket env = Some (name, Inr bk)"
        "insert_bucket (he_validate env) (bk\<lparr>bk_metageneration := 4, bk_versioning := True\<rparr>) Rest
           (sv_db (hs_service s)) = (r, d)"
        "insert_test_bucket env (hs_service s) = (r, (hs_service s)\<lparr>sv_db := d\<rparr>)"
    using insert_test_bucket_cases [of env "hs_service s"] by auto
  then show "bucket_service_ok (snd (ensure_test_bucket env lib s))"
  proof cases
    case 1
    then show ?thesis
      using ok ok_message [OF ok]
      by (cases r) (auto simp: ensure_test_bucket_def seqM_def bindM_def in_service_def Let_def split: option.split)
  next
    case 2
    let ?bk = "bk\<lparr>bk_metageneration := 4, bk_versioning := True\<rparr>"
    have name: "bk_name ?bk = bucket_key name Rest"
      using assms 2(1) by (simp add: test_bucket_ok_def)
    show ?thesis
      using insert_bucket_cases [of "he_validate env" ?bk Rest "sv_db (hs_service s)"] wf_insert_bucket [OF 2(2) wf] ok 2 name
      by (auto simp: ensure_test_bucket_def seqM_def bindM_def in_service_def Let_def bucket_service_ok_def
          put_message_def update_conv' split: option.split if_splits)
  qed
qed

lemma keeps_name_attempt:
  "(\<And>b x b'. f b = Inr (x, b') \<Longrightarrow> bk_name (gb_metadata b') = bk_name (gb_metadata b)) \<Longrightarrow> keeps_name (attempt f)"
  by (auto simp: keeps_name_def attempt_def split: sum.split)

lemma modifiable_excludes_name: "''name'' \<notin> set bucket_modifiable_fields"
  by (simp add: bucket_modifiable_fields_def)

lemma update_bucket_metadata_name:
  assumes "masks_ok lib"
  shows "bk_name (update_bucket_metadata (bl_env lib) now source None m) = bk_name m"
  using assms modifiable_excludes_name by (simp add: update_bucket_metadata_def masks_ok_def Let_def)

lemma replace_bucket_metadata_name:
  "masks_ok lib \<Longrightarrow> bk_name (gb_metadata (snd (replace_bucket_metadata (bl_env lib) now r data b))) = bk_name (gb_metadata b)"
  by (simp add: replace_bucket_metadata_def update_bucket_metadata_name split: sum.split)

lemma keeps_name_update:
  assumes "masks_ok lib"
  shows "keeps_name (\<lambda>b. case loaded of Inl e \<Rightarrow> (Inl e, b) | Inr data \<Rightarrow> bucket_update (bl_env lib) now r data Rest b)"
    and "keeps_name (\<lambda>b. case loaded of Inl e \<Rightarrow> (Inl e, b) | Inr data \<Rightarrow> bucket_patch (bl_env lib) now r data Rest b)"
  using replace_bucket_metadata_name [OF assms]
  by (auto simp: keeps_name_def bucket_update_def bucket_patch_def split: sum.split)

lemma keeps_name_lock: "keeps_name (lock_policy now)"
  by (simp add: keeps_name_def lock_policy_def Let_def)

lemma bucket_acl_names:
  "bucket_upsert_acl env e r c b = Inr (x, b') \<Longrightarrow> bk_name (gb_metadata b') = bk_name (gb_metadata b)"
  "bucket_delete_acl env e c b = Inr b' \<Longrightarrow> bk_name (gb_metadata b') = bk_name (gb_metadata b)"
  "upsert_default_object_acl env e r c b = Inr (x, b') \<Longrightarrow> bk_name (gb_metadata b') = bk_name (gb_metadata b)"
  "delete_default_object_acl env e c b = Inr b' \<Longrightarrow> bk_name (gb_metadata b') = bk_name (gb_metadata b)"
  by (auto simp: bucket_upsert_acl_def bucket_delete_acl_def upsert_default_object_acl_def
      delete_default_object_acl_def bindE_eq_Inr Let_def)

lemma keeps_name_acl:
  "keeps_name (attempt (\<lambda>b. bindE loaded (\<lambda>p. bucket_insert_acl env p c b)))"
  "keeps_name (attempt (\<lambda>b. bindE loaded (\<lambda>p. bucket_update_acl env p e c b)))"
  "keeps_name (attempt (\<lambda>b. bindE (bucket_delete_acl env e c b) (\<lambda>b. Inr ((), b))))"
  "keeps_name (attempt (\<lambda>b. bindE loaded (\<lambda>p. insert_default_object_acl env p c b)))"
  "keeps_name (attempt (\<lambda>b. bindE loaded (\<lambda>p. update_default_object_acl env p e c b)))"
  "keeps_name (attempt (\<lambda>b. bindE (delete_default_object_acl env e c b) (\<lambda>b. Inr ((), b))))"
  by (rule keeps_name_attempt; auto simp: bindE_eq_Inr bucket_insert_acl_def bucket_update_acl_def
      insert_default_object_acl_def update_default_object_acl_def dest: bucket_acl_names)+

lemma keeps_name_policy:
  "keeps_name (attempt (\<lambda>b. bindE loaded (\<lambda>data. set_iam_policy_rest fresh parse data b)))"
  "keeps_name (attempt (set_iam_policy_grpc fresh sb policy c))"
  by (rule keeps_name_attempt; auto simp: bindE_eq_Inr set_iam_policy_rest_def set_iam_policy_grpc_def Let_def
      split: if_splits)+

lemma plan_safe_paths:
  "set (bp_safe (fold (plan_bucket_path m) paths plan)) \<subseteq> set (bp_safe plan) \<union> set paths"
proof (induction paths arbitrary: plan)
  case (Cons p ps)
  have "set (bp_safe (plan_bucket_path m p plan)) \<subseteq> insert p (set (bp_safe plan))"
    by (auto simp: plan_bucket_path_def add_new_def Let_def split: option.splits)
  then show ?case using Cons.IH [of "plan_bucket_path m p plan"] by auto
qed simp

lemma keeps_name_grpc_update:
  assumes "masks_ok lib" and "''name'' \<notin> set (bu_paths rq)"
  shows "keeps_name (apply_bucket_update lib now c rq)"
proof -
  have "''name'' \<notin> set (bp_safe (plan_bucket_update rq))"
    using plan_safe_paths [of "bu_bucket rq" "bu_paths rq" "\<lparr>bp_safe = [], bp_labels = [], bp_removed_labels = [],
       bp_replace_labels = False\<rparr>"] assms(2) by (auto simp: plan_bucket_update_def)
  then have "bk_name (merged_bucket lib now rq m) = bk_name m" for m
    using assms(1) by (auto simp: merged_bucket_def masks_ok_def Let_def)
  then show ?thesis
    by (simp add: keeps_name_def apply_bucket_update_def Let_def split: sum.split)
qed

lemma safe_alter_message:
  assumes "find_bucket b c ps s = (Inr x, t)" and "bucket_service_ok s"
  shows "bucket_service_ok (put_message (bucket_key b c) x' s)"
  using assms by (auto elim!: find_bucket_Inr intro: ok_message)

lemma safe_notification_insert: "safe (bucket_notification_insert env lib body fresh b)"
proof (rule keepsI)
  fix s
  assume "bucket_service_ok s"
  then show "bucket_service_ok (snd (bucket_notification_insert env lib body fresh b s))"
    using find_bucket_reads [of b Rest "[]" s] safe_alter_message [of b Rest "[]" s]
    by (cases "find_bucket b Rest [] s")
      (auto simp: bucket_notification_insert_def bindM_def seqM_def liftE_def split: sum.split)
qed

lemma safe_notification_delete: "safe (bucket_notification_delete b i)"
proof (rule keepsI)
  fix s
  assume "bucket_service_ok s"
  then show "bucket_service_ok (snd (bucket_notification_delete b i s))"
    using find_bucket_reads [of b Rest "[]" s] safe_alter_message [of b Rest "[]" s]
    by (cases "find_bucket b Rest [] s")
      (auto simp: bucket_notification_delete_def bindM_def liftE_def split: sum.split)
qed

lemma safe_list_bucket: "safe (in_service (on_db (list_bucket p pre r c)))"
  by (intro safe_beside beside_on_db aside_list_bucket)

lemma safe_whole: "safe (whole_buckets bs)"
  unfolding whole_buckets_def by (intro keeps_bindM) simp_all

lemma safe_answer: "safe (bucket_answer env lib r p b)"
  unfolding bucket_answer_def by (intro keeps_bindM) simp_all

lemma safe_retry: "safe (in_service (on_tests (handle_retry_test_instruction r m)))"
  "safe (in_service (on_tests (grpc_handle_retry_test_instruction c m)))"
  by (intro safe_beside beside_on_tests keeps_handle_retry keeps_grpc_handle_retry)+

lemma safe_change_acl:
  "(\<And>loaded. keeps_name (attempt (\<lambda>b. bindE loaded (\<lambda>p. f p b)))) \<Longrightarrow> safe (change_acl env r body b f rd)"
  unfolding change_acl_def by (intro keeps_bindM safe_change safe_case_prod) simp_all

lemmas call_defs = bucket_list_def bucket_insert_def bucket_get_def rest_bucket_update_def rest_bucket_patch_def
  bucket_delete_def bucket_acl_list_def bucket_acl_insert_def bucket_acl_get_def bucket_acl_update_def
  bucket_acl_patch_def bucket_acl_delete_def bucket_default_object_acl_list_def bucket_default_object_acl_insert_def
  bucket_default_object_acl_get_def bucket_default_object_acl_update_def bucket_default_object_acl_patch_def
  bucket_default_object_acl_delete_def bucket_notification_list_def bucket_notification_get_def
  bucket_get_iam_policy_def bucket_set_iam_policy_def bucket_test_iam_permissions_def
  bucket_lock_retention_policy_def no_body_def

lemmas safe_steps = safe_find safe_create safe_drop safe_list_bucket safe_whole safe_answer safe_get_bucket
  safe_change_acl safe_change keeps_name_acl keeps_name_policy keeps_name_lock

lemma safe_handle_call:
  assumes "masks_ok lib" and "test_bucket_ok env"
  shows "safe (handle_call env lib r call)"
  using safe_test_bucket [OF assms(2)] keeps_name_update [OF assms(1)]
  by (cases call) (auto simp: call_defs Let_def safe_notification_insert safe_notification_delete
      intro!: keeps_bindM safe_seqM safe_case_prod safe_steps)

lemma safe_Pair: "safe (Pair r)"
  by (simp add: keeps_def)

lemma safe_serve_rpc:
  assumes "masks_ok lib"
  shows "safe (serve_rpc env lib c rpc)"
proof -
  have named: "''name'' \<notin> set (bu_paths rq)" if "bl_intersect lib immutable_bucket_fields (bu_paths rq) = []" for rq
    using assms that unfolding masks_ok_def by blast
  show ?thesis
    using keeps_name_grpc_update [OF assms named] beside_instructed
    by (cases rpc) (auto simp: grpc_call_def DeleteBucket_def GetBucket_def CreateBucket_def ListBuckets_def
        LockBucketRetentionPolicy_def GetIamPolicy_def SetIamPolicy_def TestIamPermissions_def UpdateBucket_def Let_def
        intro!: keeps_bindM safe_seqM safe_case_prod safe_steps safe_retry safe_beside safe_Pair)
qed

section \<open>What the calls promise\<close>

datatype client_call = Over_rest request bucket_call | Over_grpc ctx bucket_rpc

fun serve :: "handler_env \<Rightarrow> bucket_lib \<Rightarrow> client_call \<Rightarrow> bucket_service \<Rightarrow> bucket_service" where
  "serve env lib (Over_rest r call) s = snd (serve_call env lib r call s)"
| "serve env lib (Over_grpc c rpc) s = snd (serve_rpc env lib c rpc s)"

lemma serve_ok:
  assumes "masks_ok lib" and "test_bucket_ok env" and "bucket_service_ok s"
  shows "bucket_service_ok (serve env lib call s)"
proof (cases call)
  case (Over_rest r c)
  have "safe (serve_call env lib r c)"
    unfolding serve_call_def
    by (intro keeps_bindM safe_retry safe_handle_call [OF assms(1,2)]) simp
  then show ?thesis using keepsD assms(3) Over_rest by fastforce
next
  case (Over_grpc c rpc)
  then show ?thesis using keepsD [OF safe_serve_rpc [OF assms(1)] assms(3)] by simp
qed

lemma serves_ok:
  "masks_ok lib \<Longrightarrow> test_bucket_ok env \<Longrightarrow> bucket_service_ok s \<Longrightarrow> bucket_service_ok (fold (serve env lib) calls s)"
  by (induction calls arbitrary: s) (simp_all add: serve_ok)

lemma find_present:
  assumes "map_of (buckets (sv_db (hs_service s))) (bucket_key name c) = Some bk"
    and "map_of (hs_messages s) (bucket_key name c) = Some m"
  shows "find_bucket name c [] s = (Inr (overlay bk m), s)"
  using assms by (simp add: find_bucket_def bindM_def in_service_def on_db_def get_bucket_def)

lemma find_whole:
  assumes "bucket_service_ok s" and "map_of (buckets (sv_db (hs_service s))) (bucket_key name c) = Some bk"
  shows "\<exists>b. find_bucket name c [] s = (Inr b, s) \<and> index_part b = bk \<and> bk_name (gb_metadata b) = bucket_key name c"
proof -
  obtain m where "map_of (hs_messages s) (bucket_key name c) = Some m"
    using assms by (cases "map_of (hs_messages s) (bucket_key name c)") (auto simp: bucket_service_ok_def)
  moreover have "bk_name bk = bucket_key name c"
    using assms bucket_name_key by (auto simp: bucket_service_ok_def)
  ultimately show ?thesis
    using find_present [OF assms(2)] by simp
qed

text \<open>C13: The state of the bucket handlers is well formed after any sequence of calls, over REST and gRPC,
  refused or not: the index and the messages have the same buckets, every bucket that the index has is
  found, whole, and it carries the name under which it is kept.\<close>

theorem buckets_stay_well_formed:
  assumes "masks_ok lib" and "test_bucket_ok env" and "bucket_service_ok s"
    and "t = fold (serve env lib) calls s"
  shows "bucket_service_ok t \<and> (\<forall>name c bk. map_of (buckets (sv_db (hs_service t))) (bucket_key name c) = Some bk \<longrightarrow>
    (\<exists>b. find_bucket name c [] t = (Inr b, t) \<and> index_part b = bk \<and> bk_name (gb_metadata b) = bucket_key name c))"
  using serves_ok [OF assms(1-3), of calls] find_whole [of t] assms(4) by blast

lemma plain_grpc_call: "plain_call c \<Longrightarrow> grpc_call c m func s = func s"
  by (simp add: grpc_call_def seqM_def bindM_def in_service_def on_tests_def on_db_def on_retry_db_def
      grpc_handle_retry_test_instruction_def plain_call_def)

lemma plain_key: "plain_call c \<Longrightarrow> bucket_key b c = b"
  by (cases c) (auto simp: plain_call_def bucket_key_def)

lemma init_grpc_name:
  "init_grpc env now fresh rq c = Inr (b, p) \<Longrightarrow> bk_name (gb_metadata b) = bucket_prefix @ cb_bucket_id rq"
  using init_grpc_ok by (fastforce simp: bucket_name_to_proto_def)

lemma no_bucket_conditions: "make_grpc_bucket_preconditions [] = []"
  by (simp add: make_grpc_bucket_preconditions_def select_def)

lemma create_bucket_Inr:
  assumes "create_bucket env b c s = (Inr (), t)"
  shows "\<exists>d. buckets d = AList.update (bk_name (gb_metadata b)) (index_part b) (buckets (sv_db (hs_service s)))
    \<and> t = put_message (bk_name (gb_metadata b)) b (s\<lparr>hs_service := (hs_service s)\<lparr>sv_db := d\<rparr>\<rparr>)"
proof -
  obtain d where "insert_bucket (he_validate env) (index_part b) c (sv_db (hs_service s)) = (Inr (), d)"
    and "t = put_message (bk_name (gb_metadata b)) b (s\<lparr>hs_service := (hs_service s)\<lparr>sv_db := d\<rparr>\<rparr>)"
    using assms unfolding create_bucket_def seqM_Inr_iff
    by (cases "insert_bucket (he_validate env) (index_part b) c (sv_db (hs_service s))")
      (simp add: in_service_def on_db_def)
  then show ?thesis
    using insert_bucket_cases [of "he_validate env" "index_part b" c "sv_db (hs_service s)"] by auto
qed

lemma CreateBucket_Inr:
  assumes "CreateBucket env lib c fresh rq s = (Inr m, t)" and "plain_call c"
  shows "\<exists>b p. init_grpc (bl_env lib) (he_now_local env) fresh rq c = Inr (b, p) \<and> m = gb_metadata b
    \<and> create_bucket env b c s = (Inr (), t)"
proof -
  have "bindM (liftE (init_grpc (bl_env lib) (he_now_local env) fresh rq c)) (\<lambda>(b, _).
      seqM (create_bucket env b c) (ret (gb_metadata b))) s = (Inr m, t)"
    using assms by (simp only: CreateBucket_def plain_grpc_call)
  then obtain bp where "init_grpc (bl_env lib) (he_now_local env) fresh rq c = Inr bp"
      and "seqM (create_bucket env (fst bp) c) (ret (gb_metadata (fst bp))) s = (Inr m, t)"
    by (cases "init_grpc (bl_env lib) (he_now_local env) fresh rq c") (simp_all add: split_def)
  then show ?thesis
    by (cases bp) (simp add: seqM_Inr_iff)
qed

text \<open>C14: A bucket that has been created over gRPC is found under the name that the server made of its
  identifier, with the metadata that the client was told.\<close>

theorem created_bucket_is_found:
  assumes "CreateBucket env lib c fresh rq s = (Inr m, t)" and "plain_call c"
  shows "bk_name m = bucket_prefix @ cb_bucket_id rq \<and> GetBucket c (bk_name m) [] t = (Inr m, t)"
proof -
  obtain b p where b: "init_grpc (bl_env lib) (he_now_local env) fresh rq c = Inr (b, p)" "m = gb_metadata b"
      "create_bucket env b c s = (Inr (), t)"
    using CreateBucket_Inr [OF assms] by blast
  obtain d where d: "buckets d = AList.update (bk_name m) (index_part b) (buckets (sv_db (hs_service s)))"
      "t = put_message (bk_name m) b (s\<lparr>hs_service := (hs_service s)\<lparr>sv_db := d\<rparr>\<rparr>)"
    using create_bucket_Inr [OF b(3)] b(2) by blast
  have "find_bucket (bk_name m) c [] t = (Inr (overlay (index_part b) b), t)"
    by (rule find_present) (simp_all add: d plain_key [OF assms(2)] put_message_def update_conv')
  then have "GetBucket c (bk_name m) [] t = (Inr m, t)"
    by (simp add: GetBucket_def plain_grpc_call [OF assms(2)] bindM_def b(2) no_bucket_conditions)
  then show ?thesis using init_grpc_name [OF b(1)] b(2) by simp
qed

text \<open>C16: An update over gRPC whose soft delete policy is refused has changed the bucket already: the
  request ends with the error, and the bucket is the one with the fields of the mask, at its old
  metageneration; the observers of the database are not told.\<close>

theorem refused_bucket_update_changes_bucket:
  assumes "find_bucket (bk_name (bu_bucket rq)) c [] s = (Inr b, s)" and "plain_call c"
    and "bl_intersect lib immutable_bucket_fields (bu_paths rq) = []" and "bl_valid lib (bp_safe (plan_bucket_update rq))"
    and "bu_conditions rq = []" and "''soft_delete_policy'' \<in> set (bu_paths rq)"
    and "validate_soft_delete_policy c (merged_bucket lib (he_now_local env) rq (gb_metadata b)) = Inl e"
  shows "\<exists>t. UpdateBucket env lib c rq s = (Inl e, t)
    \<and> find_bucket (bk_name (bu_bucket rq)) c [] t
        = (Inr (b\<lparr>gb_metadata := merged_bucket lib (he_now_local env) rq (gb_metadata b)\<rparr>), t)
    \<and> events (sv_db (hs_service t)) = events (sv_db (hs_service s))"
proof -
  let ?b' = "b\<lparr>gb_metadata := merged_bucket lib (he_now_local env) rq (gb_metadata b)\<rparr>"
    and ?k = "bucket_key (bk_name (bu_bucket rq)) c"
  have here: "map_of (buckets (sv_db (hs_service s))) ?k \<noteq> None"
    using assms(1) by (auto elim: find_bucket_Inr)
  let ?t = "write_bucket_back ?k ?b' s"
  have "UpdateBucket env lib c rq s = (Inl e, ?t)"
    using assms by (simp add: UpdateBucket_def plain_grpc_call change_bucket_def bindM_def seqM_def
        apply_bucket_update_def Let_def no_bucket_conditions)
  moreover have "find_bucket (bk_name (bu_bucket rq)) c [] ?t = (Inr (overlay (index_part ?b') ?b'), ?t)"
    by (rule find_present) (use here in \<open>simp_all add: write_bucket_back_def put_message_def set_bucket_def
        map_entry_update update_conv'\<close>)
  ultimately show ?thesis
    by (auto simp: write_bucket_back_def put_message_def set_bucket_def)
qed

section \<open>Listing\<close>

text \<open>The bucket that the service holds for an entry of the index.\<close>

definition held_bucket :: "bucket_service \<Rightarrow> bucket \<Rightarrow> gcs_bucket" where
  "held_bucket s bk = overlay bk (the (map_of (hs_messages s) (bk_name bk)))"

lemma held_name [simp]: "bk_name (gb_metadata (held_bucket s bk)) = bk_name bk"
  by (simp add: held_bucket_def)

lemma whole_buckets_Inr:
  assumes "whole_buckets items s = (Inr bs, t)"
  shows "t = s \<and> bs = map (held_bucket s) items"
proof -
  have "map_ok (\<lambda>bk. case map_of ms (bk_name bk) of None \<Rightarrow> Inl (Exc KeyError) | Some b \<Rightarrow> Inr (overlay bk b)) items = Inr bs
    \<Longrightarrow> bs = map (\<lambda>bk. overlay bk (the (map_of ms (bk_name bk)))) items" for ms
    by (induction items arbitrary: bs) (auto simp: bindE_eq_Inr split: option.splits)
  then show ?thesis using assms unfolding whole_buckets_def held_bucket_def by auto
qed

lemma list_bucket_grpc:
  "fst (list_bucket (Some p) pre None c d) = Inr all \<Longrightarrow>
     fst all = filter (\<lambda>b. pre = [] \<or> startswith (bk_name b) (bucket_prefix @ pre)) (map snd (buckets d))"
  by (auto simp: list_bucket_def Let_def split: if_splits)

lemma named_buckets:
  assumes "db_wf d"
  shows "map bk_name (filter (\<lambda>b. P (bk_name b)) (map snd (buckets d))) = filter P (map fst (buckets d))"
proof -
  have "distinct (map fst (buckets d))" using assms by (simp add: db_wf_def)
  then have names: "map (bk_name \<circ> snd) (buckets d) = map fst (buckets d)"
    using bucket_name_key [OF assms] by (auto intro!: map_cong simp: map_of_eq_Some_iff)
  show ?thesis
    unfolding names [symmetric] by (simp add: filter_map comp_def)
qed

lemma ListBuckets_Inr:
  assumes "ListBuckets lib blank c rq s = (Inr (bs, unreachable), t)"
  shows "\<exists>(r::bucket_service) all instructed. buckets (sv_db (hs_service r)) = buckets (sv_db (hs_service s))
    \<and> fst (list_bucket (Some (drop 9 (lb_parent rq))) (lb_prefix rq) None c (sv_db (hs_service r))) = Inr all
    \<and> split_listing lib blank rq (map (held_bucket s) (fst all)) instructed = (bs, unreachable)
    \<and> (\<not> lb_return_partial_success rq \<or> get_retry_test_id_from_context c = None \<longrightarrow> instructed = [])"
proof -
  let ?instructed = "if lb_return_partial_success rq then in_service (instructed_unreachable c) else ret []"
  obtain r where r: "in_service (on_tests (grpc_handle_retry_test_instruction c ''storage.buckets.list'')) s = (Inr (), r)"
    and call: "bindM (in_service (on_db (list_bucket (Some (drop 9 (lb_parent rq))) (lb_prefix rq) None c)))
        (\<lambda>all. bindM (whole_buckets (fst all)) (\<lambda>bs.
      bindM ?instructed (\<lambda>instructed. ret (split_listing lib blank rq bs instructed)))) r = (Inr (bs, unreachable), t)"
    using assms unfolding ListBuckets_def grpc_call_def seqM_Inr_iff by (auto split: if_splits)
  have same: "buckets (sv_db (hs_service r)) = buckets (sv_db (hs_service s))" "hs_messages r = hs_messages s"
    using r beside_on_tests [OF keeps_grpc_handle_retry, of c "''storage.buckets.list''"]
    by (auto simp: in_service_def aside_def beside_def split: prod.splits) (metis snd_conv)
  obtain all r1 where l: "in_service (on_db (list_bucket (Some (drop 9 (lb_parent rq))) (lb_prefix rq) None c)) r = (Inr all, r1)"
    and rest: "bindM (whole_buckets (fst all)) (\<lambda>bs.
      bindM ?instructed (\<lambda>instructed. ret (split_listing lib blank rq bs instructed))) r1 = (Inr (bs, unreachable), t)"
    using call unfolding bindM_Inr_iff by blast
  have messages: "hs_messages r1 = hs_messages s"
    using l same(2) by (auto simp: in_service_def split: prod.splits)
  obtain whole instructed r2 where w: "whole_buckets (fst all) r1 = (Inr whole, r1)"
    and i: "?instructed r1 = (Inr instructed, r2)"
    and made: "split_listing lib blank rq whole instructed = (bs, unreachable)"
    using rest whole_buckets_Inr unfolding bindM_Inr_iff by (fastforce simp: bindM_Inr_iff)
  have "whole = map (held_bucket s) (fst all)"
    using whole_buckets_Inr [OF w] messages by (auto simp: held_bucket_def)
  moreover have "fst (list_bucket (Some (drop 9 (lb_parent rq))) (lb_prefix rq) None c (sv_db (hs_service r))) = Inr all"
    using l by (auto simp: in_service_def on_db_def split: prod.splits)
  moreover have "instructed = []" if "\<not> lb_return_partial_success rq \<or> get_retry_test_id_from_context c = None"
    using i that by (auto simp: instructed_unreachable_def in_service_def Let_def split: if_splits)
  ultimately show ?thesis
    using same(1) made by (intro exI [of _ r] exI [of _ all] exI [of _ instructed]) simp
qed

text \<open>C15: A listing over gRPC is complete: the buckets whose names have the prefix, which are all different,
  are split by a set of unreachable names, in the order of the index: the others are answered with the metadata that is
  stored for them, as the read mask selects it, and of the unreachable ones the names are answered.  Without partial
  success no bucket is unreachable; with it and without a retry test, those whose names contain the word.\<close>

theorem listing_splits_buckets:
  assumes "ListBuckets lib blank c rq s = (Inr (bs, unreachable), t)" and "bucket_service_ok s"
    and "listed = filter (\<lambda>bk. lb_prefix rq = [] \<or> startswith (bk_name bk) (bucket_prefix @ lb_prefix rq))
      (map snd (buckets (sv_db (hs_service s))))"
  shows "distinct (map bk_name listed) \<and> (\<exists>away.
      bs = map (\<lambda>bk. masked_bucket lib (lb_read_mask rq) blank (gb_metadata (held_bucket s bk)))
        (filter (\<lambda>bk. bk_name bk \<notin> away) listed)
    \<and> unreachable = filter (\<lambda>name. name \<in> away) (map bk_name listed)
    \<and> (\<not> lb_return_partial_success rq \<longrightarrow> away = {})
    \<and> (lb_return_partial_success rq \<and> get_retry_test_id_from_context c = None \<longrightarrow>
        away = {name \<in> set (map bk_name listed). contains name ''unreachable''}))"
proof -
  have wf: "db_wf (sv_db (hs_service s))" using assms(2) by (simp add: bucket_service_ok_def)
  have different: "distinct (map bk_name listed)"
    using named_buckets [OF wf, of "\<lambda>name. lb_prefix rq = [] \<or> startswith name (bucket_prefix @ lb_prefix rq)"] wf
    by (simp add: assms(3) db_wf_def)
  obtain r :: bucket_service and all instructed where same: "buckets (sv_db (hs_service r)) = buckets (sv_db (hs_service s))"
    and l: "fst (list_bucket (Some (drop 9 (lb_parent rq))) (lb_prefix rq) None c (sv_db (hs_service r))) = Inr all"
    and made: "split_listing lib blank rq (map (held_bucket s) (fst all)) instructed = (bs, unreachable)"
    and none: "\<not> lb_return_partial_success rq \<or> get_retry_test_id_from_context c = None \<longrightarrow> instructed = []"
    using ListBuckets_Inr [OF assms(1)] by (elim exE conjE) (rule that)
  have listed: "fst all = listed" using list_bucket_grpc [OF l] same assms(3) by simp
  define away where "away = set (if instructed = [] \<and> lb_return_partial_success rq
      then filter (\<lambda>name. contains name ''unreachable'') (map bk_name listed) else instructed)"
  have "bs = map (\<lambda>bk. masked_bucket lib (lb_read_mask rq) blank (gb_metadata (held_bucket s bk)))
        (filter (\<lambda>bk. bk_name bk \<notin> away) listed)"
    and "unreachable = filter (\<lambda>name. name \<in> away) (map bk_name listed)"
    using made by (auto simp: split_listing_def listed away_def Let_def comp_def filter_map)
  moreover have "\<not> lb_return_partial_success rq \<longrightarrow> away = {}"
    "lb_return_partial_success rq \<and> get_retry_test_id_from_context c = None \<longrightarrow>
        away = {name \<in> set (map bk_name listed). contains name ''unreachable''}"
    using none by (auto simp: away_def)
  ultimately show ?thesis using different by blast
qed

section \<open>Witnesses\<close>

definition sample_bucket_lib :: bucket_lib where
  "sample_bucket_lib = \<lparr>bl_env = sample_bucket_env, bl_acl_dict = (\<lambda>_. []),
     bl_intersect = (\<lambda>xs paths. filter (\<lambda>x. x \<in> set paths) xs), bl_valid = (\<lambda>_. True),
     bl_merge = (\<lambda>paths source m. if ''soft_delete_policy'' \<in> set paths
       then m\<lparr>bk_soft_delete := bk_soft_delete source\<rparr> else m),
     bl_show_bytes = (\<lambda>_. []), bl_parse_policy = (\<lambda>_. Inl (Exc ParseError)), bl_policy_dict = (\<lambda>_. []),
     bl_required = [''topic'', ''payload_format''],
     bl_optional = [''event_types'', ''custom_attributes'', ''object_name_prefix''],
     bl_test_bucket = \<lparr>gb_metadata = sample_bucket_message, gb_notifications = [],
       gb_iam_policy = \<lparr>ip_version = 1, ip_bindings = [], ip_etag = []\<rparr>\<rparr>\<rparr>"

definition no_buckets :: bucket_service where
  "no_buckets = \<lparr>hs_service = \<lparr>sv_db = initial_db, sv_uploads = [], sv_rewrites = [], sv_generation = 0\<rparr>,
     hs_messages = []\<rparr>"

definition sample_create :: create_bucket_request where
  "sample_create = \<lparr>cb_parent = ''projects/_'', cb_bucket_id = ''b.c'',
     cb_bucket = sample_bucket_message\<lparr>bk_project := ''projects/p''\<rparr>, cb_predefined_acl = [],
     cb_predefined_default_object_acl = []\<rparr>"

lemma sample_masks: "masks_ok sample_bucket_lib"
  by (auto simp: masks_ok_def sample_bucket_lib_def sample_bucket_env_def immutable_bucket_fields_def)

lemma sample_test_bucket: "test_bucket_ok sample_handler_env"
  by (simp add: test_bucket_ok_def)

lemma no_buckets_ok: "bucket_service_ok no_buckets"
  using initial_db_wf by (simp add: bucket_service_ok_def no_buckets_def initial_db_def)

lemma sample_plain: "plain_call (Grpc [])"
  by (simp add: plain_call_def get_retry_test_id_from_context_def invocation_metadata_value_def
      extract_instruction_def no_request_def)

theorem buckets_stay_well_formed_witness:
  "bucket_service_ok (fold (serve sample_handler_env sample_bucket_lib)
     [Over_grpc (Grpc []) (Create_rpc ''u'' sample_create), Over_rest no_request (Get_bucket ''b.c'')] no_buckets)"
  using buckets_stay_well_formed [OF sample_masks sample_test_bucket no_buckets_ok refl] by blast

lemma sample_created: "\<not> isl (init_grpc sample_bucket_env 8 ''u'' sample_create (Grpc []))"
  by code_simp

theorem created_bucket_is_found_witness:
  "\<exists>m t. CreateBucket sample_handler_env sample_bucket_lib (Grpc []) ''u'' sample_create no_buckets = (Inr m, t)
    \<and> bk_name m = ''projects/_/buckets/b.c'' \<and> GetBucket (Grpc []) (bk_name m) [] t = (Inr m, t)"
proof -
  obtain b p where b: "init_grpc sample_bucket_env 8 ''u'' sample_create (Grpc []) = Inr (b, p)"
    using sample_created by (cases "init_grpc sample_bucket_env 8 ''u'' sample_create (Grpc [])") auto
  obtain t where "create_bucket sample_handler_env b (Grpc []) no_buckets = (Inr (), t)"
    by (simp add: create_bucket_def seqM_def bindM_def in_service_def on_db_def insert_bucket_def
        sample_handler_env_def no_buckets_def initial_db_def object_env.defs notify_def liftE_def)
  then have made: "CreateBucket sample_handler_env sample_bucket_lib (Grpc []) ''u'' sample_create no_buckets
      = (Inr (gb_metadata b), t)"
    using b by (simp add: CreateBucket_def plain_grpc_call [OF sample_plain] sample_bucket_lib_def seqM_def bindM_def)
  show ?thesis
    using made created_bucket_is_found [OF made sample_plain]
    by (auto simp: sample_create_def bucket_prefix_def)
qed

definition sample_stored_bucket :: gcs_bucket where
  "sample_stored_bucket = bl_test_bucket sample_bucket_lib"

definition one_bucket :: bucket_service where
  "one_bucket = snd (create_bucket sample_handler_env sample_stored_bucket (Grpc []) no_buckets)"

definition sample_bucket_update :: update_bucket_request where
  "sample_bucket_update = \<lparr>bu_bucket = sample_bucket_message\<lparr>bk_soft_delete := Some 1\<rparr>,
     bu_paths = [''soft_delete_policy''], bu_conditions = []\<rparr>"

lemma one_bucket_tables:
  "map_of (buckets (sv_db (hs_service one_bucket))) ''projects/_/buckets/b.c'' = Some (index_part sample_stored_bucket)"
  "map_of (hs_messages one_bucket) ''projects/_/buckets/b.c'' = Some sample_stored_bucket"
  "map fst (buckets (sv_db (hs_service one_bucket))) = [''projects/_/buckets/b.c'']"
  "bucket_service_ok one_bucket"
proof -
  have name: "bk_name (gb_metadata sample_stored_bucket) = ''projects/_/buckets/b.c''"
    by (simp add: sample_stored_bucket_def sample_bucket_lib_def sample_bucket_message_def)
  have "\<exists>t. create_bucket sample_handler_env sample_stored_bucket (Grpc []) no_buckets = (Inr (), t)"
    by (simp add: create_bucket_def seqM_def bindM_def in_service_def on_db_def insert_bucket_def
        sample_handler_env_def no_buckets_def initial_db_def object_env.defs notify_def liftE_def)
  then obtain d where d: "buckets d = AList.update ''projects/_/buckets/b.c'' (index_part sample_stored_bucket) []"
      "one_bucket = put_message ''projects/_/buckets/b.c'' sample_stored_bucket
         (no_buckets\<lparr>hs_service := (hs_service no_buckets)\<lparr>sv_db := d\<rparr>\<rparr>)"
    using create_bucket_Inr [of sample_handler_env sample_stored_bucket "Grpc []" no_buckets]
    by (auto simp: one_bucket_def name) (simp add: no_buckets_def initial_db_def)
  show "map_of (buckets (sv_db (hs_service one_bucket))) ''projects/_/buckets/b.c'' = Some (index_part sample_stored_bucket)"
    "map_of (hs_messages one_bucket) ''projects/_/buckets/b.c'' = Some sample_stored_bucket"
    "map fst (buckets (sv_db (hs_service one_bucket))) = [''projects/_/buckets/b.c'']"
    unfolding d(2) by (simp_all add: put_message_def d(1) update_conv')
  show "bucket_service_ok one_bucket"
    using keepsD [OF safe_create no_buckets_ok] by (simp add: one_bucket_def)
qed

theorem refused_bucket_update_changes_bucket_witness:
  "\<exists>e t b. UpdateBucket sample_handler_env sample_bucket_lib (Grpc []) sample_bucket_update one_bucket = (Inl e, t)
    \<and> find_bucket ''projects/_/buckets/b.c'' (Grpc []) [] t = (Inr b, t) \<and> bk_soft_delete (gb_metadata b) = Some 1"
proof -
  have name: "bk_name (bu_bucket sample_bucket_update) = ''projects/_/buckets/b.c''"
    by (simp add: sample_bucket_update_def sample_bucket_message_def)
  have found: "find_bucket (bk_name (bu_bucket sample_bucket_update)) (Grpc []) [] one_bucket
      = (Inr sample_stored_bucket, one_bucket)"
    unfolding name using find_present [of one_bucket "''projects/_/buckets/b.c''" "Grpc []"] one_bucket_tables
    by (simp add: bucket_key_def)
  have policy: "bk_soft_delete (merged_bucket sample_bucket_lib 8 sample_bucket_update (gb_metadata sample_stored_bucket)) = Some 1"
    "bk_soft_delete_nanos (merged_bucket sample_bucket_lib 8 sample_bucket_update (gb_metadata sample_stored_bucket)) = 0"
    by (simp_all add: merged_bucket_def sample_bucket_update_def sample_bucket_lib_def plan_bucket_update_def
        plan_bucket_path_def add_new_def sample_stored_bucket_def sample_bucket_message_def Let_def)
  then obtain e where refused: "validate_soft_delete_policy (Grpc [])
      (merged_bucket sample_bucket_lib (he_now_local sample_handler_env) sample_bucket_update (gb_metadata sample_stored_bucket)) = Inl e"
    by (simp add: validate_soft_delete_policy_def)
  have plain: "bl_intersect sample_bucket_lib immutable_bucket_fields (bu_paths sample_bucket_update) = []"
    "bl_valid sample_bucket_lib (bp_safe (plan_bucket_update sample_bucket_update))"
    "bu_conditions sample_bucket_update = []" "''soft_delete_policy'' \<in> set (bu_paths sample_bucket_update)"
    by (simp_all add: sample_bucket_update_def sample_bucket_lib_def immutable_bucket_fields_def)
  show ?thesis
    using refused_bucket_update_changes_bucket [OF found sample_plain plain refused] policy(1) by (auto simp: name)
qed

theorem listing_splits_buckets_witness:
  "\<exists>bs t. ListBuckets sample_bucket_lib sample_bucket_message (Grpc [])
       \<lparr>lb_parent = ''projects/p'', lb_prefix = ''b'', lb_return_partial_success = True, lb_read_mask = [''*'']\<rparr> one_bucket
      = (Inr (bs, []), t)
    \<and> bs = [gb_metadata (held_bucket one_bucket (index_part sample_stored_bucket))]"
proof -
  let ?rq = "\<lparr>lb_parent = ''projects/p'', lb_prefix = ''b'', lb_return_partial_success = True, lb_read_mask = [''*'']\<rparr>"
  let ?bk = "index_part sample_stored_bucket"
  have whole: "whole_buckets [?bk] one_bucket = (Inr [sample_stored_bucket], one_bucket)"
    using one_bucket_tables(2)
    by (simp add: whole_buckets_def sample_stored_bucket_def sample_bucket_lib_def sample_bucket_message_def)
  have only: "map snd (buckets (sv_db (hs_service one_bucket))) = [?bk]"
    using one_bucket_tables(1,3) by (cases "buckets (sv_db (hs_service one_bucket))") auto
  moreover have "\<not> endswith ''p'' ''-''" by (simp add: suffix_to_prefix)
  ultimately have "list_bucket (Some ''p'') ''b'' None (Grpc []) (sv_db (hs_service one_bucket))
      = (Inr ([?bk], []), sv_db (hs_service one_bucket))"
    by (simp add: list_bucket_def Let_def bucket_prefix_def sample_stored_bucket_def
        sample_bucket_lib_def sample_bucket_message_def)
  moreover obtain bs unreachable where "split_listing sample_bucket_lib sample_bucket_message ?rq [sample_stored_bucket] []
      = (bs, unreachable)"
    by fastforce
  ultimately have made: "ListBuckets sample_bucket_lib sample_bucket_message (Grpc []) ?rq one_bucket
      = (Inr (bs, unreachable), one_bucket)"
    using whole
    by (simp add: ListBuckets_def plain_grpc_call [OF sample_plain] bindM_def in_service_def on_db_def
        instructed_unreachable_def get_retry_test_id_from_context_def invocation_metadata_value_def)
  have name: "bk_name ?bk = ''projects/_/buckets/b.c''" "bk_name (gb_metadata sample_stored_bucket) = ''projects/_/buckets/b.c''"
    by (simp_all add: sample_stored_bucket_def sample_bucket_lib_def sample_bucket_message_def)
  have listed: "[?bk] = filter (\<lambda>bk. lb_prefix ?rq = [] \<or> startswith (bk_name bk) (bucket_prefix @ lb_prefix ?rq))
      (map snd (buckets (sv_db (hs_service one_bucket))))"
    unfolding only by (simp add: name bucket_prefix_def)
  have "get_retry_test_id_from_context (Grpc []) = None"
    by (simp add: get_retry_test_id_from_context_def invocation_metadata_value_def)
  moreover have "\<not> contains ''projects/_/buckets/b.c'' ''unreachable''" by code_simp
  ultimately show ?thesis
    using listing_splits_buckets [OF made one_bucket_tables(4) listed] made by (auto simp: name masked_bucket_def)
qed

end
