(* ===== verification/Retry_Clients.thy ===== *)
theory Retry_Clients
  imports Bucket_Handlers
begin

text \<open>
  A client that repeats a request while the retry test of the request refuses it, over the handlers
  of \<open>src/testbench/common.py\<close> that both servers run before the body of every request.  The loop may run
  forever, so that it is a partial function: \<open>None\<close> means that it does not end.
\<close>

section \<open>The loop\<close>

text \<open>The result is the number of refused attempts, what the last attempt returned, and the state.\<close>

partial_function (option) repeat_until :: "('e, 's, 'a) pym \<Rightarrow> 's \<Rightarrow> (nat \<times> 'a \<times> 's) option" where
  "repeat_until trial s = (case trial s of
     (Inr x, t) \<Rightarrow> Some (0, x, t)
   | (Inl e, t) \<Rightarrow> Option.bind (repeat_until trial t) (\<lambda>(n, y). Some (Suc n, y)))"

lemma repeat_until_Inr: "trial s = (Inr x, t) \<Longrightarrow> repeat_until trial s = Some (0, x, t)"
  by (subst repeat_until.simps) simp

lemma repeat_until_Inl:
  "trial s = (Inl e, t) \<Longrightarrow> repeat_until trial s = Option.bind (repeat_until trial t) (\<lambda>(n, y). Some (Suc n, y))"
  by (subst repeat_until.simps) simp

text \<open>An attempt that is refused and changes nothing is repeated forever.\<close>

lemma repeat_until_stuck:
  assumes "trial s = (Inl e, s)"
  shows "repeat_until trial s = None"
proof (cases "repeat_until trial s")
  case (Some y)
  then show ?thesis
    using repeat_until_Inl [of trial, OF assms] by (cases y) simp
qed

text \<open>A loop whose refused attempts use something up ends, after at most so many attempts.\<close>

lemma repeat_until_ends:
  assumes "I s" and "\<And>s e t. I s \<Longrightarrow> trial s = (Inl e, t) \<Longrightarrow> I t \<and> left t < (left s :: nat)"
  shows "\<exists>n x t. repeat_until trial s = Some (n, x, t) \<and> n \<le> left s"
  using assms(1)
proof (induction "left s" arbitrary: s rule: less_induct)
  case less
  show ?case
  proof (cases "trial s")
    case (Pair r t)
    show ?thesis
    proof (cases r)
      case (Inl e)
      then have "I t" "left t < left s" using assms(2) [OF less.prems] Pair by simp_all
      then obtain n x u where "repeat_until trial t = Some (n, x, u)" "n \<le> left t"
        using less.hyps by blast
      then show ?thesis
        using repeat_until_Inl [of trial s e t] Pair Inl \<open>left t < left s\<close> by simp
    qed (use Pair repeat_until_Inr [of trial s] in simp)
  qed
qed

section \<open>Repeated requests\<close>

definition rest_refuses :: "string \<Rightarrow> bool" where
  "rest_refuses x \<longleftrightarrow> first_group retry_return_error_code (Some x) \<noteq> None
     \<or> first_group retry_return_error_connection (Some x) = Some ''reset-connection''"

definition for_rest :: "retry_test \<Rightarrow> bool" where
  "for_rest rt \<longleftrightarrow> py_upper (py_upper (transport rt)) = ''HTTP''"

lemma http_upper: "py_upper ''HTTP'' = ''HTTP''" "py_upper ''GRPC'' = ''GRPC''"
  by code_simp+

lemma rest_attempt_passes:
  assumes "test_id_of r = Some i" and "map_of (retry_tests db) i = Some rt"
    and "queue db i m = [] \<or> \<not> for_rest rt \<or> \<not> rest_refuses (hd (queue db i m))"
  shows "\<exists>f. handle_retry_test_instruction r m db = (Inr f, db)"
proof (cases "queue db i m = [] \<or> \<not> for_rest rt")
  case True
  then show ?thesis
    using assms(1,2) by (auto simp: handle_retry_test_instruction_def handler_steps for_rest_def http_upper)
next
  case False
  then obtain x q where q: "queue db i m = x # q" by (cases "queue db i m") auto
  have "first_group retry_return_error_code (Some x) = None"
    "first_group retry_return_error_connection (Some x) \<noteq> Some ''reset-connection''"
    using assms(3) False q by (auto simp: rest_refuses_def)
  moreover have "has_instructions_retry_test i m ''HTTP'' db = (Inr True, db)"
    using has_instructions_known [OF assms(2)] False by (simp add: for_rest_def http_upper)
  ultimately show ?thesis
    using assms(1) peek_queue [OF assms(2), of m]
    by (simp add: handle_retry_test_instruction_def bindM_def q Let_def split: option.split list.split)
qed

lemma rest_attempt_refused:
  assumes "test_id_of r = Some i" and "map_of (retry_tests db) i = Some rt"
    and "queue db i m = x # q" and "for_rest rt" and "rest_refuses x"
  shows "\<exists>e. handle_retry_test_instruction r m db = (Inl e, dequeued i m db)"
proof -
  have has: "has_instructions_retry_test i m ''HTTP'' db = (Inr True, db)"
    using has_instructions_known [OF assms(2)] assms(3,4) by (simp add: for_rest_def http_upper)
  consider w where "first_group retry_return_error_code (Some x) = Some w"
    | "first_group retry_return_error_code (Some x) = None"
      "first_group retry_return_error_connection (Some x) = Some ''reset-connection''"
    using assms(5) by (auto simp: rest_refuses_def)
  then show ?thesis
    using assms(1,3) has peek_queue [OF assms(2), of m] dequeue_queue [OF assms(2), of m]
    by cases (simp_all add: handle_retry_test_instruction_def bindM_def seqM_def)
qed

lemma dequeued_test:
  assumes "map_of (retry_tests db) i = Some rt"
  shows "\<exists>rt'. map_of (retry_tests (dequeued i m db)) i = Some rt' \<and> transport rt' = transport rt"
  using assms by (auto simp: dequeued_def dequeue_known popped_def Let_def update_conv' split: list.split)

lemma repeated_attempts:
  assumes "test_id_of r = Some i" and "map_of (retry_tests db) i = Some rt" and "for_rest rt"
  shows "\<exists>f db'. repeat_until (handle_retry_test_instruction r m) db
      = Some (length (takeWhile rest_refuses (queue db i m)), f, db')
    \<and> (\<forall>j n. queue db' j n = (if j = i \<and> n = m then dropWhile rest_refuses (queue db i m) else queue db j n))"
  using assms(2,3)
proof (induction "queue db i m" arbitrary: db rt)
  case Nil
  then show ?case
    using rest_attempt_passes [OF assms(1) Nil(2), of m] repeat_until_Inr [of "handle_retry_test_instruction r m" db]
    by (auto simp: Nil(1) [symmetric])
next
  case (Cons x q)
  show ?case
  proof (cases "rest_refuses x")
    case True
    then obtain e where e: "handle_retry_test_instruction r m db = (Inl e, dequeued i m db)"
      using rest_attempt_refused [OF assms(1) Cons.prems(1) Cons.hyps(2) [symmetric] Cons.prems(2)] by blast
    obtain rt' where "map_of (retry_tests (dequeued i m db)) i = Some rt'" "for_rest rt'"
      using dequeued_test [OF Cons.prems(1), of m] Cons.prems(2) by (auto simp: for_rest_def)
    moreover have "q = queue (dequeued i m db) i m"
      using Cons.hyps(2) by (simp add: queue_dequeued [OF Cons.prems(1)]) (metis list.sel(3))
    ultimately obtain f db' where "repeat_until (handle_retry_test_instruction r m) (dequeued i m db)
          = Some (length (takeWhile rest_refuses q), f, db')"
        "\<forall>j n. queue db' j n = (if j = i \<and> n = m then dropWhile rest_refuses q else queue (dequeued i m db) j n)"
      using Cons.hyps(1) [of "dequeued i m db" rt'] by metis
    then show ?thesis
      using repeat_until_Inl [of "handle_retry_test_instruction r m", OF e] True
      by (auto simp: Cons.hyps(2) [symmetric] queue_dequeued [OF Cons.prems(1)])
  next
    case False
    then obtain f where "handle_retry_test_instruction r m db = (Inr f, db)"
      using rest_attempt_passes [OF assms(1) Cons.prems(1), of m] by (auto simp: Cons.hyps(2) [symmetric])
    then show ?thesis
      using repeat_until_Inr [of "handle_retry_test_instruction r m" db] False
      by (auto simp: Cons.hyps(2) [symmetric])
  qed
qed

section \<open>Repeated calls\<close>

lemma grpc_attempt_refused:
  assumes "get_retry_test_id_from_context c = Some i" and "known db i"
    and "grpc_handle_retry_test_instruction c m db = (Inl e, db')"
  shows "known db' i \<and> length (queue db' i m) < length (queue db i m)"
proof -
  obtain rt where rt: "map_of (retry_tests db) i = Some rt" using assms(2) by (auto simp: known_def)
  have "db' = dequeued i m db \<and> queue db i m \<noteq> []"
    using assms(1,3) rt
    by (auto simp: grpc_handle_retry_test_instruction_def handler_steps Let_def split: if_splits option.splits)
  then show ?thesis
    using queue_dequeued [OF rt, of m i m] dequeued_test [OF rt, of m] by (auto simp: known_def)
qed

text \<open>Over gRPC an instruction may also be used up by a call that is let through (one that
  asks for a direct path that the call does not enforce), so that the number of attempts is only bounded.\<close>

lemma repeated_calls_end:
  assumes "get_retry_test_id_from_context c = Some i" and "known db i"
  shows "\<exists>n db'. repeat_until (grpc_handle_retry_test_instruction c m) db = Some (n, (), db')
    \<and> n \<le> length (queue db i m)"
  using repeat_until_ends [of "\<lambda>db. known db i" db "grpc_handle_retry_test_instruction c m" "\<lambda>db. length (queue db i m)"]
    assms grpc_attempt_refused [OF assms(1), of _ m] by auto

section \<open>Whole requests\<close>

text \<open>An attempt is refused when the handler that runs before its body refuses it; else its outcome is that of
  the body, whether the body answers or raises.\<close>

definition answered :: "'a bucketM \<Rightarrow> (err + 'a) bucketM" where
  "answered body s = (case body s of (r, t) \<Rightarrow> (Inr r, t))"

definition rest_attempt :: "request \<Rightarrow> string \<Rightarrow> 'a bucketM \<Rightarrow> (err + response_fn \<times> 'a) bucketM" where
  "rest_attempt r m body = bindM (in_service (on_tests (handle_retry_test_instruction r m)))
     (\<lambda>response_handler. answered (bindM body (\<lambda>answer. ret (response_handler, answer))))"

definition grpc_attempt :: "ctx \<Rightarrow> string \<Rightarrow> 'a bucketM \<Rightarrow> (err + 'a) bucketM" where
  "grpc_attempt c m body = bindM (in_service (on_tests (grpc_handle_retry_test_instruction c m))) (\<lambda>_. answered body)"

text \<open>The requests of the servers are such attempts.\<close>

lemma attempts_of_servers:
  "serve_call env lib r call s = (case rest_attempt r (call_method call) (handle_call env lib r call) s of
     (Inl e, t) \<Rightarrow> (Inl e, t) | (Inr outcome, t) \<Rightarrow> (outcome, t))"
  "grpc_call c m func s = (case grpc_attempt c m func s of
     (Inl e, t) \<Rightarrow> (Inl e, t) | (Inr outcome, t) \<Rightarrow> (outcome, t))"
  by (simp_all add: serve_call_def grpc_call_def rest_attempt_def grpc_attempt_def answered_def bindM_def seqM_def
      split: prod.split sum.split)

definition tests_of :: "bucket_service \<Rightarrow> retry_db" where
  "tests_of s = retry (sv_db (hs_service s))"

definition with_tests :: "retry_db \<Rightarrow> bucket_service \<Rightarrow> bucket_service" where
  "with_tests q s = s\<lparr>hs_service := (hs_service s)\<lparr>sv_db := (sv_db (hs_service s))\<lparr>retry := q\<rparr>\<rparr>\<rparr>"

lemma with_tests_simps [simp]:
  "tests_of (with_tests q s) = q" "with_tests q' (with_tests q s) = with_tests q' s" "with_tests (tests_of s) s = s"
  by (simp_all add: tests_of_def with_tests_def)

lemma handler_on_tests:
  "in_service (on_tests h) s = (fst (h (tests_of s)), with_tests (snd (h (tests_of s))) s)"
  by (simp add: in_service_def on_tests_def on_db_def on_retry_db_def tests_of_def with_tests_def split: prod.split)

text \<open>Refused attempts change the retry tests only, and the body runs once, at the end.\<close>

lemma repeat_whole:
  assumes "repeat_until h (tests_of s) = Some (n, f, q)"
  shows "repeat_until (bindM (in_service (on_tests h)) (\<lambda>f. answered (body f))) s = Some (n, body f (with_tests q s))"
  using assms
proof (induction n arbitrary: s)
  case 0
  have "h (tests_of s) = (Inr f, q)"
    using 0 by (subst (asm) repeat_until.simps) (auto split: prod.splits sum.splits bind_splits)
  moreover obtain x t where run: "body f (with_tests q s) = (x, t)" by (cases "body f (with_tests q s)")
  ultimately have "bindM (in_service (on_tests h)) (\<lambda>f. answered (body f)) s = (Inr x, t)"
    by (simp add: bindM_def handler_on_tests answered_def)
  then show ?case using repeat_until_Inr run by metis
next
  case (Suc n)
  then obtain e q1 where h: "h (tests_of s) = (Inl e, q1)" "repeat_until h q1 = Some (n, f, q)"
    by (subst (asm) repeat_until.simps) (auto split: prod.splits sum.splits bind_splits)
  let ?a = "bindM (in_service (on_tests h)) (\<lambda>f. answered (body f))"
  have "?a s = (Inl e, with_tests q1 s)" by (simp add: bindM_def handler_on_tests h(1))
  moreover have "repeat_until ?a (with_tests q1 s) = Some (n, body f (with_tests q s))"
    using Suc.IH [of "with_tests q1 s"] h(2) by simp
  ultimately show ?case
    using repeat_until_Inl [of ?a s e "with_tests q1 s"] by (cases "body f (with_tests q s)") simp
qed

lemma stuck_whole:
  "h (tests_of s) = (Inl e, tests_of s) \<Longrightarrow> repeat_until (bindM (in_service (on_tests h)) g) s = None"
  by (rule repeat_until_stuck [of _ _ e]) (simp add: bindM_def handler_on_tests)

section \<open>A client ends\<close>

text \<open>C17: A client that repeats a request while its retry test refuses it comes to an end, when the retry test
  exists.  A request of the REST server whose retry test is one for HTTP is refused exactly as often as there are
  instructions at the head of its queue that
  refuse a request (an error status, a reset connection); these are the ones that are gone then, and no other
  queue has changed.  A call of the gRPC server is refused at most as often as the queue has instructions.
  Either way the body of the request runs once, after the refused attempts, in a state that
  differs from the first one in the retry tests only, and its outcome, an answer or an error, is the outcome of the last attempt.
  With a retry test that does not exist (and an identifier that is not empty) the client never ends on either server.\<close>

theorem retrying_clients_end:
  assumes "test_id_of r = Some i" and "get_retry_test_id_from_context c = Some i" and "q = tests_of s"
  shows "(\<forall>rt. map_of (retry_tests q) i = Some rt \<and> for_rest rt \<longrightarrow>
      (\<exists>f q'. repeat_until (rest_attempt r m body) s
          = Some (length (takeWhile rest_refuses (queue q i m)),
              bindM body (\<lambda>answer. ret (f, answer)) (with_tests q' s))
        \<and> (\<forall>j n. queue q' j n = (if j = i \<and> n = m then dropWhile rest_refuses (queue q i m) else queue q j n))))
    \<and> (known q i \<longrightarrow> (\<exists>n q'. repeat_until (grpc_attempt c m call) s = Some (n, call (with_tests q' s))
        \<and> n \<le> length (queue q i m)))
    \<and> (\<not> known q i \<longrightarrow> repeat_until (rest_attempt r m body) s = None
        \<and> (i \<noteq> [] \<longrightarrow> repeat_until (grpc_attempt c m call) s = None))"
proof (intro conjI allI impI)
  fix rt assume "map_of (retry_tests q) i = Some rt \<and> for_rest rt"
  then obtain f q' where run: "repeat_until (handle_retry_test_instruction r m) (tests_of s)
      = Some (length (takeWhile rest_refuses (queue q i m)), f, q')"
    and rest: "\<forall>j n. queue q' j n = (if j = i \<and> n = m then dropWhile rest_refuses (queue q i m) else queue q j n)"
    using repeated_attempts [OF assms(1), of q rt m] assms(3) by blast
  show "\<exists>f q'. repeat_until (rest_attempt r m body) s
          = Some (length (takeWhile rest_refuses (queue q i m)),
              bindM body (\<lambda>answer. ret (f, answer)) (with_tests q' s))
        \<and> (\<forall>j n. queue q' j n = (if j = i \<and> n = m then dropWhile rest_refuses (queue q i m) else queue q j n))"
    using repeat_whole [OF run, of "\<lambda>f. bindM body (\<lambda>answer. ret (f, answer))"] rest
    unfolding rest_attempt_def by blast
next
  assume "known q i"
  then obtain n q' where "repeat_until (grpc_handle_retry_test_instruction c m) (tests_of s) = Some (n, (), q')"
      "n \<le> length (queue q i m)"
    using repeated_calls_end [OF assms(2), of q m] assms(3) by blast
  then show "\<exists>n q'. repeat_until (grpc_attempt c m call) s = Some (n, call (with_tests q' s)) \<and> n \<le> length (queue q i m)"
    using repeat_whole [of "grpc_handle_retry_test_instruction c m" s n "()" q' "\<lambda>_. call"]
    unfolding grpc_attempt_def by blast
next
  assume unknown: "\<not> known q i"
  show "repeat_until (rest_attempt r m body) s = None"
    unfolding rest_attempt_def using unknown assms(1,3)
    by (intro stuck_whole) (simp add: known_def handle_retry_test_instruction_def bindM_def has_unknown)
  assume "i \<noteq> []"
  then obtain e where "grpc_handle_retry_test_instruction c m (tests_of s) = (Inl e, tests_of s)"
    using unknown assms(2,3)
    by (simp add: known_def grpc_handle_retry_test_instruction_def bindM_def has_unknown)
  then show "repeat_until (grpc_attempt c m call) s = None"
    unfolding grpc_attempt_def by (rule stuck_whole)
qed

definition sample_tests_service :: bucket_service where
  "sample_tests_service = \<lparr>hs_service = \<lparr>sv_db = initial_db\<lparr>retry := sample_retry ''HTTP'' [''return-503'', ''return-504'']\<rparr>,
     sv_uploads = [], sv_rewrites = [], sv_generation = 0\<rparr>, hs_messages = []\<rparr>"

theorem retrying_clients_end_witness:
  "\<exists>f q'. repeat_until (rest_attempt sample_request ''storage.objects.insert'' (find_bucket ''b'' Rest [])) sample_tests_service
      = Some (2, bindM (find_bucket ''b'' Rest []) (\<lambda>answer. ret (f, answer)) (with_tests q' sample_tests_service))
    \<and> queue q' ''id1'' ''storage.objects.insert'' = []"
proof -
  let ?db = "sample_retry ''HTTP'' [''return-503'', ''return-504'']"
  have "test_id_of sample_request = Some ''id1''"
    by (simp add: test_id_of_def hget_def sample_request_def)
  moreover have "get_retry_test_id_from_context (Grpc [(''x-retry-test-id'', ''id1'')]) = Some ''id1''"
    by (simp add: get_retry_test_id_from_context_def invocation_metadata_value_def)
  moreover have "queue ?db ''id1'' ''storage.objects.insert'' = [''return-503'', ''return-504'']"
    by (simp add: queue_def queue_of_def sample_retry_def)
  moreover have "rest_refuses ''return-503''" "rest_refuses ''return-504''"
    by code_simp+
  moreover have "map_of (retry_tests ?db) ''id1'' = Some (sample_test ''HTTP'' [''return-503'', ''return-504''])"
      "for_rest (sample_test ''HTTP'' [''return-503'', ''return-504''])"
    by (simp_all add: sample_retry_def sample_test_def for_rest_def http_upper)
  moreover have "?db = tests_of sample_tests_service" by (simp add: tests_of_def sample_tests_service_def)
  ultimately show ?thesis
    using retrying_clients_end [of sample_request "''id1''" "Grpc [(''x-retry-test-id'', ''id1'')]" ?db sample_tests_service
        "''storage.objects.insert''" "find_bucket ''b'' Rest []" "ret ()"] by (fastforce simp: numeral_2_eq_2)
qed

end
