(* ===== verification/Bidi_Writes.thy ===== *)
theory Bidi_Writes
  imports Grpc_Objects
begin

text \<open>
  \<open>BidiWriteObject\<close>: the bidirectional stream of writes of \<open>src/gcs/upload.py\<close>
  (\<open>process_bidi_write_object_grpc\<close>), with the objects that grow while they are written
  (appendable objects).  The object in the database of such an upload shares the metadata and the
  media of the upload; the changes below are made in both places.
\<close>

section \<open>Messages and responses\<close>

record append_spec =
  as_bucket :: string
  as_object :: string
  as_generation :: int
  as_conditions :: "(string \<times> int) list"
  as_handle :: "string option"

datatype bidi_first = Resume string | New_object write_spec bool | Append append_spec | No_start

text \<open>\<open>bw_write\<close> is the rest of the message, which has no first message.\<close>

record bidi_message =
  bw_start :: bidi_first
  bw_write :: write_message
  bw_state_lookup :: bool

text \<open>\<open>BidiWriteObjectResponse\<close>: its status is the persisted size or the resource.\<close>

record bidi_write_response =
  bo_status :: write_answer
  bo_crc32c :: "nat option"
  bo_handle :: "string option"

text \<open>The variables of the stream; \<open>bs_generation\<close> is the number of the writer of the object that the
  variable \<open>blob\<close> holds, if it holds one.\<close>

record bidi_stream =
  bs_upload :: string
  bs_resumable :: bool
  bs_appendable :: bool
  bs_metadata_first :: bool
  bs_handle :: "string option"
  bs_writer :: "nat option"
  bs_checksums :: "(int option \<times> bytes) option"
  bs_first_response :: bool
  bs_responses :: "bidi_write_response list"

section \<open>What an upload shares with its object\<close>

definition upload_object :: "upload \<Rightarrow> service \<Rightarrow> blob option" where
  "upload_object up s = (case map_of (objects (sv_db s)) (bk_name (up_bucket up)) of
     None \<Rightarrow> None
   | Some os \<Rightarrow> (case map_of os (object_key (om_name (up_metadata up)) (om_generation (up_metadata up))) of
       None \<Rightarrow> None | Some b \<Rightarrow> if b_upload b = Some (up_id up) then Some b else None))"

definition written_metadata :: "upload \<Rightarrow> service \<Rightarrow> obj_meta" where
  "written_metadata up s = (case upload_object up s of None \<Rightarrow> up_metadata up | Some b \<Rightarrow> b_metadata b)"

text \<open>The metadata are set, and the object gets the media of the upload.\<close>

definition share_upload :: "string \<Rightarrow> obj_meta \<Rightarrow> service \<Rightarrow> service" where
  "share_upload i md s = (case map_of (sv_uploads s) i of
     None \<Rightarrow> s
   | Some up \<Rightarrow>
       (let s' = put_upload (up\<lparr>up_metadata := md\<rparr>) s in case upload_object up s of
          None \<Rightarrow> s'
        | Some b \<Rightarrow> alter_stored (bk_name (up_bucket up)) b (b\<lparr>b_metadata := md, b_media := up_media up\<rparr>) s'))"

definition resync :: "string \<Rightarrow> service \<Rightarrow> service" where
  "resync i s = (case map_of (sv_uploads s) i of None \<Rightarrow> s | Some up \<Rightarrow> share_upload i (written_metadata up s) s)"

definition syncing :: "string \<Rightarrow> 'a serviceM \<Rightarrow> 'a serviceM" where
  "syncing i m s = (case m s of (r, t) \<Rightarrow> (r, resync i t))"

definition update_upload_checksums :: "string \<Rightarrow> (int option \<times> bytes) option \<Rightarrow> unit serviceM" where
  "update_upload_checksums i sums =
     bindM (current_upload i) (\<lambda>up.
     bindM (getS (written_metadata up)) (\<lambda>md.
     bindM (liftE (annotate_checksums sums md)) (\<lambda>md. modS (share_upload i md))))"

section \<open>The start of a stream\<close>

definition redirected :: "string \<Rightarrow> string option \<Rightarrow> int option \<Rightarrow> stream_end" where
  "redirected routing_token handle generation = Aborted_with
     \<lparr>sp_code = fst aborted_status, sp_message = snd aborted_status,
      sp_details = [Write_redirected_error handle generation routing_token]\<rparr>"

text \<open>The empty object that an appendable upload starts with; an object that is not finalized yet may
  not be overwritten.\<close>

definition insert_empty_appendable_object :: "handler_env \<Rightarrow> ctx \<Rightarrow> upload \<Rightarrow> blob serviceM" where
  "insert_empty_appendable_object env c up = (case up_params up of
     None \<Rightarrow> raise (Exc AttributeError)
   | Some params \<Rightarrow>
     bindM (getS (upload_bucket up)) (\<lambda>bk.
     bindM (making_object (keep_upload_metadata (up_id up)) bk (up_metadata up)
        (object_init (objects_of env) (he_now env) (up_request up) params (up_media up) False c
           (Some (up_id up)) True)) (\<lambda>(blob, _).
     on_db (do_update_object (bk_name bk) (b_name blob)
        (\<lambda>latest_blob _.
           if (case latest_blob of None \<Rightarrow> False | Some b \<Rightarrow> om_finalize_time (b_metadata b) = None)
           then raise (Grpc_abort (Some FAILED_PRECONDITION) (Text ''Attempting to overwrite an unfinalized object''))
           else seqM (insert_object (bk_name bk) blob c (up_preconditions up)) (ret (blob, latest_blob)))
        c None (up_preconditions up) False))))"

text \<open>The number of a writer as the text of a handle.\<close>

definition handle_of :: "nat \<Rightarrow> string" where
  "handle_of n = show_nat n"

definition bidi_start_new ::
    "handler_env \<Rightarrow> ctx \<Rightarrow> string \<Rightarrow> write_message \<Rightarrow> write_spec \<Rightarrow> bool \<Rightarrow> bidi_stream serviceM" where
  "bidi_start_new env c fresh m spec appendable =
     bindM (the_bucket (om_bucket (wspec_resource spec)) c) (\<lambda>bk.
     let up = init_first_write_grpc env fresh m spec bk c;
         bs = \<lparr>bs_upload = fresh, bs_resumable = False, bs_appendable = appendable, bs_metadata_first = appendable,
           bs_handle = None, bs_writer = None, bs_checksums = None, bs_first_response = True, bs_responses = []\<rparr> in
     seqM (modS (put_upload up))
     (if \<not> appendable then ret bs
      else bindM (insert_empty_appendable_object env c up) (\<lambda>blob.
           seqM (modS (alter_upload fresh (\<lambda>up. up\<lparr>up_made := True\<rparr>)))
           (seqM (on_db (insert_upload fresh (bk_name bk)))
             (ret (bs\<lparr>bs_handle := Some (handle_of 1), bs_writer := Some (b_upload_gen blob)\<rparr>))))))"

text \<open>Without a handle the stream becomes the writer of the object; with one it must be the writer.\<close>

definition bump_upload_gen :: "blob \<Rightarrow> blob option \<Rightarrow> int option \<Rightarrow> (blob \<times> blob option) dbM" where
  "bump_upload_gen blob found live = (case found of
     None \<Rightarrow> raise (Exc AttributeError)
   | Some b \<Rightarrow>
     if live \<noteq> Some (b_generation blob) then ret (b, Some b)
     else ret (b\<lparr>b_upload_gen := b_upload_gen b + 1\<rparr>, Some (b\<lparr>b_upload_gen := b_upload_gen b + 1\<rparr>)))"

definition bidi_start_append :: "ctx \<Rightarrow> append_spec \<Rightarrow> bidi_stream serviceM" where
  "bidi_start_append c spec =
     bindM (on_db (get_object (as_bucket spec) (as_object spec) c (generation_of_field (as_generation spec))
        (make_grpc_preconditions (as_conditions spec) ''if_'') False)) (\<lambda>found.
     bindM (require found) (\<lambda>blob.
     if om_finalize_time (b_metadata blob) \<noteq> None
     then raise (Grpc_abort (Some FAILED_PRECONDITION) (Text ''Attempting to append to already-finalized object''))
     else
     bindM (case as_handle spec of
         None \<Rightarrow>
           bindM (getS (\<lambda>s. map_of (live_generations (sv_db s)) (om_bucket (b_metadata blob)))) (\<lambda>lives.
           bindM (on_db (do_update_object (om_bucket (b_metadata blob)) (b_name blob) (bump_upload_gen blob) c
              (generation_of_field (b_generation blob)) [] True)) (\<lambda>new.
           ret (new, True,
             if (case lives of None \<Rightarrow> None | Some ls \<Rightarrow> map_of ls (b_name blob)) = Some (b_generation blob)
             then Some (handle_of (b_upload_gen new)) else None)))
       | Some h \<Rightarrow> (case py_int h of
           None \<Rightarrow> raise (Exc ValueError)
         | Some n \<Rightarrow>
           if n \<noteq> int (b_upload_gen blob)
           then raise (Grpc_abort (Some FAILED_PRECONDITION)
                  (Text ''A different writer has become the exclusive writer of this object.''))
           else ret (blob, False, None))) (\<lambda>(blob, metadata_first, handle).
     case b_upload blob of
       None \<Rightarrow> raise (Exc AttributeError)
     | Some i \<Rightarrow> ret \<lparr>bs_upload = i, bs_resumable = False, bs_appendable = True, bs_metadata_first = metadata_first,
         bs_handle = handle, bs_writer = Some (b_upload_gen blob), bs_checksums = None,
         bs_first_response = True, bs_responses = []\<rparr>)))"

text \<open>A completed upload is answered at once, which is the left of the result.\<close>

definition bidi_start_resume :: "ctx \<Rightarrow> string \<Rightarrow> (bidi_write_response + bidi_stream) serviceM" where
  "bidi_start_resume c i =
     bindM (the_upload i c) (\<lambda>up.
     if up_complete up then
       (if up_made up then bindM (getS (shared_metadata up)) (\<lambda>md.
            ret (Inl \<lparr>bo_status = Resource md, bo_crc32c = None, bo_handle = None\<rparr>))
        else raise (Exc AttributeError))
     else ret (Inr \<lparr>bs_upload = i, bs_resumable = True, bs_appendable = False, bs_metadata_first = False,
         bs_handle = None, bs_writer = None, bs_checksums = None, bs_first_response = True, bs_responses = []\<rparr>))"

definition bidi_start ::
    "handler_env \<Rightarrow> ctx \<Rightarrow> string \<Rightarrow> bidi_message \<Rightarrow> (bidi_write_response + bidi_stream) serviceM" where
  "bidi_start env c fresh m = (case bw_start m of
     Resume i \<Rightarrow> bidi_start_resume c i
   | New_object spec appendable \<Rightarrow>
       bindM (bidi_start_new env c fresh (bw_write m) spec appendable) (\<lambda>bs. ret (Inr bs))
   | Append spec \<Rightarrow> bindM (bidi_start_append c spec) (\<lambda>bs. ret (Inr bs))
   | No_start \<Rightarrow> raise (invalid ''Upload missing a first_message field'' c))"

text \<open>The redirection after the first message.  The variable \<open>blob\<close> is not bound for an upload that is
  not appendable.\<close>

definition write_handle_redirect :: "ctx \<Rightarrow> bidi_stream \<Rightarrow> stream_end option serviceM" where
  "write_handle_redirect c bs =
     bindM (on_tests (get_return_write_handle_and_redirect_token c)) (\<lambda>token. case token of
       Some (t # ts) \<Rightarrow>
         bindM (case bs_handle bs of
             Some h \<Rightarrow> ret h
           | None \<Rightarrow> (case bs_writer bs of
               None \<Rightarrow> raise (Exc (Plain_exception ''UnboundLocalError'')) | Some n \<Rightarrow> ret (handle_of n))) (\<lambda>h.
         bindM (current_upload (bs_upload bs)) (\<lambda>up.
         bindM (getS (written_metadata up)) (\<lambda>md.
         ret (Some (redirected (t # ts) (Some h) (Some (om_generation md)))))))
     | _ \<Rightarrow> ret None)"

section \<open>The messages of a stream\<close>

text \<open>The first response of an appendable upload carries the handle and the resource, with the size that
  the response had: setting the resource clears the persisted size, which is of the same \<open>oneof\<close>.\<close>

definition first_write_response :: "bidi_stream \<Rightarrow> obj_meta \<Rightarrow> bidi_write_response \<Rightarrow> bidi_write_response" where
  "first_write_response bs md r =
     (if bs_first_response bs \<and> bs_appendable bs then
        (let r = r\<lparr>bo_handle := bs_handle bs\<rparr> in
         if bs_metadata_first bs
         then r\<lparr>bo_status := Resource (md\<lparr>om_size := (case bo_status r of Persisted_size n \<Rightarrow> n | Resource _ \<Rightarrow> 0)\<rparr>)\<rparr>
         else r)
      else r)"

definition bidi_respond :: "bidi_write_response \<Rightarrow> bidi_stream \<Rightarrow> bidi_stream serviceM" where
  "bidi_respond r bs =
     bindM (current_upload (bs_upload bs)) (\<lambda>up.
     bindM (getS (shared_metadata up)) (\<lambda>md.
     ret (bs\<lparr>bs_responses := bs_responses bs @ [first_write_response bs md r], bs_first_response := False,
       bs_handle := (if bs_first_response bs \<and> bs_appendable bs then None else bs_handle bs)\<rparr>)))"

definition bidi_checksums :: "ctx \<Rightarrow> write_message \<Rightarrow> bidi_stream \<Rightarrow> err + bidi_stream" where
  "bidi_checksums c m bs = (case wm_checksums m of
     None \<Rightarrow> Inr bs
   | Some sums \<Rightarrow>
       if \<not> wm_finish m
       then Inl (invalid ''Object checksums can be included only in the first or last message'' c)
       else if bs_checksums bs \<noteq> None then Inl (invalid ''Duplicate object checksums in upload'' c)
       else Inr (bs\<lparr>bs_checksums := Some sums\<rparr>))"

text \<open>The object of an appendable upload, as the checkpoint leaves it.\<close>

definition checkpoint :: "upload \<Rightarrow> blob \<Rightarrow> blob" where
  "checkpoint up b = b\<lparr>b_media := up_media up, b_metadata := (b_metadata b)
     \<lparr>om_size := length (bm_buf (up_media up)),
      om_checksums := Some (Some (int (bm_crc (up_media up))),
        case om_checksums (b_metadata b) of None \<Rightarrow> [] | Some (_, md5) \<Rightarrow> md5)\<rparr>\<rparr>"

definition finalized :: "handler_env \<Rightarrow> upload \<Rightarrow> blob \<Rightarrow> blob" where
  "finalized env up b = b\<lparr>b_media := up_media up, b_upload := None, b_upload_gen := 0,
     b_metadata := (b_metadata b)\<lparr>om_finalize_time := Some (he_now env), om_size := length (bm_buf (up_media up))\<rparr>\<rparr>"

definition update_appendable :: "ctx \<Rightarrow> string \<Rightarrow> (upload \<Rightarrow> blob \<Rightarrow> blob) \<Rightarrow> blob serviceM" where
  "update_appendable c i f =
     bindM (current_upload i) (\<lambda>up.
     bindM (getS (written_metadata up)) (\<lambda>md.
     on_db (do_update_object (bk_name (up_bucket up)) (om_name md)
       (\<lambda>found _. case found of None \<Rightarrow> raise (Exc AttributeError) | Some b \<Rightarrow> ret (f up b, Some (f up b)))
       c (generation_of_field (om_generation md)) [] True)))"

definition bidi_data_request :: "handler_env \<Rightarrow> ctx \<Rightarrow> write_message \<Rightarrow> bidi_stream \<Rightarrow> unit serviceM" where
  "bidi_data_request env c m bs = (case wm_data m of
     None \<Rightarrow> ret ()
   | Some (content, crc32c_hash) \<Rightarrow>
       seqM (liftE (check_content env c content crc32c_hash))
       (bindM (current_upload (bs_upload bs)) (\<lambda>up.
        let persisted = length (bm_buf (up_media up));
            content = unstored (wm_write_offset m) persisted content
        in if int persisted < wm_write_offset m
           then raise (Grpc_abort (Some OUT_OF_RANGE) (Text (''Write offset '' @ show_int (wm_write_offset m)
                  @ '' does not match expected '' @ show_nat persisted)))
           else
           seqM (syncing (bs_upload bs) (write_faults env c (bs_upload bs) content))
           (seqM (syncing (bs_upload bs) (modS (alter_upload (bs_upload bs) (append_data env content))))
           (if bs_appendable bs
            then seqM (update_upload_checksums (bs_upload bs) (bs_checksums bs))
                 (seqM (update_appendable c (bs_upload bs) checkpoint) (ret ()))
            else ret ())))))"

text \<open>One round of the loop; the second part of the result says that the loop ends.\<close>

definition bidi_step ::
    "handler_env \<Rightarrow> ctx \<Rightarrow> bidi_message \<Rightarrow> bidi_stream \<Rightarrow> (bidi_stream \<times> bool) serviceM" where
  "bidi_step env c message bs =
     (let m = bw_write message in
      if bw_start message \<noteq> No_start then raise (invalid ''Multiple first_message'' c)
      else
      bindM (liftE (bidi_checksums c m bs)) (\<lambda>bs.
      seqM (bidi_data_request env c m bs)
      (if wm_finish m
       then seqM (modS (alter_upload (bs_upload bs) (\<lambda>up. up\<lparr>up_complete := True\<rparr>))) (ret (bs, True))
       else if bw_state_lookup message \<or> (bs_first_response bs \<and> bs_appendable bs) then
         bindM (current_upload (bs_upload bs)) (\<lambda>up.
         bindM (bidi_respond \<lparr>bo_status = Persisted_size (length (bm_buf (up_media up))),
             bo_crc32c = Some (bm_crc (up_media up)), bo_handle = None\<rparr> bs) (\<lambda>bs. ret (bs, False)))
       else ret (bs, False))))"

text \<open>An error ends the loop; the responses before it have been sent.\<close>

fun bidi_messages ::
    "handler_env \<Rightarrow> ctx \<Rightarrow> bidi_message list \<Rightarrow> bidi_stream \<Rightarrow> (bidi_stream \<times> err option) serviceM" where
  "bidi_messages env c [] bs s = (Inr (bs, None), s)"
| "bidi_messages env c (m # ms) bs s = (case bidi_step env c m bs s of
     (Inl e, t) \<Rightarrow> (Inr (bs, Some e), t)
   | (Inr (bs', stop), t) \<Rightarrow> if stop then (Inr (bs', None), t) else bidi_messages env c ms bs' t)"

section \<open>The end of a stream\<close>

definition bidi_finish :: "handler_env \<Rightarrow> ctx \<Rightarrow> bidi_stream \<Rightarrow> bidi_stream serviceM" where
  "bidi_finish env c bs =
     (let i = bs_upload bs in
      seqM (update_upload_checksums i (bs_checksums bs))
      (bindM (current_upload i) (\<lambda>up.
       if up_complete up then
         bindM (if bs_appendable bs
                then bindM (update_appendable c i (finalized env)) (\<lambda>b. ret (Resource (b_metadata b)))
                else insert_written env c up) (\<lambda>status.
         bidi_respond \<lparr>bo_status = status, bo_crc32c = None, bo_handle = None\<rparr> bs)
       else if \<not> bs_resumable bs \<and> \<not> bs_appendable bs then raise (missing ''finish_write in request'' c)
       else ret bs)))"

definition bidi_stream_end ::
    "handler_env \<Rightarrow> ctx \<Rightarrow> bidi_stream \<times> err option \<Rightarrow> (bidi_write_response list \<times> stream_end) serviceM" where
  "bidi_stream_end env c = (\<lambda>(bs, e) s. case e of
     Some e \<Rightarrow> (Inr (bs_responses bs, Failed e), s)
   | None \<Rightarrow> (case bidi_finish env c bs s of
       (Inl e, t) \<Rightarrow> (Inr (bs_responses bs, Failed e), t)
     | (Inr bs', t) \<Rightarrow> (Inr (bs_responses bs', Completed), t)))"

definition process_bidi_write_object_grpc ::
    "handler_env \<Rightarrow> ctx \<Rightarrow> string \<Rightarrow> bidi_message list \<Rightarrow> (bidi_write_response list \<times> stream_end) serviceM" where
  "process_bidi_write_object_grpc env c fresh messages = (case messages of
     [] \<Rightarrow> raise (invalid ''Missing BidiWriteObjectRequest'' c)
   | m # ms \<Rightarrow>
     bindM (on_tests (get_return_redirect_token c)) (\<lambda>token. case token of
       Some t \<Rightarrow> ret ([], redirected t None None)
     | None \<Rightarrow>
       bindM (bidi_start env c fresh m) (\<lambda>start. case start of
         Inl r \<Rightarrow> ret ([r], Completed)
       | Inr bs \<Rightarrow>
         let bs = bs\<lparr>bs_checksums := wm_checksums (bw_write m)\<rparr> in
         bindM (write_handle_redirect c bs) (\<lambda>redirect. case redirect of
           Some e \<Rightarrow> ret ([], e)
         | None \<Rightarrow>
           bindM (bidi_messages env c
              (m\<lparr>bw_start := No_start, bw_write := (bw_write m)\<lparr>wm_checksums := None\<rparr>\<rparr> # ms) bs)
             (bidi_stream_end env c)))))"

definition BidiWriteObject ::
    "handler_env \<Rightarrow> ctx \<Rightarrow> string \<Rightarrow> bidi_message list \<Rightarrow> (bidi_write_response list \<times> stream_end) serviceM" where
  "BidiWriteObject env c fresh messages = grpc_retry_test c ''storage.objects.insert''
     (bindM (on_tests (get_expect_redirect_token c)) (\<lambda>expected.
      seqM (case (expected, get_context_request_params c, get_retry_test_id_from_context c) of
          (Some (t # ts), Some params, Some test_id) \<Rightarrow>
            if contains params (''routing_token='' @ t # ts)
            then seqM (on_tests (dequeue_next_instruction test_id ''storage.objects.insert'')) (ret ())
            else ret ()
        | _ \<Rightarrow> ret ())
        (process_bidi_write_object_grpc env c fresh messages)))"

section \<open>Growing objects\<close>

text \<open>An upload and the live object that belongs to it.\<close>

definition attached :: "service \<Rightarrow> string \<Rightarrow> upload \<Rightarrow> blob \<Rightarrow> bool" where
  "attached s i up b \<longleftrightarrow> map_of (sv_uploads s) i = Some up \<and> up_id up = i
     \<and> om_name (up_metadata up) = b_name b \<and> om_generation (up_metadata up) = b_generation b
     \<and> b_generation b \<noteq> 0 \<and> b_upload b = Some i
     \<and> (\<exists>bk os ls sd. contents (sv_db s) (bk_name (up_bucket up)) = Some (bk, os, ls, sd)
          \<and> map_of ls (b_name b) = Some (b_generation b)
          \<and> map_of os (object_key (b_name b) (b_generation b)) = Some b)"

lemma attached_upload: "attached s i up b \<Longrightarrow> current_upload i s = (Inr up, s)"
  by (simp add: attached_def current_upload_known)

lemma attached_object:
  assumes "attached s i up b"
  shows "upload_object up s = Some b" and "written_metadata up s = b_metadata b"
    and "get_object (bk_name (up_bucket up)) (b_name b) (Grpc imd) None [] False (sv_db s) = (Inr (Some b), sv_db s)"
proof -
  obtain bk os ls sd where c: "contents (sv_db s) (bk_name (up_bucket up)) = Some (bk, os, ls, sd)"
      "map_of ls (b_name b) = Some (b_generation b)" "map_of os (object_key (b_name b) (b_generation b)) = Some b"
    using assms by (auto simp: attached_def)
  show "upload_object up s = Some b"
    using assms c(3) contents_SomeD [OF c(1)] by (simp add: upload_object_def attached_def)
  then show "written_metadata up s = b_metadata b" by (simp add: written_metadata_def)
  have "contents (sv_db s) (bucket_key (bk_name (up_bucket up)) (Grpc imd)) = Some (bk, os, ls, sd)"
    using c(1) by (simp add: bucket_key_def)
  from lookup_live [OF this c(2,3)] show "get_object (bk_name (up_bucket up)) (b_name b) (Grpc imd) None [] False (sv_db s)
      = (Inr (Some b), sv_db s)"
    by (intro get_object_of_lookup(1)) simp
qed

lemma attached_alter:
  assumes "attached s i up b" and "up_id (f up) = up_id up" and "up_bucket (f up) = up_bucket up"
    and "up_metadata (f up) = up_metadata up"
  shows "attached (alter_upload i f s) i (f up) b"
  using assms by (simp add: attached_def alter_upload_known)

text \<open>A change of the object that keeps its name, its generation and its upload.\<close>

definition same_identity :: "blob \<Rightarrow> blob \<Rightarrow> bool" where
  "same_identity b b' \<longleftrightarrow> b_name b' = b_name b \<and> b_generation b' = b_generation b \<and> b_upload b' = b_upload b"

lemma attached_stored:
  assumes "attached s i up b" and "same_identity b b'" and "up_id up' = i" and "up_bucket up' = up_bucket up"
    and "om_name (up_metadata up') = b_name b" and "om_generation (up_metadata up') = b_generation b"
    and "sv_uploads t = sv_uploads (put_upload up' s)"
    and "contents (sv_db t) (bk_name (up_bucket up))
      = map_option (\<lambda>(bk, os, ls, sd). (bk, AList.map_entry (object_key (b_name b) (b_generation b)) (\<lambda>_. b') os, ls, sd))
          (contents (sv_db s) (bk_name (up_bucket up)))"
  shows "attached t i up' b'"
  using assms by (auto simp: attached_def same_identity_def map_of_map_entry)

lemma attached_share:
  assumes "attached s i up b" and "om_name md = b_name b" and "om_generation md = b_generation b"
  shows "attached (share_upload i md s) i (up\<lparr>up_metadata := md\<rparr>) (b\<lparr>b_metadata := md, b_media := up_media up\<rparr>)"
proof (rule attached_stored [OF assms(1)])
  let ?b = "b\<lparr>b_metadata := md, b_media := up_media up\<rparr>"
  have known: "map_of (sv_uploads s) i = Some up" "up_id up = i" using assms(1) by (simp_all add: attached_def)
  show "same_identity b ?b" using assms(2,3) by (simp add: same_identity_def b_name_def b_generation_def)
  show "sv_uploads (share_upload i md s) = sv_uploads (put_upload (up\<lparr>up_metadata := md\<rparr>) s)"
    by (simp add: share_upload_def known attached_object(1) [OF assms(1)] Let_def alter_stored_def)
  show "contents (sv_db (share_upload i md s)) (bk_name (up_bucket up))
      = map_option (\<lambda>(bk, os, ls, sd). (bk, AList.map_entry (object_key (b_name b) (b_generation b)) (\<lambda>_. ?b) os, ls, sd))
          (contents (sv_db s) (bk_name (up_bucket up)))"
    by (simp add: share_upload_def known attached_object(1) [OF assms(1)] Let_def alter_stored_def contents_upd)
qed (use assms in \<open>auto simp: attached_def\<close>)

lemma attached_resync:
  assumes "attached s i up b"
  shows "attached (resync i s) i (up\<lparr>up_metadata := b_metadata b\<rparr>) (b\<lparr>b_media := up_media up\<rparr>)"
proof -
  have "resync i s = share_upload i (b_metadata b) s"
    using assms attached_object(2) [OF assms] by (simp add: resync_def attached_def)
  moreover have "b\<lparr>b_metadata := b_metadata b, b_media := up_media up\<rparr> = b\<lparr>b_media := up_media up\<rparr>" by simp
  ultimately show ?thesis
    using attached_share [OF assms, of "b_metadata b"] by (simp add: b_name_def b_generation_def)
qed

lemma attached_update:
  assumes "attached s i up b" and "same_identity b (f up b)"
  shows "\<exists>t. update_appendable (Grpc imd) i f s = (Inr (f up b), t) \<and> attached t i up (f up b)"
proof -
  let ?k = "bk_name (up_bucket up)"
  obtain bk os ls sd where c: "contents (sv_db s) ?k = Some (bk, os, ls, sd)"
      "map_of ls (b_name b) = Some (b_generation b)" "map_of os (object_key (b_name b) (b_generation b)) = Some b"
      "b_generation b \<noteq> 0"
    using assms(1) by (auto simp: attached_def)
  have key: "bucket_key ?k (Grpc imd) = ?k" by (simp add: bucket_key_def)
  have "lookup_object ?k (b_name b) (Grpc imd) (Some (Inr (b_generation b))) [] True (sv_db s)
      = (Inr (Some b, map_of ls (b_name b)), sv_db s)"
    using c by (intro lookup_generation [of _ _ _ bk os ls sd]) (simp_all add: key)
  then obtain t where t: "update_appendable (Grpc imd) i f s = (Inr (f up b), t)"
      "sv_uploads t = sv_uploads s"
      "sv_db t = (upd_objects ?k (AList.map_entry (object_key (b_name b) (b_generation b)) (\<lambda>_. f up b)) (sv_db s))
         \<lparr>events := events (sv_db s) @ [Object_updated ?k (b_name (f up b)) (b_generation (f up b))]\<rparr>"
    using attached_upload [OF assms(1)] attached_object(2) [OF assms(1)]
    by (simp add: update_appendable_def bindM_def seqM_def on_db_def do_update_object_def generation_of_field_def
        key notify_def upd_objects_def b_name_def [symmetric] b_generation_def [symmetric])
  have known: "map_of (sv_uploads s) i = Some up" "up_id up = i" using assms(1) by (simp_all add: attached_def)
  have "attached t i up (f up b)"
    by (rule attached_stored [OF assms])
      (use assms(1) t known put_upload_same [of s up] in \<open>auto simp: attached_def contents_upd\<close>)
  then show ?thesis using t(1) by blast
qed

lemma checksums_kept:
  assumes "annotate_checksums sums md = Inr md'"
  shows "om_name md' = om_name md" and "om_generation md' = om_generation md"
  using annotate_checksums_Inr [OF assms] by auto

lemma update_checksums_attached:
  assumes "attached s i up b" and "up_media up = b_media b"
  shows "\<exists>t up' b'. update_upload_checksums i None s = (Inr (), t) \<and> attached t i up' b'
    \<and> up_media up' = up_media up \<and> up_bucket up' = up_bucket up \<and> b_name b' = b_name b \<and> b_media b' = up_media up"
proof -
  obtain md where md: "annotate_checksums None (b_metadata b) = Inr md" by (simp add: annotate_checksums_def)
  have "om_name md = b_name b" "om_generation md = b_generation b"
    using checksums_kept [OF md] by (simp_all add: b_name_def b_generation_def)
  note att = attached_share [OF assms(1) this]
  have "update_upload_checksums i None s = (Inr (), share_upload i md s)"
    using attached_upload [OF assms(1)] attached_object(2) [OF assms(1)] md
    by (simp add: update_upload_checksums_def bindM_def)
  moreover have "b_name (b\<lparr>b_metadata := md, b_media := up_media up\<rparr>) = b_name b"
    using checksums_kept(1) [OF md] by (simp add: b_name_def)
  ultimately show ?thesis using att by fastforce
qed

lemma data_request_grows:
  assumes "attached s i up b" and "b_media b = up_media up" and "bm_buf (up_media up) = take p content"
    and "p \<le> length content" and "accepted env m" and "\<not> wm_finish m" and "piece_of content p m"
    and "bs_upload bs = i" and "bs_appendable bs" and "bs_checksums bs = None" and "plain_call (Grpc imd)"
  shows "\<exists>t up' b'. bidi_data_request env (Grpc imd) m bs s = (Inr (), t) \<and> attached t i up' b'
    \<and> b_media b' = up_media up' \<and> bm_buf (up_media up') = take (stored_after p m) content
    \<and> om_size (b_metadata b') = length (bm_buf (up_media up'))
    \<and> up_bucket up' = up_bucket up \<and> b_name b' = b_name b"
proof -
  let ?c = "Grpc imd"
  obtain data h where d: "wm_data m = Some (data, h)" using assms(5,6) by (auto simp: accepted_def split: option.splits)
  let ?new = "unstored (wm_write_offset m) p data"
  have len: "length (bm_buf (up_media up)) = p" using assms(3,4) by simp
  have ok: "check_content env ?c data h = Inr ()" "\<not> int p < wm_write_offset m"
    using assms(5,7) d by (auto simp: accepted_def check_content_def piece_of_def)
  have faults: "write_faults env ?c i ?new s = (Inr (), s)"
    using assms(11) by (intro write_faults_plain) (simp_all add: plain_call_def)
  let ?up1 = "up\<lparr>up_metadata := b_metadata b\<rparr>" and ?b1 = "b\<lparr>b_media := up_media up\<rparr>"
  have b1: "?b1 = b" using assms(2) by (cases b) simp
  note a1 = attached_resync [OF assms(1), unfolded b1]
  let ?s2 = "alter_upload i (append_data env ?new) (resync i s)"
  have a2: "attached ?s2 i (append_data env ?new ?up1) b"
    using a1 by (rule attached_alter) (simp_all add: append_data_def)
  let ?up2 = "(append_data env ?new ?up1)\<lparr>up_metadata := b_metadata b\<rparr>"
  note a3 = attached_resync [OF a2]
  obtain t4 up4 b4 where s4: "update_upload_checksums i None (resync i ?s2) = (Inr (), t4)" "attached t4 i up4 b4"
      "up_media up4 = up_media ?up2" "up_bucket up4 = up_bucket ?up2" "b_name b4 = b_name b" "b_media b4 = up_media ?up2"
    using update_checksums_attached [OF a3] by (auto simp: b_name_def)
  have "same_identity b4 (checkpoint up4 b4)"
    by (simp add: same_identity_def checkpoint_def b_name_def b_generation_def)
  then obtain t5 where s5: "update_appendable ?c i checkpoint t4 = (Inr (checkpoint up4 b4), t5)"
      "attached t5 i up4 (checkpoint up4 b4)"
    using attached_update [OF s4(2), of checkpoint imd] by blast
  have "bidi_data_request env ?c m bs s = (Inr (), t5)"
    using d ok len attached_upload [OF assms(1)] faults s4(1) s5(1) assms(8-10)
    by (simp add: bidi_data_request_def seqM_def bindM_def Let_def syncing_def)
  moreover have "bm_buf (up_media up4) = take (stored_after p m) content"
  proof -
    have "take p content @ ?new = take (max p (nat (wm_write_offset m) + length data)) content"
      using assms(4,7) d by (intro unstored_piece) (auto simp: piece_of_def)
    then show ?thesis using s4(3) assms(3) d by (simp add: stored_after_def append_data_def bm_append_def)
  qed
  ultimately show ?thesis
    using s5(2) s4(4,5)
    by (intro exI [of _ t5] exI [of _ up4] exI [of _ "checkpoint up4 b4"])
      (simp add: checkpoint_def append_data_def b_name_def)
qed

lemma bidi_step_grows:
  assumes "attached s i up b" and "b_media b = up_media up" and "bm_buf (up_media up) = take p content"
    and "p \<le> length content" and "accepted env (bw_write m)" and "\<not> wm_finish (bw_write m)"
    and "piece_of content p (bw_write m)" and "bw_start m = No_start"
    and "bs_upload bs = i" and "bs_appendable bs" and "bs_checksums bs = None" and "plain_call (Grpc imd)"
  shows "\<exists>t up' b' bs'. bidi_step env (Grpc imd) m bs s = (Inr (bs', False), t) \<and> attached t i up' b'
    \<and> b_media b' = up_media up' \<and> bm_buf (up_media up') = take (stored_after p (bw_write m)) content
    \<and> om_size (b_metadata b') = length (bm_buf (up_media up'))
    \<and> up_bucket up' = up_bucket up \<and> b_name b' = b_name b
    \<and> bs_upload bs' = i \<and> bs_appendable bs' \<and> bs_checksums bs' = None"
proof -
  obtain t up' b' where t: "bidi_data_request env (Grpc imd) (bw_write m) bs s = (Inr (), t)" "attached t i up' b'"
      "b_media b' = up_media up'" "bm_buf (up_media up') = take (stored_after p (bw_write m)) content"
      "om_size (b_metadata b') = length (bm_buf (up_media up'))"
      "up_bucket up' = up_bucket up" "b_name b' = b_name b"
    using data_request_grows [OF assms(1-7,9-12)] by blast
  have "bidi_checksums (Grpc imd) (bw_write m) bs = Inr bs"
    using assms(5) by (simp add: bidi_checksums_def accepted_def)
  then have "\<exists>bs'. bidi_step env (Grpc imd) m bs s = (Inr (bs', False), t)
      \<and> bs_upload bs' = i \<and> bs_appendable bs' \<and> bs_checksums bs' = None"
    using assms(6,8-11) t(1) attached_upload [OF t(2)]
    by (auto simp: bidi_step_def seqM_def bindM_def bidi_respond_def Let_def)
  then show ?thesis using t(2-7) by blast
qed

lemma bidi_messages_grow:
  assumes "attached s i up b" and "b_media b = up_media up" and "bm_buf (up_media up) = take p content"
    and "p \<le> length content" and "om_size (b_metadata b) = p"
    and "\<forall>m \<in> set ms. bw_start m = No_start \<and> accepted env (bw_write m) \<and> \<not> wm_finish (bw_write m)"
    and "pieces_of content p (map bw_write ms)"
    and "bs_upload bs = i" and "bs_appendable bs" and "bs_checksums bs = None" and "plain_call (Grpc imd)"
  shows "\<exists>t up' b' bs'. bidi_messages env (Grpc imd) ms bs s = (Inr (bs', None), t) \<and> attached t i up' b'
    \<and> b_media b' = up_media up' \<and> bm_buf (up_media up') = take (stored p (map bw_write ms)) content
    \<and> om_size (b_metadata b') = stored p (map bw_write ms)
    \<and> up_bucket up' = up_bucket up \<and> b_name b' = b_name b"
  using assms(1-10)
proof (induction ms arbitrary: s up b p bs)
  case Nil
  then show ?case by auto
next
  case (Cons m ms)
  have m: "accepted env (bw_write m)" "\<not> wm_finish (bw_write m)" "piece_of content p (bw_write m)" "bw_start m = No_start"
    using Cons.prems(6,7) by simp_all
  obtain t up1 b1 bs1 where t: "bidi_step env (Grpc imd) m bs s = (Inr (bs1, False), t)" "attached t i up1 b1"
      "b_media b1 = up_media up1" "bm_buf (up_media up1) = take (stored_after p (bw_write m)) content"
      "om_size (b_metadata b1) = length (bm_buf (up_media up1))"
      "up_bucket up1 = up_bucket up" "b_name b1 = b_name b"
      "bs_upload bs1 = i" "bs_appendable bs1" "bs_checksums bs1 = None"
    using bidi_step_grows [OF Cons.prems(1-4) m Cons.prems(8-10) assms(11)] by blast
  have le: "stored_after p (bw_write m) \<le> length content" using stored_after_le(2) [OF m(3) Cons.prems(4)] .
  then have size: "om_size (b_metadata b1) = stored_after p (bw_write m)" using t(4,5) by simp
  obtain t2 up2 b2 bs2 where "bidi_messages env (Grpc imd) ms bs1 t = (Inr (bs2, None), t2)" "attached t2 i up2 b2"
      "b_media b2 = up_media up2" "bm_buf (up_media up2) = take (stored (stored_after p (bw_write m)) (map bw_write ms)) content"
      "om_size (b_metadata b2) = stored (stored_after p (bw_write m)) (map bw_write ms)"
      "up_bucket up2 = up_bucket up1" "b_name b2 = b_name b1"
    using Cons.IH [OF t(2-4) le size _ _ t(8-10)] Cons.prems(6,7) by auto
  then show ?case using t by auto
qed

text \<open>C7: Bytes that are appended to an object can be read at once: after any accepted pieces of the
  content, which may overlap, and before the stream is finished, a read of the object finds exactly the
  bytes that are stored, and their number as its size.\<close>

theorem appended_bytes_are_visible:
  assumes "attached s i up b" and "b_media b = up_media up" and "bm_buf (up_media up) = take p content"
    and "p \<le> length content" and "om_size (b_metadata b) = p"
    and "\<forall>m \<in> set ms. bw_start m = No_start \<and> accepted env (bw_write m) \<and> \<not> wm_finish (bw_write m)"
    and "pieces_of content p (map bw_write ms)"
    and "bs_upload bs = i" and "bs_appendable bs" and "bs_checksums bs = None" and "plain_call (Grpc imd)"
  shows "\<exists>t bs' blob. bidi_messages env (Grpc imd) ms bs s = (Inr (bs', None), t)
    \<and> get_object (bk_name (up_bucket up)) (b_name b) (Grpc imd) None [] False (sv_db t) = (Inr (Some blob), sv_db t)
    \<and> bm_buf (b_media blob) = take (stored p (map bw_write ms)) content
    \<and> om_size (b_metadata blob) = stored p (map bw_write ms)"
proof -
  obtain t up' b' bs' where "bidi_messages env (Grpc imd) ms bs s = (Inr (bs', None), t)" "attached t i up' b'"
      "b_media b' = up_media up'" "bm_buf (up_media up') = take (stored p (map bw_write ms)) content"
      "om_size (b_metadata b') = stored p (map bw_write ms)" "up_bucket up' = up_bucket up" "b_name b' = b_name b"
    using bidi_messages_grow [OF assms] by blast
  then show ?thesis using attached_object(3) [of t i up' b' imd] by auto
qed

section \<open>Writers\<close>

lemma plain_retry_calls:
  assumes "plain_call c"
  shows "get_return_redirect_token c = ret None" "get_return_write_handle_and_redirect_token c = ret None"
    "get_expect_redirect_token c = ret None"
  using assms
  by (simp_all add: plain_call_def get_return_redirect_token_def get_return_write_handle_and_redirect_token_def
      get_expect_redirect_token_def get_grpc_instruction_match_def)

lemma attached_get_generation:
  assumes "attached s i up b"
  shows "get_object (bk_name (up_bucket up)) (b_name b) (Grpc imd) (Some (Inr (b_generation b))) [] False (sv_db s)
    = (Inr (Some b), sv_db s)"
proof -
  let ?k = "bk_name (up_bucket up)"
  obtain bk os ls sd where c: "contents (sv_db s) ?k = Some (bk, os, ls, sd)"
      "map_of ls (b_name b) = Some (b_generation b)" "map_of os (object_key (b_name b) (b_generation b)) = Some b"
      "b_generation b \<noteq> 0"
    using assms(1) by (auto simp: attached_def)
  have "contents (sv_db s) (bucket_key ?k (Grpc imd)) = Some (bk, os, ls, sd)" using c(1) by (simp add: bucket_key_def)
  from lookup_generation [OF this c(4,3)] show ?thesis
    by (intro get_object_of_lookup(1)) simp
qed

definition append_to :: "upload \<Rightarrow> blob \<Rightarrow> string option \<Rightarrow> append_spec" where
  "append_to up b handle = \<lparr>as_bucket = bk_name (up_bucket up), as_object = b_name b, as_generation = b_generation b,
     as_conditions = [], as_handle = handle\<rparr>"

lemma append_with_handle:
  assumes "attached s i up b" and "om_finalize_time (b_metadata b) = None"
  shows "bidi_start_append (Grpc imd) (append_to up b (Some (handle_of n))) s =
    (if n = b_upload_gen b
     then (Inr \<lparr>bs_upload = i, bs_resumable = False, bs_appendable = True, bs_metadata_first = False,
         bs_handle = None, bs_writer = Some (b_upload_gen b), bs_checksums = None,
         bs_first_response = True, bs_responses = []\<rparr>, s)
     else (Inl (Grpc_abort (Some FAILED_PRECONDITION)
                  (Text ''A different writer has become the exclusive writer of this object.'')), s))"
  using attached_get_generation [OF assms(1), of imd] assms
  by (simp add: bidi_start_append_def append_to_def bindM_def on_db_def generation_of_field_def handle_of_def
      py_int_show_nat make_grpc_preconditions_def select_def attached_def del: show_nat.simps)

text \<open>C9: Taking over an object that is being written: a stream that appends without a handle becomes
  its writer; from then on the handle of the writer before is refused when a stream is opened with it, without a
  change, and the new handle is accepted.  Only handles are fenced: a stream that the writer before
  has open already goes on, and an accepted piece of the content that it sends after the take-over is stored in
  the object and can be read.\<close>

theorem take_over_fences_handles_only:
  assumes "attached s i up b" and "om_finalize_time (b_metadata b) = None"
    and "om_bucket (b_metadata b) = bk_name (up_bucket up)"
    and "b_media b = up_media up" and "bm_buf (up_media up) = take p content" and "p \<le> length content"
    and "bs_upload old = i" and "bs_appendable old" and "bs_checksums old = None" and "plain_call (Grpc imd)"
    and "accepted env (bw_write m)" and "\<not> wm_finish (bw_write m)" and "piece_of content p (bw_write m)"
    and "bw_start m = No_start"
  shows "\<exists>bs t. bidi_start_append (Grpc imd) (append_to up b None) s = (Inr bs, t)
    \<and> bs_handle bs = Some (handle_of (b_upload_gen b + 1))
    \<and> bidi_start_append (Grpc imd) (append_to up b (Some (handle_of (b_upload_gen b)))) t
        = (Inl (Grpc_abort (Some FAILED_PRECONDITION)
             (Text ''A different writer has become the exclusive writer of this object.'')), t)
    \<and> (\<exists>bs'. bidi_start_append (Grpc imd) (append_to up b (Some (handle_of (b_upload_gen b + 1)))) t = (Inr bs', t))
    \<and> (\<exists>old' u blob. bidi_step env (Grpc imd) m old t = (Inr (old', False), u)
      \<and> get_object (bk_name (up_bucket up)) (b_name b) (Grpc imd) None [] False (sv_db u) = (Inr (Some blob), sv_db u)
      \<and> bm_buf (b_media blob) = take (stored_after p (bw_write m)) content)"
proof -
  let ?k = "bk_name (up_bucket up)" and ?b = "b\<lparr>b_upload_gen := b_upload_gen b + 1\<rparr>"
  obtain bk os ls sd where c: "contents (sv_db s) ?k = Some (bk, os, ls, sd)"
      "map_of ls (b_name b) = Some (b_generation b)" "map_of os (object_key (b_name b) (b_generation b)) = Some b"
      "b_generation b \<noteq> 0"
    using assms(1) by (auto simp: attached_def)
  have key: "bucket_key ?k (Grpc imd) = ?k" by (simp add: bucket_key_def)
  have look: "lookup_object ?k (b_name b) (Grpc imd) (Some (Inr (b_generation b))) [] True (sv_db s)
      = (Inr (Some b, Some (b_generation b)), sv_db s)"
    using c by (subst lookup_generation [of _ _ _ bk os ls sd]) (simp_all add: key)
  have same: "same_identity b ?b" by (simp add: same_identity_def b_name_def b_generation_def)
  obtain t bs where t: "bidi_start_append (Grpc imd) (append_to up b None) s = (Inr bs, t)"
      "bs_handle bs = Some (handle_of (b_upload_gen b + 1))" "sv_uploads t = sv_uploads s"
      "sv_db t = (upd_objects ?k (AList.map_entry (object_key (b_name b) (b_generation b)) (\<lambda>_. ?b)) (sv_db s))
         \<lparr>events := events (sv_db s) @ [Object_updated ?k (b_name ?b) (b_generation ?b)]\<rparr>"
    using attached_get_generation [OF assms(1), of imd] assms(1-3) look c(2) contents_SomeD [OF c(1)]
    by (simp add: bidi_start_append_def append_to_def bindM_def seqM_def on_db_def generation_of_field_def
        make_grpc_preconditions_def select_def attached_def do_update_object_def bump_upload_gen_def key
        notify_def upd_objects_def)
  have known: "map_of (sv_uploads s) i = Some up" "up_id up = i" using assms(1) by (simp_all add: attached_def)
  have att: "attached t i up ?b"
    by (rule attached_stored [OF assms(1) same])
      (use assms(1) t(3,4) known put_upload_same [of s up] in \<open>auto simp: attached_def contents_upd\<close>)
  have "om_finalize_time (b_metadata ?b) = None" using assms(2) by simp
  note h = append_with_handle [OF att this, of imd]
  have same_spec: "append_to up ?b = append_to up b" by (simp add: append_to_def fun_eq_iff b_name_def b_generation_def)
  have "b_media ?b = up_media up" using assms(4) by simp
  from bidi_step_grows [OF att this assms(5,6,11-14,7-10)]
  obtain u up' b' old' where u: "bidi_step env (Grpc imd) m old t = (Inr (old', False), u)" "attached u i up' b'"
      "b_media b' = up_media up'" "bm_buf (up_media up') = take (stored_after p (bw_write m)) content"
      "up_bucket up' = up_bucket up" "b_name b' = b_name b"
    by (auto simp: b_name_def)
  have "get_object (bk_name (up_bucket up)) (b_name b) (Grpc imd) None [] False (sv_db u) = (Inr (Some b'), sv_db u)"
    using attached_object(3) [OF u(2), of imd] u(5,6) by simp
  with u(1,3,4) have "\<exists>old' u blob. bidi_step env (Grpc imd) m old t = (Inr (old', False), u)
      \<and> get_object (bk_name (up_bucket up)) (b_name b) (Grpc imd) None [] False (sv_db u) = (Inr (Some blob), sv_db u)
      \<and> bm_buf (b_media blob) = take (stored_after p (bw_write m)) content" by auto
  then show ?thesis
    using t(1,2) h [of "b_upload_gen b"] h [of "b_upload_gen b + 1"] same_spec by simp
qed

text \<open>The first response of an appendable upload that one message writes and finishes: its resource has
  the size 0.\<close>

lemma one_message_size_is_zero:
  assumes "bs_first_response bs" and "bs_appendable bs" and "bs_metadata_first bs"
  shows "first_write_response bs md \<lparr>bo_status = Resource md', bo_crc32c = k, bo_handle = h\<rparr>
    = \<lparr>bo_status = Resource (md\<lparr>om_size := 0\<rparr>), bo_crc32c = k, bo_handle = bs_handle bs\<rparr>"
  using assms by (simp add: first_write_response_def)

section \<open>Witnesses\<close>

definition sample_growing_object :: blob where
  "sample_growing_object = \<lparr>b_metadata = new_obj_meta\<lparr>om_name := ''o'', om_generation := 7,
     om_metageneration := 1, om_acl := [sample_entry], om_size := 3, om_bucket := bucket_key ''b'' Rest\<rparr>,
     b_media = bytes_media_init castagnoli [1, 2, 3], b_upload = Some ''u'', b_upload_gen = 1\<rparr>"

definition sample_growing_upload :: upload where
  "sample_growing_upload = sample_upload\<lparr>up_metadata := b_metadata sample_growing_object,
     up_media := b_media sample_growing_object\<rparr>"

definition sample_growing :: service where
  "sample_growing = put_upload sample_growing_upload
     (alter_stored (bucket_key ''b'' Rest) sample_source sample_growing_object sample_service)"

lemma sample_attached: "attached sample_growing ''u'' sample_growing_upload sample_growing_object"
proof -
  have "contents (sv_db sample_growing) (bucket_key ''b'' Rest) = Some (sample_bucket\<lparr>bk_ubla := False\<rparr>,
      [(object_key ''o'' 7, sample_growing_object)], [(''o'', 7)], [])"
    by (simp add: sample_growing_def alter_stored_def contents_upd sample_service_def sample_service_contents
        sample_source_def b_name_def b_generation_def new_obj_meta_def)
  moreover have "bk_name (up_bucket sample_growing_upload) = bucket_key ''b'' Rest"
    by (simp add: sample_growing_upload_def)
  ultimately show ?thesis
    by (simp add: attached_def sample_growing_upload_def sample_growing_object_def b_name_def b_generation_def
        sample_growing_def)
qed

definition sample_appending :: bidi_stream where
  "sample_appending = \<lparr>bs_upload = ''u'', bs_resumable = False, bs_appendable = True, bs_metadata_first = False,
     bs_handle = None, bs_writer = Some 1, bs_checksums = None, bs_first_response = True, bs_responses = []\<rparr>"

definition sample_append :: bidi_message where
  "sample_append = \<lparr>bw_start = No_start, bw_write = sample_write No_first 2 [3, 4] False, bw_state_lookup = False\<rparr>"

theorem appended_bytes_are_visible_witness:
  "\<exists>t bs' blob. bidi_messages sample_handler_env (Grpc []) [sample_append] sample_appending sample_growing
      = (Inr (bs', None), t)
    \<and> get_object (bucket_key ''b'' Rest) ''o'' (Grpc []) None [] False (sv_db t) = (Inr (Some blob), sv_db t)
    \<and> bm_buf (b_media blob) = [1, 2, 3, 4] \<and> om_size (b_metadata blob) = 4"
proof -
  let ?m = "sample_write No_first 2 [3, 4] False"
  have m: "bw_write sample_append = ?m" "bw_start sample_append = No_start" by (simp_all add: sample_append_def)
  have ok: "b_media sample_growing_object = up_media sample_growing_upload"
      "bm_buf (up_media sample_growing_upload) = take 3 [1, 2, 3, 4, 5]" "3 \<le> length [1, 2, 3, 4, 5 :: nat]"
      "om_size (b_metadata sample_growing_object) = 3"
      "\<forall>m \<in> set [sample_append]. bw_start m = No_start \<and> accepted sample_handler_env (bw_write m) \<and> \<not> wm_finish (bw_write m)"
      "pieces_of [1, 2, 3, 4, 5] 3 (map bw_write [sample_append])"
      "bs_upload sample_appending = ''u''" "bs_appendable sample_appending" "bs_checksums sample_appending = None"
    by (simp_all add: sample_growing_upload_def sample_growing_object_def bytes_media_init_def m sample_write_simps
        sample_appending_def numeral_3_eq_3)
  have "stored 3 (map bw_write [sample_append]) = 4" "bk_name (up_bucket sample_growing_upload) = bucket_key ''b'' Rest"
      "b_name sample_growing_object = ''o''" "take 4 [1, 2, 3, 4, 5] = [1, 2, 3, 4 :: nat]"
    by (simp_all add: m sample_write_simps sample_growing_upload_def sample_growing_object_def b_name_def)
  with appended_bytes_are_visible [OF sample_attached ok sample_write_simps(4)] show ?thesis by simp
qed

theorem take_over_fences_handles_only_witness:
  "\<exists>bs t e old' u blob. bidi_start_append (Grpc []) (append_to sample_growing_upload sample_growing_object None) sample_growing
      = (Inr bs, t)
    \<and> bidi_start_append (Grpc []) (append_to sample_growing_upload sample_growing_object (Some (handle_of 1))) t
      = (Inl e, t)
    \<and> bidi_step sample_handler_env (Grpc []) sample_append sample_appending t = (Inr (old', False), u)
    \<and> get_object (bucket_key ''b'' Rest) ''o'' (Grpc []) None [] False (sv_db u) = (Inr (Some blob), sv_db u)
    \<and> bm_buf (b_media blob) = [1, 2, 3, 4]"
proof -
  let ?m = "sample_write No_first 2 [3, 4] False"
  have m: "bw_write sample_append = ?m" "bw_start sample_append = No_start" by (simp_all add: sample_append_def)
  have o: "om_finalize_time (b_metadata sample_growing_object) = None"
    "om_bucket (b_metadata sample_growing_object) = bk_name (up_bucket sample_growing_upload)"
    "b_upload_gen sample_growing_object = 1"
    by (simp_all add: sample_growing_object_def new_obj_meta_def sample_growing_upload_def)
  have ok: "b_media sample_growing_object = up_media sample_growing_upload"
      "bm_buf (up_media sample_growing_upload) = take 3 [1, 2, 3, 4, 5]" "3 \<le> length [1, 2, 3, 4, 5 :: nat]"
      "bs_upload sample_appending = ''u''" "bs_appendable sample_appending" "bs_checksums sample_appending = None"
      "accepted sample_handler_env (bw_write sample_append)" "\<not> wm_finish (bw_write sample_append)"
      "piece_of [1, 2, 3, 4, 5] 3 (bw_write sample_append)" "bw_start sample_append = No_start"
    by (simp_all add: sample_growing_upload_def sample_growing_object_def bytes_media_init_def m sample_write_simps
        sample_appending_def numeral_3_eq_3)
  have "stored_after 3 (bw_write sample_append) = 4" "bk_name (up_bucket sample_growing_upload) = bucket_key ''b'' Rest"
      "b_name sample_growing_object = ''o''" "take 4 [1, 2, 3, 4, 5] = [1, 2, 3, 4 :: nat]"
    by (simp_all add: m sample_write_simps sample_growing_upload_def sample_growing_object_def b_name_def)
  with take_over_fences_handles_only [OF sample_attached o(1,2) ok(1-6) sample_write_simps(4) ok(7-10)] show ?thesis
    unfolding o(3) by fastforce
qed

end
