(* ===== verification/Gcs_Project.thy ===== *)
theory Gcs_Project
  imports Proto2rest
begin

text \<open>
  \<open>src/gcs/project.py\<close> and \<open>src/testbench/servers/projects_rest_server.py\<close>: projects, service
  accounts and their HMAC keys.

  The two counters of the module are part of the state, next to the projects of the database.
  The random secret of a new key and the text of the current time are arguments.  A key is the
  dictionary that the code keeps, with its JSON resource under \<open>metadata\<close>.

  The handlers return the stored dictionaries themselves, and \<open>filter_response_rest\<close> deletes
  fields from the dictionary it is given (\<open>scalpl.Cut\<close> is a proxy); so a request with
  \<open>fields\<close> changes the stored key, and the handlers below write the filtered dictionary back.
\<close>

type_synonym hmac_key = dict

record service_account =
  sa_email :: string
  sa_keys :: "(string \<times> hmac_key) list"

record gcs_project =
  gp_project_id :: string
  gp_project_number :: int
  gp_service_accounts :: "(string \<times> service_account) list"

record projects =
  ps_projects :: "(string \<times> gcs_project) list"
  ps_key_id_generator :: int
  ps_project_number_generator :: int

definition initial_projects :: projects where
  "initial_projects = \<lparr>ps_projects = [], ps_key_id_generator = 20000,
     ps_project_number_generator = 100000\<rparr>"

type_synonym 'a projectM = "(err, projects, 'a) pym"

section \<open>Service accounts\<close>

definition key_id_text :: "int \<Rightarrow> string" where
  "key_id_text n = ''key-id-'' @ show_int n"

definition etag_text :: "int \<Rightarrow> string" where
  "etag_text n = b64encode (utf8 (show_int n))"

definition new_key :: "string \<Rightarrow> string \<Rightarrow> string \<Rightarrow> string \<Rightarrow> string \<Rightarrow> hmac_key" where
  "new_key email key_id project_id secret timestamp =
     [(''kind'', JStr ''storage#hmacKeyCreate''),
      (''secret'', JStr (b64encode (utf8 secret))),
      (''generator'', JNum 1),
      (''metadata'', JObj
        [(''accessId'', JStr (email @ '':'' @ key_id)), (''etag'', JStr (etag_text 1)),
         (''id'', JStr key_id), (''kind'', JStr ''storage#hmacKey''), (''projectId'', JStr project_id),
         (''serviceAccountEmail'', JStr email), (''state'', JStr ''ACTIVE''),
         (''timeCreated'', JStr timestamp), (''updated'', JStr timestamp)])]"

text \<open>\<open>d.setdefault(key, value)\<close>: the dictionary and the value it ends up with.\<close>

definition set_default :: "string \<Rightarrow> 'v \<Rightarrow> (string \<times> 'v) list \<Rightarrow> (string \<times> 'v) list \<times> 'v" where
  "set_default key v d = (case map_of d key of None \<Rightarrow> (d @ [(key, v)], v) | Some w \<Rightarrow> (d, w))"

definition insert_key ::
    "string \<Rightarrow> string \<Rightarrow> string \<Rightarrow> int \<Rightarrow> service_account \<Rightarrow> hmac_key \<times> service_account" where
  "insert_key project_id secret timestamp n sa =
     (let key_id = key_id_text n;
          (keys, key) = set_default key_id (new_key (sa_email sa) key_id project_id secret timestamp)
                          (sa_keys sa)
      in (key, sa\<lparr>sa_keys := keys\<rparr>))"

definition or_none :: "json option \<Rightarrow> json" where
  "or_none v = (case v of None \<Rightarrow> JNull | Some x \<Rightarrow> x)"

definition key_metadata :: "hmac_key \<Rightarrow> json" where
  "key_metadata key = or_none (map_of key ''metadata'')"

definition key_items :: "service_account \<Rightarrow> json list" where
  "key_items sa = map (key_metadata \<circ> snd) (sa_keys sa)"

text \<open>\<open>resource["state"] = "DELETED"\<close> changes a dictionary that is then dropped from the keys.\<close>

definition delete_key :: "string \<Rightarrow> ctx \<Rightarrow> service_account \<Rightarrow> err + dict \<times> service_account" where
  "delete_key key_id c sa = (case map_of (sa_keys sa) key_id of
     None \<Rightarrow> Inl (notfound (''key '' @ key_id) c)
   | Some key \<Rightarrow> (case key_metadata key of
       JObj resource \<Rightarrow>
         if map_of resource ''state'' = Some (JStr ''ACTIVE'')
         then Inl (invalid (''Deleting ACTIVE key '' @ key_id) c)
         else Inr (AList.update ''state'' (JStr ''DELETED'') resource,
                   sa\<lparr>sa_keys := AList.delete key_id (sa_keys sa)\<rparr>)
     | _ \<Rightarrow> Inl (Exc AssertionError)))"

definition get_key :: "string \<Rightarrow> ctx \<Rightarrow> service_account \<Rightarrow> err + json" where
  "get_key key_id c sa = (case map_of (sa_keys sa) key_id of
     None \<Rightarrow> Inl (notfound (''key '' @ key_id) c) | Some key \<Rightarrow> Inr (key_metadata key))"

definition check_etag ::
    "(json \<Rightarrow> string) \<Rightarrow> dict \<Rightarrow> json option \<Rightarrow> string \<Rightarrow> ctx \<Rightarrow> err + unit" where
  "check_etag repr resource etag loc c =
     (let expected = or_none (map_of resource ''etag'')
      in if or_none etag = JNull \<or> or_none etag = expected then Inr ()
         else Inl (mismatch (''ETag for `HmacKeys: update` in '' @ loc)
                (py_str repr expected) (py_str repr (or_none etag)) c))"

definition generator_of :: "hmac_key \<Rightarrow> err + int" where
  "generator_of key = (case map_of key ''generator'' of
     Some (JNum n) \<Rightarrow> Inr n | None \<Rightarrow> Inl (Exc KeyError) | _ \<Rightarrow> Inl (Exc TypeError))"

text \<open>\<open>flask.request.headers\<close> is read outside of gRPC only.\<close>

definition update_key ::
    "(json \<Rightarrow> string) \<Rightarrow> request \<Rightarrow> string \<Rightarrow> string \<Rightarrow> dict \<Rightarrow> ctx \<Rightarrow> service_account
       \<Rightarrow> err + dict \<times> service_account" where
  "update_key repr request now key_id payload c sa = (case map_of (sa_keys sa) key_id of
     None \<Rightarrow> Inl (notfound (''key '' @ key_id) c)
   | Some key \<Rightarrow> (case key_metadata key of
       JObj metadata \<Rightarrow>
         bindE (check_etag repr metadata (map_of payload ''etag'') ''payload'' c) (\<lambda>_.
         bindE (if c = Rest then check_etag repr metadata
                  (map_option JStr (hget request ''if-match-etag'')) ''header'' c else Inr ()) (\<lambda>_.
         let state = or_none (map_of payload ''state'')
         in if state \<noteq> JStr ''ACTIVE'' \<and> state \<noteq> JStr ''INACTIVE''
            then Inl (invalid (''state `HmacKeys: update` request '' @ key_id) c)
            else if map_of metadata ''state'' = Some (JStr ''DELETED'') then Inl (Exc AssertionError)
            else bindE (generator_of key) (\<lambda>n.
              let metadata = AList.update ''updated'' (JStr now)
                    (AList.update ''etag'' (JStr (etag_text (n + 1)))
                    (AList.update ''state'' state metadata));
                  key = AList.update ''metadata'' (JObj metadata)
                    (AList.update ''generator'' (JNum (n + 1)) key)
              in Inr (metadata, sa\<lparr>sa_keys := AList.update key_id key (sa_keys sa)\<rparr>))))
     | _ \<Rightarrow> Inl (Exc AssertionError)))"

section \<open>Projects\<close>

text \<open>\<open>Database.get_project\<close>: the project it makes takes a number even when it is dropped.\<close>

definition get_project :: "string \<Rightarrow> gcs_project projectM" where
  "get_project project_id ps =
     (let n = ps_project_number_generator ps + 1;
          (d, p) = set_default project_id
            \<lparr>gp_project_id = project_id, gp_project_number = n, gp_service_accounts = []\<rparr>
            (ps_projects ps)
      in (Inr p, ps\<lparr>ps_projects := d, ps_project_number_generator := n\<rparr>))"

definition service_account_email :: "gcs_project \<Rightarrow> string" where
  "service_account_email p = ''service-'' @ show_int (gp_project_number p) @ ''@''
     @ ''gs-project-accounts.iam.gserviceaccount.com''"

definition put_account :: "string \<Rightarrow> service_account \<Rightarrow> gcs_project \<Rightarrow> gcs_project" where
  "put_account email sa p =
     p\<lparr>gp_service_accounts := AList.update email sa (gp_service_accounts p)\<rparr>"

definition put_project :: "gcs_project \<Rightarrow> projects \<Rightarrow> projects" where
  "put_project p ps = ps\<lparr>ps_projects := AList.update (gp_project_id p) p (ps_projects ps)\<rparr>"

definition insert_hmac_key :: "string \<Rightarrow> string \<Rightarrow> string \<Rightarrow> gcs_project \<Rightarrow> hmac_key projectM" where
  "insert_hmac_key secret timestamp email p ps =
     (let (_, sa) = set_default email \<lparr>sa_email = email, sa_keys = []\<rparr> (gp_service_accounts p);
          n = ps_key_id_generator ps + 1;
          (key, sa) = insert_key (gp_project_id p) secret timestamp n sa
      in (Inr key, (put_project (put_account email sa p) ps)\<lparr>ps_key_id_generator := n\<rparr>))"

text \<open>\<open>(service_account, key_id) = access_id.split(":", 2)\<close>: two parts exactly.\<close>

definition split_access_id :: "string \<Rightarrow> err + string \<times> string" where
  "split_access_id access_id = (case split_on (CHR '':'') access_id of
     [email, key_id] \<Rightarrow> Inr (email, key_id) | _ \<Rightarrow> Inl (Exc ValueError))"

definition find_account ::
    "string \<Rightarrow> ctx \<Rightarrow> gcs_project \<Rightarrow> err + string \<times> string \<times> service_account" where
  "find_account access_id c p =
     bindE (split_access_id access_id) (\<lambda>(email, key_id).
     case map_of (gp_service_accounts p) email of
       None \<Rightarrow> Inl (notfound (''service account for key='' @ access_id) c)
     | Some sa \<Rightarrow> Inr (email, key_id, sa))"

text \<open>An operation of the account, whose changed copy replaces the stored one.\<close>

definition with_account ::
    "string \<Rightarrow> ctx \<Rightarrow> gcs_project \<Rightarrow> (string \<Rightarrow> service_account \<Rightarrow> err + dict \<times> service_account)
       \<Rightarrow> dict projectM" where
  "with_account access_id c p f =
     bindM (liftE (find_account access_id c p)) (\<lambda>(email, key_id, sa).
     bindM (liftE (f key_id sa)) (\<lambda>(resource, sa).
     seqM (modS (put_project (put_account email sa p))) (ret resource)))"

definition delete_hmac_key :: "string \<Rightarrow> ctx \<Rightarrow> gcs_project \<Rightarrow> dict projectM" where
  "delete_hmac_key access_id c p =
     with_account access_id c p (\<lambda>key_id. delete_key key_id c)"

definition get_hmac_key :: "string \<Rightarrow> ctx \<Rightarrow> gcs_project \<Rightarrow> err + json" where
  "get_hmac_key access_id c p =
     bindE (find_account access_id c p) (\<lambda>(email, key_id, sa). get_key key_id c sa)"

definition update_hmac_key ::
    "(json \<Rightarrow> string) \<Rightarrow> request \<Rightarrow> string \<Rightarrow> string \<Rightarrow> dict \<Rightarrow> ctx \<Rightarrow> gcs_project \<Rightarrow> dict projectM" where
  "update_hmac_key repr request now access_id payload c p =
     with_account access_id c p (\<lambda>key_id. update_key repr request now key_id payload c)"

section \<open>The REST handlers\<close>

text \<open>\<open>filter_response_rest(response, None, fields)\<close>, with \<open>scalpl.Cut\<close> as an argument:
  \<open>cut\<close> holds its \<open>get\<close> and its \<open>del\<close>, and what it shows for \<open>None\<close>.\<close>

record cut =
  cut_get :: "dict \<Rightarrow> string \<Rightarrow> json option"
  cut_del :: "dict \<Rightarrow> string \<Rightarrow> dict"
  cut_none :: dict

definition filtered :: "cut \<Rightarrow> request \<Rightarrow> dict \<Rightarrow> dict" where
  "filtered cu request d =
     filter_response_rest (cut_get cu) (cut_del cu) d [] (aget request ''fields'')"

lemma filtered_no_fields: "aget request ''fields'' = None \<Longrightarrow> filtered cu request d = d"
  by (simp add: filtered_def filter_response_rest_def keys_to_delete_def)

definition projects_get :: "cut \<Rightarrow> request \<Rightarrow> string \<Rightarrow> dict projectM" where
  "projects_get cu request project_id =
     bindM (get_project project_id) (\<lambda>p. ret (filtered cu request
       [(''kind'', JStr ''storage#serviceAccount''),
        (''email_address'', JStr (service_account_email p))]))"

definition set_key :: "string \<Rightarrow> string \<Rightarrow> hmac_key \<Rightarrow> gcs_project \<Rightarrow> gcs_project" where
  "set_key email key_id key p = (case map_of (gp_service_accounts p) email of
     None \<Rightarrow> p
   | Some sa \<Rightarrow> put_account email (sa\<lparr>sa_keys := AList.update key_id key (sa_keys sa)\<rparr>) p)"

text \<open>The stored project, after the operation has changed it.\<close>

definition stored :: "string \<Rightarrow> projects \<Rightarrow> gcs_project" where
  "stored project_id ps = the (map_of (ps_projects ps) project_id)"

definition hmac_keys_insert ::
    "cut \<Rightarrow> string \<Rightarrow> string \<Rightarrow> request \<Rightarrow> string \<Rightarrow> dict projectM" where
  "hmac_keys_insert cu secret timestamp request project_id =
     bindM (get_project project_id) (\<lambda>p.
     case aget request ''serviceAccountEmail'' of
       None \<Rightarrow> raise (missing ''serviceAccountEmail'' Rest)
     | Some email \<Rightarrow>
         bindM (insert_hmac_key secret timestamp email p) (\<lambda>key.
         bindM (getS ps_key_id_generator) (\<lambda>n.
         let key = filtered cu request key
         in seqM (modS (\<lambda>ps. put_project (set_key email (key_id_text n) key (stored project_id ps)) ps))
              (ret key))))"

text \<open>\<open>hmac_keys_list\<close>, up to the filter: \<open>x.get("state")\<close> fails on a key that lost its
  metadata, unless deleted keys are asked for as well.\<close>

fun not_deleted :: "json list \<Rightarrow> err + json list" where
  "not_deleted [] = Inr []"
| "not_deleted (x # xs) = bindE (as_dict x) (\<lambda>d. bindE (not_deleted xs) (\<lambda>ys.
     Inr (if map_of d ''state'' \<noteq> Some (JStr ''DELETED'') then x # ys else ys)))"

definition hmac_keys_list :: "request \<Rightarrow> string \<Rightarrow> dict projectM" where
  "hmac_keys_list request project_id =
     bindM (get_project project_id) (\<lambda>p.
     let items = (case aget request ''serviceAccountEmail'' of
           Some (ch # cs) \<Rightarrow> (case map_of (gp_service_accounts p) (ch # cs) of
             None \<Rightarrow> [] | Some sa \<Rightarrow> key_items sa)
         | _ \<Rightarrow> concat (map (key_items \<circ> snd) (gp_service_accounts p)))
     in bindM (liftE (if aget request ''deleted'' = Some ''true'' then Inr items
                      else not_deleted items)) (\<lambda>items.
        ret [(''kind'', JStr ''storage#hmacKeysMetadata''), (''next_page_token'', JStr ''''),
             (''items'', JList items)]))"

definition hmac_keys_delete :: "string \<Rightarrow> string \<Rightarrow> string projectM" where
  "hmac_keys_delete project_id access_id =
     bindM (get_project project_id) (\<lambda>p.
     bindM (delete_hmac_key access_id Rest p) (\<lambda>_. ret ''''))"

definition write_back :: "string \<Rightarrow> string \<Rightarrow> dict \<Rightarrow> unit projectM" where
  "write_back project_id access_id metadata ps =
     (case find_account access_id Rest (stored project_id ps) of
        Inl e \<Rightarrow> (Inl e, ps)
      | Inr (email, key_id, sa) \<Rightarrow>
          (Inr (), put_project (set_key email key_id
             (AList.update ''metadata'' (JObj metadata) (the (map_of (sa_keys sa) key_id)))
             (stored project_id ps)) ps))"

definition hmac_keys_get :: "cut \<Rightarrow> request \<Rightarrow> string \<Rightarrow> string \<Rightarrow> dict projectM" where
  "hmac_keys_get cu request project_id access_id =
     bindM (get_project project_id) (\<lambda>p.
     bindM (liftE (get_hmac_key access_id Rest p)) (\<lambda>response. case response of
       JObj metadata \<Rightarrow>
         let metadata = filtered cu request metadata
         in seqM (write_back project_id access_id metadata) (ret metadata)
     | _ \<Rightarrow> ret (cut_none cu)))"

definition hmac_keys_update ::
    "cut \<Rightarrow> (json \<Rightarrow> string) \<Rightarrow> string \<Rightarrow> request \<Rightarrow> dict \<Rightarrow> string \<Rightarrow> string \<Rightarrow> dict projectM" where
  "hmac_keys_update cu repr now request payload project_id access_id =
     bindM (get_project project_id) (\<lambda>p.
     bindM (update_hmac_key repr request now access_id payload Rest p) (\<lambda>metadata.
     let metadata = filtered cu request metadata
     in seqM (write_back project_id access_id metadata) (ret metadata)))"

section \<open>Well-formed keys\<close>

lemma py_ord_inj: "py_ord c = py_ord d \<longleftrightarrow> c = d"
  by (simp add: py_ord_def)

lemma utf8_ascii: "(\<And>c. c \<in> set s \<Longrightarrow> py_ord c < 128) \<Longrightarrow> utf8 s = map py_ord s"
  by (induction s) (simp_all add: utf8_def)

lemma is_bytes_utf8: "is_bytes (utf8 s)"
  proof (induction s)
  case (Cons c s)
  have "py_ord c < 256" by (simp add: py_ord_def)
  then have "py_ord c div 64 < 4" by simp
  moreover have "py_ord c mod 64 < 128" by (rule less_trans [of _ 64]) simp_all
  ultimately show ?case using Cons by (simp add: utf8_def)
qed (simp add: utf8_def)

lemma show_int_ascii: "c \<in> set (show_int n) \<Longrightarrow> py_ord c < 128"
  using show_int_chars [of c n] by (auto simp: is_digit_def py_ord_def)

lemma etag_text_inject: "etag_text m = etag_text n \<longleftrightarrow> m = n"
proof
  assume "etag_text m = etag_text n"
  then have "utf8 (show_int m) = utf8 (show_int n)"
    using b64decode_encode [OF is_bytes_utf8] by (metis etag_text_def option.inject)
  then have "map py_ord (show_int m) = map py_ord (show_int n)"
    using utf8_ascii show_int_ascii by metis
  then have "show_int m = show_int n"
    using inj_map_eq_map [of py_ord] py_ord_inj by (metis injI)
  then show "m = n" by (simp add: show_int_inject)
qed simp

text \<open>What every stored key satisfies, for the account, the key's name and the counter.\<close>

definition key_ok :: "int \<Rightarrow> string \<Rightarrow> string \<Rightarrow> hmac_key \<Rightarrow> bool" where
  "key_ok counter email key_id key \<longleftrightarrow> (\<exists>n m md.
     key_id = key_id_text n \<and> 20000 < n \<and> n \<le> counter
   \<and> map_of key ''generator'' = Some (JNum m) \<and> 1 \<le> m
   \<and> map_of key ''metadata'' = Some (JObj md)
   \<and> map_of md ''accessId'' = Some (JStr (email @ '':'' @ key_id))
   \<and> map_of md ''id'' = Some (JStr key_id)
   \<and> map_of md ''etag'' = Some (JStr (etag_text m))
   \<and> map_of md ''state'' \<in> {Some (JStr ''ACTIVE''), Some (JStr ''INACTIVE'')})"

definition account_ok :: "int \<Rightarrow> string \<Rightarrow> service_account \<Rightarrow> bool" where
  "account_ok counter email sa \<longleftrightarrow> sa_email sa = email
   \<and> (\<forall>key_id key. map_of (sa_keys sa) key_id = Some key \<longrightarrow> key_ok counter email key_id key)"

definition project_ok :: "int \<Rightarrow> string \<Rightarrow> gcs_project \<Rightarrow> bool" where
  "project_ok counter pid p \<longleftrightarrow> gp_project_id p = pid
   \<and> (\<forall>email sa. map_of (gp_service_accounts p) email = Some sa \<longrightarrow> account_ok counter email sa)"

definition projects_ok :: "projects \<Rightarrow> bool" where
  "projects_ok ps \<longleftrightarrow> 20000 \<le> ps_key_id_generator ps
   \<and> (\<forall>pid p. map_of (ps_projects ps) pid = Some p \<longrightarrow> project_ok (ps_key_id_generator ps) pid p)"

lemma key_ok_mono: "key_ok n e k key \<Longrightarrow> n \<le> m \<Longrightarrow> key_ok m e k key"
  unfolding key_ok_def by (blast intro: order_trans)

lemma account_ok_mono: "account_ok n e sa \<Longrightarrow> n \<le> m \<Longrightarrow> account_ok m e sa"
  unfolding account_ok_def using key_ok_mono by blast

lemma project_ok_mono: "project_ok n pid p \<Longrightarrow> n \<le> m \<Longrightarrow> project_ok m pid p"
  unfolding project_ok_def using account_ok_mono by blast

lemma get_project_ok:
  assumes "projects_ok ps" and "get_project pid ps = (Inr p, ps')"
  shows "projects_ok ps'" and "project_ok (ps_key_id_generator ps') pid p"
    and "ps_key_id_generator ps' = ps_key_id_generator ps"
proof -
  consider (new) "map_of (ps_projects ps) pid = None" | (old) "map_of (ps_projects ps) pid = Some p"
    using assms(2) by (cases "map_of (ps_projects ps) pid") (auto simp: get_project_def set_default_def Let_def)
  then have "projects_ok ps' \<and> project_ok (ps_key_id_generator ps') pid p
      \<and> ps_key_id_generator ps' = ps_key_id_generator ps"
    using assms by cases (auto simp: get_project_def set_default_def Let_def projects_ok_def
      project_ok_def map_add_Some_iff split: if_splits)
  then show "projects_ok ps'" and "project_ok (ps_key_id_generator ps') pid p"
    and "ps_key_id_generator ps' = ps_key_id_generator ps"
    by blast+
qed

lemma put_ok:
  assumes "projects_ok ps" and "project_ok (ps_key_id_generator ps) pid p"
    and "account_ok (ps_key_id_generator ps) email sa"
  shows "projects_ok (put_project (put_account email sa p) ps)"
  using assms by (auto simp: projects_ok_def put_project_def put_account_def project_ok_def
      update_conv' split: if_splits)

lemma new_key_ok:
  "20000 \<le> n \<Longrightarrow> key_ok (n + 1) email (key_id_text (n + 1))
     (new_key email (key_id_text (n + 1)) pid secret t)"
  by (auto simp: key_ok_def new_key_def)

lemma insert_key_ok:
  assumes "account_ok n email sa" and "20000 \<le> n"
    and "insert_key pid secret t (n + 1) sa = (key, sa')"
  shows "account_ok (n + 1) email sa'"
proof -
  have new: "key_ok (n + 1) email (key_id_text (n + 1))
      (new_key email (key_id_text (n + 1)) pid secret t)"
    using assms(2) by (rule new_key_ok)
  have old: "key_ok (n + 1) email k key" if "map_of (sa_keys sa) k = Some key" for k key
    using assms(1) that key_ok_mono [of n email k key "n + 1"] by (simp add: account_ok_def)
  have email: "sa_email sa = email"
    using assms(1) by (simp add: account_ok_def)
  show ?thesis
  proof (cases "map_of (sa_keys sa) (key_id_text (n + 1))")
    case None
    then have "sa\<lparr>sa_keys := sa_keys sa
        @ [(key_id_text (n + 1), new_key email (key_id_text (n + 1)) pid secret t)]\<rparr> = sa'"
      using assms(3) email by (auto simp: insert_key_def set_default_def Let_def)
    then show ?thesis
      using new old email by (auto simp: account_ok_def map_add_Some_iff split: if_splits)
  next
    case (Some key0)
    then have "sa' = sa"
      using assms(3) by (simp add: insert_key_def set_default_def Let_def)
    then show ?thesis
      using old email by (simp add: account_ok_def)
  qed
qed

lemma delete_key_ok:
  "account_ok n email sa \<Longrightarrow> delete_key k c sa = Inr (r, sa') \<Longrightarrow> account_ok n email sa'"
  by (auto simp: account_ok_def delete_key_def delete_conv' split: option.splits json.splits if_splits)

lemma check_etag_Inr:
  "check_etag repr md etag loc c = Inr u \<longleftrightarrow>
     or_none etag = JNull \<or> or_none etag = or_none (map_of md ''etag'')"
  by (auto simp: check_etag_def Let_def)

text \<open>What a successful update of a well-formed key does.\<close>

lemma update_key_Inr:
  assumes "account_ok n email sa" and "update_key repr r now k payload c sa = Inr (md', sa')"
  shows "\<exists>key md m. map_of (sa_keys sa) k = Some key \<and> key_metadata key = JObj md
    \<and> map_of key ''generator'' = Some (JNum m) \<and> map_of md ''etag'' = Some (JStr (etag_text m))
    \<and> map_of payload ''state'' \<in> {Some (JStr ''ACTIVE''), Some (JStr ''INACTIVE'')}
    \<and> md' = AList.update ''updated'' (JStr now) (AList.update ''etag'' (JStr (etag_text (m + 1)))
             (AList.update ''state'' (the (map_of payload ''state'')) md))
    \<and> sa' = sa\<lparr>sa_keys := AList.update k (AList.update ''metadata'' (JObj md')
             (AList.update ''generator'' (JNum (m + 1)) key)) (sa_keys sa)\<rparr>"
proof -
  obtain key where k: "map_of (sa_keys sa) k = Some key"
    using assms(2) by (auto simp: update_key_def split: option.splits)
  then have ok: "key_ok n email k key"
    using assms(1) by (simp add: account_ok_def)
  obtain m md where m: "map_of key ''generator'' = Some (JNum m)"
      "map_of key ''metadata'' = Some (JObj md)" "map_of md ''etag'' = Some (JStr (etag_text m))"
    using ok by (auto simp: key_ok_def)
  have st: "map_of payload ''state'' \<in> {Some (JStr ''ACTIVE''), Some (JStr ''INACTIVE'')}"
    using assms(2) k m
    by (auto simp: update_key_def key_metadata_def or_none_def bindE_eq_Inr Let_def
        split: if_splits option.splits)
  then show ?thesis
    using assms(2) k m
    by (auto simp: update_key_def key_metadata_def or_none_def bindE_eq_Inr Let_def generator_of_def
        split: if_splits)
qed

lemma update_key_ok:
  assumes "account_ok n email sa" and "update_key repr r now k payload c sa = Inr (md', sa')"
  shows "account_ok n email sa'"
proof -
  obtain key md m where u: "map_of (sa_keys sa) k = Some key" "key_metadata key = JObj md"
      "map_of key ''generator'' = Some (JNum m)"
      "map_of payload ''state'' \<in> {Some (JStr ''ACTIVE''), Some (JStr ''INACTIVE'')}"
      "md' = AList.update ''updated'' (JStr now) (AList.update ''etag'' (JStr (etag_text (m + 1)))
             (AList.update ''state'' (the (map_of payload ''state'')) md))"
      "sa' = sa\<lparr>sa_keys := AList.update k (AList.update ''metadata'' (JObj md')
             (AList.update ''generator'' (JNum (m + 1)) key)) (sa_keys sa)\<rparr>"
    using update_key_Inr [OF assms] by blast
  have "key_ok n email k key"
    using assms(1) u(1) by (simp add: account_ok_def)
  then have "key_ok n email k (AList.update ''metadata'' (JObj md')
             (AList.update ''generator'' (JNum (m + 1)) key))"
    using u(2-5) by (auto simp: key_ok_def update_conv' key_metadata_def or_none_def)
  then show ?thesis
    using assms(1) u(6) by (auto simp: account_ok_def update_conv')
qed

lemma find_account_ok:
  assumes "project_ok n pid p" and "find_account a c p = Inr (email, k, sa)"
  shows "account_ok n email sa" and "map_of (gp_service_accounts p) email = Some sa"
  using assms by (auto simp: find_account_def bindE_eq_Inr project_ok_def split: option.splits)

lemma with_account_ok:
  assumes "projects_ok ps" and "project_ok (ps_key_id_generator ps) pid p"
    and "\<And>email k sa x sa'. account_ok (ps_key_id_generator ps) email sa \<Longrightarrow> f k sa = Inr (x, sa') \<Longrightarrow>
           account_ok (ps_key_id_generator ps) email sa'"
  shows "projects_ok (snd (with_account a c p f ps))"
proof (cases "find_account a c p")
  case (Inl e)
  then show ?thesis using assms(1) by (simp add: with_account_def)
next
  case (Inr r)
  obtain email k sa where r: "r = (email, k, sa)" by (cases r)
  have sa: "account_ok (ps_key_id_generator ps) email sa"
    using find_account_ok(1) [OF assms(2)] Inr r by simp
  show ?thesis
  proof (cases "f k sa")
    case f: (Inl e)
    then show ?thesis using assms(1) Inr r by (simp add: with_account_def)
  next
    case f: (Inr y)
    obtain x sa' where y: "y = (x, sa')" by (cases y)
    have "account_ok (ps_key_id_generator ps) email sa'"
      using assms(3) [OF sa] f y by simp
    then show ?thesis
      using put_ok [OF assms(1,2)] Inr r f y by (simp add: with_account_def)
  qed
qed

section \<open>Reachable keys\<close>

text \<open>A call of the project API: the project is looked up and one operation runs on it.\<close>

inductive project_step :: "projects \<Rightarrow> projects \<Rightarrow> bool" where
  insert: "get_project pid ps = (Inr p, ps1) \<Longrightarrow>
     insert_hmac_key secret timestamp email p ps1 = (r, ps2) \<Longrightarrow> project_step ps ps2"
| delete: "get_project pid ps = (Inr p, ps1) \<Longrightarrow>
     delete_hmac_key access_id c p ps1 = (r', ps2) \<Longrightarrow> project_step ps ps2"
| update: "get_project pid ps = (Inr p, ps1) \<Longrightarrow>
     update_hmac_key repr request now access_id payload c p ps1 = (r', ps2) \<Longrightarrow> project_step ps ps2"

inductive reachable_projects :: "projects \<Rightarrow> bool" where
  init: "reachable_projects initial_projects"
| step: "reachable_projects ps \<Longrightarrow> project_step ps ps' \<Longrightarrow> reachable_projects ps'"

lemma insert_hmac_key_ok:
  assumes "projects_ok ps" and "project_ok (ps_key_id_generator ps) pid p"
    and "insert_hmac_key secret t email p ps = (r, ps')"
  shows "projects_ok ps'"
proof -
  let ?n = "ps_key_id_generator ps"
  let ?ps = "ps\<lparr>ps_key_id_generator := ?n + 1\<rparr>"
  obtain d sa where sd: "set_default email \<lparr>sa_email = email, sa_keys = []\<rparr>
      (gp_service_accounts p) = (d, sa)" by force
  then have sa: "account_ok ?n email sa"
    using assms(2) by (auto simp: set_default_def project_ok_def account_ok_def split: option.splits)
  obtain key sa' where k: "insert_key (gp_project_id p) secret t (?n + 1) sa = (key, sa')" by force
  have n: "20000 \<le> ?n" using assms(1) by (simp add: projects_ok_def)
  have "projects_ok ?ps"
    using assms(1) project_ok_mono [of ?n _ _ "?n + 1"] by (auto simp: projects_ok_def)
  then have "projects_ok (put_project (put_account email sa' p) ?ps)"
    using insert_key_ok [OF sa n k] project_ok_mono [OF assms(2), of "?n + 1"]
    by (intro put_ok [where pid = pid]) simp_all
  moreover have "ps' = put_project (put_account email sa' p) ?ps"
    using assms(3) sd k by (cases ps) (auto simp: insert_hmac_key_def put_project_def)
  ultimately show ?thesis by simp
qed

lemma project_step_ok: "project_step ps ps' \<Longrightarrow> projects_ok ps \<Longrightarrow> projects_ok ps'"
proof (induction rule: project_step.induct)
  case (insert pid ps p ps1 secret timestamp email r ps2)
  then show ?case
    using get_project_ok [OF insert.prems insert.hyps(1)] insert_hmac_key_ok by metis
next
  case (delete pid ps p ps1 access_id c r' ps2)
  note ok = get_project_ok [OF delete.prems delete.hyps(1)]
  show ?case
    using with_account_ok [OF ok(1,2), of "\<lambda>k. delete_key k c"] delete_key_ok delete.hyps(2)
    by (metis delete_hmac_key_def snd_conv)
next
  case (update pid ps p ps1 repr request now access_id payload c r' ps2)
  note ok = get_project_ok [OF update.prems update.hyps(1)]
  show ?case
    using with_account_ok [OF ok(1,2), of "\<lambda>k. update_key repr request now k payload c"]
      update_key_ok update.hyps(2)
    by (metis update_hmac_key_def snd_conv)
qed

lemma reachable_projects_ok: "reachable_projects ps \<Longrightarrow> projects_ok ps"
proof (induction rule: reachable_projects.induct)
  case init
  then show ?case by (simp add: initial_projects_def projects_ok_def)
next
  case (step ps ps')
  then show ?case by (blast intro: project_step_ok)
qed

lemma colon_not_in_show_int: "CHR '':'' \<notin> set (show_int n)"
proof
  assume "CHR '':'' \<in> set (show_int n)"
  then have "is_digit (CHR '':'') \<or> CHR '':'' = CHR ''-''" by (rule show_int_chars)
  then show False by (simp add: is_digit_def py_ord_def)
qed

lemma split_access_id_ok:
  assumes "CHR '':'' \<notin> set email"
  shows "split_access_id (email @ '':'' @ key_id_text n) = Inr (email, key_id_text n)"
proof -
  have "CHR '':'' \<notin> set (key_id_text n)"
    using colon_not_in_show_int by (simp add: key_id_text_def)
  then have "split_on (CHR '':'') (email @ CHR '':'' # key_id_text n) = [email, key_id_text n]"
    using assms by (simp add: split_on_append_sep split_on_id)
  then show ?thesis by (simp add: split_access_id_def)
qed

section \<open>Properties\<close>

text \<open>HMAC keys of reachable projects: a key that a service account holds is found under its
  access identifier (the account, a colon, the name of the key), and its resource shows this
  identifier, an entity tag that is the text of the key's generation and one of the states ACTIVE
  and INACTIVE; a deleted key is never stored.\<close>

theorem hmac_keys_are_found:
  assumes "reachable_projects ps" and "map_of (ps_projects ps) pid = Some p"
    and "map_of (gp_service_accounts p) email = Some sa"
    and "map_of (sa_keys sa) key_id = Some key" and "CHR '':'' \<notin> set email"
  shows "\<exists>md m. get_hmac_key (email @ '':'' @ key_id) c p = Inr (JObj md)
    \<and> map_of md ''accessId'' = Some (JStr (email @ '':'' @ key_id))
    \<and> generator_of key = Inr m \<and> map_of md ''etag'' = Some (JStr (etag_text m))
    \<and> map_of md ''state'' \<in> {Some (JStr ''ACTIVE''), Some (JStr ''INACTIVE'')}"
proof -
  have "project_ok (ps_key_id_generator ps) pid p"
    using reachable_projects_ok [OF assms(1)] assms(2) by (simp add: projects_ok_def)
  then have "key_ok (ps_key_id_generator ps) email key_id key"
    using assms(3,4) by (simp add: project_ok_def account_ok_def)
  then obtain n m md where k: "key_id = key_id_text n" "map_of key ''generator'' = Some (JNum m)"
      "map_of key ''metadata'' = Some (JObj md)"
      "map_of md ''accessId'' = Some (JStr (email @ '':'' @ key_id))"
      "map_of md ''etag'' = Some (JStr (etag_text m))"
      "map_of md ''state'' \<in> {Some (JStr ''ACTIVE''), Some (JStr ''INACTIVE'')}"
    by (auto simp: key_ok_def)
  then have "get_hmac_key (email @ '':'' @ key_id) c p = Inr (JObj md)"
    using assms(3,4) split_access_id_ok [OF assms(5)]
    by (simp add: get_hmac_key_def find_account_def get_key_def key_metadata_def or_none_def)
  then show ?thesis
    using k by (simp add: generator_of_def)
qed

text \<open>Updates of an HMAC key are guarded by its entity tag: after a successful update of a
  key of a well-formed account, an update that still carries the former entity tag is refused
  with a mismatch, whatever state it asks for, and so changes nothing.\<close>

theorem stale_etag_refused:
  assumes "account_ok n email sa"
    and "map_of (sa_keys sa) key_id = Some key" and "key_metadata key = JObj old"
    and "update_key repr r now key_id payload c sa = Inr (md, sa')"
    and "map_of payload' ''etag'' = map_of old ''etag''"
  shows "\<exists>expect actual. update_key repr r' now' key_id payload' c sa'
    = Inl (mismatch ''ETag for `HmacKeys: update` in payload'' expect actual c)"
proof -
  obtain m where m: "map_of old ''etag'' = Some (JStr (etag_text m))"
      "md = AList.update ''updated'' (JStr now) (AList.update ''etag'' (JStr (etag_text (m + 1)))
             (AList.update ''state'' (the (map_of payload ''state'')) old))"
      "sa' = sa\<lparr>sa_keys := AList.update key_id (AList.update ''metadata'' (JObj md)
             (AList.update ''generator'' (JNum (m + 1)) key)) (sa_keys sa)\<rparr>"
    using update_key_Inr [OF assms(1,4)] assms(2,3) by auto
  have "map_of md ''etag'' = Some (JStr (etag_text (m + 1)))"
    using m(2) by (simp add: update_conv')
  moreover have "etag_text m \<noteq> etag_text (m + 1)"
    by (simp add: etag_text_inject)
  ultimately show ?thesis
    using m(1,3) assms(5)
    by (auto simp: update_key_def update_conv' key_metadata_def or_none_def check_etag_def Let_def)
qed

text \<open>A \<open>GET\<close> with \<open>fields\<close> changes what later requests see: the filtered dictionary is the
  stored one.\<close>

lemma fields_change_stored_key:
  assumes "map_of (ps_projects ps) pid = Some p" and "gp_project_id p = pid"
    and "get_hmac_key access_id Rest p = Inr (JObj md)"
    and "hmac_keys_get cu request pid access_id ps = (Inr r, ps')"
  shows "get_hmac_key access_id c (stored pid ps') = Inr (JObj (filtered cu request md))"
proof -
  obtain email k sa key where f: "find_account access_id Rest p = Inr (email, k, sa)"
      "map_of (sa_keys sa) k = Some key" "key_metadata key = JObj md"
    using assms(3) by (auto simp: get_hmac_key_def get_key_def bindE_eq_Inr split: option.splits)
  then have sp: "split_access_id access_id = Inr (email, k)"
      "map_of (gp_service_accounts p) email = Some sa"
    by (auto simp: find_account_def bindE_eq_Inr split: option.splits)
  show ?thesis
    using assms f sp
    by (auto simp: hmac_keys_get_def get_project_def set_default_def bindM_def seqM_def
        write_back_def stored_def set_key_def put_project_def put_account_def update_conv'
        get_hmac_key_def find_account_def get_key_def key_metadata_def or_none_def Let_def)
qed

section \<open>A run\<close>

definition sample_projects :: projects where
  "sample_projects =
     (let (p, ps) = get_project ''p1'' initial_projects
      in case p of Inl _ \<Rightarrow> ps
       | Inr p \<Rightarrow> snd (insert_hmac_key ''s3cret'' ''now'' ''a@b.c'' p ps))"

lemma sample_projects_reachable: "reachable_projects sample_projects"
proof -
  obtain r where "project_step initial_projects sample_projects"
    using project_step.insert [OF _ prod.collapse [symmetric], of "''p1''" initial_projects
        _ _ "''s3cret''" "''now''" "''a@b.c''"]
    by (simp add: sample_projects_def get_project_def set_default_def initial_projects_def Let_def)
  then show ?thesis by (blast intro: reachable_projects.intros)
qed

definition sample_account :: service_account where
  "sample_account = \<lparr>sa_email = ''a@b.c'', sa_keys =
     [(key_id_text 20001, new_key ''a@b.c'' (key_id_text 20001) ''p1'' ''s3cret'' ''now'')]\<rparr>"

theorem hmac_keys_are_found_witness:
  "\<exists>md m. get_hmac_key (''a@b.c'' @ '':'' @ key_id_text 20001) Rest (stored ''p1'' sample_projects)
      = Inr (JObj md)
    \<and> map_of md ''accessId'' = Some (JStr (''a@b.c'' @ '':'' @ key_id_text 20001))
    \<and> generator_of (new_key ''a@b.c'' (key_id_text 20001) ''p1'' ''s3cret'' ''now'') = Inr m
    \<and> map_of md ''etag'' = Some (JStr (etag_text m))
    \<and> map_of md ''state'' \<in> {Some (JStr ''ACTIVE''), Some (JStr ''INACTIVE'')}"
proof -
  have st: "map_of (ps_projects sample_projects) ''p1'' = Some (stored ''p1'' sample_projects)"
      "map_of (gp_service_accounts (stored ''p1'' sample_projects)) ''a@b.c'' = Some sample_account"
    by (simp_all add: sample_projects_def stored_def get_project_def set_default_def
        initial_projects_def insert_hmac_key_def insert_key_def put_project_def put_account_def
        sample_account_def Let_def)
  show ?thesis
    by (rule hmac_keys_are_found [OF sample_projects_reachable st])
      (simp_all add: sample_account_def)
qed

definition sample_put :: request where
  "sample_put = \<lparr>args = [], headers = [], environ = [], verb = ''PUT''\<rparr>"

theorem stale_etag_refused_witness:
  "\<exists>md sa' e a. update_key (\<lambda>_. '''') sample_put ''later'' (key_id_text 20001)
       [(''state'', JStr ''INACTIVE'')] Rest sample_account = Inr (md, sa')
   \<and> update_key (\<lambda>_. '''') sample_put ''later'' (key_id_text 20001)
       [(''etag'', JStr (etag_text 1)), (''state'', JStr ''ACTIVE'')] Rest sa'
     = Inl (mismatch ''ETag for `HmacKeys: update` in payload'' e a Rest)"
proof -
  have ok: "account_ok 20001 ''a@b.c'' sample_account"
    using new_key_ok [of 20000 "''a@b.c''" "''p1''" "''s3cret''" "''now''"]
    by (simp add: account_ok_def sample_account_def)
  have key: "map_of (sa_keys sample_account) (key_id_text 20001)
      = Some (new_key ''a@b.c'' (key_id_text 20001) ''p1'' ''s3cret'' ''now'')"
    by (simp add: sample_account_def)
  obtain md where md: "key_metadata (new_key ''a@b.c'' (key_id_text 20001) ''p1'' ''s3cret'' ''now'')
      = JObj md" "map_of md ''etag'' = Some (JStr (etag_text 1))"
    by (simp add: new_key_def key_metadata_def or_none_def)
  have "isl (update_key (\<lambda>_. '''') sample_put ''later'' (key_id_text 20001)
      [(''state'', JStr ''INACTIVE'')] Rest sample_account) = False"
    by (simp add: update_key_def key new_key_def key_metadata_def or_none_def sample_put_def
        check_etag_def hget_def generator_of_def Let_def)
  then obtain md' sa' where u: "update_key (\<lambda>_. '''') sample_put ''later'' (key_id_text 20001)
      [(''state'', JStr ''INACTIVE'')] Rest sample_account = Inr (md', sa')"
    by (metis isl_def sum.collapse(2) surj_pair)
  show ?thesis
    using stale_etag_refused [OF ok key md(1) u,
        of "[(''etag'', JStr (etag_text 1)), (''state'', JStr ''ACTIVE'')]"] u md(2)
    by auto
qed

end
