(* ===== verification/Spec2Isabelle.thy ===== *)
theory Spec2Isabelle
  imports Bucket_Safety Retry_Clients Bidi_Writes Database_Steps Fault_Handlers Json Media Acl Gcs_Project Gcs_Object Gcs_Bucket
begin

text \<open>
  A verification development for the storage testbench, an emulator of Google Cloud Storage.

  \<^bold>\<open>The program.\<close>  The testbench serves the JSON and XML APIs of storage (\<open>src/testbench/rest_server.py\<close>,
  Flask) and its gRPC API (\<open>src/testbench/grpc_server.py\<close>) from one index in memory
  (\<open>src/testbench/database.py\<close>).  A request passes first through its retry test, a queue of faults that a
  client has scheduled (\<open>src/testbench/common.py\<close>), then through its handler, which reads and changes the
  index under conditions on generations and metagenerations.  Objects, buckets, projects, uploads and
  rewrites are the classes of \<open>src/gcs/\<close>; their bytes are media in memory or in files
  (\<open>media.py\<close>, \<open>filemedia.py\<close>), and the database tells a store of every change, so that a store can
  mirror it (\<open>store.py\<close>, \<open>filestore.py\<close>).

  \<^bold>\<open>The model\<close> follows the modules.  A Python function is a definition of the same name; a class is a record;
  an exception is an \<open>Inl\<close> of the type \<open>err\<close>, which keeps the REST status, the gRPC status and the plain
  Python exceptions apart; a handler is a state transformer that returns the state also when it raises, so
  that what a refused request leaves behind can be stated.

  \<^item> \<open>Py_Prelude\<close>, \<open>Py_String\<close>, \<open>Py_Regex\<close>: the state monad with errors, texts, slices, integers and
    the regular expressions of Python that the code uses, and the lemmas the other theories share.
  \<^item> \<open>Errors\<close> (\<open>error.py\<close>), \<open>Codec\<close> (checksum texts), \<open>Requests\<close> and \<open>Json\<close> (\<open>common.py\<close>), \<open>Csek\<close>
    (\<open>csek.py\<close>), \<open>Acl\<close> (\<open>acl.py\<close>), \<open>Proto2rest\<close> (\<open>proto2rest.py\<close>), \<open>Pathing\<close> (\<open>pathing.py\<close>),
    \<open>Media\<close> (\<open>media.py\<close>, \<open>filemedia.py\<close>): the pure parts.  Proved: round trips of checksums, names, media and
    of the resource of an object; that the files of objects stay below their bucket and never collide;
    that file names and bucket names are accepted as documented.
  \<^item> \<open>Preconditions\<close>: the builders for JSON, XML, gRPC and bucket requests, what they mean, and how the
    answers over REST and gRPC go together.
  \<^item> \<open>Retry_Tests\<close> (retry tests of \<open>database.py\<close>), \<open>Fault_Handlers\<close> (\<open>common.py\<close>), \<open>Retry_Clients\<close>:
    the scheduled faults.  The queue of instructions is a locale, interpreted on the database.  Proved: instructions are
    taken once and in order, what each fault does to a request, an upload or a download, and that a client
    that repeats a request comes to an end.
  \<^item> \<open>Resources\<close>, \<open>Gcs_Object\<close>, \<open>Gcs_Bucket\<close>, \<open>Gcs_Project\<close>: the classes of \<open>src/gcs/\<close>, their
    creation, updates, downloads, validation.
  \<^item> \<open>Database\<close>: every operation of the index.  \<open>Store_Mirror\<close> is the contract with a store, a locale with
    the notifications; \<open>Database_Behaviour\<close> the results of each operation; \<open>Database_Steps\<close> the database as a
    step relation, with the invariant \<open>db_wf\<close> of all reachable states and the refinement: replaying the
    notifications gives the live generations.
  \<^item> \<open>Service\<close>, \<open>Rewrites\<close> (\<open>rewrite.py\<close>), \<open>Uploads\<close> (\<open>upload.py\<close>, REST), \<open>Object_Handlers\<close>,
    \<open>Bucket_Handlers\<close> with \<open>Bucket_Safety\<close>, \<open>Grpc_Uploads\<close>, \<open>Grpc_Reads\<close>, \<open>Grpc_Objects\<close>,
    \<open>Bidi_Writes\<close>: the handlers over the shared state of both servers (index, uploads, rewrites, the counter of
    generations).  Proved: what is uploaded in any way (at once, in chunks, as a stream of messages, appended) is what
    is read in any way; composing, copying, rewriting and listing; that every call over either server keeps the
    buckets well formed; and the state that refused requests leave.

  \<^bold>\<open>Parameters.\<close>  Code that is not under \<open>src/\<close> is an argument: the digests (MD5, CRC32C, SHA-256), gzip, base64 of
    headers, the conversions of messages (\<open>MessageToDict\<close>, \<open>ParseDict\<close>), field masks, clocks and random
    identifiers.  Hypotheses on them state documented behaviour: a digest has its length, a
    decompression gives back what was compressed, a field mask merges by field names.  Each theorem with
    such a hypothesis has a witness on a concrete function.

  \<^bold>\<open>Sharing.\<close>  Python hands out references.  An upload shares its bucket and its metadata with the database, a
    rewrite its source, an appendable object its bytes with the open stream; the model copies and writes back
    where the code mutates (\<open>share_upload\<close>, \<open>resync\<close>, \<open>write_bucket_back\<close>).  Not followed: the media of a finished rewrite
    shared with later calls, a bucket that is deleted and created again under an upload, and the metadata that a soft
    deleted object shares with copies made before.

  \<^bold>\<open>Termination.\<close>  All handlers are total.  The loops of a stream are recursions on the messages or on the bytes that are
    left, with their measures; the round robin over ranges takes one piece of a range in each step.  A client that repeats a request may run
    forever: \<open>repeat_until\<close> is a partial function, and that it ends is a theorem.  There is no fuel.

  \<^bold>\<open>Not modelled.\<close>  The generated messages and services under \<open>src/google/\<close>; the start of the processes and worker
    processes (\<open>__main__.py\<close>, \<open>testbench_run.py\<close>, \<open>testbench_waitress.py\<close>), logging and the gzip hook of
    requests; the echo and the IAM server; the mirror on a file system (\<open>filestore.py\<close>, \<open>containment.py\<close>,
    \<open>sidecar.py\<close>), of which the paths, the media and the notifications are modelled;
    the routes of retry tests and the gRPC calls on folders, which wrap
    operations of the database that are modelled; the time a stalled stream waits and the timer that cancels a stream after ten seconds; the nesting of
    response wrappers; a gRPC call that goes on with an upload that was started over REST.

  Each property stands in its theory after a text that states it, and its witness beside it; the properties that span
  components are in the theories of the handlers.
\<close>

end
